(* ===== verification/Prelude.thy ===== *)
theory Prelude
  imports Main "HOL-Library.List_Lexorder" "HOL-Library.Char_ord" "HOL-Library.AList"
    "HOL-Library.Sublist"
begin

text \<open>
  Shared vocabulary of the development: Go errors as values, the error-and-state
  computations in which every effectful Go function is written, and the functions
  of the Go packages strings, strconv and slices that the program calls. A Go
  string is a byte string, here a list of characters; white space is the ASCII
  white space of unicode.IsSpace. Functions of the standard library carry no
  entry in the manifest: they are the language, not the program.
\<close>

section \<open>Collections of rules\<close>

named_theorems run_simps \<open>how a computation runs, constructor by constructor\<close>
named_theorems str_simps \<open>computation rules of the Go string functions\<close>

section \<open>Errors and effectful computations\<close>

text \<open>An \<open>error\<close> value: os.ErrNotExist or a Kubernetes NotFound, another failure of
  a call, a Kubernetes Conflict or AlreadyExists, the error of a finished context, a message
  made by errors.New or fmt.Errorf, and a message that wraps an error with %w.\<close>

datatype err = NotExist | IOErr | Conflict | AlreadyExists | CtxDone | Err string | Wrap string err

fun is_not_exist :: "err \<Rightarrow> bool" where
  "is_not_exist NotExist = True"
| "is_not_exist (Wrap _ e) = is_not_exist e"
| "is_not_exist _ = False"

fun is_conflict :: "err \<Rightarrow> bool" where
  "is_conflict Conflict = True"
| "is_conflict (Wrap _ e) = is_conflict e"
| "is_conflict _ = False"

fun is_already_exists :: "err \<Rightarrow> bool" where
  "is_already_exists AlreadyExists = True"
| "is_already_exists (Wrap _ e) = is_already_exists e"
| "is_already_exists _ = False"

type_synonym 'a result = "err + 'a"
type_synonym ('w, 'a) io = "'w \<Rightarrow> 'a result \<times> 'w"

definition ret :: "'a \<Rightarrow> ('w, 'a) io" where
  "ret x w = (Inr x, w)"

definition throw :: "err \<Rightarrow> ('w, 'a) io" where
  "throw e w = (Inl e, w)"

text \<open>The sequencing of Go code: \<open>x, err := m; if err != nil { return err }\<close>.\<close>

definition andthen :: "('w, 'a) io \<Rightarrow> ('a \<Rightarrow> ('w, 'b) io) \<Rightarrow> ('w, 'b) io" where
  "andthen m f w = (case m w of (Inl e, w') \<Rightarrow> (Inl e, w') | (Inr x, w') \<Rightarrow> f x w')"

text \<open>\<open>x, err := m\<close> followed by code that looks at both.\<close>

definition attempt :: "('w, 'a) io \<Rightarrow> ('a result \<Rightarrow> ('w, 'b) io) \<Rightarrow> ('w, 'b) io" where
  "attempt m f w = (case m w of (r, w') \<Rightarrow> f r w')"

text \<open>\<open>defer cleanup()\<close>: the outcome of the body, whatever the cleanup does.\<close>

definition deferring :: "('w, unit) io \<Rightarrow> ('w, 'a) io \<Rightarrow> ('w, 'a) io" where
  "deferring cleanup m w = (case m w of (r, w') \<Rightarrow> (r, snd (cleanup w')))"

definition wrapping :: "string \<Rightarrow> ('w, 'a) io \<Rightarrow> ('w, 'a) io" where
  "wrapping msg m w = (case m w of (Inl e, w') \<Rightarrow> (Inl (Wrap msg e), w') | (Inr x, w') \<Rightarrow> (Inr x, w'))"

definition asks :: "('w \<Rightarrow> 'a) \<Rightarrow> ('w, 'a) io" where
  "asks f w = (Inr (f w), w)"

definition modify :: "('w \<Rightarrow> 'w) \<Rightarrow> ('w, unit) io" where
  "modify f w = (Inr (), f w)"

fun for_each :: "'x list \<Rightarrow> ('x \<Rightarrow> ('w, unit) io) \<Rightarrow> ('w, unit) io" where
  "for_each [] f = ret ()"
| "for_each (x # xs) f = andthen (f x) (\<lambda>_. for_each xs f)"

lemma run_core [run_simps]:
  "ret x w = (Inr x, w)"
  "throw e w = (Inl e, w)"
  "asks g w = (Inr (g w), w)"
  "modify h w = (Inr (), h w)"
  by (simp_all add: ret_def throw_def asks_def modify_def)

lemma andthen_Inr: "m w = (Inr x, w') \<Longrightarrow> andthen m f w = f x w'"
  by (simp add: andthen_def)

lemma andthen_Inl: "m w = (Inl e, w') \<Longrightarrow> andthen m f w = (Inl e, w')"
  by (simp add: andthen_def)

lemma andthen_ok_iff:
  "andthen m f w = (Inr y, w'') \<longleftrightarrow> (\<exists>x w'. m w = (Inr x, w') \<and> f x w' = (Inr y, w''))"
  by (auto simp: andthen_def split: prod.splits sum.splits)

lemma attempt_iff:
  "attempt m f w = (r, w'') \<longleftrightarrow> (\<exists>x w'. m w = (x, w') \<and> f x w' = (r, w''))"
  by (auto simp: attempt_def split: prod.splits)

lemma andthen_cases:
  assumes "andthen m f w = (r, w'')"
  obtains (fail) e where "m w = (Inl e, w'')" "r = Inl e"
    | (ok) x w' where "m w = (Inr x, w')" "f x w' = (r, w'')"
  using assms by (auto simp: andthen_def split: prod.splits sum.splits)

lemma wrapping_ok_iff: "wrapping msg m w = (Inr y, w') \<longleftrightarrow> m w = (Inr y, w')"
  by (auto simp: wrapping_def split: prod.splits sum.splits)

lemma wrapping_snd: "snd (wrapping msg m w) = snd (m w)"
  by (auto simp: wrapping_def split: prod.splits sum.splits)

subsection \<open>Invariants of computations\<close>

text \<open>\<open>keeps P m\<close>: whether it succeeds or fails, \<open>m\<close> maps a world with \<open>P\<close> to a
  world with \<open>P\<close>. \<open>frames v m\<close>: \<open>m\<close> leaves the view \<open>v\<close> of the world as it was.\<close>

definition keeps :: "('w \<Rightarrow> bool) \<Rightarrow> ('w, 'a) io \<Rightarrow> bool" where
  "keeps P m \<longleftrightarrow> (\<forall>w. P w \<longrightarrow> P (snd (m w)))"

definition frames :: "('w \<Rightarrow> 'v) \<Rightarrow> ('w, 'a) io \<Rightarrow> bool" where
  "frames v m \<longleftrightarrow> (\<forall>w. v (snd (m w)) = v w)"

named_theorems keeps_intro \<open>rules that decompose a preservation goal along the code\<close>

lemma keepsI: "(\<And>w. P w \<Longrightarrow> P (snd (m w))) \<Longrightarrow> keeps P m"
  by (simp add: keeps_def)

lemma keepsD: "keeps P m \<Longrightarrow> P w \<Longrightarrow> P (snd (m w))"
  by (simp add: keeps_def)

lemma keepsD': "keeps P m \<Longrightarrow> P w \<Longrightarrow> m w = (r, w') \<Longrightarrow> P w'"
  by (metis keepsD snd_conv)

lemma framesD: "frames v m \<Longrightarrow> m w = (r, w') \<Longrightarrow> v w' = v w"
  by (metis frames_def snd_conv)

lemma keeps_basic [keeps_intro]:
  "keeps P (ret x)" "keeps P (throw e)" "keeps P (asks f)"
  by (simp_all add: keeps_def run_simps)

lemma keeps_andthen [keeps_intro]:
  "keeps P m \<Longrightarrow> (\<And>x. keeps P (f x)) \<Longrightarrow> keeps P (andthen m f)"
  by (auto simp: keeps_def andthen_def case_prod_unfold split: sum.splits)

lemma keeps_attempt [keeps_intro]:
  "keeps P m \<Longrightarrow> (\<And>x. keeps P (f x)) \<Longrightarrow> keeps P (attempt m f)"
  by (simp add: keeps_def attempt_def case_prod_unfold)

lemma keeps_wrapping [keeps_intro]: "keeps P m \<Longrightarrow> keeps P (wrapping s m)"
  by (simp add: keeps_def wrapping_snd)

lemma keeps_deferring [keeps_intro]: "keeps P c \<Longrightarrow> keeps P m \<Longrightarrow> keeps P (deferring c m)"
  by (auto simp: keeps_def deferring_def case_prod_unfold)

lemma keeps_for_each [keeps_intro]:
  "(\<And>x. x \<in> set xs \<Longrightarrow> keeps P (f x)) \<Longrightarrow> keeps P (for_each xs f)"
  by (induction xs) (auto intro!: keeps_intro)

lemma keeps_if [keeps_intro]:
  "(b \<Longrightarrow> keeps P m) \<Longrightarrow> (\<not> b \<Longrightarrow> keeps P n) \<Longrightarrow> keeps P (if b then m else n)"
  by simp

lemma keeps_let [keeps_intro]: "keeps P (f x) \<Longrightarrow> keeps P (let y = x in f y)"
  by simp

lemma keeps_case_sum [keeps_intro]:
  "(\<And>e. x = Inl e \<Longrightarrow> keeps P (f e)) \<Longrightarrow> (\<And>y. x = Inr y \<Longrightarrow> keeps P (g y)) \<Longrightarrow>
   keeps P (case x of Inl e \<Rightarrow> f e | Inr y \<Rightarrow> g y)"
  by (cases x) auto

lemma keeps_case_option [keeps_intro]:
  "keeps P m \<Longrightarrow> (\<And>y. x = Some y \<Longrightarrow> keeps P (g y)) \<Longrightarrow>
   keeps P (case x of None \<Rightarrow> m | Some y \<Rightarrow> g y)"
  by (cases x) auto

lemma keeps_case_prod [keeps_intro]:
  "(\<And>a b. x = (a, b) \<Longrightarrow> keeps P (f a b)) \<Longrightarrow> keeps P (case x of (a, b) \<Rightarrow> f a b)"
  by (cases x) auto

lemma keeps_attempt_case:
  "keeps P m \<Longrightarrow> (\<And>e. keeps P (f e)) \<Longrightarrow> (\<And>x. keeps P (g x)) \<Longrightarrow>
   keeps P (attempt m (\<lambda>r. case r of Inl e \<Rightarrow> f e | Inr x \<Rightarrow> g x))"
  by (intro keeps_intro) auto

lemma frames_iff_keeps: "frames v m \<longleftrightarrow> (\<forall>a. keeps (\<lambda>w. v w = a) m)"
  by (auto simp: frames_def keeps_def)

named_theorems frames_intro \<open>rules that decompose a framing goal along the code\<close>

lemma frames_basic [frames_intro]:
  "frames v (ret x)" "frames v (throw e)" "frames v (asks f)"
  by (simp_all add: frames_def run_simps)

lemma frames_andthen [frames_intro]:
  "frames v m \<Longrightarrow> (\<And>x. frames v (f x)) \<Longrightarrow> frames v (andthen m f)"
  by (simp add: frames_iff_keeps keeps_andthen)

lemma frames_attempt [frames_intro]:
  "frames v m \<Longrightarrow> (\<And>x. frames v (f x)) \<Longrightarrow> frames v (attempt m f)"
  by (simp add: frames_iff_keeps keeps_attempt)

lemma frames_wrapping [frames_intro]: "frames v m \<Longrightarrow> frames v (wrapping s m)"
  by (simp add: frames_iff_keeps keeps_wrapping)

lemma frames_deferring [frames_intro]: "frames v c \<Longrightarrow> frames v m \<Longrightarrow> frames v (deferring c m)"
  by (simp add: frames_iff_keeps keeps_deferring)

lemma frames_for_each [frames_intro]:
  "(\<And>x. x \<in> set xs \<Longrightarrow> frames v (f x)) \<Longrightarrow> frames v (for_each xs f)"
  by (simp add: frames_iff_keeps keeps_for_each)

lemma frames_if [frames_intro]:
  "(b \<Longrightarrow> frames v m) \<Longrightarrow> (\<not> b \<Longrightarrow> frames v n) \<Longrightarrow> frames v (if b then m else n)"
  by simp

lemma frames_let [frames_intro]: "(\<And>y. y = x \<Longrightarrow> frames v (f y)) \<Longrightarrow> frames v (let y = x in f y)"
  by simp

lemma frames_case_sum [frames_intro]:
  "(\<And>e. x = Inl e \<Longrightarrow> frames v (f e)) \<Longrightarrow> (\<And>y. x = Inr y \<Longrightarrow> frames v (g y)) \<Longrightarrow>
   frames v (case x of Inl e \<Rightarrow> f e | Inr y \<Rightarrow> g y)"
  by (cases x) auto

lemma frames_case_option [frames_intro]:
  "(x = None \<Longrightarrow> frames v m) \<Longrightarrow> (\<And>y. x = Some y \<Longrightarrow> frames v (g y)) \<Longrightarrow>
   frames v (case x of None \<Rightarrow> m | Some y \<Rightarrow> g y)"
  by (cases x) auto

lemma frames_case_prod [frames_intro]:
  "(\<And>a b. x = (a, b) \<Longrightarrow> frames v (f a b)) \<Longrightarrow> frames v (case x of (a, b) \<Rightarrow> f a b)"
  by (cases x) auto

section \<open>Strings\<close>

abbreviation NL :: string where "NL \<equiv> [CHR 0x0A]"

definition is_space :: "char \<Rightarrow> bool" where
  "is_space c \<longleftrightarrow> c = CHR '' '' \<or> (of_char c :: nat) \<in> {9, 10, 11, 12, 13}"

definition trim_space :: "string \<Rightarrow> string" where
  "trim_space s = rev (dropWhile is_space (rev (dropWhile is_space s)))"

definition trim_right :: "string \<Rightarrow> string \<Rightarrow> string" where
  "trim_right s cutset = rev (dropWhile (\<lambda>c. c \<in> set cutset) (rev s))"

definition trim_left :: "string \<Rightarrow> string \<Rightarrow> string" where
  "trim_left s cutset = dropWhile (\<lambda>c. c \<in> set cutset) s"

definition trim_cut :: "string \<Rightarrow> string \<Rightarrow> string" where
  "trim_cut s cutset = trim_right (trim_left s cutset) cutset"

definition has_prefix :: "string \<Rightarrow> string \<Rightarrow> bool" where
  "has_prefix s p \<longleftrightarrow> take (length p) s = p"

definition has_suffix :: "string \<Rightarrow> string \<Rightarrow> bool" where
  "has_suffix s p \<longleftrightarrow> has_prefix (rev s) (rev p)"

definition trim_prefix :: "string \<Rightarrow> string \<Rightarrow> string" where
  "trim_prefix s p = (if has_prefix s p then drop (length p) s else s)"

definition trim_suffix :: "string \<Rightarrow> string \<Rightarrow> string" where
  "trim_suffix s p = (if has_suffix s p then take (length s - length p) s else s)"

fun contains :: "string \<Rightarrow> string \<Rightarrow> bool" where
  "contains [] p \<longleftrightarrow> p = []"
| "contains (c # s) p \<longleftrightarrow> has_prefix (c # s) p \<or> contains s p"

text \<open>strings.Split and strings.Cut at a one-character separator, which is all the
  program uses.\<close>

fun split_on :: "char \<Rightarrow> string \<Rightarrow> string list" where
  "split_on c [] = [[]]"
| "split_on c (x # xs) =
     (if x = c then [] # split_on c xs
      else (case split_on c xs of [] \<Rightarrow> [[x]] | y # ys \<Rightarrow> (x # y) # ys))"

definition cut_at :: "char \<Rightarrow> string \<Rightarrow> (string \<times> string) option" where
  "cut_at c s = (if c \<in> set s then Some (takeWhile (\<lambda>x. x \<noteq> c) s, tl (dropWhile (\<lambda>x. x \<noteq> c) s))
                 else None)"

text \<open>strings.ReplaceAll of a non-empty text; \<open>skip\<close> counts the matched characters still to drop.\<close>

fun replace_from :: "nat \<Rightarrow> string \<Rightarrow> string \<Rightarrow> string \<Rightarrow> string" where
  "replace_from skip old new [] = []"
| "replace_from (Suc n) old new (c # s) = replace_from n old new s"
| "replace_from 0 old new (c # s) = (if has_prefix (c # s) old then new @ replace_from (length old - 1) old new s
     else c # replace_from 0 old new s)"

definition replace_all :: "string \<Rightarrow> string \<Rightarrow> string \<Rightarrow> string" where
  "replace_all s old new = replace_from 0 old new s"

text \<open>strings.Fields: the maximal runs of non-space characters.\<close>

fun fields_acc :: "string \<Rightarrow> string \<Rightarrow> string list" where
  "fields_acc acc [] = (if acc = [] then [] else [rev acc])"
| "fields_acc acc (c # s) =
     (if is_space c then (if acc = [] then fields_acc [] s else rev acc # fields_acc [] s)
      else fields_acc (c # acc) s)"

definition str_fields :: "string \<Rightarrow> string list" where
  "str_fields s = fields_acc [] s"

fun join :: "string \<Rightarrow> string list \<Rightarrow> string" where
  "join sep [] = []"
| "join sep [x] = x"
| "join sep (x # y # ys) = x @ sep @ join sep (y # ys)"

definition lower_char :: "char \<Rightarrow> char" where
  "lower_char c = (let n = (of_char c :: nat) in if 65 \<le> n \<and> n \<le> 90 then char_of (n + 32) else c)"

definition to_lower :: "string \<Rightarrow> string" where
  "to_lower s = map lower_char s"

text \<open>strconv.Itoa and strconv.Atoi.\<close>

definition digit_char :: "nat \<Rightarrow> char" where
  "digit_char n = char_of (48 + n)"

definition is_digit :: "char \<Rightarrow> bool" where
  "is_digit c \<longleftrightarrow> 48 \<le> (of_char c :: nat) \<and> (of_char c :: nat) \<le> 57"

definition digit_val :: "char \<Rightarrow> nat" where
  "digit_val c = of_char c - 48"

fun nat_str :: "nat \<Rightarrow> string" where
  "nat_str n = (if n < 10 then [digit_char n] else nat_str (n div 10) @ [digit_char (n mod 10)])"

declare nat_str.simps [simp del]

definition itoa :: "int \<Rightarrow> string" where
  "itoa i = (if i < 0 then CHR ''-'' # nat_str (nat (- i)) else nat_str (nat i))"

definition digits_val :: "string \<Rightarrow> nat" where
  "digits_val s = foldl (\<lambda>a c. 10 * a + digit_val c) 0 s"

definition parse_digits :: "string \<Rightarrow> nat option" where
  "parse_digits s = (if s \<noteq> [] \<and> list_all is_digit s then Some (digits_val s) else None)"

text \<open>A 64-bit int: an out-of-range literal is an error of Atoi.\<close>

definition atoi :: "string \<Rightarrow> int option" where
  "atoi s = (case s of
     [] \<Rightarrow> None
   | c # t \<Rightarrow>
      (case parse_digits (if c = CHR ''-'' \<or> c = CHR ''+'' then t else s) of
         None \<Rightarrow> None
       | Some n \<Rightarrow>
           let i = (if c = CHR ''-'' then - int n else int n)
           in if - (2 ^ 63) \<le> i \<and> i < 2 ^ 63 then Some i else None))"

subsection \<open>Lemmas on the string functions\<close>

lemma has_prefix_iff [str_simps]: "has_prefix s p \<longleftrightarrow> prefix p s"
  by (metis append_take_drop_id has_prefix_def prefix_def append_eq_conv_conj)

lemma has_suffix_iff [str_simps]: "has_suffix s p \<longleftrightarrow> suffix p s"
  by (simp add: has_suffix_def has_prefix_iff suffix_to_prefix)

lemma contains_iff: "contains s p \<longleftrightarrow> (\<exists>a b. s = a @ p @ b)"
proof (induction s)
  case (Cons c s)
  have "(\<exists>a b. c # s = a @ p @ b) \<longleftrightarrow> prefix p (c # s) \<or> (\<exists>a b. s = a @ p @ b)"
    by (metis append_Cons append_Nil list.exhaust list.inject prefix_def)
  with Cons show ?case by (simp add: has_prefix_iff)
qed auto

lemma fields_acc_word:
  "list_all (\<lambda>c. \<not> is_space c) w \<Longrightarrow> fields_acc acc (w @ s) = fields_acc (rev w @ acc) s"
  by (induction w arbitrary: acc) auto

lemma is_space_NL [simp]: "is_space (CHR 0x0A)"
  by (simp add: is_space_def)

lemma is_space_blank [simp]: "is_space (CHR '' '')"
  by (simp add: is_space_def)

text \<open>A word is what strings.Fields yields.\<close>

definition word_str :: "string \<Rightarrow> bool" where
  "word_str w \<longleftrightarrow> w \<noteq> [] \<and> list_all (\<lambda>c. \<not> is_space c) w"

lemma fields_Nil [str_simps]: "str_fields [] = []"
  by (simp add: str_fields_def)

lemma fields_word_NL [str_simps]:
  "word_str w \<Longrightarrow> str_fields (w @ NL @ s) = w # str_fields s"
  by (simp add: str_fields_def word_str_def fields_acc_word)

lemma fields_lines [str_simps]:
  "list_all word_str ws \<Longrightarrow> str_fields (join NL ws @ NL) = ws"
proof (induction ws)
  case (Cons w ws)
  then show ?case
    by (cases ws) (use fields_word_NL [of w] fields_word_NL [of w "[]"] in \<open>auto simp: fields_Nil\<close>)
qed (simp add: str_fields_def)

lemma fields_acc_words: "list_all (\<lambda>c. \<not> is_space c) acc \<Longrightarrow> list_all word_str (fields_acc acc s)"
  by (induction acc s rule: fields_acc.induct) (auto simp: word_str_def list_all_rev)

lemma fields_words: "list_all word_str (str_fields s)"
  by (simp add: str_fields_def fields_acc_words)

lemma dropWhile_space_id: "list_all (\<lambda>c. \<not> P c) w \<Longrightarrow> dropWhile P w = w"
  by (cases w) auto

lemma trim_space_word [str_simps]: "word_str w \<Longrightarrow> trim_space w = w"
  by (simp add: trim_space_def word_str_def dropWhile_space_id list_all_rev)

lemma trim_space_word_NL [str_simps]: "word_str w \<Longrightarrow> trim_space (w @ NL) = w"
  by (simp add: trim_space_def word_str_def dropWhile_space_id list_all_rev dropWhile_append1 flip: append.assoc)
     (cases w; simp add: dropWhile_space_id list_all_rev flip: append.assoc)

lemma trim_space_Nil [simp]: "trim_space [] = []"
  by (simp add: trim_space_def)

lemma split_on_nonempty [simp]: "split_on c s \<noteq> []"
  by (induction s) (auto split: list.splits)

lemma split_on_none: "c \<notin> set s \<Longrightarrow> split_on c s = [s]"
  by (induction s) auto

lemma split_on_append: "c \<notin> set a \<Longrightarrow> split_on c (a @ c # s) = a # split_on c s"
  by (induction a) auto

lemma split_join [str_simps]:
  "ws \<noteq> [] \<Longrightarrow> (\<And>w. w \<in> set ws \<Longrightarrow> c \<notin> set w) \<Longrightarrow> split_on c (join [c] ws) = ws"
proof (induction ws)
  case (Cons w ws)
  then show ?case by (cases ws) (auto simp: split_on_none split_on_append)
qed simp

lemma join_split: "join [c] (split_on c s) = s"
proof (induction s)
  case (Cons x s)
  then show ?case
    by (cases "split_on c s"; cases "tl (split_on c s)") (auto simp: neq_Nil_conv)
qed simp

lemma split_on_no_sep: "w \<in> set (split_on c s) \<Longrightarrow> c \<notin> set w"
  by (induction s arbitrary: w) (auto split: list.splits if_splits)

lemma cut_at_append [str_simps]: "c \<notin> set a \<Longrightarrow> cut_at c (a @ c # b) = Some (a, b)"
  by (auto simp: cut_at_def takeWhile_append dropWhile_append)

lemma cut_at_SomeD:
  assumes "cut_at c s = Some (a, b)"
  shows "s = a @ c # b \<and> c \<notin> set a"
proof -
  from assms have *: "c \<in> set s" "a = takeWhile (\<lambda>x. x \<noteq> c) s" "b = tl (dropWhile (\<lambda>x. x \<noteq> c) s)"
    by (simp_all add: cut_at_def split: if_splits)
  from split_list_first [OF *(1)] obtain u v where uv: "s = u @ c # v" "c \<notin> set u" by blast
  then have "cut_at c s = Some (u, v)" by (simp add: cut_at_append)
  with assms uv show ?thesis by simp
qed

lemma digit_val_char [simp]: "n < 10 \<Longrightarrow> digit_val (digit_char n) = n"
  by (simp add: digit_val_def digit_char_def)

lemma is_digit_char [simp]: "n < 10 \<Longrightarrow> is_digit (digit_char n)"
  by (simp add: is_digit_def digit_char_def)

lemma digits_val_snoc: "digits_val (s @ [c]) = 10 * digits_val s + digit_val c"
  by (simp add: digits_val_def)

lemma digits_val_single: "n < 10 \<Longrightarrow> digits_val [digit_char n] = n"
  by (simp add: digits_val_def)

lemma nat_str_digits: "nat_str n \<noteq> [] \<and> list_all is_digit (nat_str n)"
proof (induction n rule: nat_str.induct)
  case (1 n)
  then show ?case by (subst (1 2) nat_str.simps) auto
qed

lemma digits_val_nat_str: "digits_val (nat_str n) = n"
proof (induction n rule: nat_str.induct)
  case (1 n)
  have "digits_val (nat_str n) = (if n < 10 then n else 10 * digits_val (nat_str (n div 10)) + n mod 10)"
    by (subst nat_str.simps) (simp add: digits_val_snoc digits_val_single)
  moreover have "10 * (n div 10) + n mod 10 = n" by simp
  ultimately show ?case using 1 by (cases "n < 10") auto
qed

lemma parse_digits_nat_str [str_simps]: "parse_digits (nat_str n) = Some n"
  by (simp add: parse_digits_def nat_str_digits digits_val_nat_str)

lemma nat_str_hd: "\<exists>c t. nat_str n = c # t \<and> c \<noteq> CHR ''-'' \<and> c \<noteq> CHR ''+''"
proof -
  obtain c t where ct: "nat_str n = c # t" using nat_str_digits [of n] by (cases "nat_str n") auto
  then have "is_digit c" using nat_str_digits [of n] by simp
  then have "c \<noteq> CHR ''-'' \<and> c \<noteq> CHR ''+''" by (auto simp: is_digit_def)
  with ct show ?thesis by blast
qed

lemma atoi_itoa [str_simps]:
  assumes "- (2 ^ 63) \<le> i" "i < 2 ^ 63"
  shows "atoi (itoa i) = Some i"
proof (cases "i < 0")
  case True
  then show ?thesis using assms by (simp add: itoa_def atoi_def parse_digits_nat_str)
next
  case False
  obtain c t where ct: "nat_str (nat i) = c # t" "c \<noteq> CHR ''-''" "c \<noteq> CHR ''+''"
    using nat_str_hd by blast
  then have "parse_digits (c # t) = Some (nat i)" using parse_digits_nat_str by metis
  with ct False assms show ?thesis by (simp add: itoa_def atoi_def)
qed

lemma takeWhile_rev_dropWhile: "dropWhile P (dropWhile P xs) = dropWhile P xs"
  by (induction xs) auto

lemma hd_dropWhile_rev: "dropWhile P xs = [] \<or> \<not> P (hd (dropWhile P xs))"
  by (induction xs) auto

text \<open>Trimming both ends twice changes nothing more.\<close>

lemma dropWhile_hd: "xs = [] \<or> \<not> P (hd xs) \<Longrightarrow> dropWhile P xs = xs"
  by (cases xs) auto

lemma hd_rev_dropWhile_rev:
  "xs = [] \<or> \<not> P (hd xs) \<Longrightarrow> rev (dropWhile P (rev xs)) = [] \<or> \<not> P (hd (rev (dropWhile P (rev xs))))"
proof (induction xs rule: rev_induct)
  case (snoc x xs)
  then show ?case by (cases xs) auto
qed simp

lemma trim_space_idem [simp]: "trim_space (trim_space s) = trim_space s"
proof -
  let ?a = "dropWhile is_space s"
  let ?b = "rev (dropWhile is_space (rev ?a))"
  have "?b = [] \<or> \<not> is_space (hd ?b)"
    by (rule hd_rev_dropWhile_rev) (rule hd_dropWhile_rev)
  then have "dropWhile is_space ?b = ?b" by (rule dropWhile_hd)
  then show ?thesis by (simp add: trim_space_def takeWhile_rev_dropWhile)
qed

lemma set_trim_space: "set (trim_space s) \<subseteq> set s"
  by (auto simp: trim_space_def dest!: set_dropWhileD)

lemma split_lines:
  "xs \<noteq> [] \<Longrightarrow> (\<And>x. x \<in> set xs \<Longrightarrow> c \<notin> set x) \<Longrightarrow> split_on c (join [c] xs @ [c]) = xs @ [[]]"
proof (induction xs)
  case (Cons x xs)
  then show ?case by (cases xs) (auto simp: split_on_append)
qed simp

lemma wrapping_andthen_run:
  assumes "andthen (wrapping m a) (\<lambda>x. wrapping m' (b x)) w = (r, w')"
  shows "\<exists>r'. andthen a b w = (r', w') \<and> (\<forall>x. r = Inr x \<longleftrightarrow> r' = Inr x)"
  using assms by (auto simp: andthen_def wrapping_def split: prod.splits sum.splits)

lemma result_cases:
  obtains (Inl) e where "r = Inl e" | (Inr) x where "r = Inr x"
  by (cases r) auto

lemma andthen_assoc: "andthen (andthen m f) g = andthen m (\<lambda>x. andthen (f x) g)"
  by (auto simp: andthen_def fun_eq_iff split: prod.splits sum.splits)

lemma deferring_iff: "deferring c m w = (r, w') \<longleftrightarrow> (\<exists>w1. m w = (r, w1) \<and> w' = snd (c w1))"
  by (auto simp: deferring_def split: prod.splits)

end
