(* ===== verification/Fs.thy ===== *)
theory Fs
  imports Prelude
begin

text \<open>
  The operating system as the program sees it: a file tree keyed by path text, the
  calls of the packages os and path/filepath that the program makes, and external
  commands. Every call consumes one tick; \<open>fault\<close> says, for every tick, whether the
  call made there succeeds, fails without effect, or fails half-way (a torn write).
  A fault plan is arbitrary, so a theorem that quantifies over it covers every
  error return, and a crash is a plan in which everything fails from some tick on.
  Nothing here carries a manifest entry: it is the standard library, not the program.
\<close>

section \<open>State\<close>

datatype fault = Fine | Before | Torn nat

datatype node = FileN (ncontent: string) (nmode: nat) (nuid: nat) (ngid: nat)
  | DirN (nmode: nat) (nuid: nat) (ngid: nat)

record os =
  files :: "(string \<times> node) list"
  tick :: nat
  fault :: "nat \<Rightarrow> fault"
  clock :: "nat \<Rightarrow> string"
  secs :: "nat \<Rightarrow> int"
  rand :: "nat \<Rightarrow> nat"
  cmd_result :: "nat \<Rightarrow> string list \<Rightarrow> bool \<times> string"
  cmd_trace :: "string list list"

definition fget :: "'z os_scheme \<Rightarrow> string \<Rightarrow> node option" where
  "fget w p = map_of (files w) p"

definition fput :: "string \<Rightarrow> node \<Rightarrow> 'z os_scheme \<Rightarrow> 'z os_scheme" where
  "fput p n w = w\<lparr>files := AList.update p n (files w)\<rparr>"

definition fdel :: "string \<Rightarrow> 'z os_scheme \<Rightarrow> 'z os_scheme" where
  "fdel p w = w\<lparr>files := AList.delete p (files w)\<rparr>"

definition tock :: "'z os_scheme \<Rightarrow> 'z os_scheme" where
  "tock w = w\<lparr>tick := tick w + 1\<rparr>"

abbreviation now_fault :: "'z os_scheme \<Rightarrow> fault" where
  "now_fault w \<equiv> fault w (tick w)"

named_theorems fs_simps \<open>how the file tree answers after a primitive update\<close>

lemma fget_updates [fs_simps]:
  "fget (fput p n w) q = (if q = p then Some n else fget w q)"
  "fget (fdel p w) q = (if q = p then None else fget w q)"
  "fget (tock w) q = fget w q"
  by (auto simp: fget_def fput_def fdel_def tock_def update_conv' delete_conv')

lemma os_fields [fs_simps]:
  "tick (fput p n w) = tick w" "tick (fdel p w) = tick w" "tick (tock w) = tick w + 1"
  "fault (fput p n w) = fault w" "fault (fdel p w) = fault w" "fault (tock w) = fault w"
  "clock (fput p n w) = clock w" "clock (fdel p w) = clock w" "clock (tock w) = clock w"
  "secs (fput p n w) = secs w" "secs (fdel p w) = secs w" "secs (tock w) = secs w"
  "rand (fput p n w) = rand w" "rand (fdel p w) = rand w" "rand (tock w) = rand w"
  "cmd_result (fput p n w) = cmd_result w" "cmd_result (fdel p w) = cmd_result w"
  "cmd_result (tock w) = cmd_result w"
  "cmd_trace (fput p n w) = cmd_trace w" "cmd_trace (fdel p w) = cmd_trace w"
  "cmd_trace (tock w) = cmd_trace w"
  "os.more (fput p n w) = os.more w" "os.more (fdel p w) = os.more w" "os.more (tock w) = os.more w"
  by (simp_all add: fput_def fdel_def tock_def)

section \<open>Paths\<close>

definition dirname :: "string \<Rightarrow> string" where
  "dirname p = (case dropWhile (\<lambda>c. c \<noteq> CHR ''/'') (rev p) of
     [] \<Rightarrow> ''.'' | _ # t \<Rightarrow> (if t = [] then ''/'' else rev t))"

definition basename :: "string \<Rightarrow> string" where
  "basename p = rev (takeWhile (\<lambda>c. c \<noteq> CHR ''/'') (rev p))"

text \<open>filepath.Join on operands that are clean already.\<close>

definition pjoin :: "string \<Rightarrow> string \<Rightarrow> string" where
  "pjoin d f = (if d = [] then f else d @ ''/'' @ f)"

text \<open>A file name: one component, which a join cannot turn into another path.\<close>

definition plain_name :: "string \<Rightarrow> bool" where
  "plain_name f \<longleftrightarrow> f \<noteq> [] \<and> CHR ''/'' \<notin> set f"

lemma dirname_pjoin [fs_simps]:
  assumes "d \<noteq> []" "CHR ''/'' \<notin> set f"
  shows "dirname (pjoin d f) = d"
proof -
  have "dropWhile (\<lambda>c. c \<noteq> CHR ''/'') (rev f @ CHR ''/'' # rev d) = CHR ''/'' # rev d"
    using assms(2) by (induction f rule: rev_induct) auto
  with assms(1) show ?thesis by (simp add: dirname_def pjoin_def)
qed

lemma basename_pjoin [fs_simps]:
  assumes "d \<noteq> []" "CHR ''/'' \<notin> set f"
  shows "basename (pjoin d f) = f"
proof -
  have "takeWhile (\<lambda>c. c \<noteq> CHR ''/'') (rev f @ CHR ''/'' # rev d) = rev f"
    using assms(2) by (induction f rule: rev_induct) auto
  with assms(1) show ?thesis by (simp add: basename_def pjoin_def)
qed

lemma pjoin_inject:
  "d \<noteq> [] \<Longrightarrow> pjoin d f = pjoin d g \<longleftrightarrow> f = g"
  by (simp add: pjoin_def)

lemma pjoin_plain_inject:
  "\<lbrakk>d \<noteq> []; d' \<noteq> []; CHR ''/'' \<notin> set f; CHR ''/'' \<notin> set g\<rbrakk> \<Longrightarrow>
   pjoin d f = pjoin d' g \<longleftrightarrow> d = d' \<and> f = g"
  by (metis basename_pjoin dirname_pjoin)

lemma basename_no_slash: "CHR ''/'' \<notin> set (basename p)"
  by (auto simp: basename_def dest: set_takeWhileD)

lemma dirname_nonempty [simp]: "dirname p \<noteq> []"
  by (auto simp: dirname_def split: list.splits)

text \<open>The directories that must exist above a path, outermost first, with the path.\<close>

definition ancestors :: "string \<Rightarrow> string list" where
  "ancestors p = map (\<lambda>i. take i p) (filter (\<lambda>i. p ! i = CHR ''/'') [1..<length p]) @ [p]"

section \<open>Calls\<close>

text \<open>File modes, whose octal literals HOL does not have.\<close>

abbreviation (input) o755 :: nat where "o755 \<equiv> 493"
abbreviation (input) o750 :: nat where "o750 \<equiv> 488"
abbreviation (input) o700 :: nat where "o700 \<equiv> 448"
abbreviation (input) o644 :: nat where "o644 \<equiv> 420"
abbreviation (input) o640 :: nat where "o640 \<equiv> 416"
abbreviation (input) o600 :: nat where "o600 \<equiv> 384"
abbreviation (input) o440 :: nat where "o440 \<equiv> 288"
abbreviation (input) o444 :: nat where "o444 \<equiv> 292"
abbreviation (input) o400 :: nat where "o400 \<equiv> 256"

definition is_dir :: "'z os_scheme \<Rightarrow> string \<Rightarrow> bool" where
  "is_dir w d \<longleftrightarrow> d \<in> {'''', ''/'', ''.''} \<or> (case fget w d of Some (DirN _ _ _) \<Rightarrow> True | _ \<Rightarrow> False)"

definition read_file :: "string \<Rightarrow> ('z os_scheme, string) io" where
  "read_file p w = (case now_fault w of
     Fine \<Rightarrow> (case fget w p of None \<Rightarrow> (Inl NotExist, tock w)
               | Some (FileN c _ _ _) \<Rightarrow> (Inr c, tock w)
               | Some (DirN _ _ _) \<Rightarrow> (Inl IOErr, tock w))
   | _ \<Rightarrow> (Inl IOErr, tock w))"

definition stat :: "string \<Rightarrow> ('z os_scheme, node) io" where
  "stat p w = (case now_fault w of
     Fine \<Rightarrow> (case fget w p of None \<Rightarrow> (Inl NotExist, tock w) | Some n \<Rightarrow> (Inr n, tock w))
   | _ \<Rightarrow> (Inl IOErr, tock w))"

text \<open>os.ReadDir: the entries of a directory in file-name order.\<close>

definition entries_of :: "string \<Rightarrow> (string \<times> node) list \<Rightarrow> (string \<times> bool) list" where
  "entries_of d fs = map (\<lambda>e. (e, (case map_of fs (pjoin d e) of Some (DirN _ _ _) \<Rightarrow> True | _ \<Rightarrow> False)))
     (sort (remdups (map (\<lambda>(p, _). drop (length d + 1) p)
        (filter (\<lambda>(p, _). has_prefix p (d @ ''/'') \<and> plain_name (drop (length d + 1) p)) fs))))"

definition read_dir :: "string \<Rightarrow> ('z os_scheme, (string \<times> bool) list) io" where
  "read_dir d w = (case now_fault w of
     Fine \<Rightarrow> (case fget w d of None \<Rightarrow> (Inl NotExist, tock w)
               | Some (DirN _ _ _) \<Rightarrow> (Inr (entries_of d (files w)), tock w)
               | Some (FileN _ _ _ _) \<Rightarrow> (Inl IOErr, tock w))
   | _ \<Rightarrow> (Inl IOErr, tock w))"

definition put_content :: "string \<Rightarrow> string \<Rightarrow> nat \<Rightarrow> 'z os_scheme \<Rightarrow> 'z os_scheme" where
  "put_content p c m w = (case fget w p of
     Some (FileN _ m0 u g) \<Rightarrow> fput p (FileN c m0 u g) w
   | _ \<Rightarrow> fput p (FileN c m 0 0) w)"

text \<open>os.WriteFile truncates in place: an existing file keeps its mode and owner, and a
  failure after the open leaves a prefix of the new content.\<close>

definition write_file :: "string \<Rightarrow> string \<Rightarrow> nat \<Rightarrow> ('z os_scheme, unit) io" where
  "write_file p c m w =
     (if now_fault w = Before then (Inl IOErr, tock w)
      else if \<not> is_dir w (dirname p) then (Inl NotExist, tock w)
      else if is_dir w p then (Inl IOErr, tock w)
      else (case now_fault w of
              Torn k \<Rightarrow> (Inl IOErr, tock (put_content p (take k c) m w))
            | _ \<Rightarrow> (Inr (), tock (put_content p c m w))))"

definition mkdir_all :: "string \<Rightarrow> nat \<Rightarrow> ('z os_scheme, unit) io" where
  "mkdir_all p m w =
     (if now_fault w \<noteq> Fine then (Inl IOErr, tock w)
      else if list_all (\<lambda>d. is_dir w d \<or> fget w d = None) (ancestors p)
      then (Inr (), tock (fold (\<lambda>d v. if is_dir v d then v else fput d (DirN m 0 0) v) (ancestors p) w))
      else (Inl IOErr, tock w))"

definition chmod :: "string \<Rightarrow> nat \<Rightarrow> ('z os_scheme, unit) io" where
  "chmod p m w = (if now_fault w \<noteq> Fine then (Inl IOErr, tock w) else
     (case fget w p of None \<Rightarrow> (Inl NotExist, tock w)
      | Some (FileN c _ u g) \<Rightarrow> (Inr (), tock (fput p (FileN c m u g) w))
      | Some (DirN _ u g) \<Rightarrow> (Inr (), tock (fput p (DirN m u g) w))))"

definition chown :: "string \<Rightarrow> nat \<Rightarrow> nat \<Rightarrow> ('z os_scheme, unit) io" where
  "chown p u g w = (if now_fault w \<noteq> Fine then (Inl IOErr, tock w) else
     (case fget w p of None \<Rightarrow> (Inl NotExist, tock w)
      | Some (FileN c m _ _) \<Rightarrow> (Inr (), tock (fput p (FileN c m u g) w))
      | Some (DirN m _ _) \<Rightarrow> (Inr (), tock (fput p (DirN m u g) w))))"

text \<open>os.Rename of a file onto a path in the same tree, which replaces a file there in one
  step. The program renames files only.\<close>

definition rename :: "string \<Rightarrow> string \<Rightarrow> ('z os_scheme, unit) io" where
  "rename src dst w = (if now_fault w \<noteq> Fine then (Inl IOErr, tock w) else
     (case fget w src of None \<Rightarrow> (Inl NotExist, tock w)
      | Some (DirN _ _ _) \<Rightarrow> (Inl IOErr, tock w)
      | Some n \<Rightarrow> (if \<not> is_dir w (dirname dst) then (Inl NotExist, tock w)
                   else if is_dir w dst then (Inl IOErr, tock w)
                   else (Inr (), tock (fput dst n (if src = dst then w else fdel src w))))))"

definition remove :: "string \<Rightarrow> ('z os_scheme, unit) io" where
  "remove p w = (if now_fault w \<noteq> Fine then (Inl IOErr, tock w) else
     (case fget w p of None \<Rightarrow> (Inl NotExist, tock w)
      | Some (DirN _ _ _) \<Rightarrow> (if entries_of p (files w) = [] then (Inr (), tock (fdel p w))
                              else (Inl IOErr, tock w))
      | Some _ \<Rightarrow> (Inr (), tock (fdel p w))))"

definition remove_all :: "string \<Rightarrow> ('z os_scheme, unit) io" where
  "remove_all p w = (if now_fault w \<noteq> Fine then (Inl IOErr, tock w) else
     (Inr (), tock (w\<lparr>files := filter (\<lambda>(q, _). q \<noteq> p \<and> \<not> has_prefix q (p @ ''/'')) (files w)\<rparr>)))"

text \<open>os.CreateTemp makes a fresh empty file of mode 0600 (384) in the directory; the star of
  the pattern, always last here, is replaced by a random number.\<close>

definition create_temp :: "string \<Rightarrow> string \<Rightarrow> ('z os_scheme, string) io" where
  "create_temp d pre w = (let p = d @ ''/'' @ pre @ nat_str (rand w (tick w)) in
     if now_fault w \<noteq> Fine then (Inl IOErr, tock w)
     else if \<not> is_dir w d then (Inl NotExist, tock w)
     else if fget w p \<noteq> None then (Inl IOErr, tock w)
     else (Inr p, tock (fput p (FileN [] 384 0 0) w)))"

text \<open>A call on an open descriptor that only flushes or closes it.\<close>

definition sleep :: "('z os_scheme, unit) io" where
  "sleep w = (Inr (), tock w)"

definition sync_fd :: "('z os_scheme, unit) io" where
  "sync_fd w = (if now_fault w \<noteq> Fine then (Inl IOErr, tock w) else (Inr (), tock w))"

text \<open>exec.Command: the outcome (exit status zero, standard output) is the environment's.\<close>

definition run_cmd :: "string list \<Rightarrow> ('z os_scheme, string) io" where
  "run_cmd argv w = (let w' = tock (w\<lparr>cmd_trace := cmd_trace w @ [argv]\<rparr>) in
     case cmd_result w (tick w) argv of (ok, out) \<Rightarrow> (if ok then Inr out else Inl IOErr, w'))"

definition now_text :: "('z os_scheme, string) io" where
  "now_text w = (Inr (clock w (tick w)), tock w)"

section \<open>What the calls leave alone\<close>

text \<open>The regular file at a path, whatever directories come and go.\<close>

definition regular :: "'z os_scheme \<Rightarrow> string \<Rightarrow> node option" where
  "regular w p = (case fget w p of Some (FileN c m u g) \<Rightarrow> Some (FileN c m u g) | _ \<Rightarrow> None)"

definition content :: "'z os_scheme \<Rightarrow> string \<Rightarrow> string option" where
  "content w p = (case fget w p of Some (FileN c m u g) \<Rightarrow> Some c | _ \<Rightarrow> None)"

lemma content_regular: "content w p = map_option ncontent (regular w p)"
  by (simp add: content_def regular_def split: option.splits node.splits)

lemma content_updates [fs_simps]:
  "content (fput p (FileN c m u g) w) q = (if q = p then Some c else content w q)"
  "content (fput p (DirN m u g) w) q = (if q = p then None else content w q)"
  "content (fdel p w) q = (if q = p then None else content w q)"
  "content (tock w) q = content w q"
  by (auto simp: content_def fs_simps)

lemma regular_updates [fs_simps]:
  "regular (fput p (FileN c m u g) w) q = (if q = p then Some (FileN c m u g) else regular w q)"
  "regular (fput p (DirN m u g) w) q = (if q = p then None else regular w q)"
  "regular (fdel p w) q = (if q = p then None else regular w q)"
  "regular (tock w) q = regular w q"
  by (auto simp: regular_def fs_simps)

lemma is_dir_updates [fs_simps]:
  "is_dir (fput p (FileN c m u g) w) q \<longleftrightarrow> q \<in> {'''', ''/'', ''.''} \<or> (q \<noteq> p \<and> is_dir w q)"
  "is_dir (fput p (DirN m u g) w) q \<longleftrightarrow> q = p \<or> is_dir w q"
  "is_dir (tock w) q \<longleftrightarrow> is_dir w q"
  by (auto simp: is_dir_def fs_simps)

lemma put_content_other [fs_simps]:
  "q \<noteq> p \<Longrightarrow> fget (put_content p c m w) q = fget w q"
  "q \<noteq> p \<Longrightarrow> regular (put_content p c m w) q = regular w q"
  "q \<noteq> p \<Longrightarrow> content (put_content p c m w) q = content w q"
  "content (put_content p c m w) p = Some c"
  by (auto simp: put_content_def fs_simps split: option.splits node.splits)

lemma frames_reads [keeps_intro]:
  "frames fget (read_file p)" "frames fget (stat p)" "frames fget (read_dir p)"
  "frames fget sync_fd" "frames fget now_text"
  by (auto simp: frames_def read_file_def stat_def read_dir_def sync_fd_def now_text_def fs_simps fun_eq_iff
      split: fault.splits option.splits node.splits)

lemma frames_run_cmd: "frames fget (run_cmd argv)"
  by (auto simp: frames_def run_cmd_def Let_def fs_simps fget_def tock_def fun_eq_iff split: prod.splits if_splits)

text \<open>A computation confined to a set of paths: it leaves every regular file elsewhere as it
  was, whether or not it fails.\<close>

definition confined :: "string set \<Rightarrow> ('z os_scheme, 'a) io \<Rightarrow> bool" where
  "confined P m \<longleftrightarrow> (\<forall>w q. q \<notin> P \<longrightarrow> regular (snd (m w)) q = regular w q)"

named_theorems confined_intro \<open>rules that decompose a confinement goal along the code\<close>

lemma confinedD: "confined P m \<Longrightarrow> m w = (r, w') \<Longrightarrow> q \<notin> P \<Longrightarrow> regular w' q = regular w q"
  unfolding confined_def by (metis snd_conv)

lemma confinedD_content: "confined P m \<Longrightarrow> m w = (r, w') \<Longrightarrow> q \<notin> P \<Longrightarrow> content w' q = content w q"
  by (simp add: content_regular confinedD)

lemma confined_mono: "confined P m \<Longrightarrow> P \<subseteq> Q \<Longrightarrow> confined Q m"
  by (auto simp: confined_def)

lemma confined_keeps:
  "confined P m \<longleftrightarrow> (\<forall>q a. q \<notin> P \<longrightarrow> keeps (\<lambda>w. regular w q = a) m)"
  by (auto simp: confined_def keeps_def)

lemma frames_fget_confined: "frames fget m \<Longrightarrow> confined P m"
  by (auto simp: frames_def confined_def regular_def)

lemma confined_calls [confined_intro]:
  "confined P (read_file p)" "confined P (stat p)" "confined P (read_dir p)"
  "confined P sync_fd" "confined P now_text" "confined P (run_cmd argv)"
  by (auto intro: frames_fget_confined frames_reads frames_run_cmd)

lemma confined_mkdir_all [confined_intro]: "confined P (mkdir_all p m)"
proof -
  have "regular (fold (\<lambda>d v. if is_dir v d then v else fput d (DirN m 0 0) v) ds w) q = regular w q"
    if "list_all (\<lambda>d. is_dir w d \<or> fget w d = None) ds" for ds and w :: "'z os_scheme" and q
    using that
  proof (induction ds arbitrary: w)
    case (Cons d ds)
    then have "list_all (\<lambda>e. is_dir (if is_dir w d then w else fput d (DirN m 0 0) w) e
        \<or> fget (if is_dir w d then w else fput d (DirN m 0 0) w) e = None) ds"
      by (auto simp: list_all_iff fs_simps)
    with Cons show ?case by (auto simp: fs_simps regular_def)
  qed simp
  then show ?thesis by (auto simp: confined_def mkdir_all_def fs_simps)
qed

lemma put_content_notin: "p \<in> P \<Longrightarrow> q \<notin> P \<Longrightarrow> regular (put_content p c m w) q = regular w q"
  by (rule put_content_other) auto

lemma confined_write_file [confined_intro]: "p \<in> P \<Longrightarrow> confined P (write_file p c m)"
  by (auto simp: confined_def write_file_def fs_simps put_content_notin split: fault.splits)

lemma confined_chmod [confined_intro]: "p \<in> P \<Longrightarrow> confined P (chmod p m)"
  by (auto simp: confined_def chmod_def fs_simps split: option.splits node.splits)

lemma confined_chown [confined_intro]: "p \<in> P \<Longrightarrow> confined P (chown p u g)"
  by (auto simp: confined_def chown_def fs_simps split: option.splits node.splits)

lemma confined_rename [confined_intro]: "p \<in> P \<Longrightarrow> q \<in> P \<Longrightarrow> confined P (rename p q)"
  by (auto simp: confined_def rename_def fs_simps split: option.splits node.splits)

lemma confined_remove [confined_intro]: "p \<in> P \<Longrightarrow> confined P (remove p)"
  by (auto simp: confined_def remove_def fs_simps split: option.splits node.splits)

lemma confined_basic [confined_intro]:
  "confined P (ret x)" "confined P (throw e)" "confined P (asks f)"
  by (simp_all add: confined_def run_simps)

lemma confined_andthen [confined_intro]:
  "confined P m \<Longrightarrow> (\<And>x. confined P (f x)) \<Longrightarrow> confined P (andthen m f)"
  by (simp add: confined_keeps keeps_andthen)

lemma confined_attempt [confined_intro]:
  "confined P m \<Longrightarrow> (\<And>x. confined P (f x)) \<Longrightarrow> confined P (attempt m f)"
  by (simp add: confined_keeps keeps_attempt)

lemma confined_wrapping [confined_intro]: "confined P m \<Longrightarrow> confined P (wrapping s m)"
  by (simp add: confined_keeps keeps_wrapping)

lemma confined_deferring [confined_intro]: "confined P c \<Longrightarrow> confined P m \<Longrightarrow> confined P (deferring c m)"
  by (simp add: confined_keeps keeps_deferring)

lemma confined_for_each [confined_intro]:
  "(\<And>x. x \<in> set xs \<Longrightarrow> confined P (f x)) \<Longrightarrow> confined P (for_each xs f)"
  by (simp add: confined_keeps keeps_for_each)

lemma confined_if [confined_intro]:
  "(b \<Longrightarrow> confined P m) \<Longrightarrow> (\<not> b \<Longrightarrow> confined P n) \<Longrightarrow> confined P (if b then m else n)"
  by simp

lemma confined_let [confined_intro]: "(\<And>y. y = x \<Longrightarrow> confined P (f y)) \<Longrightarrow> confined P (let y = x in f y)"
  by simp

lemma confined_case_sum [confined_intro]:
  "(\<And>e. x = Inl e \<Longrightarrow> confined P (f e)) \<Longrightarrow> (\<And>y. x = Inr y \<Longrightarrow> confined P (g y)) \<Longrightarrow>
   confined P (case x of Inl e \<Rightarrow> f e | Inr y \<Rightarrow> g y)"
  by (cases x) auto

lemma confined_case_option [confined_intro]:
  "(x = None \<Longrightarrow> confined P m) \<Longrightarrow> (\<And>y. x = Some y \<Longrightarrow> confined P (g y)) \<Longrightarrow>
   confined P (case x of None \<Rightarrow> m | Some y \<Rightarrow> g y)"
  by (cases x) auto

lemma confined_case_prod [confined_intro]:
  "(\<And>a b. x = (a, b) \<Longrightarrow> confined P (f a b)) \<Longrightarrow> confined P (case x of (a, b) \<Rightarrow> f a b)"
  by (cases x) auto

section \<open>What a successful call has done\<close>

lemma read_file_ok:
  "read_file p w = (Inr c, w') \<longleftrightarrow> now_fault w = Fine \<and> content w p = Some c \<and> w' = tock w"
  by (auto simp: read_file_def content_def split: fault.splits option.splits node.splits)

lemma read_file_world [simp]: "snd (read_file p w) = tock w"
  by (simp add: read_file_def split: fault.splits option.splits node.splits)

lemma attempt_read_file: "attempt (read_file p) f w = f (fst (read_file p w)) (tock w)"
  by (simp add: attempt_def case_prod_unfold)

lemma stat_world [simp]: "snd (stat p w) = tock w"
  by (simp add: stat_def split: fault.splits option.splits)

lemma stat_ok: "stat p w = (Inr n, w') \<longleftrightarrow> now_fault w = Fine \<and> fget w p = Some n \<and> w' = tock w"
  by (auto simp: stat_def split: fault.splits option.splits)

lemma write_file_ok:
  "write_file p c m w = (Inr (), w') \<Longrightarrow> w' = tock (put_content p c m w) \<and> \<not> is_dir w p \<and> is_dir w (dirname p)"
  by (auto simp: write_file_def split: if_splits fault.splits)

lemma write_file_content: "write_file p c m w = (Inr (), w') \<Longrightarrow> content w' p = Some c"
  using write_file_ok [of p c m w w'] by (simp add: fs_simps)

lemma chmod_ok:
  "chmod p m w = (Inr (), w') \<Longrightarrow> regular w p = Some (FileN c m0 u g) \<Longrightarrow> regular w' p = Some (FileN c m u g)"
  by (auto simp: chmod_def regular_def fs_simps split: if_splits option.splits node.splits)

lemma rename_ok:
  "rename p q w = (Inr (), w') \<Longrightarrow> regular w' q = regular w p \<and> regular w p \<noteq> None"
  by (auto simp: rename_def regular_def fs_simps split: if_splits option.splits node.splits)

lemma rename_fail: "rename p q w = (Inl e, w') \<Longrightarrow> w' = tock w"
  by (auto simp: rename_def split: if_splits option.splits node.splits)

lemma create_temp_ok:
  "create_temp d pre w = (Inr p, w') \<Longrightarrow>
   p = d @ ''/'' @ pre @ nat_str (rand w (tick w)) \<and> regular w' p = Some (FileN [] 384 0 0)
   \<and> (\<forall>q. q \<noteq> p \<longrightarrow> regular w' q = regular w q) \<and> fget w p = None"
  by (auto simp: create_temp_def Let_def fs_simps split: if_splits)

lemma create_temp_fail: "create_temp d pre w = (Inl e, w') \<Longrightarrow> w' = tock w"
  by (auto simp: create_temp_def Let_def split: if_splits)

lemma put_content_regular:
  "regular w p = Some (FileN c0 m0 u g) \<Longrightarrow> regular (put_content p c m w) p = Some (FileN c m0 u g)"
  "regular w p = None \<Longrightarrow> regular (put_content p c m w) p = Some (FileN c m 0 0)"
  by (auto simp: put_content_def regular_def fs_simps split: option.splits node.splits)

lemma mkdir_all_ok_dir: "mkdir_all p m w = (Inr (), w') \<Longrightarrow> is_dir w' p"
proof -
  assume a: "mkdir_all p m w = (Inr (), w')"
  have mono: "is_dir (fold (\<lambda>d v. if is_dir v d then v else fput d (DirN m 0 0) v) ds v) q"
    if "is_dir v q \<or> q \<in> set ds" for ds q and v :: "'a os_scheme"
    using that by (induction ds arbitrary: v) (auto simp: fs_simps)
  show ?thesis using a mono [of w p "ancestors p"]
    by (auto simp: mkdir_all_def fs_simps ancestors_def split: if_splits)
qed

section \<open>The oracles never change\<close>

lemma frames_fold_mkdir: "(\<And>d n v. f (fput d n v) = f v) \<Longrightarrow>
    f (fold (\<lambda>d v. if is_dir v d then v else fput d (DirN m 0 0) v) ds w) = f w"
  by (induction ds arbitrary: w) auto

lemma put_content_fields [fs_simps]:
  "fault (put_content p c m w) = fault w" "tick (put_content p c m w) = tick w"
  "clock (put_content p c m w) = clock w" "os.more (put_content p c m w) = os.more w"
  by (auto simp: put_content_def fs_simps split: option.splits node.splits)

lemma frames_fault [frames_intro]:
  "frames fault (read_file p)" "frames fault (stat p)" "frames fault (read_dir p)"
  "frames fault sync_fd" "frames fault now_text" "frames fault (run_cmd argv)"
  "frames fault (write_file p c m)" "frames fault (mkdir_all p m)" "frames fault (chmod p m)"
  "frames fault (chown p u g)" "frames fault (rename p q)" "frames fault (remove p)"
  "frames fault (remove_all p)" "frames fault (create_temp p q)"
  by (auto simp: frames_def read_file_def stat_def read_dir_def sync_fd_def now_text_def run_cmd_def
      write_file_def mkdir_all_def chmod_def chown_def rename_def remove_def remove_all_def
      create_temp_def Let_def fs_simps frames_fold_mkdir tock_def
      split: fault.splits option.splits node.splits prod.splits if_splits)

text \<open>No call fails.\<close>

definition no_faults :: "'z os_scheme \<Rightarrow> bool" where
  "no_faults w \<longleftrightarrow> (\<forall>t. fault w t = Fine)"

lemma no_faults_now [simp]: "no_faults w \<Longrightarrow> fault w t = Fine"
  by (simp add: no_faults_def)

lemma no_faults_frames: "frames fault m \<Longrightarrow> no_faults w \<Longrightarrow> m w = (r, w') \<Longrightarrow> no_faults w'"
  unfolding no_faults_def frames_def by (metis snd_conv)

section \<open>Write aside, then rename\<close>

lemma commit_outcome:
  assumes "andthen (write_file tmp c m) (\<lambda>_. rename tmp p) w = (r, w')" "tmp \<noteq> p"
  shows "(r = Inr () \<and> content w' p = Some c) \<or> (\<exists>e. r = Inl e \<and> content w' p = content w p)"
  using assms(1)
proof (cases rule: andthen_cases)
  case (fail e)
  have "content w' p = content w p"
    by (rule confinedD_content [OF confined_write_file [of tmp "{tmp}"] fail(1)]) (use assms(2) in auto)
  with fail show ?thesis by blast
next
  case (ok u w1)
  then have "write_file tmp c m w = (Inr (), w1)" by simp
  from write_file_ok [OF this] have w1: "w1 = tock (put_content tmp c m w)" by simp
  have tmp: "content w1 tmp = Some c" and p: "content w1 p = content w p"
    using assms(2) by (auto simp: w1 fs_simps)
  show ?thesis
  proof (cases r)
    case (Inl e)
    then have "w' = tock w1" using ok rename_fail by blast
    with Inl p show ?thesis by (simp add: fs_simps)
  next
    case (Inr x)
    then have "regular w' p = regular w1 tmp" using ok rename_ok by fastforce
    with Inr tmp show ?thesis by (simp add: content_regular)
  qed
qed

lemma commit_confined: "confined {tmp, p} (andthen (write_file tmp c m) (\<lambda>_. rename tmp p))"
  by (intro confined_intro) auto

section \<open>A world to evaluate in\<close>

text \<open>No failures, a fixed clock, every command succeeds with no output.\<close>

definition calm_os :: os where
  "calm_os = \<lparr>files = [], tick = 0, fault = (\<lambda>_. Fine), clock = (\<lambda>_. ''2026-01-01T00:00:00Z''), secs = (\<lambda>t. 10 * int t),
     rand = (\<lambda>_. 7), cmd_result = (\<lambda>_ _. (True, [])), cmd_trace = []\<rparr>"

lemma calm_no_faults: "no_faults calm_os"
  by (simp add: no_faults_def calm_os_def)

end
