(* ===== verification/Json.thy ===== *)
theory Json
  imports Prelude
begin

text \<open>
  The part of encoding/json that the program relies on: documents of null, booleans,
  64-bit integers, strings, arrays and objects; Marshal and MarshalIndent with Go's
  escaping; Unmarshal with Go's field lookup (case-insensitive, the last occurrence
  wins, null leaves a field alone). Bytes above 127 are taken to be well-formed UTF-8,
  which Go copies. The main result is that parsing undoes printing, compact or
  indented; every decoder of the program builds on it. Standard library: no manifest
  entries here.
\<close>

datatype json = JNull | JBool bool | JInt int | JStr string
  | JArr "json list" | JObj "(string \<times> json) list"

datatype token = TOpenObj | TCloseObj | TOpenArr | TCloseArr | TColon | TComma
  | TStr string | TInt int | TTrue | TFalse | TNull

section \<open>Printing\<close>

definition hex_char :: "nat \<Rightarrow> char" where
  "hex_char n = (if n < 10 then char_of (48 + n) else char_of (87 + n))"

abbreviation quote :: char where "quote \<equiv> CHR 0x22"
abbreviation bslash :: char where "bslash \<equiv> CHR 0x5C"

definition esc_char :: "char \<Rightarrow> string" where
  "esc_char c =
     (if c = quote \<or> c = bslash then [bslash, c]
      else if c = CHR 0x08 then [bslash, CHR ''b'']
      else if c = CHR 0x0C then [bslash, CHR ''f'']
      else if c = CHR 0x0A then [bslash, CHR ''n'']
      else if c = CHR 0x0D then [bslash, CHR ''r'']
      else if c = CHR 0x09 then [bslash, CHR ''t'']
      else if (of_char c :: nat) < 32 \<or> c \<in> {CHR ''<'', CHR ''>'', CHR ''&''}
        then [bslash, CHR ''u'', CHR ''0'', CHR ''0'', hex_char (of_char c div 16), hex_char (of_char c mod 16)]
      else [c])"

definition print_str :: "string \<Rightarrow> string" where
  "print_str s = quote # concat (map esc_char s) @ [quote]"

fun print_token :: "token \<Rightarrow> string" where
  "print_token TOpenObj = ''{''" | "print_token TCloseObj = ''}''"
| "print_token TOpenArr = ''[''" | "print_token TCloseArr = '']''"
| "print_token TColon = '':''" | "print_token TComma = '',''"
| "print_token (TStr s) = print_str s" | "print_token (TInt i) = itoa i"
| "print_token TTrue = ''true''" | "print_token TFalse = ''false''" | "print_token TNull = ''null''"

text \<open>A printed document is a list of white space and tokens.\<close>

datatype piece = Sp string | Tok token

fun print_pieces :: "piece list \<Rightarrow> string" where
  "print_pieces [] = []"
| "print_pieces (Sp s # ps) = s @ print_pieces ps"
| "print_pieces (Tok t # ps) = print_token t @ print_pieces ps"

definition nl_indent :: "nat \<Rightarrow> piece" where
  "nl_indent d = Sp (NL @ replicate (2 * d) CHR '' '')"

text \<open>\<open>pieces (Some d)\<close> is MarshalIndent with two blanks at depth \<open>d\<close>, \<open>pieces None\<close> Marshal.\<close>

definition brk :: "nat option \<Rightarrow> piece list" where
  "brk i = (case i of None \<Rightarrow> [] | Some d \<Rightarrow> [nl_indent d])"

fun sep_pieces :: "piece list \<Rightarrow> piece list list \<Rightarrow> piece list" where
  "sep_pieces b [] = []"
| "sep_pieces b [x] = b @ x"
| "sep_pieces b (x # y # zs) = b @ x @ Tok TComma # sep_pieces b (y # zs)"

fun pieces :: "nat option \<Rightarrow> json \<Rightarrow> piece list" where
  "pieces i JNull = [Tok TNull]"
| "pieces i (JBool b) = [Tok (if b then TTrue else TFalse)]"
| "pieces i (JInt n) = [Tok (TInt n)]"
| "pieces i (JStr s) = [Tok (TStr s)]"
| "pieces i (JArr vs) = Tok TOpenArr #
     (if vs = [] then [] else sep_pieces (brk (map_option Suc i)) (map (pieces (map_option Suc i)) vs) @ brk i)
     @ [Tok TCloseArr]"
| "pieces i (JObj kvs) = Tok TOpenObj #
     (if kvs = [] then [] else sep_pieces (brk (map_option Suc i))
        (map (\<lambda>(k, v). Tok (TStr k) # Tok TColon # (if i = None then [] else [Sp '' '']) @ pieces (map_option Suc i) v) kvs) @ brk i)
     @ [Tok TCloseObj]"

definition marshal :: "json \<Rightarrow> string" where
  "marshal v = print_pieces (pieces None v)"

definition marshal_indent :: "json \<Rightarrow> string" where
  "marshal_indent v = print_pieces (pieces (Some 0) v)"

section \<open>Reading\<close>

definition hex_val :: "char \<Rightarrow> nat option" where
  "hex_val c = (let n = (of_char c :: nat) in
     if 48 \<le> n \<and> n \<le> 57 then Some (n - 48)
     else if 97 \<le> n \<and> n \<le> 102 then Some (n - 87)
     else if 65 \<le> n \<and> n \<le> 70 then Some (n - 55) else None)"

definition utf8 :: "nat \<Rightarrow> string" where
  "utf8 n = (if n < 128 then [char_of n]
     else if n < 2048 then [char_of (192 + n div 64), char_of (128 + n mod 64)]
     else [char_of (224 + n div 4096), char_of (128 + n div 64 mod 64), char_of (128 + n mod 64)])"

datatype lexing = Top | InStr string | InEsc string | InHex nat nat string | InNum string | InWord string

definition json_ws :: "char \<Rightarrow> bool" where
  "json_ws c \<longleftrightarrow> c \<in> {CHR '' '', CHR 0x09, CHR 0x0A, CHR 0x0D}"

definition punct :: "char \<Rightarrow> token option" where
  "punct c = (if c = CHR ''{'' then Some TOpenObj else if c = CHR ''}'' then Some TCloseObj
     else if c = CHR ''['' then Some TOpenArr else if c = CHR '']'' then Some TCloseArr
     else if c = CHR '':'' then Some TColon else if c = CHR '','' then Some TComma else None)"

definition unescape :: "char \<Rightarrow> char option" where
  "unescape c = (if c \<in> {quote, bslash, CHR ''/''} then Some c
     else if c = CHR ''b'' then Some (CHR 0x08) else if c = CHR ''f'' then Some (CHR 0x0C)
     else if c = CHR ''n'' then Some (CHR 0x0A) else if c = CHR ''r'' then Some (CHR 0x0D)
     else if c = CHR ''t'' then Some (CHR 0x09) else None)"

definition word_token :: "string \<Rightarrow> token option" where
  "word_token s = (if s = ''true'' then Some TTrue else if s = ''false'' then Some TFalse
     else if s = ''null'' then Some TNull else None)"

definition word_char :: "char \<Rightarrow> bool" where
  "word_char c \<longleftrightarrow> 97 \<le> (of_char c :: nat) \<and> (of_char c :: nat) \<le> 122"

definition cons_opt :: "token option \<Rightarrow> token list option \<Rightarrow> token list option" where
  "cons_opt t ts = (case (t, ts) of (Some a, Some b) \<Rightarrow> Some (a # b) | _ \<Rightarrow> None)"

fun num_token :: "string \<Rightarrow> token option" where
  "num_token s = map_option TInt (atoi s)"

text \<open>One pass over the text; a number or a word ends at the first character it cannot contain.\<close>

function lex :: "lexing \<Rightarrow> string \<Rightarrow> token list option" where
  "lex Top [] = Some []"
| "lex Top (c # s) = (if json_ws c then lex Top s
     else if c = quote then lex (InStr []) s
     else if c = CHR ''-'' \<or> is_digit c then lex (InNum [c]) s
     else if word_char c then lex (InWord [c]) s
     else cons_opt (punct c) (lex Top s))"
| "lex (InStr acc) [] = None"
| "lex (InStr acc) (c # s) = (if c = quote then cons_opt (Some (TStr (rev acc))) (lex Top s)
     else if c = bslash then lex (InEsc acc) s
     else if (of_char c :: nat) < 32 then None
     else lex (InStr (c # acc)) s)"
| "lex (InEsc acc) [] = None"
| "lex (InEsc acc) (c # s) = (if c = CHR ''u'' then lex (InHex 4 0 acc) s
     else case unescape c of None \<Rightarrow> None | Some d \<Rightarrow> lex (InStr (d # acc)) s)"
| "lex (InHex k n acc) [] = None"
| "lex (InHex k n acc) (c # s) = (case hex_val c of None \<Rightarrow> None
     | Some h \<Rightarrow> if k \<le> 1 then lex (InStr (rev (utf8 (16 * n + h)) @ acc)) s
                else lex (InHex (k - 1) (16 * n + h) acc) s)"
| "lex (InNum acc) [] = cons_opt (num_token (rev acc)) (Some [])"
| "lex (InNum acc) (c # s) = (if is_digit c then lex (InNum (c # acc)) s
     else cons_opt (num_token (rev acc)) (lex Top (c # s)))"
| "lex (InWord acc) [] = cons_opt (word_token (rev acc)) (Some [])"
| "lex (InWord acc) (c # s) = (if word_char c then lex (InWord (c # acc)) s
     else cons_opt (word_token (rev acc)) (lex Top (c # s)))"
  by pat_completeness auto

termination
  by (relation "measure (\<lambda>(m, s). 2 * length s + (if m = Top then 0 else 1))") auto

text \<open>The grammar over tokens; the fuel of \<open>parse\<close> is the number of tokens, which bounds the
  number of calls.\<close>

fun pval :: "nat \<Rightarrow> token list \<Rightarrow> (json \<times> token list) option"
and pelems :: "nat \<Rightarrow> token list \<Rightarrow> (json list \<times> token list) option"
and pmembers :: "nat \<Rightarrow> token list \<Rightarrow> ((string \<times> json) list \<times> token list) option" where
  "pval 0 ts = None"
| "pval (Suc n) [] = None"
| "pval (Suc n) (t # ts) = (case t of
     TNull \<Rightarrow> Some (JNull, ts) | TTrue \<Rightarrow> Some (JBool True, ts) | TFalse \<Rightarrow> Some (JBool False, ts)
   | TInt i \<Rightarrow> Some (JInt i, ts) | TStr s \<Rightarrow> Some (JStr s, ts)
   | TOpenArr \<Rightarrow> (case ts of TCloseArr # us \<Rightarrow> Some (JArr [], us)
       | _ \<Rightarrow> (case pelems n ts of None \<Rightarrow> None | Some (vs, us) \<Rightarrow> Some (JArr vs, us)))
   | TOpenObj \<Rightarrow> (case ts of TCloseObj # us \<Rightarrow> Some (JObj [], us)
       | _ \<Rightarrow> (case pmembers n ts of None \<Rightarrow> None | Some (vs, us) \<Rightarrow> Some (JObj vs, us)))
   | _ \<Rightarrow> None)"
| "pelems 0 ts = None"
| "pelems (Suc n) ts = (case pval n ts of
     Some (v, TComma # us) \<Rightarrow> (case pelems n us of None \<Rightarrow> None | Some (vs, vs') \<Rightarrow> Some (v # vs, vs'))
   | Some (v, TCloseArr # us) \<Rightarrow> Some ([v], us)
   | _ \<Rightarrow> None)"
| "pmembers 0 ts = None"
| "pmembers (Suc n) ts = (case ts of
     TStr k # TColon # us \<Rightarrow> (case pval n us of
         Some (v, TComma # vs) \<Rightarrow> (case pmembers n vs of None \<Rightarrow> None | Some (kvs, vs') \<Rightarrow> Some ((k, v) # kvs, vs'))
       | Some (v, TCloseObj # vs) \<Rightarrow> Some ([(k, v)], vs)
       | _ \<Rightarrow> None)
   | _ \<Rightarrow> None)"

definition parse_json :: "string \<Rightarrow> json option" where
  "parse_json s = (case lex Top s of None \<Rightarrow> None
     | Some ts \<Rightarrow> (case pval (length ts) ts of Some (v, []) \<Rightarrow> Some v | _ \<Rightarrow> None))"

section \<open>Parsing undoes printing\<close>

text \<open>Integers must fit the 64-bit int they are printed from.\<close>

fun json_ok :: "json \<Rightarrow> bool" where
  "json_ok (JInt i) \<longleftrightarrow> - (2 ^ 63) \<le> i \<and> i < 2 ^ 63"
| "json_ok (JArr vs) \<longleftrightarrow> list_all json_ok vs"
| "json_ok (JObj kvs) \<longleftrightarrow> list_all (\<lambda>(k, v). json_ok v) kvs"
| "json_ok _ \<longleftrightarrow> True"

fun sep_toks :: "token list list \<Rightarrow> token list" where
  "sep_toks [] = []"
| "sep_toks [x] = x"
| "sep_toks (x # y # zs) = x @ TComma # sep_toks (y # zs)"

fun toks :: "json \<Rightarrow> token list" where
  "toks JNull = [TNull]"
| "toks (JBool b) = [if b then TTrue else TFalse]"
| "toks (JInt n) = [TInt n]"
| "toks (JStr s) = [TStr s]"
| "toks (JArr vs) = TOpenArr # sep_toks (map toks vs) @ [TCloseArr]"
| "toks (JObj kvs) = TOpenObj # sep_toks (map (\<lambda>(k, v). TStr k # TColon # toks v) kvs) @ [TCloseObj]"

subsection \<open>Lexing\<close>

lemma hex_val_char: "n < 16 \<Longrightarrow> hex_val (hex_char n) = Some n"
  by (auto simp: hex_val_def hex_char_def Let_def)

lemma of_char_less: "(of_char (c :: char) :: nat) < 256"
  by simp

lemma lex_hex:
  assumes "a < 16" "b < 16" "16 * a + b < 128"
  shows "lex (InHex 4 0 acc) (CHR ''0'' # CHR ''0'' # hex_char a # hex_char b # s)
    = lex (InStr (char_of (16 * a + b) # acc)) s"
proof -
  have "hex_val (CHR ''0'') = Some 0" by (simp add: hex_val_def)
  with assms show ?thesis by (simp add: hex_val_char utf8_def)
qed

lemma lex_escaped: "lex (InStr acc) (esc_char c @ s) = lex (InStr (c # acc)) s"
proof (cases "(of_char c :: nat) < 32 \<or> c \<in> {CHR ''<'', CHR ''>'', CHR ''&''}")
  case True
  let ?n = "of_char c :: nat"
  have "?n < 128" using True by auto
  moreover have "?n div 16 < 16" using of_char_less [of c] less_mult_imp_div_less [of ?n 16 16] by simp
  moreover have "16 * (?n div 16) + ?n mod 16 = ?n" by simp
  ultimately have "lex (InHex 4 0 acc) (CHR ''0'' # CHR ''0'' # hex_char (?n div 16) # hex_char (?n mod 16) # s)
      = lex (InStr (c # acc)) s"
    using lex_hex [of "?n div 16" "?n mod 16"] by simp
  with True show ?thesis
    by (simp add: esc_char_def unescape_def del: lex.simps(8))
next
  case False
  then show ?thesis by (auto simp: esc_char_def unescape_def)
qed

lemma lex_print_str: "lex Top (print_str s @ r) = cons_opt (Some (TStr s)) (lex Top r)"
proof -
  have "lex (InStr acc) (concat (map esc_char s) @ quote # r) = cons_opt (Some (TStr (rev acc @ s))) (lex Top r)" for acc
    by (induction s arbitrary: acc) (simp_all add: lex_escaped)
  from this [of "[]"] show ?thesis by (simp add: print_str_def json_ws_def)
qed

text \<open>A number or a word must be followed by a character that ends it.\<close>

definition stops :: "string \<Rightarrow> bool" where
  "stops r \<longleftrightarrow> (case r of [] \<Rightarrow> True | c # _ \<Rightarrow> \<not> is_digit c \<and> \<not> word_char c)"

lemma lex_num: "list_all is_digit ds \<Longrightarrow> stops r \<Longrightarrow>
    lex (InNum acc) (ds @ r) = cons_opt (num_token (rev acc @ ds)) (lex Top r)"
  by (induction ds arbitrary: acc; cases r) (auto simp: stops_def)

lemma lex_itoa:
  assumes "- (2 ^ 63) \<le> i" "i < 2 ^ 63" "stops r"
  shows "lex Top (itoa i @ r) = cons_opt (Some (TInt i)) (lex Top r)"
proof -
  have digs: "list_all is_digit (nat_str n)" for n using nat_str_digits by blast
  obtain c ds where cd: "itoa i = c # ds" "c = CHR ''-'' \<or> is_digit c" "list_all is_digit ds"
    using digs [of "nat (- i)"] digs [of "nat i"] nat_str_digits [of "nat i"]
    by (cases "i < 0"; cases "nat_str (nat i)") (auto simp: itoa_def)
  moreover have "\<not> json_ws c" "c \<noteq> quote" using cd(2) by (auto simp: json_ws_def is_digit_def)
  ultimately show ?thesis
    using lex_num [OF cd(3) assms(3), of "[c]"] atoi_itoa [OF assms(1,2)] by auto
qed

lemma lex_word:
  assumes "s \<in> {''true'', ''false'', ''null''}" "stops r"
  shows "lex Top (s @ r) = cons_opt (word_token s) (lex Top r)"
proof -
  have "lex (InWord acc) (w @ r) = cons_opt (word_token (rev acc @ w)) (lex Top r)"
    if "list_all word_char w" for w acc
    using that assms(2) by (induction w arbitrary: acc; cases r) (auto simp: stops_def)
  from this [of "tl s" "[hd s]"] assms(1) show ?thesis
    by (auto simp: json_ws_def word_char_def is_digit_def)
qed

text \<open>\<open>reads ps ts\<close>: the printed pieces lex to the tokens in front of anything that stops a word.\<close>

definition reads :: "piece list \<Rightarrow> token list \<Rightarrow> bool" where
  "reads ps ts \<longleftrightarrow> (\<forall>r. stops r \<longrightarrow> lex Top (print_pieces ps @ r) = map_option ((@) ts) (lex Top r))"

lemma print_pieces_append: "print_pieces (ps @ qs) = print_pieces ps @ print_pieces qs"
  by (induction ps rule: print_pieces.induct) auto

definition stop_piece :: "piece \<Rightarrow> bool" where
  "stop_piece p \<longleftrightarrow> (case p of Sp s \<Rightarrow> s \<noteq> [] \<and> list_all json_ws s
     | Tok t \<Rightarrow> t \<in> {TOpenObj, TCloseObj, TOpenArr, TCloseArr, TColon, TComma} \<or> (\<exists>s. t = TStr s))"

lemma stops_piece: "stop_piece p \<Longrightarrow> stops (print_pieces (p # ps) @ r)"
proof (cases p)
  case (Sp x)
  assume "stop_piece p"
  with Sp obtain c y where "x = c # y" "json_ws c" by (cases x) (auto simp: stop_piece_def)
  with Sp show ?thesis by (auto simp: stops_def is_digit_def word_char_def json_ws_def)
qed (auto simp: stop_piece_def stops_def is_digit_def word_char_def print_str_def)

lemma lex_spaces: "list_all json_ws s \<Longrightarrow> lex Top (s @ r) = lex Top r"
  by (induction s) auto

lemma cons_opt_map: "cons_opt (Some t) x = map_option ((@) [t]) x"
  by (auto simp: cons_opt_def split: option.splits)

lemma map_option_append:
  "map_option ((@) a) (map_option ((@) b) x) = map_option ((@) (a @ b)) x" "map_option ((@) []) x = x"
  by (cases x; auto)+

lemma reads_Nil: "reads [] []"
  by (simp add: reads_def map_option_append)

lemma lex_piece:
  "stop_piece (Sp s) \<Longrightarrow> lex Top (print_pieces (Sp s # ps) @ r) = lex Top (print_pieces ps @ r)"
  "stop_piece (Tok t) \<Longrightarrow> lex Top (print_pieces (Tok t # ps) @ r) = map_option ((@) [t]) (lex Top (print_pieces ps @ r))"
  by (auto simp: stop_piece_def lex_spaces cons_opt_map lex_print_str punct_def json_ws_def is_digit_def word_char_def)

lemma reads_stop:
  "stop_piece (Sp s) \<Longrightarrow> reads ps ts \<Longrightarrow> reads (Sp s # ps) ts"
  "stop_piece (Tok t) \<Longrightarrow> reads ps ts \<Longrightarrow> reads (Tok t # ps) (t # ts)"
  by (simp_all add: reads_def lex_piece map_option_append del: print_pieces.simps)

lemma reads_append_stop:
  "reads ps ts \<Longrightarrow> stop_piece p \<Longrightarrow> reads (p # qs) us \<Longrightarrow> reads (ps @ p # qs) (ts @ us)"
  by (simp add: reads_def print_pieces_append stops_piece map_option_append del: print_pieces.simps)

lemma stop_pieces [simp]:
  "stop_piece (Tok TComma)" "stop_piece (Tok TCloseArr)" "stop_piece (Tok TCloseObj)"
  "stop_piece (Tok TOpenArr)" "stop_piece (Tok TOpenObj)" "stop_piece (Tok TColon)"
  "stop_piece (Tok (TStr s))" "stop_piece (Sp '' '')" "stop_piece (nl_indent d)"
  by (auto simp: stop_piece_def json_ws_def nl_indent_def list_all_iff)

lemma reads_indent: "reads ps ts \<Longrightarrow> reads (nl_indent d # ps) ts"
  unfolding nl_indent_def by (rule reads_stop(1) [OF stop_pieces(9) [unfolded nl_indent_def]])

lemma reads_brk: "reads ps ts \<Longrightarrow> reads (brk i @ ps) ts"
  by (cases i) (simp_all add: brk_def reads_indent)

lemma reads_sep:
  "\<lbrakk>\<And>x. x \<in> set xs \<Longrightarrow> reads (f x) (g x); xs \<noteq> []\<rbrakk> \<Longrightarrow> reads (sep_pieces (brk i) (map f xs)) (sep_toks (map g xs))"
proof (induction xs)
  case (Cons x xs)
  show ?case
  proof (cases xs)
    case Nil
    with Cons.prems show ?thesis by (simp add: reads_brk)
  next
    case (Cons y ys)
    with Cons.IH Cons.prems have "reads (sep_pieces (brk i) (map f xs)) (sep_toks (map g xs))" by simp
    then have "reads (Tok TComma # sep_pieces (brk i) (map f xs)) (TComma # sep_toks (map g xs))"
      by (rule reads_stop(2) [rotated]) simp
    from reads_append_stop [OF _ _ this] Cons.prems(1) [of x] have
      "reads (f x @ Tok TComma # sep_pieces (brk i) (map f xs)) (g x @ TComma # sep_toks (map g xs))" by simp
    then show ?thesis using Cons by (simp add: reads_brk)
  qed
qed simp

lemma reads_close:
  assumes "reads ps ts" "t \<in> {TCloseArr, TCloseObj}"
  shows "reads (ps @ brk i @ [Tok t]) (ts @ [t])"
proof -
  have t: "stop_piece (Tok t)" using assms(2) by auto
  have c: "reads [Tok t] [t]" by (rule reads_stop(2) [OF t reads_Nil])
  show ?thesis
    using reads_append_stop [OF assms(1) t c] reads_append_stop [OF assms(1) stop_pieces(9) reads_indent [OF c]]
    by (cases i) (simp_all add: brk_def)
qed

lemma reads_word:
  assumes "w \<in> {''true'', ''false'', ''null''}" "print_token t = w" "word_token w = Some t"
  shows "reads [Tok t] [t]"
  unfolding reads_def using lex_word [OF assms(1)] assms(2,3) by (simp add: cons_opt_map del: lex.simps)

lemma reads_words: "reads [Tok TNull] [TNull]" "reads [Tok TTrue] [TTrue]" "reads [Tok TFalse] [TFalse]"
proof -
  show "reads [Tok TNull] [TNull]" by (rule reads_word [of "''null''"]) (simp_all add: word_token_def)
  show "reads [Tok TTrue] [TTrue]" by (rule reads_word [of "''true''"]) (simp_all add: word_token_def)
  show "reads [Tok TFalse] [TFalse]" by (rule reads_word [of "''false''"]) (simp_all add: word_token_def)
qed

lemma reads_scalar:
  "json_ok (JInt n) \<Longrightarrow> reads [Tok (TInt n)] [TInt n]" "reads [Tok (TStr s)] [TStr s]"
  by (auto simp: reads_def lex_itoa lex_print_str cons_opt_map simp del: lex.simps)

lemma reads_pieces: "json_ok v \<Longrightarrow> reads (pieces i v) (toks v)"
proof (induction v arbitrary: i rule: toks.induct)
  case (5 vs)
  show ?case
  proof (cases "vs = []")
    case True
    then show ?thesis using reads_stop(2) [OF _ reads_stop(2) [OF _ reads_Nil]] by simp
  next
    case False
    have "reads (sep_pieces (brk (map_option Suc i)) (map (pieces (map_option Suc i)) vs)) (sep_toks (map toks vs))"
      using 5 False by (intro reads_sep) (auto simp: list_all_iff)
    from reads_close [OF this, of TCloseArr i] False show ?thesis
      by (simp add: reads_stop(2))
  qed
next
  case (6 kvs)
  let ?f = "\<lambda>(k, v). Tok (TStr k) # Tok TColon # (if i = None then [] else [Sp '' '']) @ pieces (map_option Suc i) v"
  show ?case
  proof (cases "kvs = []")
    case True
    then show ?thesis using reads_stop(2) [OF _ reads_stop(2) [OF _ reads_Nil]] by simp
  next
    case False
    have "reads (?f x) ((\<lambda>(k, v). TStr k # TColon # toks v) x)" if "x \<in> set kvs" for x
    proof -
      obtain k v where x: "x = (k, v)" by (cases x)
      then have "reads (pieces (map_option Suc i) v) (toks v)" using 6 that by (auto simp: list_all_iff)
      then show ?thesis unfolding x by (auto intro!: reads_stop)
    qed
    then have "reads (sep_pieces (brk (map_option Suc i)) (map ?f kvs))
        (sep_toks (map (\<lambda>(k, v). TStr k # TColon # toks v) kvs))"
      using False by (intro reads_sep) auto
    from reads_close [OF this, of TCloseObj i] False show ?thesis
      by (simp add: reads_stop(2))
  qed
qed (auto simp: reads_scalar reads_words)

lemma lex_pieces: "json_ok v \<Longrightarrow> lex Top (print_pieces (pieces i v)) = Some (toks v)"
  using reads_pieces [of v i] by (auto simp: reads_def stops_def dest: spec [of _ "[]"])

subsection \<open>Parsing\<close>

lemma toks_hd: "\<exists>t ts. toks v = t # ts \<and> t \<noteq> TCloseArr \<and> t \<noteq> TCloseObj \<and> t \<noteq> TComma"
  by (cases v) auto

lemma sep_toks_Cons:
  "sep_toks (x # xs) = (if xs = [] then x else x @ TComma # sep_toks xs)"
  by (cases xs) auto

lemma pelems_toks:
  assumes "\<And>v n rest. v \<in> set vs \<Longrightarrow> length (toks v) \<le> n \<Longrightarrow> pval n (toks v @ rest) = Some (v, rest)"
    and "vs \<noteq> []" "length (sep_toks (map toks vs)) < n"
  shows "pelems n (sep_toks (map toks vs) @ TCloseArr # rest) = Some (vs, rest)"
  using assms
proof (induction vs arbitrary: n)
  case (Cons v vs)
  then obtain m where n: "n = Suc m" by (cases n) auto
  have v: "pval m (toks v @ r) = Some (v, r)" for r
    using Cons.prems n by (intro Cons.prems(1)) (auto simp: sep_toks_Cons split: if_splits)
  show ?case
  proof (cases "vs = []")
    case False
    then have "pelems m (sep_toks (map toks vs) @ TCloseArr # rest) = Some (vs, rest)"
      using Cons.prems n by (intro Cons.IH) (auto simp: sep_toks_Cons)
    with False v n show ?thesis by (simp add: sep_toks_Cons)
  qed (use v n in simp)
qed simp

abbreviation member_toks :: "string \<times> json \<Rightarrow> token list" where
  "member_toks \<equiv> \<lambda>(k, v). TStr k # TColon # toks v"

lemma pmembers_toks:
  assumes "\<And>k v n rest. (k, v) \<in> set kvs \<Longrightarrow> length (toks v) \<le> n \<Longrightarrow> pval n (toks v @ rest) = Some (v, rest)"
    and "kvs \<noteq> []" "length (sep_toks (map member_toks kvs)) < n"
  shows "pmembers n (sep_toks (map member_toks kvs) @ TCloseObj # rest) = Some (kvs, rest)"
  using assms
proof (induction kvs arbitrary: n)
  case (Cons kv kvs)
  obtain k v where kv: "kv = (k, v)" by (cases kv)
  from Cons.prems obtain m where n: "n = Suc m" by (cases n) auto
  have v: "pval m (toks v @ r) = Some (v, r)" for r
    using Cons.prems n kv by (intro Cons.prems(1) [of k]) (auto simp: sep_toks_Cons split: if_splits)
  show ?case
  proof (cases "kvs = []")
    case False
    then have "pmembers m (sep_toks (map member_toks kvs) @ TCloseObj # rest) = Some (kvs, rest)"
      using Cons.prems n kv by (intro Cons.IH) (auto simp: sep_toks_Cons)
    with False v n kv show ?thesis by (simp add: sep_toks_Cons)
  qed (use v n kv in simp)
qed simp

lemma sep_toks_hd:
  assumes "\<And>x. x \<in> set xs \<Longrightarrow> \<exists>t ts. x = t # ts \<and> P t" "xs \<noteq> []"
  shows "\<exists>t ts. sep_toks xs = t # ts \<and> P t"
  using assms(1) [of "hd xs"] assms(2) by (cases xs) (auto simp: sep_toks_Cons)

lemma pval_toks: "length (toks v) \<le> n \<Longrightarrow> pval n (toks v @ rest) = Some (v, rest)"
proof (induction v arbitrary: n rest rule: toks.induct)
  case (5 vs)
  then obtain m where n: "n = Suc m" by (cases n) auto
  show ?case
  proof (cases "vs = []")
    case False
    obtain t ts where hd: "sep_toks (map toks vs) = t # ts" "t \<noteq> TCloseArr"
      using sep_toks_hd [of "map toks vs" "\<lambda>t. t \<noteq> TCloseArr"] toks_hd False by fastforce
    have "pelems m (sep_toks (map toks vs) @ TCloseArr # rest) = Some (vs, rest)"
      using 5 False n by (intro pelems_toks) auto
    with hd n show ?thesis by (auto split: token.splits)
  qed (use n in simp)
next
  case (6 kvs)
  then obtain m where n: "n = Suc m" by (cases n) auto
  show ?case
  proof (cases "kvs = []")
    case False
    obtain t ts where hd: "sep_toks (map member_toks kvs) = t # ts" "t \<noteq> TCloseObj"
      using sep_toks_hd [of "map member_toks kvs" "\<lambda>t. t \<noteq> TCloseObj"] False by fastforce
    have "pmembers m (sep_toks (map member_toks kvs) @ TCloseObj # rest) = Some (kvs, rest)"
      using 6 False n by (intro pmembers_toks) auto
    with hd n show ?thesis by (auto split: token.splits)
  qed (use n in simp)
qed (auto simp: Suc_le_eq gr0_conv_Suc)

theorem parse_print: "json_ok v \<Longrightarrow> parse_json (print_pieces (pieces i v)) = Some v"
  using pval_toks [of v "length (toks v)" "[]"] by (simp add: parse_json_def lex_pieces)

lemma parse_marshal: "json_ok v \<Longrightarrow> parse_json (marshal v) = Some v"
  and parse_marshal_indent: "json_ok v \<Longrightarrow> parse_json (marshal_indent v) = Some v"
  by (simp_all add: marshal_def marshal_indent_def parse_print)

text \<open>The trailing newline that the program appends is white space.\<close>

lemma parse_marshal_indent_NL: "json_ok v \<Longrightarrow> parse_json (marshal_indent v @ NL) = Some v"
proof -
  assume "json_ok v"
  moreover have "stops NL" by (simp add: stops_def is_digit_def word_char_def)
  ultimately have "lex Top (marshal_indent v @ NL) = Some (toks v)"
    using reads_pieces [of v "Some 0"] by (simp add: reads_def marshal_indent_def json_ws_def)
  then show ?thesis using pval_toks [of v "length (toks v)" "[]"] by (simp add: parse_json_def)
qed

section \<open>Decoding into a struct\<close>

text \<open>The last member whose name matches without regard to case fills a field.\<close>

fun jfield :: "string \<Rightarrow> (string \<times> json) list \<Rightarrow> json option" where
  "jfield k [] = None"
| "jfield k ((k', v) # r) = (case jfield k r of Some x \<Rightarrow> Some x
     | None \<Rightarrow> if to_lower k' = to_lower k then Some v else None)"

definition dec_str :: "string \<Rightarrow> (string \<times> json) list \<Rightarrow> string option" where
  "dec_str k obj = (case jfield k obj of None \<Rightarrow> Some [] | Some JNull \<Rightarrow> Some []
     | Some (JStr s) \<Rightarrow> Some s | _ \<Rightarrow> None)"

definition dec_bool :: "string \<Rightarrow> (string \<times> json) list \<Rightarrow> bool option" where
  "dec_bool k obj = (case jfield k obj of None \<Rightarrow> Some False | Some JNull \<Rightarrow> Some False
     | Some (JBool b) \<Rightarrow> Some b | _ \<Rightarrow> None)"

definition dec_int :: "string \<Rightarrow> (string \<times> json) list \<Rightarrow> int option" where
  "dec_int k obj = (case jfield k obj of None \<Rightarrow> Some 0 | Some JNull \<Rightarrow> Some 0
     | Some (JInt i) \<Rightarrow> Some i | _ \<Rightarrow> None)"

text \<open>The members of a document decoded into a struct: null leaves the zero value.\<close>

definition members_of :: "json option \<Rightarrow> (string \<times> json) list option" where
  "members_of j = (case j of Some (JObj kvs) \<Rightarrow> Some kvs | Some JNull \<Rightarrow> Some [] | _ \<Rightarrow> None)"

definition json_strings :: "json option \<Rightarrow> string list option" where
  "json_strings j = (case j of Some JNull \<Rightarrow> Some []
     | Some (JArr vs) \<Rightarrow> those (map (\<lambda>v. case v of JStr s \<Rightarrow> Some s | JNull \<Rightarrow> Some [] | _ \<Rightarrow> None) vs)
     | _ \<Rightarrow> None)"

lemma those_map_Some: "(\<And>x. x \<in> set xs \<Longrightarrow> f x = Some (g x)) \<Longrightarrow> those (map f xs) = Some (map g xs)"
  by (induction xs) auto

lemma json_strings_marshal: "json_strings (parse_json (marshal (JArr (map JStr xs)))) = Some xs"
proof -
  have "those (map ((\<lambda>v. case v of JStr s \<Rightarrow> Some s | JNull \<Rightarrow> Some [] | _ \<Rightarrow> None) \<circ> JStr) xs) = Some (map (\<lambda>x. x) xs)"
    by (rule those_map_Some) simp
  then show ?thesis by (simp add: parse_marshal list_all_iff json_strings_def)
qed

end
