(* ===== verification/CaPhase.thy ===== *)
theory CaPhase
  imports Prelude
begin

text \<open>
  internal/carotation/phase.go: the phases of the CA rotation protocol. A Phase is a Go
  string, so any text can turn up where a phase is expected (a ConfigMap, an annotation,
  a state file); the order is by position in the protocol list and everything unknown
  comes before the first phase.
\<close>

type_synonym phase = string

definition PhasePrepare :: phase where "PhasePrepare = ''prepare''"
definition PhaseCutover :: phase where "PhaseCutover = ''cutover''"
definition PhaseFinalize :: phase where "PhaseFinalize = ''finalize''"
definition PhaseDone :: phase where "PhaseDone = ''done''"

lemmas phase_defs = PhasePrepare_def PhaseCutover_def PhaseFinalize_def PhaseDone_def

definition orderedPhases :: "phase list" where
  "orderedPhases = [PhasePrepare, PhaseCutover, PhaseFinalize, PhaseDone]"

fun index_from :: "int \<Rightarrow> phase list \<Rightarrow> phase \<Rightarrow> int" where
  "index_from i [] p = -1"
| "index_from i (c # cs) p = (if c = p then i else index_from (i + 1) cs p)"

definition Index :: "phase \<Rightarrow> int" where
  "Index p = index_from 0 orderedPhases p"

definition AtLeast :: "phase \<Rightarrow> phase \<Rightarrow> bool" where
  "AtLeast p other \<longleftrightarrow> Index p \<ge> Index other"

definition Next :: "phase \<Rightarrow> phase" where
  "Next p = (let idx = Index p in
     if idx < 0 then PhasePrepare
     else if idx + 1 \<ge> int (length orderedPhases) then PhaseDone
     else orderedPhases ! nat (idx + 1))"

definition Valid :: "phase \<Rightarrow> bool" where
  "Valid p \<longleftrightarrow> Index p \<ge> 0"

section \<open>Facts\<close>

lemma phases_distinct [simp]:
  "PhasePrepare \<noteq> PhaseCutover" "PhasePrepare \<noteq> PhaseFinalize" "PhasePrepare \<noteq> PhaseDone"
  "PhaseCutover \<noteq> PhasePrepare" "PhaseCutover \<noteq> PhaseFinalize" "PhaseCutover \<noteq> PhaseDone"
  "PhaseFinalize \<noteq> PhasePrepare" "PhaseFinalize \<noteq> PhaseCutover" "PhaseFinalize \<noteq> PhaseDone"
  "PhaseDone \<noteq> PhasePrepare" "PhaseDone \<noteq> PhaseCutover" "PhaseDone \<noteq> PhaseFinalize"
  by (simp_all add: phase_defs)

lemma phases_nonempty [simp]:
  "PhasePrepare \<noteq> []" "PhaseCutover \<noteq> []" "PhaseFinalize \<noteq> []" "PhaseDone \<noteq> []"
  by (simp_all add: phase_defs)

lemma Index_simps [simp]:
  "Index PhasePrepare = 0" "Index PhaseCutover = 1" "Index PhaseFinalize = 2" "Index PhaseDone = 3"
  "Index [] = -1"
  by (simp_all add: Index_def orderedPhases_def)

lemma Index_iff:
  "Index p = 0 \<longleftrightarrow> p = PhasePrepare" "Index p = 1 \<longleftrightarrow> p = PhaseCutover"
  "Index p = 2 \<longleftrightarrow> p = PhaseFinalize" "Index p = 3 \<longleftrightarrow> p = PhaseDone"
  by (auto simp: Index_def orderedPhases_def split: if_splits)

lemma Index_range: "Index p \<in> {-1, 0, 1, 2, 3}"
  by (simp add: Index_def orderedPhases_def)

lemma Valid_iff: "Valid p \<longleftrightarrow> p \<in> set orderedPhases"
  by (auto simp: Valid_def Index_def orderedPhases_def)

lemma Next_simps [simp]:
  "Next PhasePrepare = PhaseCutover" "Next PhaseCutover = PhaseFinalize"
  "Next PhaseFinalize = PhaseDone" "Next PhaseDone = PhaseDone" "Next [] = PhasePrepare"
  by (simp_all add: Next_def Let_def orderedPhases_def)

lemma Index_Next: "Index (Next p) = min 3 (Index p + 1)"
proof -
  consider "\<not> Valid p" | "p = PhasePrepare" | "p = PhaseCutover" | "p = PhaseFinalize" | "p = PhaseDone"
    by (auto simp: Valid_iff orderedPhases_def)
  then show ?thesis
  proof cases
    case 1
    then have "Index p = -1" using Index_range [of p] by (auto simp: Valid_def)
    then show ?thesis by (simp add: Next_def)
  qed simp_all
qed

lemma AtLeast_trans: "AtLeast a b \<Longrightarrow> AtLeast b c \<Longrightarrow> AtLeast a c"
  by (simp add: AtLeast_def)

lemma AtLeast_refl [simp]: "AtLeast a a"
  by (simp add: AtLeast_def)

section \<open>What the rest of the protocol needs of the order\<close>

text \<open>Barriers compare phases and advance them one at a time; all they rely on is a total
  preorder with a last element in which \<open>next\<close> steps up until it is reached.\<close>

locale stage_order =
  fixes at_least :: "'p \<Rightarrow> 'p \<Rightarrow> bool" and next_stage :: "'p \<Rightarrow> 'p" and last_stage :: 'p
  assumes total: "at_least a b \<or> at_least b a"
    and trans: "at_least a b \<Longrightarrow> at_least b c \<Longrightarrow> at_least a c"
    and up: "at_least (next_stage a) a"
    and strict: "\<not> at_least a last_stage \<Longrightarrow> \<not> at_least a (next_stage a)"
    and steps: "\<exists>n. at_least ((next_stage ^^ n) a) last_stage"
begin

lemma refl: "at_least a a"
  using total by blast

lemma next_mono_iter: "at_least ((next_stage ^^ n) a) a"
  by (induction n) (auto intro: refl trans up)

text \<open>Catching up: the next stages of an earlier stage never pass over a gap in the order.\<close>

lemma climbs: "at_least last_stage b \<Longrightarrow> \<exists>n. at_least ((next_stage ^^ n) a) b"
  using steps trans by blast

end

interpretation phase_order: stage_order AtLeast Next PhaseDone
proof
  fix a b c :: phase
  show "AtLeast a b \<or> AtLeast b a" by (auto simp: AtLeast_def)
  show "AtLeast a b \<Longrightarrow> AtLeast b c \<Longrightarrow> AtLeast a c" by (rule AtLeast_trans)
  show "AtLeast (Next a) a" using Index_range [of a] by (auto simp: AtLeast_def Index_Next)
  show "\<not> AtLeast a PhaseDone \<Longrightarrow> \<not> AtLeast a (Next a)"
    using Index_range [of a] by (auto simp: AtLeast_def Index_Next)
  have "Index ((Next ^^ 4) a) = 3" using Index_range [of a]
    by (auto simp: numeral_eq_Suc Index_Next)
  then show "\<exists>n. AtLeast ((Next ^^ n) a) PhaseDone"
    by (intro exI [of _ 4]) (simp add: AtLeast_def)
qed



end
