(* ===== verification/CaState.thy ===== *)
theory CaState
  imports Fs Json CaPhase
begin

text \<open>
  internal/carotation/state.go: the durable per-node state of the rotation protocol. The
  completion marker and the bounded history of finalized rotations, the state file that
  is replaced by a rename, the registry of retired service-account keys, and the scan
  that finds a rotation this node still owes. Every function is a computation over the
  file tree of \<open>Fs\<close>, so its theorems hold for every pattern of I/O failures.
\<close>

section \<open>Paths\<close>

definition baseDir :: string where "baseDir = ''/var/lib/magnum/ca-rotation''"
definition MarkerPath :: string where "MarkerPath = ''/var/lib/magnum/last_ca_rotation_id''"
definition finalizedPath :: string where "finalizedPath = MarkerPath @ ''.history''"
definition StagingDir :: "string \<Rightarrow> string" where "StagingDir rid = pjoin baseDir rid"
definition OldDir :: "string \<Rightarrow> string" where "OldDir rid = pjoin (StagingDir rid) ''old''"
definition NewDir :: "string \<Rightarrow> string" where "NewDir rid = pjoin (StagingDir rid) ''new''"
definition BundleDir :: "string \<Rightarrow> string" where "BundleDir rid = pjoin (StagingDir rid) ''bundle''"
definition statePath :: "string \<Rightarrow> string" where "statePath rid = pjoin (StagingDir rid) ''state.json''"
definition RetiredSAKeysPath :: string where "RetiredSAKeysPath = pjoin baseDir ''retired-sa-keys''"

section \<open>The completion marker and its history\<close>

definition ReadMarker :: "('z os_scheme, string) io" where
  "ReadMarker = attempt (read_file MarkerPath)
     (\<lambda>r. case r of Inl _ \<Rightarrow> ret [] | Inr data \<Rightarrow> ret (trim_space data))"

definition finalizedKeep :: nat where "finalizedKeep = 64"

definition readFinalized :: "('z os_scheme, string list) io" where
  "readFinalized = attempt (read_file finalizedPath)
     (\<lambda>r. case r of Inl _ \<Rightarrow> ret [] | Inr data \<Rightarrow> ret (str_fields data))"

text \<open>The bounded append: the newest \<open>keep\<close> entries survive.\<close>

definition push_bounded :: "nat \<Rightarrow> 'a \<Rightarrow> 'a list \<Rightarrow> 'a list" where
  "push_bounded keep x xs = (let ys = xs @ [x] in
     if length ys > keep then drop (length ys - keep) ys else ys)"

definition recordFinalized :: "string \<Rightarrow> ('z os_scheme, unit) io" where
  "recordFinalized rid = andthen readFinalized (\<lambda>ids.
     if rid \<in> set ids then ret ()
     else let ids' = push_bounded finalizedKeep rid ids; tmp = finalizedPath @ ''.tmp'' in
       andthen (write_file tmp (join NL ids' @ NL) o644) (\<lambda>_.
       rename tmp finalizedPath))"

definition WriteMarker :: "string \<Rightarrow> ('z os_scheme, unit) io" where
  "WriteMarker rid = andthen (mkdir_all (dirname MarkerPath) o755) (\<lambda>_.
     andthen (write_file MarkerPath (rid @ NL) o644) (\<lambda>_.
     recordFinalized rid))"

definition Finalized :: "string \<Rightarrow> ('z os_scheme, bool) io" where
  "Finalized rid = (if rid = [] then ret False
     else andthen ReadMarker (\<lambda>m. if m = rid then ret True
       else andthen readFinalized (\<lambda>ids. ret (rid \<in> set ids))))"

section \<open>The protocol state of a rotation\<close>

definition CAModeOld :: string where "CAModeOld = ''old''"
definition CAModeBundle :: string where "CAModeBundle = ''bundle''"
definition CAModeNew :: string where "CAModeNew = ''new''"
definition LeafModeOld :: string where "LeafModeOld = ''old''"
definition LeafModeNew :: string where "LeafModeNew = ''new''"

record rot_state =
  rs_id :: string
  rs_role :: string
  rs_instance :: string
  rs_phase :: phase
  rs_ca_mode :: string
  rs_leaf_mode :: string
  rs_sa_verify :: string
  rs_sa_sign :: string
  rs_hard :: bool
  rs_held :: bool
  rs_updated :: string

definition zero_state :: rot_state where
  "zero_state = \<lparr>rs_id = [], rs_role = [], rs_instance = [], rs_phase = [], rs_ca_mode = [],
     rs_leaf_mode = [], rs_sa_verify = [], rs_sa_sign = [], rs_hard = False, rs_held = False,
     rs_updated = []\<rparr>"

definition state_json :: "rot_state \<Rightarrow> json" where
  "state_json s = JObj ([(''rotationId'', JStr (rs_id s)), (''role'', JStr (rs_role s)),
     (''instance'', JStr (rs_instance s)), (''phase'', JStr (rs_phase s)),
     (''caMode'', JStr (rs_ca_mode s)), (''leafMode'', JStr (rs_leaf_mode s)),
     (''saVerifyMode'', JStr (rs_sa_verify s)), (''saSignMode'', JStr (rs_sa_sign s))]
     @ (if rs_hard s then [(''hard'', JBool True)] else [])
     @ (if rs_held s then [(''held'', JBool True)] else [])
     @ [(''updatedAt'', JStr (rs_updated s))])"

definition state_of_json :: "json option \<Rightarrow> rot_state option" where
  "state_of_json j = (case members_of j of None \<Rightarrow> None | Some m \<Rightarrow>
     (case (dec_str ''rotationId'' m, dec_str ''role'' m, dec_str ''instance'' m, dec_str ''phase'' m,
            dec_str ''caMode'' m, dec_str ''leafMode'' m) of
        (Some a, Some b, Some c, Some d, Some e, Some f) \<Rightarrow>
          (case (dec_str ''saVerifyMode'' m, dec_str ''saSignMode'' m, dec_bool ''hard'' m,
                 dec_bool ''held'' m, dec_str ''updatedAt'' m) of
             (Some g, Some h, Some i, Some k, Some l) \<Rightarrow>
               Some \<lparr>rs_id = a, rs_role = b, rs_instance = c, rs_phase = d, rs_ca_mode = e,
                 rs_leaf_mode = f, rs_sa_verify = g, rs_sa_sign = h, rs_hard = i, rs_held = k,
                 rs_updated = l\<rparr>
           | _ \<Rightarrow> None)
      | _ \<Rightarrow> None))"

definition LoadState :: "string \<Rightarrow> ('z os_scheme, rot_state) io" where
  "LoadState rid = attempt (read_file (statePath rid)) (\<lambda>r. case r of
       Inl e \<Rightarrow> if is_not_exist e then ret zero_state else throw (Wrap ''ca-rotation: read state'' e)
     | Inr data \<Rightarrow> (case state_of_json (parse_json data) of
           None \<Rightarrow> throw (Err ''ca-rotation: parse state'')
         | Some s \<Rightarrow> ret s))"

definition SaveState :: "rot_state \<Rightarrow> ('z os_scheme, unit) io" where
  "SaveState s = (if rs_id s = [] then throw (Err ''ca-rotation: cannot save state without rotation id'')
     else andthen (wrapping ''ca-rotation: create staging dir'' (mkdir_all (StagingDir (rs_id s)) o700)) (\<lambda>_.
       andthen now_text (\<lambda>t.
       let data = marshal_indent (state_json (s\<lparr>rs_updated := t\<rparr>)) @ NL;
           path = statePath (rs_id s); tmp = path @ ''.tmp'' in
       andthen (wrapping ''ca-rotation: write state'' (write_file tmp data o600)) (\<lambda>_.
       wrapping ''ca-rotation: commit state'' (rename tmp path)))))"

definition RotationParked :: "string \<Rightarrow> ('z os_scheme, bool) io" where
  "RotationParked rid = (if rid = [] then ret False
     else andthen (LoadState rid) (\<lambda>st.
       ret (rs_id st = rid \<and> rs_held st \<and> rs_phase st = PhaseCutover)))"

section \<open>Finding a rotation in progress\<close>

fun newest_in :: "string \<Rightarrow> rot_state \<Rightarrow> (string \<times> bool) list \<Rightarrow> ('z os_scheme, rot_state) io" where
  "newest_in applied newest [] = ret newest"
| "newest_in applied newest ((eid, isdir) # es) =
     (if \<not> isdir \<or> eid = applied then newest_in applied newest es
      else attempt (LoadState eid) (\<lambda>r. case r of
          Inl _ \<Rightarrow> newest_in applied newest es
        | Inr st \<Rightarrow>
            if rs_id st \<noteq> eid then newest_in applied newest es
            else if rs_phase st = PhaseDone \<or> \<not> Valid (rs_phase st) \<or> rs_phase st = []
            then newest_in applied newest es
            else if rs_id newest = [] \<or> rs_updated st > rs_updated newest
            then newest_in applied st es
            else newest_in applied newest es))"

definition InProgressRotation :: "string \<Rightarrow> ('z os_scheme, rot_state) io" where
  "InProgressRotation applied = attempt (read_dir baseDir) (\<lambda>r. case r of
       Inl e \<Rightarrow> if is_not_exist e then ret zero_state else throw (Wrap ''ca-rotation: scan staging'' e)
     | Inr entries \<Rightarrow> newest_in applied zero_state entries)"

text \<open>Modification times are what the file system reports (\<open>None\<close>: Info failed), an argument.\<close>

definition StagedRotationIDs :: "(string \<Rightarrow> nat option) \<Rightarrow> ('z os_scheme, string list) io" where
  "StagedRotationIDs mtime = attempt (read_dir baseDir) (\<lambda>r. case r of
       Inl _ \<Rightarrow> ret []
     | Inr entries \<Rightarrow> ret (map fst (rev (sort_key (\<lambda>(eid, t). t)
         (rev (List.map_filter (\<lambda>(eid, isdir). if isdir then map_option (\<lambda>t. (eid, t)) (mtime eid) else None)
           entries))))))"

section \<open>Retired service-account keys\<close>

definition parse_retired :: "string \<Rightarrow> string list" where
  "parse_retired data = remdups (filter (\<lambda>x. x \<noteq> []) (map trim_space (split_on (CHR 0x0A) data)))"

definition LoadRetiredSAKeys :: "('z os_scheme, string list) io" where
  "LoadRetiredSAKeys = attempt (read_file RetiredSAKeysPath) (\<lambda>r. case r of
       Inl e \<Rightarrow> if is_not_exist e then ret [] else throw (Wrap ''read retired SA keys'' e)
     | Inr data \<Rightarrow> ret (parse_retired data))"

fun add_retired :: "string list \<Rightarrow> string list \<Rightarrow> string list" where
  "add_retired retired [] = retired"
| "add_retired retired (x # xs) = (let i = trim_space x in
     if i \<noteq> [] \<and> i \<notin> set retired then add_retired (retired @ [i]) xs else add_retired retired xs)"

definition RecordRetiredSAKeys :: "string list \<Rightarrow> ('z os_scheme, unit) io" where
  "RecordRetiredSAKeys ids = (if ids = [] then ret ()
     else andthen LoadRetiredSAKeys (\<lambda>retired.
       let retired' = add_retired retired ids in
       if retired' = retired then ret ()
       else andthen (mkdir_all (dirname RetiredSAKeysPath) o755) (\<lambda>_.
         write_file RetiredSAKeysPath (join NL (sort retired') @ NL) o644)))"

section \<open>The state file\<close>

lemma baseDir_simps [simp]: "baseDir \<noteq> []" "StagingDir rid \<noteq> []"
  by (simp_all add: baseDir_def StagingDir_def pjoin_def)

lemma state_json_ok: "json_ok (state_json s)"
  by (simp add: state_json_def)

lemma state_keys_lower:
  "to_lower ''rotationId'' = ''rotationid''"
  "to_lower ''role'' = ''role''"
  "to_lower ''instance'' = ''instance''"
  "to_lower ''phase'' = ''phase''"
  "to_lower ''caMode'' = ''camode''"
  "to_lower ''leafMode'' = ''leafmode''"
  "to_lower ''saVerifyMode'' = ''saverifymode''"
  "to_lower ''saSignMode'' = ''sasignmode''"
  "to_lower ''hard'' = ''hard''"
  "to_lower ''held'' = ''held''"
  "to_lower ''updatedAt'' = ''updatedat''"
  by code_simp+

definition state_members :: "rot_state \<Rightarrow> (string \<times> json) list" where
  "state_members s = (case state_json s of JObj kvs \<Rightarrow> kvs | _ \<Rightarrow> [])"

lemma jfield_append:
  "jfield k (a @ b) = (case jfield k b of Some x \<Rightarrow> Some x | None \<Rightarrow> jfield k a)"
  by (induction a) (auto split: option.splits)

lemma state_fields:
  "jfield ''rotationId'' (state_members s) = Some (JStr (rs_id s))"
  "jfield ''role'' (state_members s) = Some (JStr (rs_role s))"
  "jfield ''instance'' (state_members s) = Some (JStr (rs_instance s))"
  "jfield ''phase'' (state_members s) = Some (JStr (rs_phase s))"
  "jfield ''caMode'' (state_members s) = Some (JStr (rs_ca_mode s))"
  "jfield ''leafMode'' (state_members s) = Some (JStr (rs_leaf_mode s))"
  "jfield ''saVerifyMode'' (state_members s) = Some (JStr (rs_sa_verify s))"
  "jfield ''saSignMode'' (state_members s) = Some (JStr (rs_sa_sign s))"
  "jfield ''hard'' (state_members s) = (if rs_hard s then Some (JBool True) else None)"
  "jfield ''held'' (state_members s) = (if rs_held s then Some (JBool True) else None)"
  "jfield ''updatedAt'' (state_members s) = Some (JStr (rs_updated s))"
  unfolding state_members_def state_json_def
  by (simp_all add: jfield_append state_keys_lower)

lemma state_of_json_json: "state_of_json (Some (state_json s)) = Some s"
proof -
  have "members_of (Some (state_json s)) = Some (state_members s)"
    by (simp add: members_of_def state_members_def state_json_def)
  then show ?thesis by (simp add: state_of_json_def dec_str_def dec_bool_def state_fields)
qed

lemma dirname_statePath: "dirname (statePath rid) = StagingDir rid" "dirname (statePath rid @ ''.tmp'') = StagingDir rid"
proof -
  have e: "statePath rid @ ''.tmp'' = pjoin (StagingDir rid) ''state.json.tmp''"
    by (simp add: statePath_def pjoin_def)
  show "dirname (statePath rid) = StagingDir rid" "dirname (statePath rid @ ''.tmp'') = StagingDir rid"
    unfolding e by (simp_all add: statePath_def dirname_pjoin)
qed

lemma statePath_tmp_neq [simp]: "statePath a @ ''.tmp'' \<noteq> statePath b" "statePath b \<noteq> statePath a @ ''.tmp''"
proof -
  have e: "statePath a @ ''.tmp'' = pjoin (StagingDir a) ''state.json.tmp''"
    by (simp add: statePath_def pjoin_def)
  have "basename (statePath a @ ''.tmp'') \<noteq> basename (statePath b)"
    unfolding e by (simp add: statePath_def basename_pjoin)
  then show "statePath a @ ''.tmp'' \<noteq> statePath b" "statePath b \<noteq> statePath a @ ''.tmp''" by metis+
qed

lemma statePath_inj: "statePath a = statePath b \<longleftrightarrow> a = b"
  by (auto simp: statePath_def StagingDir_def pjoin_def baseDir_def)

definition state_bytes :: "rot_state \<Rightarrow> string" where
  "state_bytes s = marshal_indent (state_json s) @ NL"

lemma parse_state_bytes: "state_of_json (parse_json (state_bytes s)) = Some s"
  by (simp add: state_bytes_def parse_marshal_indent_NL state_json_ok state_of_json_json)

text \<open>The state a reader finds: what LoadState returns when the read does not fail.\<close>

definition stored_state :: "'z os_scheme \<Rightarrow> string \<Rightarrow> rot_state option" where
  "stored_state w rid = (case content w (statePath rid) of None \<Rightarrow> None
     | Some data \<Rightarrow> state_of_json (parse_json data))"

lemma LoadState_stored:
  "now_fault w = Fine \<Longrightarrow> stored_state w rid = Some s \<Longrightarrow> LoadState rid w = (Inr s, tock w)"
  by (auto simp: LoadState_def attempt_def stored_state_def read_file_def content_def run_simps
      split: option.splits node.splits)

lemma LoadState_missing:
  "now_fault w = Fine \<Longrightarrow> fget w (statePath rid) = None \<Longrightarrow> LoadState rid w = (Inr zero_state, tock w)"
  by (simp add: LoadState_def attempt_def read_file_def run_simps)

lemma LoadState_ok_cases:
  "LoadState rid w = (Inr s, w') \<Longrightarrow>
   w' = tock w \<and> (stored_state w rid = Some s \<or> (s = zero_state \<and> fget w (statePath rid) = None))"
  by (auto simp: LoadState_def attempt_def stored_state_def read_file_def content_def run_simps
      split: option.splits node.splits fault.splits sum.splits if_splits)

lemma LoadState_world: "snd (LoadState rid w) = tock w"
  by (auto simp: LoadState_def attempt_def read_file_def run_simps
      split: option.splits node.splits fault.splits sum.splits if_splits)

text \<open>Whether or not SaveState succeeds, the state file is either untouched or complete.\<close>

lemma SaveState_outcome:
  assumes "SaveState s w = (r, w')"
  shows "(\<exists>t. r = Inr () \<and> content w' (statePath (rs_id s)) = Some (state_bytes (s\<lparr>rs_updated := t\<rparr>)) \<and> rs_id s \<noteq> []
            \<and> t = clock w (tick w + 1))
       \<or> (\<exists>e. r = Inl e \<and> content w' (statePath (rs_id s)) = content w (statePath (rs_id s)))"
proof (cases "rs_id s = []")
  case False
  let ?p = "statePath (rs_id s)"
  let ?tmp = "?p @ ''.tmp''"
  let ?b = "\<lambda>t. state_bytes (s\<lparr>rs_updated := t\<rparr>)"
  have tail: "(r = Inr () \<and> content w' ?p = Some (?b t)) \<or> (\<exists>e. r = Inl e \<and> content w' ?p = content w2 ?p)"
    if "andthen (wrapping m (write_file ?tmp (?b t) o600)) (\<lambda>_. wrapping m' (rename ?tmp ?p)) w2 = (r, w')" for t w2 m m'
    using wrapping_andthen_run [OF that] commit_outcome [of ?tmp "?b t" o600 ?p w2 _ w'] by (cases r) auto
  let ?mk = "mkdir_all (StagingDir (rs_id s)) o700"
  from assms False have "andthen (wrapping ''ca-rotation: create staging dir'' ?mk) (\<lambda>_. andthen now_text (\<lambda>t.
      andthen (wrapping ''ca-rotation: write state'' (write_file ?tmp (?b t) o600)) (\<lambda>_.
      wrapping ''ca-rotation: commit state'' (rename ?tmp ?p)))) w = (r, w')"
    by (simp add: SaveState_def Let_def state_bytes_def)
  then show ?thesis
  proof (cases rule: andthen_cases)
    case (fail e)
    then have "w' = snd (?mk w)" by (metis snd_conv wrapping_snd)
    with fail show ?thesis
      using confinedD_content [OF confined_mkdir_all, of "StagingDir (rs_id s)" o700 w _ w' ?p "{}"]
      by (metis empty_iff prod.collapse)
  next
    case (ok u w1)
    from ok(1) have mk: "?mk w = (Inr u, w1)" by (simp add: wrapping_ok_iff)
    then have "tick w1 = tick w + 1" "clock w1 = clock w"
      by (auto simp: mkdir_all_def fs_simps frames_fold_mkdir split: if_splits)
    moreover have "content w1 ?p = content w ?p"
      using confinedD_content [OF confined_mkdir_all mk, of ?p "{}"] by simp
    moreover have "now_text w1 = (Inr (clock w1 (tick w1)), tock w1)" by (simp add: now_text_def)
    ultimately show ?thesis
      using tail [of _ "clock w1 (tick w1)" _ "tock w1"] ok(2) False
      by (auto simp: andthen_Inr fs_simps)
  qed
qed (use assms in \<open>auto simp: SaveState_def run_simps\<close>)

lemma SaveState_confined: "confined {statePath (rs_id s), statePath (rs_id s) @ ''.tmp''} (SaveState s)"
  unfolding SaveState_def Let_def by (intro confined_intro) auto

lemma SaveState_other:
  "rid \<noteq> rs_id s \<Longrightarrow> stored_state (snd (SaveState s w)) rid = stored_state w rid"
  using confinedD_content [OF SaveState_confined, of s w _ _ "statePath rid"]
  by (metis (no_types, lifting) empty_iff insert_iff prod.collapse statePath_inj statePath_tmp_neq(2) stored_state_def)

lemma SaveState_stored:
  "SaveState s w = (Inr (), w') \<Longrightarrow>
   stored_state w' (rs_id s) = Some (s\<lparr>rs_updated := clock w (tick w + 1)\<rparr>)"
  using SaveState_outcome [of s w "Inr ()" w'] by (auto simp: stored_state_def parse_state_bytes)

section \<open>The history of finalized rotations\<close>

text \<open>What a bounded log promises its readers: a new entry is kept and stays for as long as
  fewer than \<open>cap\<close> further entries arrive.\<close>

locale bounded_log =
  fixes push :: "'a \<Rightarrow> 'l \<Rightarrow> 'l" and entries :: "'l \<Rightarrow> 'a list" and cap :: nat
  assumes push_step: "entries (push x l) = entries l \<and> x \<in> set (entries l)
      \<or> (\<exists>n. entries (push x l) = drop n (entries l @ [x])
            \<and> (n = 0 \<or> length (entries (push x l)) = cap))"
    and push_cap: "length (entries l) \<le> cap \<Longrightarrow> length (entries (push x l)) \<le> cap"
    and cap_pos: "0 < cap"
begin

definition recent :: "nat \<Rightarrow> 'a \<Rightarrow> 'l \<Rightarrow> bool" where
  "recent k x l \<longleftrightarrow> x \<in> set (drop (length (entries l) - Suc k) (entries l))"

lemma recent_member: "recent k x l \<Longrightarrow> x \<in> set (entries l)"
  by (auto simp: recent_def dest: in_set_dropD)

lemma push_member: "x \<in> set (entries (push x l))"
  using push_step [of x l] cap_pos by (auto simp: drop_append split: if_splits)

lemma push_recent:
  assumes "recent k x l" "Suc k < cap"
  shows "recent (Suc k) x (push y l)"
proof -
  consider (same) "entries (push y l) = entries l"
    | (grown) n where "entries (push y l) = drop n (entries l @ [y])"
        "n = 0 \<or> length (entries (push y l)) = cap"
    using push_step [of y l] by blast
  then show ?thesis
  proof cases
  case same
  moreover have "length (entries l) - Suc (Suc k) \<le> length (entries l) - Suc k" by simp
  ultimately show ?thesis
    using assms(1) set_drop_subset_set_drop unfolding recent_def by (metis in_mono)
next
  case (grown n)
  note e = grown(1) and n = grown(2)
  let ?es = "entries l" and ?m = "length (entries l)"
  have len: "length (entries (push y l)) = Suc ?m - n" by (simp add: e)
  have "drop (length (entries (push y l)) - Suc (Suc k)) (entries (push y l))
      = drop (Suc ?m - n - Suc (Suc k) + n) (?es @ [y])"
    using len by (simp only: e drop_drop)
  moreover have "Suc ?m - n - Suc (Suc k) + n \<le> ?m - Suc k"
    using n assms(2) by (auto simp: len)
  moreover have "x \<in> set (drop (?m - Suc k) (?es @ [y]))"
    using assms(1) by (simp add: recent_def)
  ultimately show ?thesis
    unfolding recent_def by (metis in_mono set_drop_subset_set_drop)
qed
qed

lemma new_recent: "x \<notin> set (entries l) \<Longrightarrow> recent 0 x (push x l)"
  using push_step [of x l] cap_pos by (auto simp: recent_def drop_append split: if_splits)

lemma survives:
  assumes "recent k x l" "k + length ys < cap"
  shows "x \<in> set (entries (fold push ys l))"
  using assms
proof (induction ys arbitrary: k l)
  case Nil
  then show ?case by (simp add: recent_member)
next
  case (Cons y ys)
  then show ?case using Cons.IH [of "Suc k" "push y l"] push_recent by simp
qed

lemma fold_cap: "length (entries l) \<le> cap \<Longrightarrow> length (entries (fold push ys l)) \<le> cap"
  by (induction ys arbitrary: l) (auto simp: push_cap)

end

definition note_finalized :: "string \<Rightarrow> string list \<Rightarrow> string list" where
  "note_finalized rid ids = (if rid \<in> set ids then ids else push_bounded finalizedKeep rid ids)"

lemma push_bounded_drop: "push_bounded k x xs = drop (Suc (length xs) - k) (xs @ [x])"
  by (simp add: push_bounded_def Let_def del: drop_append)

interpretation finalized_log: bounded_log note_finalized "\<lambda>ids. ids" finalizedKeep
proof
  fix x :: string and l :: "string list"
  show "note_finalized x l = l \<and> x \<in> set l \<or> (\<exists>n. note_finalized x l = drop n (l @ [x])
      \<and> (n = 0 \<or> length (note_finalized x l) = finalizedKeep))"
    by (cases "x \<in> set l"; cases "length l < finalizedKeep")
       (auto simp: note_finalized_def push_bounded_drop simp del: drop_append intro!: exI [of _ "Suc (length l) - finalizedKeep"])
  show "length l \<le> finalizedKeep \<Longrightarrow> length (note_finalized x l) \<le> finalizedKeep"
    by (auto simp: note_finalized_def push_bounded_drop simp del: drop_append)
qed (simp add: finalizedKeep_def)

text \<open>The history as a reader finds it.\<close>

definition history :: "'z os_scheme \<Rightarrow> string list" where
  "history w = (case content w finalizedPath of None \<Rightarrow> [] | Some d \<Rightarrow> str_fields d)"

lemma history_words: "list_all word_str (history w)"
  by (simp add: history_def fields_words split: option.splits)

lemma note_words: "word_str rid \<Longrightarrow> list_all word_str ids \<Longrightarrow> list_all word_str (note_finalized rid ids)"
  by (auto simp: note_finalized_def push_bounded_def Let_def list_all_iff dest: in_set_dropD)

lemma readFinalized_run: "now_fault w = Fine \<Longrightarrow> readFinalized w = (Inr (history w), tock w)"
  by (auto simp: readFinalized_def attempt_def read_file_def history_def content_def run_simps
      split: option.splits node.splits)

lemma finalizedPath_neq [simp]:
  "finalizedPath @ ''.tmp'' \<noteq> finalizedPath" "MarkerPath \<noteq> finalizedPath" "finalizedPath \<noteq> MarkerPath"
  "finalizedPath @ ''.tmp'' \<noteq> MarkerPath" "MarkerPath \<noteq> finalizedPath @ ''.tmp''"
  by (simp_all add: finalizedPath_def MarkerPath_def)

lemma history_tock [simp]: "history (tock w) = history w"
  by (simp add: history_def fs_simps)

lemma recordFinalized_ok:
  assumes "recordFinalized rid w = (Inr (), w')" "now_fault w = Fine" "word_str rid"
  shows "history w' = note_finalized rid (history w)"
proof (cases "rid \<in> set (history w)")
  case True
  with assms show ?thesis
    by (auto simp: recordFinalized_def andthen_def readFinalized_run run_simps note_finalized_def)
next
  case False
  let ?ids = "push_bounded finalizedKeep rid (history w)"
  from assms False have
    "andthen (write_file (finalizedPath @ ''.tmp'') (join NL ?ids @ NL) 420)
      (\<lambda>_. rename (finalizedPath @ ''.tmp'') finalizedPath) (tock w) = (Inr (), w')"
    by (simp add: recordFinalized_def andthen_Inr [OF readFinalized_run] Let_def)
  from commit_outcome [OF this] have "content w' finalizedPath = Some (join NL ?ids @ NL)" by simp
  moreover have "list_all word_str ?ids"
    using note_words [OF assms(3) history_words, of w] False by (simp add: note_finalized_def)
  ultimately show ?thesis
    using False by (simp add: history_def [of w'] note_finalized_def fields_lines)
qed

lemma recordFinalized_confined: "confined {finalizedPath, finalizedPath @ ''.tmp''} (recordFinalized rid)"
  unfolding recordFinalized_def readFinalized_def Let_def by (intro confined_intro) auto

lemma mkdir_all_tick: "mkdir_all p m w = (r, w') \<Longrightarrow> tick w' = tick w + 1"
  by (auto simp: mkdir_all_def fs_simps frames_fold_mkdir split: if_splits)

lemma WriteMarker_ok:
  assumes "WriteMarker rid w = (Inr (), w')" "no_faults w" "word_str rid"
  shows "history w' = note_finalized rid (history w)"
    and "content w' MarkerPath = Some (rid @ NL)"
    and "no_faults w'"
proof -
  from assms(1) obtain w1 w2 where m: "mkdir_all (dirname MarkerPath) 493 w = (Inr (), w1)"
    and wr: "write_file MarkerPath (rid @ NL) 420 w1 = (Inr (), w2)"
    and rec: "recordFinalized rid w2 = (Inr (), w')"
    by (auto simp: WriteMarker_def andthen_ok_iff)
  have "content w1 finalizedPath = content w finalizedPath"
    by (rule confinedD_content [OF confined_mkdir_all m, of _ "{}"]) simp
  moreover have "content w2 finalizedPath = content w1 finalizedPath"
    by (rule confinedD_content [OF confined_write_file wr, of "{MarkerPath}"]) simp_all
  ultimately have h: "history w2 = history w" by (simp add: history_def)
  have "no_faults w2"
    using no_faults_frames [OF frames_fault(8) assms(2) m] no_faults_frames [OF frames_fault(7) _ wr] by blast
  then show "history w' = note_finalized rid (history w)"
    using recordFinalized_ok [OF rec _ assms(3)] h by simp
  have "content w2 MarkerPath = Some (rid @ NL)"
    using write_file_ok [OF wr] by (auto simp: fs_simps)
  moreover have "content w' MarkerPath = content w2 MarkerPath"
    by (rule confinedD_content [OF recordFinalized_confined rec]) simp
  ultimately show "content w' MarkerPath = Some (rid @ NL)" by simp
  have "frames fault (recordFinalized rid :: ('b os_scheme, unit) io)"
    unfolding recordFinalized_def readFinalized_def Let_def by (intro frames_intro)
  from no_faults_frames [OF this \<open>no_faults w2\<close> rec] show "no_faults w'" .
qed

lemma WriteMarkers_ok:
  assumes "for_each rids WriteMarker w = (Inr (), w')" "no_faults w" "list_all word_str rids"
  shows "history w' = fold note_finalized rids (history w) \<and> no_faults w'"
  using assms
proof (induction rids arbitrary: w)
  case (Cons r rs)
  from Cons.prems(1) obtain w1 where w1: "WriteMarker r w = (Inr (), w1)" "for_each rs WriteMarker w1 = (Inr (), w')"
    by (auto simp: andthen_ok_iff)
  from Cons.prems WriteMarker_ok [OF w1(1)] Cons.IH [OF w1(2)] show ?case by simp
qed (simp add: run_simps)

lemma Finalized_run:
  assumes "no_faults w" "rid \<noteq> []" "rid \<in> set (history w)"
  shows "fst (Finalized rid w) = Inr True"
proof -
  obtain m w1 where m: "ReadMarker w = (Inr m, w1)" "w1 = tock w"
    by (cases "fst (read_file MarkerPath w)") (auto simp: ReadMarker_def attempt_read_file run_simps)
  then have "readFinalized w1 = (Inr (history w), tock w1)" 
    using readFinalized_run [of w1] assms(1) by (simp add: no_faults_def fs_simps)
  with m assms show ?thesis by (simp add: Finalized_def andthen_def run_simps)
qed

section \<open>The rotation this node still owes\<close>

definition owed_phase :: "phase \<Rightarrow> bool" where
  "owed_phase p \<longleftrightarrow> p \<in> {PhasePrepare, PhaseCutover, PhaseFinalize}"

lemma owed_phase_iff: "owed_phase p \<longleftrightarrow> \<not> (p = PhaseDone \<or> \<not> Valid p \<or> p = [])"
  by (auto simp: owed_phase_def Valid_iff orderedPhases_def)

text \<open>The states on disk that count as owed, in directory order.\<close>

definition owed :: "'z os_scheme \<Rightarrow> string \<Rightarrow> (string \<times> bool) list \<Rightarrow> rot_state list" where
  "owed w applied es = List.map_filter (\<lambda>(eid, isdir).
     if isdir \<and> eid \<noteq> applied then (case stored_state w eid of None \<Rightarrow> None
        | Some st \<Rightarrow> if rs_id st = eid \<and> owed_phase (rs_phase st) then Some st else None)
     else None) es"

definition pick_newest :: "rot_state \<Rightarrow> rot_state \<Rightarrow> rot_state" where
  "pick_newest st newest = (if rs_id newest = [] \<or> rs_updated st > rs_updated newest then st else newest)"

lemma stored_state_tock [simp]: "stored_state (tock w) rid = stored_state w rid"
  by (simp add: stored_state_def fs_simps)

lemma owed_tock [simp]: "owed (tock w) a es = owed w a es"
  by (simp only: owed_def stored_state_tock)

lemma LoadState_fine:
  "no_faults w \<Longrightarrow> LoadState rid w = (case stored_state w rid of Some s \<Rightarrow> (Inr s, tock w)
     | None \<Rightarrow> (if fget w (statePath rid) = None then (Inr zero_state, tock w)
               else (fst (LoadState rid w), tock w)))"
  using LoadState_stored [of w rid] LoadState_missing [of w rid] LoadState_world [of rid w]
  by (auto split: option.splits simp: prod_eq_iff)

lemma newest_in_run:
  assumes "no_faults w" "list_all (\<lambda>(e, _). e \<noteq> []) es"
  shows "fst (newest_in applied n es w) = Inr (fold pick_newest (owed w applied es) n)"
  using assms
proof (induction es arbitrary: w n)
  case Nil
  then show ?case by (simp add: owed_def map_filter_def run_simps)
next
  case (Cons x es)
  obtain eid isdir where x: "x = (eid, isdir)" by (cases x)
  have nf: "no_faults (tock w)" using Cons.prems(1) by (simp add: no_faults_def fs_simps)
  have IH: "fst (newest_in applied n es (tock w)) = Inr (fold pick_newest (owed w applied es) n)" for n
    using Cons.IH [OF nf] Cons.prems(2) by simp
  have IH0: "fst (newest_in applied n es w) = Inr (fold pick_newest (owed w applied es) n)" for n
    using Cons.IH [OF Cons.prems(1)] Cons.prems(2) by simp
  have ne: "eid \<noteq> []" using Cons.prems(2) x by simp
  consider (skip) "\<not> isdir \<or> eid = applied" | (stored) st where "isdir" "eid \<noteq> applied" "stored_state w eid = Some st"
    | (none) "isdir" "eid \<noteq> applied" "stored_state w eid = None"
    by (cases "stored_state w eid") auto
  then show ?case
  proof cases
    case skip
    then show ?thesis using IH0 x by (auto simp: owed_def map_filter_simps)
  next
    case stored
    with LoadState_fine [OF Cons.prems(1), of eid] have l: "LoadState eid w = (Inr st, tock w)" by simp
    have o: "owed w applied (x # es) = (if rs_id st = eid \<and> owed_phase (rs_phase st) then [st] else []) @ owed w applied es"
      using stored x by (simp add: owed_def map_filter_simps)
    show ?thesis
      unfolding o using stored l IH pick_newest_def [of st n]
      by (auto simp: x attempt_def owed_phase_iff)
  next
    case none
    have o: "owed w applied (x # es) = owed w applied es"
      using none x by (simp add: owed_def map_filter_simps)
    have "(\<exists>e. LoadState eid w = (Inl e, tock w)) \<or> LoadState eid w = (Inr zero_state, tock w)"
    proof -
      obtain r w1 where l: "LoadState eid w = (r, w1)" by (cases "LoadState eid w")
      then have "w1 = tock w" using LoadState_world [of eid w] by simp
      show ?thesis
      proof (cases r)
        case (Inr s)
        with l have "LoadState eid w = (Inr s, w1)" by simp
        from LoadState_ok_cases [OF this] none have "s = zero_state" by simp
        with l Inr \<open>w1 = tock w\<close> show ?thesis by simp
      qed (use l \<open>w1 = tock w\<close> in simp)
    qed
    moreover have "rs_id zero_state \<noteq> eid" using ne by (simp add: zero_state_def)
    ultimately have "newest_in applied n (x # es) w = newest_in applied n es (tock w)"
      using none x by (elim disjE exE) (simp_all add: attempt_def)
    then show ?thesis unfolding o using IH by simp
  qed
qed

lemma owed_ids: "list_all (\<lambda>(e, _). e \<noteq> []) es \<Longrightarrow> st \<in> set (owed w a es) \<Longrightarrow>
    rs_id st \<noteq> [] \<and> rs_id st \<noteq> a \<and> owed_phase (rs_phase st) \<and> (rs_id st, True) \<in> set es
    \<and> stored_state w (rs_id st) = Some st"
  by (auto simp: owed_def List.map_filter_def list_all_iff split: if_splits option.splits)

lemma fold_pick:
  assumes "\<And>st. st \<in> set sts \<Longrightarrow> rs_id st \<noteq> []" "rs_id n = [] \<Longrightarrow> sts \<noteq> []"
  shows "fold pick_newest sts n \<in> set (if rs_id n = [] then sts else n # sts)
    \<and> (\<forall>st \<in> set (if rs_id n = [] then sts else n # sts). rs_updated st \<le> rs_updated (fold pick_newest sts n))"
  using assms
proof (induction sts arbitrary: n)
  case (Cons s sts)
  have p: "pick_newest s n = s \<or> pick_newest s n = n \<and> rs_id n \<noteq> []" "rs_id (pick_newest s n) \<noteq> []"
    using Cons.prems(1) [of s] by (auto simp: pick_newest_def)
  have b: "rs_updated s \<le> rs_updated (pick_newest s n)"
      "rs_id n \<noteq> [] \<Longrightarrow> rs_updated n \<le> rs_updated (pick_newest s n)"
    by (auto simp: pick_newest_def not_less)
  from Cons.IH [of "pick_newest s n"] Cons.prems p(2) have
    ih: "fold pick_newest sts (pick_newest s n) \<in> set (pick_newest s n # sts)"
      "\<forall>st \<in> set (pick_newest s n # sts). rs_updated st \<le> rs_updated (fold pick_newest sts (pick_newest s n))"
    by auto
  then have "rs_updated (pick_newest s n) \<le> rs_updated (fold pick_newest sts (pick_newest s n))" by simp
  with b have "rs_updated s \<le> rs_updated (fold pick_newest sts (pick_newest s n))"
      "rs_id n \<noteq> [] \<Longrightarrow> rs_updated n \<le> rs_updated (fold pick_newest sts (pick_newest s n))"
    by (meson order_trans)+
  with ih p show ?case by auto
qed auto

lemma entries_nonempty: "list_all (\<lambda>(e, _). e \<noteq> []) (entries_of d fs)"
  by (auto simp: entries_of_def list_all_iff plain_name_def)

lemma InProgress_run:
  assumes "no_faults w"
  shows "fst (InProgressRotation applied w) = (case fget w baseDir of None \<Rightarrow> Inr zero_state
     | Some (DirN _ _ _) \<Rightarrow> Inr (fold pick_newest (owed w applied (entries_of baseDir (files w))) zero_state)
     | Some (FileN _ _ _ _) \<Rightarrow> Inl (Wrap ''ca-rotation: scan staging'' IOErr))"
proof -
  have "no_faults (tock w)" using assms by (simp add: no_faults_def fs_simps)
  with newest_in_run [OF this entries_nonempty, of applied zero_state] assms show ?thesis
    by (auto simp: InProgressRotation_def attempt_def read_dir_def run_simps split: option.splits node.splits)
qed

section \<open>The registry of retired keys\<close>

definition retired :: "'z os_scheme \<Rightarrow> string set" where
  "retired w = (case content w RetiredSAKeysPath of None \<Rightarrow> {} | Some d \<Rightarrow> set (parse_retired d))"

text \<open>A key identifier as the registry holds it: one trimmed, non-empty line.\<close>

definition key_line :: "string \<Rightarrow> bool" where
  "key_line x \<longleftrightarrow> x \<noteq> [] \<and> trim_space x = x \<and> CHR 0x0A \<notin> set x"

lemma parse_retired_lines: "list_all key_line (parse_retired d)"
proof -
  have "key_line (trim_space x)" if "x \<in> set (split_on (CHR 0x0A) d)" "trim_space x \<noteq> []" for x
    using that split_on_no_sep [OF that(1)] set_trim_space [of x] by (auto simp: key_line_def)
  then show ?thesis by (auto simp: parse_retired_def list_all_iff)
qed

lemma parse_retired_join:
  assumes "list_all key_line xs" "xs \<noteq> []"
  shows "set (parse_retired (join NL xs @ NL)) = set xs"
proof -
  have "split_on (CHR 0x0A) (join NL xs @ NL) = xs @ [[]]"
    using assms by (intro split_lines) (auto simp: list_all_iff key_line_def)
  then show ?thesis using assms by (auto simp: parse_retired_def list_all_iff key_line_def image_iff)
qed

lemma add_retired_set: "set (add_retired r ids) = set r \<union> {trim_space i |i. i \<in> set ids \<and> trim_space i \<noteq> []}"
  by (induction r ids rule: add_retired.induct) (auto simp: Let_def)

lemma add_retired_ext: "\<exists>zs. add_retired r ids = r @ zs"
proof (induction r ids rule: add_retired.induct)
  case (2 r x xs)
  then show ?case by (simp add: Let_def) (metis append.assoc)
qed simp

lemma LoadRetired_ok: "LoadRetiredSAKeys w = (Inr ks, w') \<Longrightarrow> w' = tock w \<and> set ks = retired w \<and> list_all key_line ks"
  using parse_retired_lines
  by (auto simp: LoadRetiredSAKeys_def attempt_def read_file_def retired_def content_def run_simps
      split: fault.splits option.splits node.splits sum.splits if_splits)

lemma retired_cong: "content w' RetiredSAKeysPath = content w RetiredSAKeysPath \<Longrightarrow> retired w' = retired w"
  by (simp add: retired_def)

lemma retired_tock [simp]: "retired (tock w) = retired w"
  by (rule retired_cong) (simp add: fs_simps)

lemma key_line_trim: "CHR 0x0A \<notin> set i \<Longrightarrow> trim_space i \<noteq> [] \<Longrightarrow> key_line (trim_space i)"
  using set_trim_space [of i] by (auto simp: key_line_def)

lemma RecordRetired_cases:
  assumes "RecordRetiredSAKeys ids w = (r, w')" "\<forall>i \<in> set ids. CHR 0x0A \<notin> set i"
    and "\<forall>t k. fault w t \<noteq> Torn k"
  shows "(r = Inr () \<and> retired w' = retired w \<union> {trim_space i |i. i \<in> set ids \<and> trim_space i \<noteq> []})
    \<or> (\<exists>e. r = Inl e \<and> retired w' = retired w)"
proof (cases "ids = []")
  case False
  with assms(1) have "andthen LoadRetiredSAKeys (\<lambda>retired. let retired' = add_retired retired ids in
      if retired' = retired then ret () else andthen (mkdir_all (dirname RetiredSAKeysPath) o755) (\<lambda>_.
         write_file RetiredSAKeysPath (join NL (sort retired') @ NL) o644)) w = (r, w')"
    by (simp add: RecordRetiredSAKeys_def)
  then show ?thesis
  proof (cases rule: andthen_cases)
    case (fail e)
    moreover have "snd (LoadRetiredSAKeys w) = tock w"
      by (auto simp: LoadRetiredSAKeys_def attempt_read_file run_simps split: sum.splits)
    ultimately show ?thesis by simp
  next
    case (ok ks w1)
    note ks = LoadRetired_ok [OF ok(1)]
    let ?ks' = "add_retired ks ids"
    have set': "set ?ks' = retired w \<union> {trim_space i |i. i \<in> set ids \<and> trim_space i \<noteq> []}"
      using ks by (simp add: add_retired_set)
    have rw1: "retired w1 = retired w" using ks by simp
    show ?thesis
    proof (cases "?ks' = ks")
      case True
      with ok ks set' rw1 show ?thesis by (auto simp: run_simps)
    next
      case False
      with ok(2) have "andthen (mkdir_all (dirname RetiredSAKeysPath) o755) (\<lambda>_.
         write_file RetiredSAKeysPath (join NL (sort ?ks') @ NL) o644) w1 = (r, w')" by (simp add: Let_def)
      then show ?thesis
      proof (cases rule: andthen_cases)
        case (fail e)
        have "content w' RetiredSAKeysPath = content w1 RetiredSAKeysPath"
          by (rule confinedD_content [OF confined_mkdir_all fail(1), of _ "{}"]) simp
        with fail rw1 show ?thesis using retired_cong by blast
      next
        case mk: (ok u w2)
        have "content w2 RetiredSAKeysPath = content w1 RetiredSAKeysPath"
          by (rule confinedD_content [OF confined_mkdir_all mk(1), of _ "{}"]) simp
        then have rw2: "retired w2 = retired w" using rw1 retired_cong by blast
        have "fault w2 = fault w"
          using framesD [OF frames_fault(8) mk(1)] ks by (simp add: fs_simps)
        then have nt: "now_fault w2 \<noteq> Torn k" for k using assms(3) by simp
        have "?ks' \<noteq> []" using False add_retired_ext [of ks ids] by auto
        moreover have "list_all key_line (sort ?ks')"
          using ks assms(2) key_line_trim by (fastforce simp: list_all_iff add_retired_set)
        moreover have "sort ?ks' \<noteq> []" using \<open>?ks' \<noteq> []\<close> by (metis length_0_conv length_sort)
        ultimately have p: "set (parse_retired (join NL (sort ?ks') @ NL)) = set ?ks'"
          by (simp add: parse_retired_join)
        show ?thesis
        proof (cases r)
          case (Inr x)
          then have "content w' RetiredSAKeysPath = Some (join NL (sort ?ks') @ NL)"
            using mk(2) write_file_content by simp
          with Inr p set' show ?thesis by (auto simp: retired_def)
        next
          case (Inl e)
          with mk(2) nt have "w' = tock w2"
            by (auto simp: write_file_def split: if_splits fault.splits)
          with Inl rw2 show ?thesis by simp
        qed
      qed
    qed
  qed
qed (use assms in \<open>auto simp: RecordRetiredSAKeys_def run_simps\<close>)

section \<open>Properties\<close>

text \<open>C16: a saved rotation state is read back exactly, with the time of the save, by the next
  LoadState that can read the file; nothing else of the node's rotation states changed.\<close>

theorem state_save_load:
  assumes "SaveState s w = (Inr (), w')" "now_fault w' = Fine"
  shows "LoadState (rs_id s) w' = (Inr (s\<lparr>rs_updated := clock w (tick w + 1)\<rparr>), tock w')
    \<and> (\<forall>rid. rid \<noteq> rs_id s \<longrightarrow> stored_state w' rid = stored_state w rid)"
proof -
  from LoadState_stored [OF assms(2) SaveState_stored [OF assms(1)]] show ?thesis
    using SaveState_other [of _ s w] assms(1) by auto
qed

definition demo_state :: rot_state where
  "demo_state = zero_state\<lparr>rs_id := ''rot-7'', rs_role := ''master'', rs_phase := PhaseCutover, rs_held := True\<rparr>"

lemma demo_save: "fst (SaveState demo_state calm_os) = Inr ()"
  by code_simp

lemma state_save_load_witness:
  "fst (LoadState ''rot-7'' (snd (SaveState demo_state calm_os)))
     = Inr (demo_state\<lparr>rs_updated := ''2026-01-01T00:00:00Z''\<rparr>)"
proof -
  have s: "SaveState demo_state calm_os = (Inr (), snd (SaveState demo_state calm_os))"
    using demo_save by (simp add: prod_eq_iff)
  have "now_fault (snd (SaveState demo_state calm_os)) = Fine"
    by code_simp
  from state_save_load [OF s this] show ?thesis
    by (simp add: demo_state_def calm_os_def)
qed

text \<open>C17: SaveState is atomic for every pattern of failures: a reader finds the new state when
  it reports success and what was there before when it reports an error.\<close>

theorem state_save_atomic:
  "case SaveState s w of
     (Inr _, w') \<Rightarrow> stored_state w' (rs_id s) = Some (s\<lparr>rs_updated := clock w (tick w + 1)\<rparr>)
   | (Inl _, w') \<Rightarrow> stored_state w' (rs_id s) = stored_state w (rs_id s)"
  using SaveState_outcome [of s w]
  by (auto simp: stored_state_def parse_state_bytes split: prod.splits sum.splits)



text \<open>C19: as long as no write is torn, retiring keys only adds to the registry, whether the
  call succeeds or fails, and on success every key that was given is retired.\<close>

theorem retired_keys_grow:
  assumes "\<forall>i \<in> set ids. CHR 0x0A \<notin> set i" "\<forall>t k. fault w t \<noteq> Torn k"
  shows "case RecordRetiredSAKeys ids w of
     (Inr _, w') \<Rightarrow> retired w' = retired w \<union> {trim_space i |i. i \<in> set ids \<and> trim_space i \<noteq> []}
   | (Inl _, w') \<Rightarrow> retired w' = retired w"
  using RecordRetired_cases [OF _ assms] by (auto split: prod.splits sum.splits)

lemma retired_keys_grow_witness:
  "retired (snd (RecordRetiredSAKeys [''k1''] calm_os)) = {''k1''}"
proof -
  have ok: "fst (RecordRetiredSAKeys [''k1''] calm_os) = Inr ()" by code_simp
  have e: "retired calm_os = {}" by (simp add: retired_def content_def fget_def calm_os_def)
  have t: "trim_space ''k1'' = ''k1''" by code_simp
  show ?thesis
    using retired_keys_grow [of "[''k1'']" calm_os] ok e t
    by (simp add: calm_os_def case_prod_unfold)
qed

text \<open>With no I/O failure, InProgressRotation returns a rotation this node started and did
  not finish, never the applied one, and of all those the one saved last; it returns the zero
  state exactly when there is none.\<close>

theorem in_progress_newest:
  assumes "no_faults w" "is_dir w baseDir"
  shows "\<exists>st. fst (InProgressRotation applied w) = Inr st
    \<and> (let cands = owed w applied (entries_of baseDir (files w)) in
        (cands = [] \<and> st = zero_state)
      \<or> (st \<in> set cands \<and> rs_id st \<noteq> applied \<and> owed_phase (rs_phase st)
          \<and> (\<forall>c \<in> set cands. rs_updated c \<le> rs_updated st)))"
proof -
  let ?cands = "owed w applied (entries_of baseDir (files w))"
  have "\<exists>m u g. fget w baseDir = Some (DirN m u g)"
    using assms(2) by (auto simp: is_dir_def baseDir_def split: option.splits node.splits)
  then have run: "fst (InProgressRotation applied w) = Inr (fold pick_newest ?cands zero_state)"
    using InProgress_run [OF assms(1)] by auto
  have z: "rs_id zero_state = []" by (simp add: zero_state_def)
  show ?thesis
  proof (cases "?cands = []")
    case False
    have ids: "rs_id st \<noteq> []" if "st \<in> set ?cands" for st
      using owed_ids [OF entries_nonempty that] by blast
    have f: "fold pick_newest ?cands zero_state \<in> set ?cands"
        "\<forall>c \<in> set ?cands. rs_updated c \<le> rs_updated (fold pick_newest ?cands zero_state)"
      using fold_pick [of ?cands zero_state, OF ids] z False by simp_all
    from owed_ids [OF entries_nonempty f(1)] f run show ?thesis by (simp add: Let_def)
  qed (use run in simp)
qed

lemma in_progress_newest_witness:
  "fst (InProgressRotation ''rot-6'' (snd (SaveState demo_state calm_os)))
     = Inr (demo_state\<lparr>rs_updated := ''2026-01-01T00:00:00Z''\<rparr>)"
proof -
  let ?w = "snd (SaveState demo_state calm_os)"
  have "frames fault (SaveState demo_state :: (os, unit) io)"
    unfolding SaveState_def Let_def by (intro frames_intro)
  then have "no_faults ?w"
    using calm_no_faults by (simp add: no_faults_def frames_def)
  moreover have "is_dir ?w baseDir" by code_simp
  moreover have "entries_of baseDir (files ?w) = [(''rot-7'', True)]" by code_simp
  moreover have "stored_state ?w ''rot-7'' = Some (demo_state\<lparr>rs_updated := ''2026-01-01T00:00:00Z''\<rparr>)"
    using SaveState_stored [of demo_state calm_os] demo_save by (simp add: prod_eq_iff demo_state_def calm_os_def)
  then have "owed ?w ''rot-6'' [(''rot-7'', True)] = [demo_state\<lparr>rs_updated := ''2026-01-01T00:00:00Z''\<rparr>]"
    by (simp add: owed_def map_filter_simps demo_state_def owed_phase_def)
  ultimately show ?thesis using in_progress_newest [of ?w "''rot-6''"] by (auto simp: Let_def)
qed

text \<open>C25: a read error on the history that is not a missing file makes recordFinalized replace
  the whole history by the new rotation, although it reports success.\<close>

theorem history_lost_on_read_error:
  assumes "fault w (tick w) = Before" "\<forall>t > tick w. fault w t = Fine"
    and "is_dir w (dirname finalizedPath)" "\<not> is_dir w finalizedPath"
    and "\<not> is_dir w (finalizedPath @ ''.tmp'')" "word_str rid"
  shows "fst (recordFinalized rid w) = Inr () \<and> history (snd (recordFinalized rid w)) = [rid]"
proof -
  let ?tmp = "finalizedPath @ ''.tmp''"
  have r: "readFinalized w = (Inr [], tock w)"
    using assms(1) by (simp add: readFinalized_def attempt_def read_file_def run_simps)
  have b: "push_bounded finalizedKeep rid [] = [rid]"
    by (simp add: push_bounded_def finalizedKeep_def)
  have dtmp: "dirname ?tmp = dirname finalizedPath" and dne: "dirname finalizedPath \<noteq> ?tmp" by code_simp+
  let ?w2 = "tock (put_content ?tmp (rid @ NL) 420 (tock w))"
  have wr: "write_file ?tmp (rid @ NL) 420 (tock w) = (Inr (), ?w2)"
    using assms(2-5) dtmp by (simp add: write_file_def fs_simps)
  have "fget ?w2 ?tmp = fget (put_content ?tmp (rid @ NL) 420 (tock w)) ?tmp" by (simp add: fs_simps)
  then obtain m u g where t: "fget ?w2 ?tmp = Some (FileN (rid @ NL) m u g)"
    using assms(5) by (auto simp: put_content_def is_dir_def fs_simps split: option.splits node.splits)
  have d: "is_dir ?w2 (dirname finalizedPath)" "\<not> is_dir ?w2 finalizedPath"
    using assms(3,4) put_content_other(1) [of _ ?tmp "rid @ NL" 420 "tock w"]
    using dne by (auto simp: is_dir_def fs_simps)
  have "rename ?tmp finalizedPath ?w2 = (Inr (), tock (fput finalizedPath (FileN (rid @ NL) m u g) (fdel ?tmp ?w2)))"
    using t d assms(2) by (simp add: rename_def fs_simps)
  then have "recordFinalized rid w = (Inr (), tock (fput finalizedPath (FileN (rid @ NL) m u g) (fdel ?tmp ?w2)))"
    using r b wr by (simp add: recordFinalized_def andthen_def Let_def)
  moreover have "str_fields (rid @ NL) = [rid]"
    using fields_lines [of "[rid]"] assms(6) by simp
  ultimately show ?thesis by (simp add: history_def fs_simps)
qed

definition flaky_os :: os where
  "flaky_os = calm_os\<lparr>files := [(''/var/lib/magnum'', DirN 493 0 0),
     (finalizedPath, FileN (''r1'' @ NL @ ''r2'' @ NL) 420 0 0)],
     fault := (\<lambda>t. if t = 0 then Before else Fine)\<rparr>"

lemma history_lost_on_read_error_witness:
  "history flaky_os = [''r1'', ''r2''] \<and> history (snd (recordFinalized ''r3'' flaky_os)) = [''r3'']"
proof -
  have "history flaky_os = [''r1'', ''r2'']" by code_simp
  moreover have "is_dir flaky_os (dirname finalizedPath)" "\<not> is_dir flaky_os finalizedPath"
    "\<not> is_dir flaky_os (finalizedPath @ ''.tmp'')" "word_str ''r3''" by code_simp+
  moreover have "fault flaky_os (tick flaky_os) = Before" "\<forall>t > tick flaky_os. fault flaky_os t = Fine"
    by (simp_all add: flaky_os_def calm_os_def)
  ultimately show ?thesis using history_lost_on_read_error [of flaky_os "''r3''"] by simp
qed

end
