(* ===== verification/Kube.thy ===== *)
theory Kube
  imports Prelude
begin

text \<open>
  The Kubernetes API server as the program uses it: the node list, one ConfigMap, one
  Lease and one Role with its binding, each behind calls that may fail, and fail after
  having taken effect. Before every call the rest of the cluster may act: \<open>a_env\<close> maps
  the objects to what the other clients made of them, so a Get and the Update that
  follows it are not one step. Optimistic concurrency is the server's: every write gets
  a fresh revision and an Update with another revision than the stored one is a
  Conflict. The environment, the failures and the clock are arbitrary; \<open>rely\<close> states
  the documented behaviour of revisions. \<open>a_log\<close> is a ghost: the steps this client itself
  made, as objects before and after. Times are seconds.
\<close>

section \<open>Objects\<close>

type_synonym smap = "string \<Rightarrow> string option"

definition sget :: "smap \<Rightarrow> string \<Rightarrow> string" where
  "sget m k = (case m k of None \<Rightarrow> [] | Some v \<Rightarrow> v)"

record condition =
  cond_type :: string
  cond_status :: string
  cond_since :: "int option"

record knode =
  n_name :: string
  n_labels :: smap
  n_annotations :: smap
  n_deleting :: bool
  n_conditions :: "condition list"

record configmap =
  cm_data :: smap
  cm_rev :: nat

record lease =
  l_holder :: "string option"
  l_duration :: "int option"
  l_acquire :: "int option"
  l_renew :: "int option"
  l_rev :: nat

record kube =
  k_nodes :: "knode list"
  k_cm :: "configmap option"
  k_lease :: "lease option"
  k_role :: bool
  k_binding :: bool
  k_rev :: nat

datatype apifault = AOk | ALost | AAppliedLost

record api =
  ak :: kube
  a_tick :: nat
  a_fault :: "nat \<Rightarrow> apifault"
  a_env :: "nat \<Rightarrow> kube \<Rightarrow> kube"
  a_time :: "nat \<Rightarrow> int"
  a_cancelled :: "nat \<Rightarrow> bool"
  a_log :: "(kube \<times> kube) list"

section \<open>Calls\<close>

definition enter :: "api \<Rightarrow> api" where
  "enter w = w\<lparr>ak := a_env w (a_tick w) (ak w), a_tick := a_tick w + 1\<rparr>"

definition logged :: "kube \<Rightarrow> api \<Rightarrow> api" where
  "logged k w = w\<lparr>a_log := a_log w @ [(k, ak w)]\<rparr>"

definition api_call :: "(kube \<Rightarrow> 'a result \<times> kube) \<Rightarrow> (api, 'a) io" where
  "api_call f w = (let w' = enter w; x = f (ak w') in case a_fault w (a_tick w) of
     AOk \<Rightarrow> (fst x, logged (ak w') (w'\<lparr>ak := snd x\<rparr>))
   | ALost \<Rightarrow> (Inl IOErr, w')
   | AAppliedLost \<Rightarrow> (Inl IOErr, logged (ak w') (w'\<lparr>ak := snd x\<rparr>)))"

definition list_nodes :: "(api, knode list) io" where
  "list_nodes = api_call (\<lambda>k. (Inr (k_nodes k), k))"

definition get_cm :: "(api, configmap) io" where
  "get_cm = api_call (\<lambda>k. (case k_cm k of None \<Rightarrow> Inl NotExist | Some c \<Rightarrow> Inr c, k))"

definition put_cm :: "smap \<Rightarrow> kube \<Rightarrow> kube" where
  "put_cm d k = k\<lparr>k_cm := Some \<lparr>cm_data = d, cm_rev = k_rev k + 1\<rparr>, k_rev := k_rev k + 1\<rparr>"

definition create_cm :: "smap \<Rightarrow> (api, unit) io" where
  "create_cm d = api_call (\<lambda>k. (case k_cm k of None \<Rightarrow> (Inr (), put_cm d k)
     | Some _ \<Rightarrow> (Inl AlreadyExists, k)))"

text \<open>Update of the object that was read as \<open>c\<close>, with new data.\<close>

definition update_cm :: "configmap \<Rightarrow> smap \<Rightarrow> (api, unit) io" where
  "update_cm c d = api_call (\<lambda>k. (case k_cm k of None \<Rightarrow> (Inl NotExist, k)
     | Some c' \<Rightarrow> if cm_rev c' = cm_rev c then (Inr (), put_cm d k) else (Inl Conflict, k)))"

definition patch_cm :: "string \<Rightarrow> string \<Rightarrow> (api, unit) io" where
  "patch_cm key v = api_call (\<lambda>k. (case k_cm k of None \<Rightarrow> (Inl NotExist, k)
     | Some c \<Rightarrow> (Inr (), put_cm ((cm_data c)(key \<mapsto> v)) k)))"

definition annotate_node :: "string \<Rightarrow> string \<Rightarrow> string \<Rightarrow> (api, unit) io" where
  "annotate_node name key v = api_call (\<lambda>k.
     if \<exists>n \<in> set (k_nodes k). n_name n = name
     then (Inr (), k\<lparr>k_nodes := map (\<lambda>n. if n_name n = name
        then n\<lparr>n_annotations := (n_annotations n)(key \<mapsto> v)\<rparr> else n) (k_nodes k), k_rev := k_rev k + 1\<rparr>)
     else (Inl NotExist, k))"

definition get_lease :: "(api, lease) io" where
  "get_lease = api_call (\<lambda>k. (case k_lease k of None \<Rightarrow> Inl NotExist | Some l \<Rightarrow> Inr l, k))"

definition put_lease :: "lease \<Rightarrow> kube \<Rightarrow> kube" where
  "put_lease l k = k\<lparr>k_lease := Some (l\<lparr>l_rev := k_rev k + 1\<rparr>), k_rev := k_rev k + 1\<rparr>"

definition create_lease :: "lease \<Rightarrow> (api, unit) io" where
  "create_lease l = api_call (\<lambda>k. (case k_lease k of None \<Rightarrow> (Inr (), put_lease l k)
     | Some _ \<Rightarrow> (Inl AlreadyExists, k)))"

definition update_lease :: "lease \<Rightarrow> (api, unit) io" where
  "update_lease l = api_call (\<lambda>k. (case k_lease k of None \<Rightarrow> (Inl NotExist, k)
     | Some l' \<Rightarrow> if l_rev l' = l_rev l then (Inr (), put_lease l k) else (Inl Conflict, k)))"

definition get_flag :: "(kube \<Rightarrow> bool) \<Rightarrow> (api, unit) io" where
  "get_flag f = api_call (\<lambda>k. (if f k then Inr () else Inl NotExist, k))"

definition create_flag :: "(kube \<Rightarrow> bool) \<Rightarrow> (kube \<Rightarrow> kube) \<Rightarrow> (api, unit) io" where
  "create_flag f g = api_call (\<lambda>k. if f k then (Inl AlreadyExists, k) else (Inr (), g k))"

text \<open>time.Now at the current point of the run; waiting passes a tick, during which the
  context may be cancelled.\<close>

definition time_now :: "api \<Rightarrow> int" where
  "time_now w = a_time w (a_tick w)"

definition nap :: "(api, unit) io" where
  "nap w = (if a_cancelled w (a_tick w) then Inl CtxDone else Inr (), enter w)"

text \<open>retry.RetryOnConflict with retry.DefaultRetry: five attempts.\<close>

fun retry_steps :: "nat \<Rightarrow> ('w, 'a) io \<Rightarrow> ('w, 'a) io" where
  "retry_steps 0 m = m"
| "retry_steps (Suc n) m = (\<lambda>w. case m w of
     (Inl e, w') \<Rightarrow> if is_conflict e then retry_steps n m w' else (Inl e, w')
   | (Inr x, w') \<Rightarrow> (Inr x, w'))"

definition RetryOnConflict :: "('w, 'a) io \<Rightarrow> ('w, 'a) io" where
  "RetryOnConflict m = retry_steps 4 m"

section \<open>Facts\<close>

named_theorems kube_simps \<open>how the objects answer after a write\<close>

lemma enter_fields [kube_simps]:
  "ak (enter w) = a_env w (a_tick w) (ak w)" "a_tick (enter w) = a_tick w + 1"
  "a_fault (enter w) = a_fault w" "a_env (enter w) = a_env w" "a_time (enter w) = a_time w"
  "a_cancelled (enter w) = a_cancelled w" "a_log (enter w) = a_log w"
  by (simp_all add: enter_def)

lemma logged_fields [kube_simps]:
  "ak (logged k w) = ak w" "a_tick (logged k w) = a_tick w" "a_fault (logged k w) = a_fault w"
  "a_env (logged k w) = a_env w" "a_time (logged k w) = a_time w" "a_cancelled (logged k w) = a_cancelled w"
  "a_log (logged k w) = a_log w @ [(k, ak w)]"
  by (simp_all add: logged_def)

lemma put_cm_fields [kube_simps]:
  "k_cm (put_cm d k) = Some \<lparr>cm_data = d, cm_rev = k_rev k + 1\<rparr>" "k_nodes (put_cm d k) = k_nodes k"
  "k_lease (put_cm d k) = k_lease k" "k_rev (put_cm d k) = k_rev k + 1"
  by (simp_all add: put_cm_def)

lemma put_lease_fields [kube_simps]:
  "k_lease (put_lease l k) = Some (l\<lparr>l_rev := k_rev k + 1\<rparr>)" "k_nodes (put_lease l k) = k_nodes k"
  "k_cm (put_lease l k) = k_cm k" "k_rev (put_lease l k) = k_rev k + 1"
  by (simp_all add: put_lease_def)

lemma retry_ok:
  "retry_steps n m w = (Inr x, w') \<Longrightarrow> \<exists>w0. m w0 = (Inr x, w')"
  by (induction n arbitrary: w) (auto split: prod.splits sum.splits if_splits)

text \<open>A property of the world that every attempt keeps holds where the winning attempt starts.\<close>

lemma retry_ok_from:
  assumes "retry_steps n m w = (Inr x, w')" "keeps P m" "P w"
  shows "\<exists>w0. P w0 \<and> m w0 = (Inr x, w')"
  using assms(1,3)
proof (induction n arbitrary: w)
  case (Suc n)
  obtain r w1 where m: "m w = (r, w1)" by (cases "m w")
  then have "P w1" using keepsD' [OF assms(2) Suc.prems(2)] by blast
  with Suc m show ?case by (cases r) (auto split: if_splits)
qed auto

lemma keeps_retry [keeps_intro]: "keeps P m \<Longrightarrow> keeps P (retry_steps n m)"
proof (induction n)
  case (Suc n)
  then show ?case
    unfolding keeps_def retry_steps.simps
    by (auto split: prod.splits sum.splits if_splits)
qed simp

lemma keeps_RetryOnConflict [keeps_intro]: "keeps P m \<Longrightarrow> keeps P (RetryOnConflict m)"
  by (simp add: RetryOnConflict_def keeps_retry)

text \<open>Every write of the environment takes a fresh revision, and none is handed out twice.\<close>

definition revs_ok :: "kube \<Rightarrow> bool" where
  "revs_ok k \<longleftrightarrow> (\<forall>c. k_cm k = Some c \<longrightarrow> cm_rev c \<le> k_rev k) \<and> (\<forall>l. k_lease k = Some l \<longrightarrow> l_rev l \<le> k_rev k)"

definition rely :: "kube \<Rightarrow> kube \<Rightarrow> bool" where
  "rely k k' \<longleftrightarrow> k_rev k \<le> k_rev k'
     \<and> (\<forall>c'. k_cm k' = Some c' \<longrightarrow> cm_rev c' \<le> k_rev k \<longrightarrow> k_cm k = Some c')
     \<and> (\<forall>l'. k_lease k' = Some l' \<longrightarrow> l_rev l' \<le> k_rev k \<longrightarrow> k_lease k = Some l')
     \<and> revs_ok k'"

definition env_ok :: "api \<Rightarrow> bool" where
  "env_ok w \<longleftrightarrow> (\<forall>t k. revs_ok k \<longrightarrow> rely k (a_env w t k)) \<and> revs_ok (ak w)"

text \<open>No interference and no failures.\<close>

definition api_quiet :: "api \<Rightarrow> bool" where
  "api_quiet w \<longleftrightarrow> (\<forall>t. a_fault w t = AOk) \<and> (\<forall>t k. a_env w t k = k)"

lemma revs_ok_put [kube_simps]: "revs_ok k \<Longrightarrow> revs_ok (put_cm d k)" "revs_ok k \<Longrightarrow> revs_ok (put_lease l k)"
  by (force simp: revs_ok_def kube_simps)+

definition orderly :: "(kube \<Rightarrow> 'a result \<times> kube) \<Rightarrow> bool" where
  "orderly f \<longleftrightarrow> (\<forall>k. revs_ok k \<longrightarrow> revs_ok (snd (f k)))"

lemma env_ok_enter: "env_ok w \<Longrightarrow> env_ok (enter w)"
proof -
  assume e: "env_ok w"
  then have "rely (ak w) (a_env w (a_tick w) (ak w))" by (simp add: env_ok_def)
  then have "revs_ok (a_env w (a_tick w) (ak w))" by (simp only: rely_def)
  with e show ?thesis by (simp add: env_ok_def kube_simps)
qed

lemma env_ok_upd: "env_ok w \<Longrightarrow> revs_ok k \<Longrightarrow> env_ok (w\<lparr>ak := k\<rparr>)"
  by (simp add: env_ok_def)

lemma env_ok_logged [simp]: "env_ok (logged k w) = env_ok w"
  by (simp add: env_ok_def kube_simps)

lemma keeps_env_ok:
  assumes "orderly f"
  shows "keeps env_ok (api_call f)"
  unfolding keeps_def
proof (intro allI impI)
  fix w assume "env_ok w"
  then have e: "env_ok (enter w)" by (rule env_ok_enter)
  then have "revs_ok (snd (f (ak (enter w))))" using assms by (simp add: orderly_def env_ok_def)
  then have "env_ok ((enter w)\<lparr>ak := snd (f (ak (enter w)))\<rparr>)" by (rule env_ok_upd [OF e])
  with e show "env_ok (snd (api_call f w))"
    by (simp add: api_call_def Let_def split: apifault.splits)
qed

lemma keeps_env_ok_calls [keeps_intro]:
  "keeps env_ok list_nodes" "keeps env_ok get_cm" "keeps env_ok (create_cm d)"
  "keeps env_ok (update_cm c d)" "keeps env_ok (patch_cm key v)"
  "keeps env_ok get_lease" "keeps env_ok (create_lease l)" "keeps env_ok (update_lease l)"
  unfolding list_nodes_def get_cm_def create_cm_def update_cm_def patch_cm_def get_lease_def
    create_lease_def update_lease_def
  by (intro keeps_env_ok; force simp: orderly_def kube_simps split: option.splits if_splits)+

section \<open>The steps a client makes\<close>

text \<open>\<open>guards G m\<close>: in an environment that keeps the rules, every step that \<open>m\<close> itself makes
  satisfies \<open>G\<close>, whether its calls succeed, fail, or fail after taking effect. \<open>G\<close> is what the
  other clients may rely on.\<close>

definition guarded :: "(kube \<Rightarrow> kube \<Rightarrow> bool) \<Rightarrow> api \<Rightarrow> bool" where
  "guarded G w \<longleftrightarrow> env_ok w \<and> (\<forall>(k, k') \<in> set (a_log w). G k k')"

definition guards :: "(kube \<Rightarrow> kube \<Rightarrow> bool) \<Rightarrow> (api, 'a) io \<Rightarrow> bool" where
  "guards G m \<longleftrightarrow> keeps (guarded G) m"

lemma guarded_enter: "guarded G w \<Longrightarrow> guarded G (enter w)"
  by (simp add: guarded_def env_ok_enter kube_simps)

lemma guards_call:
  assumes "orderly f" "\<And>k. G k (snd (f k))"
  shows "keeps (guarded G) (api_call f)"
  unfolding keeps_def
proof (intro allI impI)
  fix w assume g: "guarded G w"
  have "env_ok (snd (api_call f w))"
    using keepsD [OF keeps_env_ok [OF assms(1)]] g by (simp add: guarded_def)
  moreover have "set (a_log (snd (api_call f w))) \<subseteq> set (a_log w) \<union> {(ak (enter w), snd (f (ak (enter w))))}"
    by (auto simp: api_call_def Let_def kube_simps split: apifault.splits)
  ultimately show "guarded G (snd (api_call f w))"
    using g assms(2) by (fastforce simp: guarded_def)
qed

lemma guards_reads [keeps_intro]:
  assumes "\<And>k. G k k"
  shows "keeps (guarded G) list_nodes" "keeps (guarded G) get_cm" "keeps (guarded G) get_lease"
  unfolding list_nodes_def get_cm_def get_lease_def
  by (intro guards_call; simp add: orderly_def assms)+

lemma guards_create_cm:
  "(\<And>k. G k k) \<Longrightarrow> (\<And>k. k_cm k = None \<Longrightarrow> G k (put_cm d k)) \<Longrightarrow> keeps (guarded G) (create_cm d)"
  unfolding create_cm_def by (intro guards_call) (auto simp: orderly_def kube_simps split: option.splits)

text \<open>An Update that follows its Get only ever replaces the object that was read.\<close>

lemma update_log:
  "set (a_log (snd (update_cm c d w))) \<subseteq> set (a_log w) \<union> {(ak (enter w), ak (enter w))}
     \<union> {(ak (enter w), put_cm d (ak (enter w))) |c'. k_cm (ak (enter w)) = Some c' \<and> cm_rev c' = cm_rev c}"
  by (auto simp: update_cm_def api_call_def Let_def kube_simps split: apifault.splits option.splits if_splits)

text \<open>\<open>cm_since c w\<close>: the ConfigMap was read as \<open>c\<close>, and whatever carries its revision is \<open>c\<close>.\<close>

definition cm_since :: "configmap \<Rightarrow> api \<Rightarrow> bool" where
  "cm_since c w \<longleftrightarrow> env_ok w \<and> cm_rev c \<le> k_rev (ak w) \<and>
     (\<forall>c'. k_cm (ak w) = Some c' \<longrightarrow> cm_rev c' = cm_rev c \<longrightarrow> c' = c)"

lemma get_cm_ok:
  "get_cm w = (Inr c, w') \<Longrightarrow> w' = logged (ak (enter w)) (enter w) \<and> k_cm (ak (enter w)) = Some c"
  by (auto simp: get_cm_def api_call_def Let_def split: apifault.splits option.splits)

lemma read_world:
  "snd (list_nodes w) \<in> {enter w, logged (ak (enter w)) (enter w)}"
  "snd (get_cm w) \<in> {enter w, logged (ak (enter w)) (enter w)}"
  "snd (get_lease w) \<in> {enter w, logged (ak (enter w)) (enter w)}"
  by (auto simp: list_nodes_def get_cm_def get_lease_def api_call_def Let_def split: apifault.splits)

lemma cm_since_logged [simp]: "cm_since c (logged k w) = cm_since c w"
  by (simp add: cm_since_def kube_simps)

lemma cm_since_get:
  assumes "env_ok w" "get_cm w = (Inr c, w')"
  shows "cm_since c w'"
proof -
  have e: "env_ok (enter w)" by (rule env_ok_enter [OF assms(1)])
  then have "revs_ok (ak (enter w))" by (simp add: env_ok_def)
  then have "cm_since c (enter w)" using get_cm_ok [OF assms(2)] e by (auto simp: cm_since_def revs_ok_def)
  then show ?thesis using get_cm_ok [OF assms(2)] by simp
qed

lemma cm_since_enter: "cm_since c w \<Longrightarrow> cm_since c (enter w)"
proof -
  assume c: "cm_since c w"
  then have e: "env_ok w" by (simp add: cm_since_def)
  then have r: "rely (ak w) (ak (enter w))" by (simp add: env_ok_def kube_simps)
  have "c' = c" if "k_cm (ak (enter w)) = Some c'" "cm_rev c' = cm_rev c" for c'
  proof -
    have "k_cm (ak w) = Some c'" using r c that by (simp add: rely_def cm_since_def)
    with c that(2) show ?thesis by (simp add: cm_since_def)
  qed
  moreover have "k_rev (ak w) \<le> k_rev (ak (enter w))" using r by (simp add: rely_def)
  ultimately show ?thesis using c env_ok_enter [OF e] by (auto simp: cm_since_def)
qed

lemma keeps_since_list: "keeps (cm_since c) list_nodes"
proof (rule keepsI)
  fix w assume "cm_since c w"
  then show "cm_since c (snd (list_nodes w))" using read_world(1) [of w] cm_since_enter [of c w] by auto
qed

lemma guarded_update_cm:
  assumes "\<And>k. G k k" "\<And>k. k_cm k = Some c \<Longrightarrow> G k (put_cm d k)" "cm_since c w" "guarded G w"
  shows "guarded G (snd (update_cm c d w))"
proof -
  have "env_ok (snd (update_cm c d w))"
    using assms(4) keepsD [OF keeps_env_ok_calls(4)] by (simp add: guarded_def)
  moreover have "G k k'" if "(k, k') \<in> set (a_log (snd (update_cm c d w)))" for k k'
    using subsetD [OF update_log that] assms cm_since_enter [OF assms(3)]
    by (auto simp: guarded_def cm_since_def)
  ultimately show ?thesis by (auto simp: guarded_def)
qed

text \<open>Read, then conditional write: when the write succeeds, the object it replaced is the one
  that was read, whatever happened in between.\<close>

lemma update_cm_ok:
  "update_cm c d w = (Inr (), w') \<Longrightarrow>
   \<exists>c'. k_cm (ak (enter w)) = Some c' \<and> cm_rev c' = cm_rev c
     \<and> w' = logged (ak (enter w)) ((enter w)\<lparr>ak := put_cm d (ak (enter w))\<rparr>)"
  by (auto simp: update_cm_def api_call_def Let_def split: apifault.splits option.splits if_splits)

lemma cm_read_write:
  assumes "cm_since c w1" "update_cm c d w1 = (Inr (), w2)"
  shows "k_cm (ak (enter w1)) = Some c \<and> ak w2 = put_cm d (ak (enter w1))"
  using update_cm_ok [OF assms(2)] cm_since_enter [OF assms(1)] by (auto simp: cm_since_def kube_simps)

lemma get_lease_ok:
  "get_lease w = (Inr l, w') \<Longrightarrow> w' = logged (ak (enter w)) (enter w) \<and> k_lease (ak (enter w)) = Some l"
  by (auto simp: get_lease_def api_call_def Let_def split: apifault.splits option.splits)

definition lease_since :: "lease \<Rightarrow> api \<Rightarrow> bool" where
  "lease_since l w \<longleftrightarrow> env_ok w \<and> l_rev l \<le> k_rev (ak w) \<and>
     (\<forall>l'. k_lease (ak w) = Some l' \<longrightarrow> l_rev l' = l_rev l \<longrightarrow> l' = l)"

lemma lease_since_logged [simp]: "lease_since c (logged k w) = lease_since c w"
  by (simp add: lease_since_def kube_simps)

lemma lease_since_get:
  assumes "env_ok w" "get_lease w = (Inr l, w')"
  shows "lease_since l w'"
proof -
  have e: "env_ok (enter w)" by (rule env_ok_enter [OF assms(1)])
  then have "revs_ok (ak (enter w))" by (simp add: env_ok_def)
  then have "lease_since l (enter w)" using get_lease_ok [OF assms(2)] e by (auto simp: lease_since_def revs_ok_def)
  then show ?thesis using get_lease_ok [OF assms(2)] by simp
qed

lemma lease_since_enter: "lease_since l w \<Longrightarrow> lease_since l (enter w)"
proof -
  assume c: "lease_since l w"
  then have e: "env_ok w" by (simp add: lease_since_def)
  then have r: "rely (ak w) (ak (enter w))" by (simp add: env_ok_def kube_simps)
  have "l' = l" if "k_lease (ak (enter w)) = Some l'" "l_rev l' = l_rev l" for l'
  proof -
    have "k_lease (ak w) = Some l'" using r c that by (simp add: rely_def lease_since_def)
    with c that(2) show ?thesis by (simp add: lease_since_def)
  qed
  moreover have "k_rev (ak w) \<le> k_rev (ak (enter w))" using r by (simp add: rely_def)
  ultimately show ?thesis using c env_ok_enter [OF e] by (auto simp: lease_since_def)
qed

lemma update_lease_ok:
  "update_lease l w = (Inr (), w') \<Longrightarrow>
   \<exists>l'. k_lease (ak (enter w)) = Some l' \<and> l_rev l' = l_rev l
     \<and> w' = logged (ak (enter w)) ((enter w)\<lparr>ak := put_lease l (ak (enter w))\<rparr>)"
  by (auto simp: update_lease_def api_call_def Let_def split: apifault.splits option.splits if_splits)

lemma update_lease_log:
  "set (a_log (snd (update_lease l w))) \<subseteq> set (a_log w) \<union> {(ak (enter w), ak (enter w))}
     \<union> {(ak (enter w), put_lease l (ak (enter w))) |l'. k_lease (ak (enter w)) = Some l' \<and> l_rev l' = l_rev l}"
  by (auto simp: update_lease_def api_call_def Let_def kube_simps split: apifault.splits option.splits if_splits)

lemma guarded_update_lease:
  assumes "\<And>k. G k k" "\<And>k. k_lease k = Some l \<Longrightarrow> G k (put_lease l' k)" "lease_since l w" "guarded G w"
    and "l_rev l' = l_rev l"
  shows "guarded G (snd (update_lease l' w))"
proof -
  have "env_ok (snd (update_lease l' w))"
    using assms(4) keepsD [OF keeps_env_ok_calls(8)] by (simp add: guarded_def)
  moreover have "G k k'" if "(k, k') \<in> set (a_log (snd (update_lease l' w)))" for k k'
    using subsetD [OF update_lease_log that] assms lease_since_enter [OF assms(3)]
    by (auto simp: guarded_def lease_since_def)
  ultimately show ?thesis by (auto simp: guarded_def)
qed

end
