(* ===== verification/TimeText.thy ===== *)
theory TimeText
  imports Prelude
begin

text \<open>
  Times in the text form the program writes and reads: time.RFC3339 in UTC, and the
  rendering of a duration of whole seconds. A time is a number of seconds since 1970.
  The reader accepts exactly the texts the writer produces; other spellings of RFC 3339
  (offsets, fractions) do not occur in what the program stores. Standard library.
\<close>

definition civil_of_days :: "int \<Rightarrow> int \<times> int \<times> int" where
  "civil_of_days d = (let z = d + 719468; era = z div 146097; doe = z mod 146097;
     yoe = (doe - doe div 1460 + doe div 36524 - doe div 146096) div 365;
     doy = doe - (365 * yoe + yoe div 4 - yoe div 100);
     mp = (5 * doy + 2) div 153;
     day = doy - (153 * mp + 2) div 5 + 1;
     m = (if mp < 10 then mp + 3 else mp - 9)
   in (yoe + era * 400 + (if m \<le> 2 then 1 else 0), m, day))"

definition days_of_civil :: "int \<Rightarrow> int \<Rightarrow> int \<Rightarrow> int" where
  "days_of_civil y m d = (let y' = (if m \<le> 2 then y - 1 else y); era = y' div 400; yoe = y' mod 400;
     doy = (153 * (if m > 2 then m - 3 else m + 9) + 2) div 5 + d - 1;
     doe = yoe * 365 + yoe div 4 - yoe div 100 + doy
   in era * 146097 + doe - 719468)"

definition pad :: "nat \<Rightarrow> int \<Rightarrow> string" where
  "pad n i = (let s = nat_str (nat i) in replicate (n - length s) (CHR ''0'') @ s)"

definition format_time :: "int \<Rightarrow> string" where
  "format_time t = (case civil_of_days (t div 86400) of (y, m, d) \<Rightarrow> let s = t mod 86400 in
     pad 4 y @ ''-'' @ pad 2 m @ ''-'' @ pad 2 d @ ''T'' @ pad 2 (s div 3600) @ '':'' @
     pad 2 (s div 60 mod 60) @ '':'' @ pad 2 (s mod 60) @ ''Z'')"

definition digits_at :: "nat \<Rightarrow> nat \<Rightarrow> string \<Rightarrow> int" where
  "digits_at i n s = int (digits_val (take n (drop i s)))"

definition parse_time :: "string \<Rightarrow> int option" where
  "parse_time s = (let t = days_of_civil (digits_at 0 4 s) (digits_at 5 2 s) (digits_at 8 2 s) * 86400
       + digits_at 11 2 s * 3600 + digits_at 14 2 s * 60 + digits_at 17 2 s
     in if length s = 20 \<and> format_time t = s then Some t else None)"

definition zero_time :: int where "zero_time = - 62135596800"

text \<open>Duration.String of a whole number of seconds.\<close>

definition duration_text :: "int \<Rightarrow> string" where
  "duration_text d = (let n = nat (abs d); h = n div 3600; m = n div 60 mod 60; s = n mod 60 in
     (if d < 0 then ''-'' else []) @
     (if n \<ge> 3600 then nat_str h @ ''h'' @ nat_str m @ ''m'' @ nat_str s @ ''s''
      else if n \<ge> 60 then nat_str m @ ''m'' @ nat_str s @ ''s''
      else nat_str s @ ''s''))"

lemma format_time_example: "format_time 1767225600 = ''2026-01-01T00:00:00Z''"
  by code_simp

lemma parse_time_example: "parse_time ''2026-01-01T00:00:00Z'' = Some 1767225600"
  by code_simp

lemma parse_time_format: "parse_time s = Some t \<Longrightarrow> format_time t = s"
  by (auto simp: parse_time_def Let_def split: if_splits)

section \<open>A duration can be read back from its text\<close>

definition dur_step :: "nat \<times> nat \<Rightarrow> char \<Rightarrow> nat \<times> nat" where
  "dur_step = (\<lambda>(a, tot) c. if is_digit c then (10 * a + digit_val c, tot)
     else if c = CHR ''h'' then (0, tot + 3600 * a) else if c = CHR ''m'' then (0, tot + 60 * a)
     else if c = CHR ''s'' then (0, tot + a) else (a, tot))"

lemma dur_digits: "list_all is_digit s \<Longrightarrow> foldl dur_step (a, tot) s = (foldl (\<lambda>a c. 10 * a + digit_val c) a s, tot)"
  by (induction s arbitrary: a) (auto simp: dur_step_def)

lemma dur_nat_str: "foldl dur_step (0, tot) (nat_str n) = (n, tot)"
  using dur_digits [of "nat_str n" 0 tot] nat_str_digits [of n] digits_val_nat_str [of n]
  by (simp add: digits_val_def)

lemma dur_units: "dur_step (a, tot) (CHR ''h'') = (0, tot + 3600 * a)" "dur_step (a, tot) (CHR ''m'') = (0, tot + 60 * a)"
  "dur_step (a, tot) (CHR ''s'') = (0, tot + a)"
  by (simp_all add: dur_step_def is_digit_def)

lemma duration_value: "0 \<le> d \<Longrightarrow> foldl dur_step (0, 0) (duration_text d) = (0, nat d)"
proof -
  assume d: "0 \<le> d"
  let ?n = "nat d"
  have "?n div 3600 * 3600 + (?n div 60 mod 60) * 60 + ?n mod 60 = ?n"
  proof -
    have "?n div 60 div 60 = ?n div 3600" by (simp add: div_mult2_eq [symmetric])
    moreover have "?n div 60 = 60 * (?n div 60 div 60) + ?n div 60 mod 60" by simp
    moreover have "?n = 60 * (?n div 60) + ?n mod 60" by simp
    ultimately show ?thesis by linarith
  qed
  moreover have "?n div 3600 = 0" if "?n < 3600" using that by simp
  moreover have "?n div 60 = 0" if "?n < 60" using that by simp
  ultimately show ?thesis using d
    by (auto simp: duration_text_def Let_def dur_nat_str dur_units algebra_simps)
qed

lemma duration_text_inj: "0 \<le> d \<Longrightarrow> 0 \<le> e \<Longrightarrow> duration_text d = duration_text e \<Longrightarrow> d = e"
  using duration_value [of d] duration_value [of e] by auto

end
