(* ===== verification/CaCoord.thy ===== *)
theory CaCoord
  imports Kube TimeText CaPhase
begin

text \<open>
  internal/carotation/coord.go: the coordination of a rotation through the Kubernetes
  API. The desired-phase ConfigMap with its participant list and heartbeat, the status
  annotations of the nodes, the barrier that masters drive and workers follow, the hold
  label, and the lease that serializes control-plane restarts.
\<close>

section \<open>Names\<close>

definition NodeAnnotation :: string where "NodeAnnotation = ''magnum.openstack.org/ca-rotation''"
definition HoldLabel :: string where "HoldLabel = ''magnum.openstack.org/ca-rotation-hold''"
definition HoldLabelValue :: string where "HoldLabelValue = ''true''"
definition controlPlaneRoleLabel :: string where
  "controlPlaneRoleLabel = ''node-role.kubernetes.io/control-plane''"
definition legacyControlPlaneRoleLabel :: string where
  "legacyControlPlaneRoleLabel = ''node-role.kubernetes.io/master''"
definition keyRotationID :: string where "keyRotationID = ''rotationId''"
definition keyDesiredPhase :: string where "keyDesiredPhase = ''desiredPhase''"
definition keyHeartbeat :: string where "keyHeartbeat = ''coordinatorHeartbeat''"
definition keyParticipants :: string where "keyParticipants = ''participants''"
definition barrierReserve :: int where "barrierReserve = 90"

lemmas key_defs = keyRotationID_def keyDesiredPhase_def keyHeartbeat_def keyParticipants_def

section \<open>Status, participants and the desired phase\<close>

definition ReportStatus :: "string \<Rightarrow> phase \<Rightarrow> string \<Rightarrow> (api, unit) io" where
  "ReportStatus nodeName p rid = wrapping (''ca-rotation: report status for node '' @ nodeName)
     (annotate_node nodeName NodeAnnotation (p @ ''@'' @ rid))"

definition currentNodeNames :: "(api, string list) io" where
  "currentNodeNames = attempt list_nodes (\<lambda>r. case r of Inl _ \<Rightarrow> ret []
     | Inr ns \<Rightarrow> ret (sort (map n_name (filter (\<lambda>n. \<not> n_deleting n) ns))))"

definition freshRotationData :: "string \<Rightarrow> (api, smap) io" where
  "freshRotationData rid = andthen currentNodeNames (\<lambda>names.
     ret [keyRotationID \<mapsto> rid, keyDesiredPhase \<mapsto> PhasePrepare, keyParticipants \<mapsto> join '' '' names])"

definition EnsureRotation :: "string \<Rightarrow> (api, unit) io" where
  "EnsureRotation rid = RetryOnConflict (attempt get_cm (\<lambda>r. case r of
       Inl e \<Rightarrow> if is_not_exist e then andthen (freshRotationData rid) create_cm else throw e
     | Inr c \<Rightarrow> if sget (cm_data c) keyRotationID = rid then ret ()
               else andthen (freshRotationData rid) (update_cm c)))"

definition isControlPlane :: "knode \<Rightarrow> bool" where
  "isControlPlane n \<longleftrightarrow> n_labels n controlPlaneRoleLabel \<noteq> None \<or> n_labels n legacyControlPlaneRoleLabel \<noteq> None"

fun first_holder :: "knode list \<Rightarrow> string option" where
  "first_holder [] = None"
| "first_holder (n # ns) = (if n_deleting n \<or> \<not> isControlPlane n then first_holder ns
     else if sget (n_labels n) HoldLabel = HoldLabelValue then Some (n_name n) else first_holder ns)"

text \<open>The three results of the Go function: held, by which node, and the error.\<close>

definition RotationHoldActive :: "api \<Rightarrow> (bool \<times> string \<times> err option) \<times> api" where
  "RotationHoldActive w = (case list_nodes w of
     (Inl e, w') \<Rightarrow> ((True, [], Some (Wrap ''read ca-rotation hold label'' e)), w')
   | (Inr ns, w') \<Rightarrow> (case first_holder ns of Some n \<Rightarrow> ((True, n, None), w')
                      | None \<Rightarrow> ((False, [], None), w')))"

definition readParticipants :: "string \<Rightarrow> (api, string list) io" where
  "readParticipants rid = attempt get_cm (\<lambda>r. case r of Inl _ \<Rightarrow> ret []
     | Inr c \<Rightarrow> if sget (cm_data c) keyRotationID \<noteq> rid then ret []
               else ret (str_fields (sget (cm_data c) keyParticipants)))"

definition ensure_object :: "(kube \<Rightarrow> bool) \<Rightarrow> (kube \<Rightarrow> kube) \<Rightarrow> (api, unit) io" where
  "ensure_object present build = attempt (get_flag present) (\<lambda>r. case r of
       Inr _ \<Rightarrow> ret ()
     | Inl e \<Rightarrow> if is_not_exist e
         then attempt (create_flag present build) (\<lambda>r'. case r' of Inr _ \<Rightarrow> ret ()
                | Inl e' \<Rightarrow> if is_already_exists e' then ret () else throw e')
         else throw e)"

definition EnsureNodeReadRBAC :: "(api, unit) io" where
  "EnsureNodeReadRBAC = andthen (ensure_object k_role (\<lambda>k. k\<lparr>k_role := True\<rparr>)) (\<lambda>_.
     ensure_object k_binding (\<lambda>k. k\<lparr>k_binding := True\<rparr>))"

definition RotationOwner :: "(api, string) io" where
  "RotationOwner = attempt get_cm (\<lambda>r. case r of
       Inl e \<Rightarrow> if is_not_exist e then ret [] else throw e
     | Inr c \<Rightarrow> ret (sget (cm_data c) keyRotationID))"

definition ReadProgress :: "string \<Rightarrow> (api, phase \<times> int option) io" where
  "ReadProgress rid = attempt get_cm (\<lambda>r. case r of
       Inl e \<Rightarrow> if is_not_exist e then ret (PhasePrepare, None) else throw e
     | Inr c \<Rightarrow>
         if sget (cm_data c) keyRotationID \<noteq> rid then ret (PhasePrepare, None)
         else let p = sget (cm_data c) keyDesiredPhase;
                  p' = (if Valid p then p else PhasePrepare);
                  beat = (case parse_time (sget (cm_data c) keyHeartbeat) of None \<Rightarrow> None
                          | Some t \<Rightarrow> if t = zero_time then None else Some t)
              in ret (p', beat))"

definition ReadDesiredPhase :: "string \<Rightarrow> (api, phase) io" where
  "ReadDesiredPhase rid = andthen (ReadProgress rid) (\<lambda>(p, _). ret p)"

definition Heartbeat :: "string \<Rightarrow> (api, unit) io" where
  "Heartbeat rid = andthen get_cm (\<lambda>c.
     if sget (cm_data c) keyRotationID \<noteq> rid then ret ()
     else andthen (asks time_now) (\<lambda>t. patch_cm keyHeartbeat (format_time t)))"

definition AdvanceDesiredPhase :: "string \<Rightarrow> phase \<Rightarrow> (api, unit) io" where
  "AdvanceDesiredPhase rid to = RetryOnConflict (attempt get_cm (\<lambda>r. case r of
       Inl e \<Rightarrow> if is_not_exist e then create_cm [keyRotationID \<mapsto> rid, keyDesiredPhase \<mapsto> to] else throw e
     | Inr c \<Rightarrow> andthen (if sget (cm_data c) keyRotationID \<noteq> rid then freshRotationData rid
                        else ret (cm_data c)) (\<lambda>d.
         if AtLeast (sget d keyDesiredPhase) to then ret ()
         else update_cm c (d(keyDesiredPhase \<mapsto> to)))))"

section \<open>Who is still pending\<close>

fun notReadyHint_in :: "int \<Rightarrow> condition list \<Rightarrow> string" where
  "notReadyHint_in t [] = []"
| "notReadyHint_in t (c # cs) = (if cond_type c \<noteq> ''Ready'' then notReadyHint_in t cs
     else if cond_status c = ''True'' then []
     else ''NotReady'' @ (case cond_since c of None \<Rightarrow> [] | Some s \<Rightarrow> '' '' @ duration_text (t - s)))"

definition notReadyHint :: "int \<Rightarrow> knode \<Rightarrow> string" where
  "notReadyHint t n = notReadyHint_in t (n_conditions n)"

definition formatPending :: "int \<Rightarrow> string \<Rightarrow> knode \<Rightarrow> string" where
  "formatPending t name n = (let hint = notReadyHint t n in
     if hint \<noteq> [] then name @ ''('' @ hint @ '')'' else name)"

text \<open>strings.LastIndex of the separator splits at the last one.\<close>

definition cut_last :: "char \<Rightarrow> string \<Rightarrow> (string \<times> string) option" where
  "cut_last c s = (case cut_at c (rev s) of None \<Rightarrow> None | Some (a, b) \<Rightarrow> Some (rev b, rev a))"

definition parseNodeStatus :: "string \<Rightarrow> string \<Rightarrow> phase \<times> bool" where
  "parseNodeStatus value rid = (case cut_last (CHR ''@'') value of None \<Rightarrow> ([], False)
     | Some (p, r) \<Rightarrow> if r \<noteq> rid then ([], False) else (p, True))"

text \<open>Node names are unique, so the map by name holds the last node of the list with it.\<close>

definition node_named :: "knode list \<Rightarrow> string \<Rightarrow> knode option" where
  "node_named ns name = List.find (\<lambda>n. n_name n = name) (rev ns)"

definition node_reached :: "string \<Rightarrow> phase \<Rightarrow> knode \<Rightarrow> bool" where
  "node_reached rid p n \<longleftrightarrow> AtLeast (fst (parseNodeStatus (sget (n_annotations n) NodeAnnotation) rid)) p"

definition pending_of :: "int \<Rightarrow> knode list \<Rightarrow> string list \<Rightarrow> string \<Rightarrow> phase \<Rightarrow> string list" where
  "pending_of t ns participants rid p = List.map_filter (\<lambda>name. case node_named ns name of
       None \<Rightarrow> None
     | Some n \<Rightarrow> if n_deleting n \<or> node_reached rid p n then None else Some (formatPending t name n))
     participants"

definition AllNodesReached :: "string \<Rightarrow> phase \<Rightarrow> (api, bool \<times> string list) io" where
  "AllNodesReached rid p = andthen list_nodes (\<lambda>ns.
     andthen (readParticipants rid) (\<lambda>parts.
     let allCurrent = map n_name (filter (\<lambda>n. \<not> n_deleting n) ns);
         parts' = (if parts = [] then allCurrent else parts) in
     andthen (asks time_now) (\<lambda>t.
     let pending = pending_of t ns parts' rid p in
     ret (pending = [], pending))))"

section \<open>The barrier\<close>

record run_ctx =
  ctx_deadline :: "int option"

definition runDeadline :: "run_ctx \<Rightarrow> int \<Rightarrow> int \<Rightarrow> int" where
  "runDeadline ctx now fallback = (case ctx_deadline ctx of Some dl \<Rightarrow> dl - barrierReserve
     | None \<Rightarrow> now + fallback)"

record barrier_options =
  bo_poll :: int
  bo_timeout :: int
  bo_stall :: int
  bo_abandon :: int

definition barrier_defaults :: "barrier_options \<Rightarrow> barrier_options" where
  "barrier_defaults o1 = \<lparr>
     bo_poll = (if bo_poll o1 \<le> 0 then 10 else bo_poll o1),
     bo_timeout = (if bo_timeout o1 \<le> 0 then 20 * 60 else bo_timeout o1),
     bo_stall = (if bo_stall o1 \<le> 0 then 20 * 60 else bo_stall o1),
     bo_abandon = (if bo_abandon o1 \<le> 0 then 15 * 60 else bo_abandon o1)\<rparr>"

definition pendingKey :: "string list \<Rightarrow> string" where
  "pendingKey pending = join '','' (sort pending)"

text \<open>What the loop carries: the last pending set (\<open>None\<close> is the sentinel) and when it changed.\<close>

record stall_track =
  st_key :: "string option"
  st_progress :: int
  st_pending :: "string list"

definition err_abandoned :: err where "err_abandoned = Err ''ca-rotation: the rotation looks abandoned''"
definition err_stalled :: "string list \<Rightarrow> err" where
  "err_stalled pending = Err (''ca-rotation: no progress: '' @ join '','' pending)"
definition err_timeout :: "phase \<Rightarrow> err" where
  "err_timeout p = Err (''ca-rotation: timed out waiting for cluster to reach '' @ p)"

text \<open>One turn of the loop: return, go round at once after an advance, or wait for the poll.\<close>

datatype turn = Return "unit result" | Again | Poll stall_track

definition note_pending :: "string list \<Rightarrow> int \<Rightarrow> stall_track \<Rightarrow> stall_track" where
  "note_pending pending t st = (if st_key st \<noteq> Some (pendingKey pending)
     then \<lparr>st_key = Some (pendingKey pending), st_progress = t, st_pending = pending\<rparr> else st)"

definition barrier_turn ::
  "string \<Rightarrow> phase \<Rightarrow> bool \<Rightarrow> barrier_options \<Rightarrow> int \<Rightarrow> stall_track \<Rightarrow> api \<Rightarrow> turn \<times> api" where
  "barrier_turn rid completed isMaster opts deadline st w = (let next = Next completed;
       finish = (\<lambda>st' w'. if time_now w' > deadline then (Return (Inl (err_timeout next)), w') else (Poll st', w'))
     in case ReadProgress rid w of
       (Inl e, w1) \<Rightarrow> finish st w1
     | (Inr (desired, beat), w1) \<Rightarrow>
         if AtLeast desired next then (Return (Inr ()), w1)
         else if \<not> isMaster then
           (case beat of Some b \<Rightarrow> if time_now w1 - b \<ge> bo_abandon opts then (Return (Inl err_abandoned), w1)
                                  else finish st w1
            | None \<Rightarrow> finish st w1)
         else (case AllNodesReached rid completed w1 of
             (Inl e, w2) \<Rightarrow> finish st w2
           | (Inr (ok, pending), w2) \<Rightarrow>
               if ok then (case AdvanceDesiredPhase rid next w2 of
                   (Inl e, w3) \<Rightarrow> finish st w3
                 | (Inr _, w3) \<Rightarrow> (Again, w3))
               else let st' = note_pending pending (time_now w2) st in
                 if bo_stall opts > 0 \<and> time_now w2 - st_progress st' \<ge> bo_stall opts
                 then (Return (Inl (err_stalled (st_pending st'))), w2)
                 else finish st' w2))"

text \<open>The loop; \<open>None\<close> is a run that has not returned after that many turns.\<close>

fun barrier_loop ::
  "nat \<Rightarrow> string \<Rightarrow> phase \<Rightarrow> bool \<Rightarrow> barrier_options \<Rightarrow> int \<Rightarrow> stall_track \<Rightarrow> api \<Rightarrow> (unit result \<times> api) option" where
  "barrier_loop 0 rid completed isMaster opts deadline st w = None"
| "barrier_loop (Suc n) rid completed isMaster opts deadline st w =
     (case barrier_turn rid completed isMaster opts deadline st w of
        (Return r, w') \<Rightarrow> Some (r, w')
      | (Again, w') \<Rightarrow> barrier_loop n rid completed isMaster opts deadline st w'
      | (Poll st', w') \<Rightarrow> (case nap w' of (Inl e, w'') \<Rightarrow> Some (Inl e, w'')
            | (Inr _, w'') \<Rightarrow> barrier_loop n rid completed isMaster opts deadline st' w''))"

definition Barrier ::
  "nat \<Rightarrow> run_ctx \<Rightarrow> string \<Rightarrow> phase \<Rightarrow> bool \<Rightarrow> barrier_options \<Rightarrow> api \<Rightarrow> (unit result \<times> api) option" where
  "Barrier fuel ctx rid completed isMaster opts w =
     (if Next completed = PhaseDone then Some (Inr (), w)
      else let o2 = barrier_defaults opts; deadline = runDeadline ctx (time_now w) (bo_timeout o2) in
        barrier_loop fuel rid completed isMaster o2 deadline
          \<lparr>st_key = None, st_progress = time_now w, st_pending = []\<rparr> w)"

section \<open>The restart lock\<close>

record lock_options =
  lo_duration :: int
  lo_poll :: int
  lo_timeout :: int

definition lock_defaults :: "lock_options \<Rightarrow> lock_options" where
  "lock_defaults o1 = \<lparr>
     lo_duration = (if lo_duration o1 \<le> 0 then 1200 else lo_duration o1),
     lo_poll = (if lo_poll o1 \<le> 0 then 5 else lo_poll o1),
     lo_timeout = (if lo_timeout o1 \<le> 0 then 30 * 60 else lo_timeout o1)\<rparr>"

definition derefHolder :: "lease \<Rightarrow> string" where
  "derefHolder l = (case l_holder l of None \<Rightarrow> [] | Some h \<Rightarrow> h)"

definition leaseHeldByOther :: "lease \<Rightarrow> string \<Rightarrow> int \<Rightarrow> bool" where
  "leaseHeldByOther l holder now = (let current = derefHolder l in
     if current = [] \<or> current = holder then False
     else case (l_renew l, l_duration l) of
       (Some r, Some d) \<Rightarrow> now < r + d
     | _ \<Rightarrow> True)"

text \<open>The acquire time is kept when this holder renews; the holder is set before the test.\<close>

definition taken_lease :: "lease \<Rightarrow> string \<Rightarrow> int \<Rightarrow> int \<Rightarrow> lease" where
  "taken_lease l holder dur now = (let l1 = l\<lparr>l_holder := Some holder, l_duration := Some dur\<rparr> in
     (if l_acquire l1 = None \<or> derefHolder l1 \<noteq> holder then l1\<lparr>l_acquire := Some now\<rparr> else l1)\<lparr>l_renew := Some now\<rparr>)"

definition tryAcquireLease :: "string \<Rightarrow> int \<Rightarrow> (api, bool) io" where
  "tryAcquireLease holder dur = RetryOnConflict (andthen (asks time_now) (\<lambda>now.
     attempt get_lease (\<lambda>r. case r of
       Inl e \<Rightarrow> if is_not_exist e
         then andthen (create_lease \<lparr>l_holder = Some holder, l_duration = Some dur, l_acquire = Some now,
                l_renew = Some now, l_rev = 0\<rparr>) (\<lambda>_. ret True)
         else throw e
     | Inr l \<Rightarrow> andthen (asks time_now) (\<lambda>now2.
         if leaseHeldByOther l holder now2 then ret False
         else andthen (update_lease (taken_lease l holder dur now)) (\<lambda>_. ret True)))))"

definition releaseLease :: "string \<Rightarrow> (api, unit) io" where
  "releaseLease holder = attempt (RetryOnConflict (attempt get_lease (\<lambda>r. case r of
       Inl e \<Rightarrow> if is_not_exist e then ret () else throw e
     | Inr l \<Rightarrow> if derefHolder l \<noteq> holder then ret ()
         else andthen (asks time_now) (\<lambda>now.
           update_lease (l\<lparr>l_holder := Some [], l_renew := Some (now - 3600)\<rparr>))))) (\<lambda>_. ret ())"

fun acquire_loop :: "nat \<Rightarrow> string \<Rightarrow> lock_options \<Rightarrow> int \<Rightarrow> api \<Rightarrow> (unit result \<times> api) option" where
  "acquire_loop 0 holder opts deadline w = None"
| "acquire_loop (Suc n) holder opts deadline w = (case tryAcquireLease holder (lo_duration opts) w of
     (Inr True, w') \<Rightarrow> Some (Inr (), w')
   | (_, w') \<Rightarrow>
       if time_now w' > deadline then Some (Inl (Err (''ca-rotation: timed out acquiring restart lock for '' @ holder)), w')
       else (case nap w' of (Inl e, w'') \<Rightarrow> Some (Inl e, w'')
             | (Inr _, w'') \<Rightarrow> acquire_loop n holder opts deadline w''))"

definition AcquireRestartLock :: "nat \<Rightarrow> run_ctx \<Rightarrow> string \<Rightarrow> lock_options \<Rightarrow> api \<Rightarrow> (unit result \<times> api) option" where
  "AcquireRestartLock fuel ctx holder opts w = (let o2 = lock_defaults opts in
     acquire_loop fuel holder o2 (runDeadline ctx (time_now w) (lo_timeout o2)) w)"

section \<open>What the ConfigMap says\<close>

definition owner_of :: "kube \<Rightarrow> string" where
  "owner_of k = (case k_cm k of None \<Rightarrow> [] | Some c \<Rightarrow> sget (cm_data c) keyRotationID)"

text \<open>The desired phase of a rotation as ReadProgress reports it.\<close>

definition desired_in :: "smap \<Rightarrow> phase" where
  "desired_in d = (let p = sget d keyDesiredPhase in if Valid p then p else PhasePrepare)"

definition desired_of :: "kube \<Rightarrow> string \<Rightarrow> phase" where
  "desired_of k rid = (case k_cm k of None \<Rightarrow> PhasePrepare
     | Some c \<Rightarrow> if sget (cm_data c) keyRotationID \<noteq> rid then PhasePrepare else desired_in (cm_data c))"

definition participants_of :: "kube \<Rightarrow> string \<Rightarrow> string list" where
  "participants_of k rid = (case k_cm k of None \<Rightarrow> []
     | Some c \<Rightarrow> if sget (cm_data c) keyRotationID \<noteq> rid then [] else str_fields (sget (cm_data c) keyParticipants))"

lemma keys_distinct [simp]:
  "keyRotationID \<noteq> keyDesiredPhase" "keyDesiredPhase \<noteq> keyRotationID"
  "keyRotationID \<noteq> keyHeartbeat" "keyHeartbeat \<noteq> keyRotationID"
  "keyRotationID \<noteq> keyParticipants" "keyParticipants \<noteq> keyRotationID"
  "keyDesiredPhase \<noteq> keyHeartbeat" "keyHeartbeat \<noteq> keyDesiredPhase"
  "keyDesiredPhase \<noteq> keyParticipants" "keyParticipants \<noteq> keyDesiredPhase"
  "keyHeartbeat \<noteq> keyParticipants" "keyParticipants \<noteq> keyHeartbeat"
  by (simp_all add: key_defs)

lemma sget_upd [simp]: "sget (m(k \<mapsto> v)) k' = (if k' = k then v else sget m k')"
  by (simp add: sget_def)

lemma sget_empty [simp]: "sget (\<lambda>_. None) k = []"
  by (simp add: sget_def)

lemma Index_desired: "Index (desired_in d) \<ge> 0" "Index (desired_in d) \<ge> Index (sget d keyDesiredPhase)"
  by (auto simp: desired_in_def Let_def Valid_def)

lemma ReadProgress_world: "snd (ReadProgress rid w) \<in> {enter w, logged (ak (enter w)) (enter w)}"
  using read_world(2) [of w]
  by (cases "get_cm w"; cases "fst (get_cm w)")
     (auto simp: ReadProgress_def attempt_def run_simps Let_def split: if_splits)

lemma ReadProgress_ok:
  "ReadProgress rid w = (Inr (p, beat), w') \<Longrightarrow> p = desired_of (ak w') rid \<and> ak w' = ak (enter w)"
proof -
  assume a: "ReadProgress rid w = (Inr (p, beat), w')"
  obtain r w1 where g: "get_cm w = (r, w1)" by (cases "get_cm w")
  show ?thesis
  proof (cases r)
    case (Inr c)
    with g get_cm_ok [of w c w1] a show ?thesis
      by (auto simp: ReadProgress_def attempt_def run_simps Let_def desired_of_def desired_in_def kube_simps
          split: if_splits)
  next
    case (Inl e)
    with a g have "is_not_exist e" "w' = w1" "p = PhasePrepare"
      by (auto simp: ReadProgress_def attempt_def run_simps split: if_splits)
    with g Inl show ?thesis
      by (auto simp: get_cm_def api_call_def Let_def desired_of_def kube_simps split: apifault.splits option.splits)
  qed
qed

section \<open>Protocol steps on the ConfigMap\<close>

text \<open>What every step of a coordinator keeps for its own rotation: once the ConfigMap is scoped
  to it, it stays so with the same participants, and its desired phase never moves back.\<close>

definition phase_step :: "string \<Rightarrow> kube \<Rightarrow> kube \<Rightarrow> bool" where
  "phase_step rid k k' \<longleftrightarrow> owner_of k = rid \<longrightarrow>
     owner_of k' = rid \<and> AtLeast (desired_of k' rid) (desired_of k rid)
     \<and> participants_of k' rid = participants_of k rid"

lemma phase_step_refl [simp]: "phase_step rid k k"
  by (simp add: phase_step_def)

lemma phase_step_trans: "phase_step rid a b \<Longrightarrow> phase_step rid b c \<Longrightarrow> phase_step rid a c"
  by (auto simp: phase_step_def AtLeast_def)

lemma phase_step_create: "rid \<noteq> [] \<Longrightarrow> k_cm k = None \<Longrightarrow> phase_step rid k k'"
  by (simp add: phase_step_def owner_of_def)

lemma phase_step_foreign:
  "k_cm k = Some c \<Longrightarrow> sget (cm_data c) keyRotationID \<noteq> rid \<Longrightarrow> phase_step rid k k'"
  by (simp add: phase_step_def owner_of_def)

lemma phase_step_advance:
  assumes "k_cm k = Some c" "sget (cm_data c) keyRotationID = rid"
    and "\<not> AtLeast (sget (cm_data c) keyDesiredPhase) to"
  shows "phase_step rid k (put_cm ((cm_data c)(keyDesiredPhase \<mapsto> to)) k)"
proof -
  have "Index (desired_in ((cm_data c)(keyDesiredPhase \<mapsto> to))) \<ge> Index (desired_in (cm_data c))"
    using assms(3) by (auto simp: desired_in_def Let_def AtLeast_def Valid_def)
  then show ?thesis
    using assms by (simp add: phase_step_def owner_of_def desired_of_def participants_of_def kube_simps AtLeast_def)
qed

lemma keeps_currentNodeNames:
  "keeps P list_nodes \<Longrightarrow> keeps P currentNodeNames"
  unfolding currentNodeNames_def by (intro keeps_intro)

lemma keeps_fresh: "keeps P list_nodes \<Longrightarrow> keeps P (freshRotationData rid)"
  unfolding freshRotationData_def by (intro keeps_intro keeps_currentNodeNames)

lemma guarded_env: "guarded G w \<Longrightarrow> env_ok w"
  by (simp add: guarded_def)

text \<open>The read-modify-write pattern of the coordinator: read, compute the new data (which may
  itself list the nodes), write conditionally.\<close>

lemma guards_rmw:
  assumes G: "\<And>k. G k k"
    and none: "\<And>e. keeps (guarded G) (h e)"
    and pre: "\<And>c. keeps (guarded G) (prep c)" "\<And>c c'. keeps (cm_since c') (prep c)"
    and upd: "\<And>c d k. k_cm k = Some c \<Longrightarrow> ok c d \<Longrightarrow> G k (put_cm (upd c d) k)"
    and dec: "\<And>c d w w'. prep c w = (Inr d, w') \<Longrightarrow> write c d \<Longrightarrow> ok c d"
  shows "keeps (guarded G) (attempt get_cm (\<lambda>r. case r of Inl e \<Rightarrow> h e
     | Inr c \<Rightarrow> andthen (prep c) (\<lambda>d. if write c d then update_cm c (upd c d) else ret ())))"
proof (rule keepsI)
  fix w assume g: "guarded G w"
  obtain r w1 where get: "get_cm w = (r, w1)" by (cases "get_cm w")
  have g1: "guarded G w1" using keepsD' [OF guards_reads(2) [OF G] g get] .
  show "guarded G (snd (attempt get_cm (\<lambda>r. case r of Inl e \<Rightarrow> h e
     | Inr c \<Rightarrow> andthen (prep c) (\<lambda>d. if write c d then update_cm c (upd c d) else ret ())) w))"
  proof (cases r)
    case (Inl e)
    with get keepsD [OF none g1] show ?thesis by (simp add: attempt_def)
  next
    case (Inr c)
    have s1: "cm_since c w1" using cm_since_get [OF guarded_env [OF g]] get Inr by simp
    obtain rd w2 where p: "prep c w1 = (rd, w2)" by (cases "prep c w1")
    have g2: "guarded G w2" and s2: "cm_since c w2"
      using keepsD' [OF pre(1) g1 p] keepsD' [OF pre(2) s1 p] by simp_all
    show ?thesis
    proof (cases rd)
      case (Inr d)
      have "guarded G (snd (update_cm c (upd c d) w2))" if "write c d"
        by (rule guarded_update_cm [OF G _ s2 g2]) (use upd dec p Inr that in blast)
      with get \<open>r = Inr c\<close> p Inr g2 show ?thesis by (simp add: attempt_def andthen_def run_simps)
    qed (use get \<open>r = Inr c\<close> p g2 in \<open>simp add: attempt_def andthen_def\<close>)
  qed
qed

lemma guards_EnsureRotation: "rid \<noteq> [] \<Longrightarrow> guards (phase_step rid) (EnsureRotation rid)"
proof -
  assume rid: "rid \<noteq> []"
  let ?prep = "\<lambda>c. if sget (cm_data c) keyRotationID = rid then ret (Map.empty) else freshRotationData rid"
  have e: "EnsureRotation rid = RetryOnConflict (attempt get_cm (\<lambda>r. case r of
       Inl e \<Rightarrow> if is_not_exist e then andthen (freshRotationData rid) create_cm else throw e
     | Inr c \<Rightarrow> andthen (?prep c) (\<lambda>d. if sget (cm_data c) keyRotationID \<noteq> rid then update_cm c d else ret ())))"
    unfolding EnsureRotation_def
    by (intro arg_cong [of _ _ RetryOnConflict] arg_cong2 [of _ _ _ _ attempt] refl ext)
       (auto simp: andthen_def run_simps fun_eq_iff split: sum.splits prod.splits if_splits)
  have fresh: "keeps (guarded (phase_step rid)) (freshRotationData rid)"
    by (intro keeps_fresh guards_reads) simp
  show ?thesis
    unfolding guards_def e
  proof (intro keeps_RetryOnConflict guards_rmw [where ok = "\<lambda>c d. sget (cm_data c) keyRotationID \<noteq> rid"])
    show "keeps (guarded (phase_step rid)) (if is_not_exist e then andthen (freshRotationData rid) create_cm else throw e)" for e
      by (intro keeps_intro fresh guards_create_cm) (auto intro: phase_step_create [OF rid])
    show "keeps (cm_since c') (?prep c)" for c c'
      by (intro keeps_if keeps_basic keeps_fresh keeps_since_list)
  qed (auto intro: keeps_if keeps_basic fresh phase_step_foreign)
qed

lemma guards_Advance: "rid \<noteq> [] \<Longrightarrow> guards (phase_step rid) (AdvanceDesiredPhase rid to)"
proof -
  assume rid: "rid \<noteq> []"
  let ?prep = "\<lambda>c. if sget (cm_data c) keyRotationID \<noteq> rid then freshRotationData rid else ret (cm_data c)"
  have e: "AdvanceDesiredPhase rid to = RetryOnConflict (attempt get_cm (\<lambda>r. case r of
       Inl e \<Rightarrow> if is_not_exist e then create_cm [keyRotationID \<mapsto> rid, keyDesiredPhase \<mapsto> to] else throw e
     | Inr c \<Rightarrow> andthen (?prep c) (\<lambda>d. if \<not> AtLeast (sget d keyDesiredPhase) to
         then update_cm c (d(keyDesiredPhase \<mapsto> to)) else ret ())))"
    unfolding AdvanceDesiredPhase_def
    by (intro arg_cong [of _ _ RetryOnConflict] arg_cong2 [of _ _ _ _ attempt] refl ext)
       (auto simp: andthen_def run_simps fun_eq_iff split: sum.splits prod.splits if_splits)
  have fresh: "keeps (guarded (phase_step rid)) (freshRotationData rid)"
    by (intro keeps_fresh guards_reads) simp
  let ?ok = "\<lambda>c d. sget (cm_data c) keyRotationID \<noteq> rid \<or> (d = cm_data c \<and> \<not> AtLeast (sget d keyDesiredPhase) to)"
  show ?thesis
    unfolding guards_def e
  proof (intro keeps_RetryOnConflict guards_rmw [where ok = ?ok])
    show "keeps (guarded (phase_step rid))
        (if is_not_exist e then create_cm [keyRotationID \<mapsto> rid, keyDesiredPhase \<mapsto> to] else throw e)" for e
      by (intro keeps_intro guards_create_cm) (auto intro: phase_step_create [OF rid])
    show "keeps (cm_since c') (?prep c)" for c c'
      by (intro keeps_if keeps_basic keeps_fresh keeps_since_list)
  qed (auto intro: keeps_if keeps_basic fresh phase_step_foreign phase_step_advance simp: run_simps)
qed

section \<open>What a coordinator call has done\<close>

lemma freshRotationData_ok:
  "freshRotationData rid w = (Inr d, w') \<Longrightarrow>
   sget d keyRotationID = rid \<and> sget d keyDesiredPhase = PhasePrepare"
  by (auto simp: freshRotationData_def andthen_def run_simps split: prod.splits sum.splits)

lemma create_cm_ok: "create_cm d w = (Inr (), w') \<Longrightarrow> \<exists>k. ak w' = put_cm d k"
  by (auto simp: create_cm_def api_call_def Let_def kube_simps split: apifault.splits option.splits)

lemma update_cm_written: "update_cm c d w = (Inr (), w') \<Longrightarrow> \<exists>k. ak w' = put_cm d k"
  using update_cm_ok by (fastforce simp: kube_simps)

lemma desired_put_cm [simp]:
  "desired_of (put_cm d k) rid = (if sget d keyRotationID \<noteq> rid then PhasePrepare else desired_in d)"
  "owner_of (put_cm d k) = sget d keyRotationID"
  by (simp_all add: desired_of_def owner_of_def kube_simps)

text \<open>A later phase than prepare is really reached, and the ConfigMap is this rotation's.\<close>

lemma Advance_ok:
  assumes "AdvanceDesiredPhase rid to w = (Inr (), w')" "Index to > 0"
  shows "owner_of (ak w') = rid \<and> AtLeast (desired_of (ak w') rid) to"
proof -
  obtain w0 r w1 where b: "get_cm w0 = (r, w1)" and run: "(case r of
       Inl e \<Rightarrow> if is_not_exist e then create_cm [keyRotationID \<mapsto> rid, keyDesiredPhase \<mapsto> to] else throw e
     | Inr c \<Rightarrow> andthen (if sget (cm_data c) keyRotationID \<noteq> rid then freshRotationData rid
                        else ret (cm_data c)) (\<lambda>d.
         if AtLeast (sget d keyDesiredPhase) to then ret ()
         else update_cm c (d(keyDesiredPhase \<mapsto> to)))) w1 = (Inr (), w')"
    using retry_ok [OF assms(1) [unfolded AdvanceDesiredPhase_def RetryOnConflict_def]]
    unfolding attempt_iff by blast
  show ?thesis
  proof (cases r)
    case (Inl e)
    with run have "create_cm [keyRotationID \<mapsto> rid, keyDesiredPhase \<mapsto> to] w1 = (Inr (), w')"
      by (simp add: run_simps split: if_splits)
    with create_cm_ok [OF this] assms(2) show ?thesis
      by (auto simp: desired_in_def Valid_def)
  next
    case (Inr c)
    from run Inr obtain d w2 where d: "(if sget (cm_data c) keyRotationID \<noteq> rid then freshRotationData rid
          else ret (cm_data c)) w1 = (Inr d, w2)"
      and tail: "(if AtLeast (sget d keyDesiredPhase) to then ret () else update_cm c (d(keyDesiredPhase \<mapsto> to))) w2 = (Inr (), w')"
      by (auto simp: andthen_ok_iff)
    have own: "sget d keyRotationID = rid"
      using d freshRotationData_ok by (auto simp: run_simps split: if_splits)
    show ?thesis
    proof (cases "AtLeast (sget d keyDesiredPhase) to")
      case True
      then have *: "d = cm_data c" "w2 = w1" "w' = w1"
        using d tail freshRotationData_ok [of rid w1 d w2] assms(2)
        by (auto simp: run_simps AtLeast_def split: if_splits)
      from b Inr get_cm_ok have k: "k_cm (ak w1) = Some c" by (fastforce simp: kube_simps)
      with * own have "owner_of (ak w') = rid" "desired_of (ak w') rid = desired_in (cm_data c)"
        by (simp_all add: owner_of_def desired_of_def)
      moreover have "Index (desired_in (cm_data c)) \<ge> Index to"
        using True Index_desired(2) [of "cm_data c"] * by (simp add: AtLeast_def)
      ultimately show ?thesis by (simp add: AtLeast_def)
    next
      case False
      with tail update_cm_written [of c _ w2 w'] obtain k where "ak w' = put_cm (d(keyDesiredPhase \<mapsto> to)) k"
        by auto
      with own assms(2) show ?thesis by (auto simp: desired_in_def Valid_def)
    qed
  qed
qed

section \<open>Who let the barrier pass\<close>

text \<open>Every participant that is still in the cluster has reported the phase.\<close>

definition barrier_met :: "knode list \<Rightarrow> string list \<Rightarrow> string \<Rightarrow> phase \<Rightarrow> bool" where
  "barrier_met ns parts rid p \<longleftrightarrow> (\<forall>name \<in> set parts. case node_named ns name of None \<Rightarrow> True
     | Some n \<Rightarrow> n_deleting n \<or> node_reached rid p n)"

definition live_names :: "knode list \<Rightarrow> string list" where
  "live_names ns = map n_name (filter (\<lambda>n. \<not> n_deleting n) ns)"

lemma pending_of_Nil: "pending_of t ns parts rid p = [] \<longleftrightarrow> barrier_met ns parts rid p"
  by (auto simp: pending_of_def barrier_met_def List.map_filter_def filter_empty_conv split: option.splits)

text \<open>The steps of a client that only reads.\<close>

definition idle :: "(kube \<times> kube) list \<Rightarrow> bool" where
  "idle L \<longleftrightarrow> (\<forall>(k, k') \<in> set L. k' = k)"

definition reads_only :: "(api, 'a) io \<Rightarrow> bool" where
  "reads_only m \<longleftrightarrow> (\<forall>L0. keeps (\<lambda>w. \<exists>L. a_log w = L0 @ L \<and> idle L) m)"

lemma idle_append [simp]: "idle (a @ b) \<longleftrightarrow> idle a \<and> idle b" "idle []" "idle [(k, k')] \<longleftrightarrow> k' = k"
  by (auto simp: idle_def)

lemma reads_onlyD:
  assumes "reads_only m" "m w = (r, w')"
  shows "\<exists>L. a_log w' = a_log w @ L \<and> idle L"
proof -
  have "keeps (\<lambda>v. \<exists>L. a_log v = a_log w @ L \<and> idle L) m" using assms(1) by (simp add: reads_only_def)
  from keepsD' [OF this _ assms(2)] show ?thesis by simp
qed

lemma reads_only_calls: "reads_only list_nodes" "reads_only get_cm"
proof -
  have "\<exists>L. a_log v = L0 @ L \<and> idle L"
    if "v \<in> {enter w, logged (ak (enter w)) (enter w)}" "a_log w = L0 @ M" "idle M" for v w :: api and L0 M
    using that by (auto simp: kube_simps)
  with read_world(1,2) show "reads_only list_nodes" "reads_only get_cm"
    unfolding reads_only_def keeps_def by blast+
qed

lemma reads_only_derived: "reads_only (ReadProgress rid)" "reads_only (readParticipants rid)" "reads_only (AllNodesReached rid p)"
  using reads_only_calls unfolding reads_only_def ReadProgress_def AllNodesReached_def readParticipants_def Let_def
  by (auto intro!: keeps_intro)

text \<open>What AllNodesReached has seen when it says yes.\<close>

definition seen_met :: "string \<Rightarrow> phase \<Rightarrow> (kube \<times> kube) list \<Rightarrow> bool" where
  "seen_met rid p L \<longleftrightarrow> (\<exists>(k0, k0') \<in> set L. \<exists>parts. barrier_met (k_nodes k0) parts rid p
     \<and> (parts = live_names (k_nodes k0) \<or> (\<exists>(k1, k1') \<in> set L. parts = participants_of k1 rid)))"

lemma list_nodes_ok:
  "list_nodes w = (Inr ns, w') \<Longrightarrow> w' = logged (ak (enter w)) (enter w) \<and> ns = k_nodes (ak (enter w))"
  by (auto simp: list_nodes_def api_call_def Let_def split: apifault.splits)

lemma readParticipants_ok:
  assumes "readParticipants rid w = (Inr parts, w')"
  shows "parts = [] \<or> (\<exists>k. a_log w' = a_log w @ [(k, k)] \<and> parts = participants_of k rid)"
proof -
  obtain r w1 where g: "get_cm w = (r, w1)" by (cases "get_cm w")
  show ?thesis
  proof (cases r)
    case (Inr c)
    with g get_cm_ok [of w c w1] assms show ?thesis
      by (auto simp: readParticipants_def attempt_def run_simps participants_of_def kube_simps split: if_splits)
  qed (use g assms in \<open>auto simp: readParticipants_def attempt_def run_simps\<close>)
qed

lemma AllNodesReached_ok:
  assumes "AllNodesReached rid p w = (Inr (True, pending), w')"
  shows "\<exists>L. a_log w' = a_log w @ L \<and> idle L \<and> seen_met rid p L"
proof -
  from assms obtain ns w1 parts where l: "list_nodes w = (Inr ns, w1)"
    and r: "readParticipants rid w1 = (Inr parts, w')"
    and e: "pending_of (time_now w') ns (if parts = [] then live_names ns else parts) rid p = []"
    unfolding live_names_def by (auto simp: AllNodesReached_def andthen_ok_iff run_simps Let_def)
  from reads_onlyD [OF reads_only_derived(3) assms] obtain L where L: "a_log w' = a_log w @ L" "idle L" by blast
  let ?k = "ak (enter w)"
  from reads_onlyD [OF reads_only_derived(2) r] list_nodes_ok [OF l] obtain M where
    M: "a_log w' = a_log w @ (?k, ?k) # M" by (auto simp: kube_simps)
  have k: "(?k, ?k) \<in> set L" using L(1) M by auto
  have met: "barrier_met (k_nodes ?k) (if parts = [] then live_names ns else parts) rid p"
    using e list_nodes_ok [OF l] by (simp add: pending_of_Nil)
  have "seen_met rid p L"
  proof (cases "parts = []")
    case True
    then show ?thesis using k met list_nodes_ok [OF l] unfolding seen_met_def by fastforce
  next
    case False
    with readParticipants_ok [OF r] obtain k1 where k1: "a_log w' = a_log w1 @ [(k1, k1)]" "parts = participants_of k1 rid"
      by blast
    then have "(k1, k1) \<in> set L" using L(1) list_nodes_ok [OF l] by (auto simp: kube_simps)
    then show ?thesis using k met False k1(2) unfolding seen_met_def by fastforce
  qed
  with L show ?thesis by blast
qed

text \<open>\<open>justified\<close>: every own step that takes the desired phase past the barrier comes after the
  barrier was seen met.\<close>

definition raises :: "string \<Rightarrow> phase \<Rightarrow> kube \<times> kube \<Rightarrow> bool" where
  "raises rid p = (\<lambda>(k, k'). AtLeast (desired_of k' rid) (Next p) \<and> \<not> AtLeast (desired_of k rid) (Next p))"

definition justified :: "string \<Rightarrow> phase \<Rightarrow> (kube \<times> kube) list \<Rightarrow> bool" where
  "justified rid p L \<longleftrightarrow> (\<forall>i < length L. raises rid p (L ! i) \<longrightarrow> seen_met rid p (take i L))"

lemma seen_met_mono: "seen_met rid p L \<Longrightarrow> set L \<subseteq> set M \<Longrightarrow> seen_met rid p M"
  unfolding seen_met_def by blast

lemma justified_idle: "idle L \<Longrightarrow> justified rid p L"
  by (auto simp: justified_def idle_def raises_def split: prod.splits) (metis case_prodD nth_mem)

lemma justified_append: "justified rid p A \<Longrightarrow> justified rid p B \<Longrightarrow> justified rid p (A @ B)"
  unfolding justified_def
proof (intro allI impI)
  fix i
  assume A: "\<forall>i<length A. raises rid p (A ! i) \<longrightarrow> seen_met rid p (take i A)"
    and B: "\<forall>i<length B. raises rid p (B ! i) \<longrightarrow> seen_met rid p (take i B)"
    and i: "i < length (A @ B)" and r: "raises rid p ((A @ B) ! i)"
  show "seen_met rid p (take i (A @ B))"
  proof (cases "i < length A")
    case True
    with A r show ?thesis by (simp add: nth_append)
  next
    case False
    then have "i - length A < length B" using i by auto
    moreover have "raises rid p (B ! (i - length A))" using r False by (simp add: nth_append)
    ultimately have "seen_met rid p (take (i - length A) B)" using B by blast
    then show ?thesis by (rule seen_met_mono) (use False in auto)
  qed
qed

lemma justified_after: "seen_met rid p A \<Longrightarrow> justified rid p A \<Longrightarrow> justified rid p (A @ B)"
  unfolding justified_def
proof (intro allI impI)
  fix i
  assume s: "seen_met rid p A" and A: "\<forall>i<length A. raises rid p (A ! i) \<longrightarrow> seen_met rid p (take i A)"
    and r: "raises rid p ((A @ B) ! i)"
  show "seen_met rid p (take i (A @ B))"
  proof (cases "i < length A")
    case True
    with A r show ?thesis by (simp add: nth_append)
  next
    case False
    show ?thesis by (rule seen_met_mono [OF s]) (use False in auto)
  qed
qed

text \<open>Logs only grow.\<close>

definition logs :: "(api, 'a) io \<Rightarrow> bool" where
  "logs m \<longleftrightarrow> (\<forall>L0. keeps (\<lambda>w. \<exists>L. a_log w = L0 @ L) m)"

lemma logsD: "logs m \<Longrightarrow> m w = (r, w') \<Longrightarrow> \<exists>L. a_log w' = a_log w @ L"
proof -
  assume l: "logs m" and m: "m w = (r, w')"
  have "keeps (\<lambda>v. \<exists>L. a_log v = a_log w @ L) m" using l by (simp add: logs_def)
  from keepsD' [OF this _ m] show ?thesis by simp
qed

lemma logs_call: "logs (api_call f)"
  unfolding logs_def keeps_def
  by (auto simp: api_call_def Let_def kube_simps split: apifault.splits)

lemma keeps_log_calls:
  "keeps (\<lambda>w. \<exists>L. a_log w = L0 @ L) list_nodes" "keeps (\<lambda>w. \<exists>L. a_log w = L0 @ L) get_cm"
  "keeps (\<lambda>w. \<exists>L. a_log w = L0 @ L) (create_cm d)" "keeps (\<lambda>w. \<exists>L. a_log w = L0 @ L) (update_cm c d)"
  using logs_call unfolding logs_def list_nodes_def get_cm_def create_cm_def update_cm_def by blast+

lemma logs_Advance: "logs (AdvanceDesiredPhase rid to)"
  unfolding logs_def AdvanceDesiredPhase_def
  by (auto intro!: keeps_intro keeps_log_calls keeps_fresh)

section \<open>Turns of the barrier\<close>

lemma barrier_turn_log:
  assumes "barrier_turn rid p m opts dl st w = (t, w')"
  shows "\<exists>L. a_log w' = a_log w @ L \<and> justified rid p L"
proof -
  obtain r w1 where rp: "ReadProgress rid w = (r, w1)" by (cases "ReadProgress rid w")
  from reads_onlyD [OF reads_only_derived(1) rp] obtain L1 where L1: "a_log w1 = a_log w @ L1" "idle L1" by blast
  obtain r2 w2 where an: "AllNodesReached rid p w1 = (r2, w2)" by (cases "AllNodesReached rid p w1")
  from reads_onlyD [OF reads_only_derived(3) an] obtain L2 where L2: "a_log w2 = a_log w1 @ L2" "idle L2" by blast
  obtain r3 w3 where ad: "AdvanceDesiredPhase rid (Next p) w2 = (r3, w3)" by (cases "AdvanceDesiredPhase rid (Next p) w2")
  from logsD [OF logs_Advance ad] obtain L3 where L3: "a_log w3 = a_log w2 @ L3" by blast
  have "w' \<in> {w1, w2} \<or> (w' = w3 \<and> (\<exists>pending. r2 = Inr (True, pending)))"
    using assms rp an ad
    by (auto simp: barrier_turn_def Let_def split: sum.splits prod.splits if_splits option.splits)
  then consider "w' = w1" | "w' = w2" | pending where "w' = w3" "r2 = Inr (True, pending)" by blast
  then show ?thesis
  proof cases
    case 1
    with L1 justified_idle show ?thesis by blast
  next
    case 2
    with L1 L2 show ?thesis by (intro exI [of _ "L1 @ L2"]) (simp add: justified_idle)
  next
    case 3
    with AllNodesReached_ok [of rid p w1 pending w2] an L2 have "seen_met rid p L2" by auto
    then have "seen_met rid p (L1 @ L2)" by (rule seen_met_mono) auto
    then have "justified rid p ((L1 @ L2) @ L3)"
      by (rule justified_after) (simp add: justified_idle L1 L2)
    with 3 L1 L2 L3 show ?thesis by (intro exI [of _ "L1 @ L2 @ L3"]) simp
  qed
qed

lemma barrier_loop_log:
  "barrier_loop n rid p m opts dl st w = Some (r, w') \<Longrightarrow> \<exists>L. a_log w' = a_log w @ L \<and> justified rid p L"
proof (induction n arbitrary: st w)
  case (Suc n)
  obtain t w1 where t: "barrier_turn rid p m opts dl st w = (t, w1)" by (cases "barrier_turn rid p m opts dl st w")
  from barrier_turn_log [OF this] obtain L1 where L1: "a_log w1 = a_log w @ L1" "justified rid p L1" by blast
  have step: ?case if "barrier_loop n rid p m opts dl st2 w2 = Some (r, w')" "a_log w2 = a_log w1" for st2 w2
    using Suc.IH [OF that(1)] that(2) L1 justified_append [OF L1(2)] by (metis append.assoc)
  show ?case
  proof (cases t)
    case (Poll st2)
    obtain e w2 where n: "nap w1 = (e, w2)" by (cases "nap w1")
    then have "a_log w2 = a_log w1" by (auto simp: nap_def kube_simps)
    with Suc.prems t Poll n L1 step show ?thesis by (cases e) auto
  qed (use Suc.prems t L1 step in auto)
qed simp

lemma barrier_turn_ok:
  "barrier_turn rid p m opts dl st w = (Return (Inr ()), w') \<Longrightarrow> AtLeast (desired_of (ak w') rid) (Next p)"
  by (auto simp: barrier_turn_def Let_def split: sum.splits prod.splits if_splits option.splits dest: ReadProgress_ok)

lemma barrier_loop_ok:
  "barrier_loop n rid p m opts dl st w = Some (Inr (), w') \<Longrightarrow> AtLeast (desired_of (ak w') rid) (Next p)"
proof (induction n arbitrary: st w)
  case (Suc n)
  obtain t w1 where t: "barrier_turn rid p m opts dl st w = (t, w1)" by (cases "barrier_turn rid p m opts dl st w")
  show ?case
  proof (cases t)
    case (Return r)
    with Suc.prems t barrier_turn_ok show ?thesis by auto
  next
    case (Poll st2)
    with Suc t show ?thesis by (auto split: prod.splits sum.splits)
  qed (use Suc t in auto)
qed simp

section \<open>Status annotations\<close>

lemma cut_last_append: "c \<notin> set b \<Longrightarrow> cut_last c (a @ c # b) = Some (a, b)"
  by (simp add: cut_last_def cut_at_append)

lemma parse_status: "CHR ''@'' \<notin> set rid \<Longrightarrow>
    parseNodeStatus (p @ ''@'' @ rid) rid' = (if rid' = rid then (p, True) else ([], False))"
  by (simp add: parseNodeStatus_def cut_last_append)

lemma annotate_node_ok:
  assumes "annotate_node name key v w = (Inr (), w')" "n \<in> set (k_nodes (ak w'))" "n_name n = name"
  shows "n_annotations n key = Some v"
proof -
  let ?f = "\<lambda>n :: knode. if n_name n = name then n\<lparr>n_annotations := (n_annotations n)(key \<mapsto> v)\<rparr> else n"
  have "k_nodes (ak w') = map ?f (k_nodes (ak (enter w)))"
    using assms(1) by (clarsimp simp: annotate_node_def api_call_def Let_def kube_simps split: apifault.splits if_splits)
  with assms(2) obtain m where "m \<in> set (k_nodes (ak (enter w)))" "n = ?f m" by auto
  with assms(3) show ?thesis by (cases "n_name m = name") simp_all
qed

section \<open>The hold label\<close>

definition hold_set :: "knode list \<Rightarrow> bool" where
  "hold_set ns \<longleftrightarrow> (\<exists>n \<in> set ns. \<not> n_deleting n \<and> isControlPlane n \<and> sget (n_labels n) HoldLabel = HoldLabelValue)"

lemma first_holder_None: "first_holder ns = None \<longleftrightarrow> \<not> hold_set ns"
  by (induction ns) (auto simp: hold_set_def)

section \<open>Undisturbed calls\<close>

lemma quiet_enter [simp]: "api_quiet w \<Longrightarrow> ak (enter w) = ak w" "api_quiet w \<Longrightarrow> api_quiet (enter w)"
  "api_quiet (logged k w) = api_quiet w" "api_quiet (w\<lparr>ak := k'\<rparr>) = api_quiet w"
  by (simp_all add: api_quiet_def kube_simps)

lemma quiet_call: "api_quiet w \<Longrightarrow> api_call f w =
    (fst (f (ak w)), logged (ak w) ((enter w)\<lparr>ak := snd (f (ak w))\<rparr>))"
  by (simp add: api_call_def Let_def) (simp add: api_quiet_def)

lemma upd_same: "ak w = k \<Longrightarrow> w\<lparr>ak := k\<rparr> = w"
  by simp

definition step_quiet :: "api \<Rightarrow> api" where
  "step_quiet w = logged (ak w) (enter w)"

lemma step_quiet_simps [simp]:
  "api_quiet w \<Longrightarrow> api_quiet (step_quiet w)" "api_quiet w \<Longrightarrow> ak (step_quiet w) = ak w"
  "a_time (step_quiet w) = a_time w" "a_tick (step_quiet w) = a_tick w + 1"
  by (simp_all add: step_quiet_def) (simp_all add: logged_def, simp_all add: enter_def api_quiet_def)

lemma quiet_get_cm: "api_quiet w \<Longrightarrow> k_cm (ak w) = Some c \<Longrightarrow> get_cm w = (Inr c, step_quiet w)"
  by (simp add: get_cm_def quiet_call upd_same step_quiet_def)

lemma quiet_list: "api_quiet w \<Longrightarrow> list_nodes w = (Inr (k_nodes (ak w)), step_quiet w)"
  by (simp add: list_nodes_def quiet_call upd_same step_quiet_def)

lemma quiet_update_cm: "api_quiet w \<Longrightarrow> k_cm (ak w) = Some c \<Longrightarrow>
    update_cm c d w = (Inr (), logged (ak w) ((enter w)\<lparr>ak := put_cm d (ak w)\<rparr>))"
  by (simp add: update_cm_def quiet_call)

lemma quiet_ReadProgress:
  "api_quiet w \<Longrightarrow> owner_of (ak w) = rid \<Longrightarrow> rid \<noteq> [] \<Longrightarrow>
   \<exists>beat. ReadProgress rid w = (Inr (desired_of (ak w) rid, beat), step_quiet w)"
  by (auto simp: owner_of_def ReadProgress_def attempt_def quiet_get_cm run_simps Let_def
      desired_of_def desired_in_def split: option.splits)

definition waited_on :: "kube \<Rightarrow> string \<Rightarrow> string list" where
  "waited_on k rid = (if participants_of k rid = [] then live_names (k_nodes k) else participants_of k rid)"

lemma quiet_AllNodesReached:
  assumes "api_quiet w" "owner_of (ak w) = rid" "rid \<noteq> []"
  shows "\<exists>pending. AllNodesReached rid p w = (Inr (barrier_met (k_nodes (ak w)) (waited_on (ak w) rid) rid p, pending),
     step_quiet (step_quiet w))"
proof -
  from assms obtain c where c: "k_cm (ak w) = Some c" "sget (cm_data c) keyRotationID = rid"
    by (auto simp: owner_of_def split: option.splits)
  then have "readParticipants rid (step_quiet w) = (Inr (participants_of (ak w) rid), step_quiet (step_quiet w))"
    using assms(1) quiet_get_cm [of "step_quiet w" c]
    by (simp add: readParticipants_def attempt_def run_simps participants_of_def)
  then show ?thesis
    using assms(1) quiet_list [of w]
    by (auto simp: AllNodesReached_def andthen_def run_simps Let_def pending_of_Nil waited_on_def live_names_def)
qed

lemma retry_no_conflict: "m w = (r, w') \<Longrightarrow> (\<And>e. r = Inl e \<Longrightarrow> \<not> is_conflict e) \<Longrightarrow> RetryOnConflict m w = (r, w')"
  by (cases r) (simp_all add: RetryOnConflict_def numeral_eq_Suc)

lemma quiet_Advance:
  assumes "api_quiet w" "owner_of (ak w) = rid" "rid \<noteq> []"
    and "\<not> AtLeast (desired_of (ak w) rid) to"
  shows "\<exists>w'. AdvanceDesiredPhase rid to w = (Inr (), w') \<and> api_quiet w' \<and> owner_of (ak w') = rid
    \<and> desired_of (ak w') rid = (if Valid to then to else PhasePrepare) \<and> a_time w' = a_time w"
proof -
  from assms obtain c where c: "k_cm (ak w) = Some c" "sget (cm_data c) keyRotationID = rid"
    by (auto simp: owner_of_def split: option.splits)
  have na: "\<not> AtLeast (sget (cm_data c) keyDesiredPhase) to"
    using assms(4) c Index_desired(2) [of "cm_data c"] by (simp add: desired_of_def AtLeast_def)
  let ?d = "(cm_data c)(keyDesiredPhase \<mapsto> to)" and ?w1 = "step_quiet w"
  let ?w2 = "logged (ak ?w1) ((enter ?w1)\<lparr>ak := put_cm ?d (ak ?w1)\<rparr>)"
  have "AdvanceDesiredPhase rid to w = (Inr (), ?w2)"
    unfolding AdvanceDesiredPhase_def
    using assms(1) c na quiet_get_cm [of w c] quiet_update_cm [of ?w1 c ?d]
    by (intro retry_no_conflict) (simp_all add: attempt_def andthen_def run_simps)
  moreover have "ak ?w2 = put_cm ?d (ak w)" "api_quiet ?w2" "a_time ?w2 = a_time w"
    using assms(1) by (simp_all add: kube_simps)
  ultimately show ?thesis using c by (auto simp: desired_in_def)
qed

lemma barrier_live:
  assumes "api_quiet w" "owner_of (ak w) = rid" "rid \<noteq> []" "Next p \<noteq> PhaseDone"
    and "barrier_met (k_nodes (ak w)) (waited_on (ak w) rid) rid p"
    and "\<not> AtLeast (desired_of (ak w) rid) (Next p)"
  shows "\<exists>w'. Barrier (Suc (Suc n)) ctx rid p True opts w = Some (Inr (), w')
     \<and> desired_of (ak w') rid = Next p"
proof -
  obtain beat where rp: "ReadProgress rid w = (Inr (desired_of (ak w) rid, beat), step_quiet w)"
    using quiet_ReadProgress assms(1-3) by blast
  obtain pend where an: "AllNodesReached rid p (step_quiet w) = (Inr (True, pend), step_quiet (step_quiet (step_quiet w)))"
    using quiet_AllNodesReached [of "step_quiet w" rid p] assms by auto
  have "Valid (Next p)" using Index_range [of p] by (auto simp: Valid_def Index_Next)
  with quiet_Advance [of "step_quiet (step_quiet (step_quiet w))" rid "Next p"] assms obtain w3 where
    ad: "AdvanceDesiredPhase rid (Next p) (step_quiet (step_quiet (step_quiet w))) = (Inr (), w3)"
      "api_quiet w3" "owner_of (ak w3) = rid" "desired_of (ak w3) rid = Next p" by auto
  obtain beat3 where rp3: "ReadProgress rid w3 = (Inr (Next p, beat3), step_quiet w3)"
    using quiet_ReadProgress [of w3 rid] ad assms(3) by auto
  have t1: "barrier_turn rid p True o2 dl st w = (Again, w3)" for o2 dl st
    using rp an ad(1) assms(6) by (simp add: barrier_turn_def Let_def)
  have t2: "barrier_turn rid p True o2 dl st w3 = (Return (Inr ()), step_quiet w3)" for o2 dl st
    using rp3 by (simp add: barrier_turn_def Let_def)
  show ?thesis using assms(4) t1 t2 ad by (simp add: Barrier_def Let_def)
qed

section \<open>A waiter returns\<close>

lemma ReadProgress_env: "ReadProgress rid w = (r, w') \<Longrightarrow> a_time w' = a_time w \<and> a_tick w' = a_tick w + 1"
  using ReadProgress_world [of rid w] by (auto simp: kube_simps)

text \<open>A worker's turn either returns or moves on with the clock; past the deadline it returns.\<close>

lemma worker_turn:
  assumes "barrier_turn rid p False opts dl st w = (t, w')"
  shows "a_time w' = a_time w \<and> a_tick w' = a_tick w + 1
    \<and> (t = Poll st \<and> time_now w' \<le> dl \<or> (\<exists>r. t = Return r))"
  using assms ReadProgress_env [of rid w]
  by (auto simp: barrier_turn_def Let_def split: sum.splits prod.splits if_splits option.splits)

lemma barrier_loop_mono:
  "barrier_loop n rid p m opts dl st w = Some x \<Longrightarrow> n \<le> n' \<Longrightarrow> barrier_loop n' rid p m opts dl st w = Some x"
proof (induction n arbitrary: n' st w)
  case (Suc n)
  then obtain k where k: "n' = Suc k" "n \<le> k" by (cases n') auto
  show ?case
    using Suc.prems(1) Suc.IH [OF _ k(2)] unfolding k(1)
    by (auto split: prod.splits turn.splits sum.splits)
qed simp

lemma worker_returns:
  assumes "\<forall>t \<ge> T. a_time w t > dl"
  shows "\<exists>r w'. barrier_loop (Suc (T - a_tick w)) rid p False opts dl st w = Some (r, w')"
  using assms
proof (induction "T - a_tick w" arbitrary: w rule: less_induct)
  case less
  obtain t w1 where t: "barrier_turn rid p False opts dl st w = (t, w1)"
    by (cases "barrier_turn rid p False opts dl st w")
  note wt = worker_turn [OF t]
  show ?case
  proof (cases t)
    case (Poll st2)
    with wt have st: "st2 = st" "time_now w1 \<le> dl" by auto
    then have lt: "a_tick w1 < T" using less.prems wt by (auto simp: time_now_def not_le [symmetric])
    obtain e w2 where n: "nap w1 = (e, w2)" "a_time w2 = a_time w" "a_tick w2 = a_tick w1 + 1"
      using wt by (cases "nap w1") (auto simp: nap_def kube_simps)
    from lt wt n have "T - a_tick w2 < T - a_tick w" by simp
    from less.hyps [OF this] less.prems n(2) obtain r w' where
      ih: "barrier_loop (Suc (T - a_tick w2)) rid p False opts dl st w2 = Some (r, w')" by auto
    have more: "barrier_loop m rid p False opts dl st w2 = Some (r, w')" if "m \<ge> Suc (T - a_tick w2)" for m
      using barrier_loop_mono [OF ih that] .
    show ?thesis using t Poll st n more [of "T - a_tick w"] lt wt by (cases e) auto
  qed (use t wt in auto)
qed

section \<open>The restart lock\<close>

text \<open>\<open>lock_held T h k\<close>: the lease is held by \<open>h\<close> and does not expire before \<open>T\<close>.\<close>

definition lock_held :: "int \<Rightarrow> string \<Rightarrow> kube \<Rightarrow> bool" where
  "lock_held T h k \<longleftrightarrow> h \<noteq> [] \<and> (\<exists>l r d. k_lease k = Some l \<and> l_holder l = Some h
     \<and> l_renew l = Some r \<and> l_duration l = Some d \<and> T < r + d)"

definition lock_kept :: "int \<Rightarrow> string \<Rightarrow> kube \<Rightarrow> kube \<Rightarrow> bool" where
  "lock_kept T h k k' \<longleftrightarrow> (lock_held T h k \<longrightarrow> k_lease k' = k_lease k)"

lemma lock_kept_refl [simp]: "lock_kept T h k k"
  by (simp add: lock_kept_def)

lemma held_by_other: "lock_held T h k \<Longrightarrow> k_lease k = Some l \<Longrightarrow> h' \<noteq> h \<Longrightarrow> now \<le> T \<Longrightarrow> leaseHeldByOther l h' now"
  by (auto simp: lock_held_def leaseHeldByOther_def derefHolder_def Let_def)

definition clock_until :: "int \<Rightarrow> api \<Rightarrow> bool" where
  "clock_until T w \<longleftrightarrow> (\<forall>t. a_time w t \<le> T)"

lemma keeps_clock_call: "keeps (clock_until T) (api_call f)"
  by (auto simp: keeps_def clock_until_def api_call_def Let_def kube_simps split: apifault.splits)

lemma get_lease_env: "get_lease w = (r, w1) \<Longrightarrow> a_time w1 = a_time w"
  using read_world(3) [of w] by (auto simp: kube_simps)

definition lock_inv :: "int \<Rightarrow> string \<Rightarrow> api \<Rightarrow> bool" where
  "lock_inv T h w \<longleftrightarrow> guarded (lock_kept T h) w \<and> clock_until T w"

lemma lock_inv_get: "lock_inv T h w \<Longrightarrow> get_lease w = (r, w1) \<Longrightarrow> lock_inv T h w1"
  unfolding lock_inv_def clock_until_def
  using keepsD' [OF guards_reads(3) [of "lock_kept T h"], of w] get_lease_env [of w r w1] by auto

text \<open>Writing over the lease that was read is safe for \<open>h\<close> when that lease is not \<open>h\<close>'s.\<close>

lemma lock_inv_write:
  assumes "lock_inv T h w" "get_lease w = (Inr l, w1)" "l_rev l' = l_rev l"
    and "\<And>k. k_lease k = Some l \<Longrightarrow> \<not> lock_held T h k"
  shows "lock_inv T h (snd (update_lease l' w1))"
proof -
  have g: "guarded (lock_kept T h) w1" "clock_until T w1" "env_ok w"
    using lock_inv_get [OF assms(1,2)] assms(1) guarded_env by (auto simp: lock_inv_def)
  have "guarded (lock_kept T h) (snd (update_lease l' w1))"
    by (rule guarded_update_lease [OF _ _ lease_since_get [OF g(3) assms(2)] g(1) assms(3)])
       (use assms(4) in \<open>auto simp: lock_kept_def\<close>)
  moreover have "clock_until T (snd (update_lease l' w1))"
    using keepsD [OF keeps_clock_call g(2)] unfolding update_lease_def by blast
  ultimately show ?thesis by (simp add: lock_inv_def)
qed

lemma taken_lease_rev: "l_rev (taken_lease l h d t) = l_rev l"
  by (simp add: taken_lease_def Let_def)

lemma lock_inv_create: "lock_inv T h w \<Longrightarrow> lock_inv T h (snd (create_lease l w))"
proof -
  assume i: "lock_inv T h w"
  have "keeps (guarded (lock_kept T h)) (create_lease l)"
    unfolding create_lease_def
    by (intro guards_call) (auto simp: orderly_def kube_simps lock_kept_def lock_held_def split: option.splits)
  then have "guarded (lock_kept T h) (snd (create_lease l w))"
    by (rule keepsD) (use i in \<open>simp add: lock_inv_def\<close>)
  moreover have "clock_until T (snd (create_lease l w))"
    unfolding create_lease_def by (rule keepsD [OF keeps_clock_call]) (use i in \<open>simp add: lock_inv_def\<close>)
  ultimately show ?thesis by (simp add: lock_inv_def)
qed

text \<open>Another master's attempt leaves the lease alone while it is held.\<close>

lemma keeps_tryAcquire:
  assumes "h' \<noteq> h"
  shows "keeps (lock_inv T h) (tryAcquireLease h' dur)"
  unfolding tryAcquireLease_def
proof (rule keeps_RetryOnConflict, rule keepsI)
  fix w assume i: "lock_inv T h w"
  obtain r w1 where g: "get_lease w = (r, w1)" by (cases "get_lease w")
  have i1: "lock_inv T h w1" by (rule lock_inv_get [OF i g])
  have wr: "lock_inv T h (snd (update_lease (taken_lease l h' dur t) w1))"
    if "r = Inr l" "\<not> leaseHeldByOther l h' (time_now w1)" for l t
  proof (rule lock_inv_write [OF i])
    show "get_lease w = (Inr l, w1)" using g that by simp
    have "time_now w1 \<le> T" using i1 by (simp add: lock_inv_def clock_until_def time_now_def)
    then show "\<not> lock_held T h k" if "k_lease k = Some l" for k
      using held_by_other [OF _ that assms] \<open>\<not> leaseHeldByOther l h' (time_now w1)\<close> by blast
  qed (rule taken_lease_rev)
  show "lock_inv T h (snd (andthen (asks time_now) (\<lambda>now. attempt get_lease (\<lambda>r. case r of
       Inl e \<Rightarrow> if is_not_exist e
         then andthen (create_lease \<lparr>l_holder = Some h', l_duration = Some dur, l_acquire = Some now,
                l_renew = Some now, l_rev = 0\<rparr>) (\<lambda>_. ret True)
         else throw e
     | Inr l \<Rightarrow> andthen (asks time_now) (\<lambda>now2.
         if leaseHeldByOther l h' now2 then ret False
         else andthen (update_lease (taken_lease l h' dur now)) (\<lambda>_. ret True)))) w))"
    using g i1 wr lock_inv_create [OF i1]
    by (cases r) (auto simp: andthen_def attempt_def run_simps split: prod.splits sum.splits; metis snd_conv)+
qed

lemma keeps_release:
  assumes "h' \<noteq> h"
  shows "keeps (lock_inv T h) (releaseLease h')"
  unfolding releaseLease_def
proof (rule keeps_attempt [OF keeps_RetryOnConflict])
  show "keeps (lock_inv T h) (attempt get_lease (\<lambda>r. case r of
       Inl e \<Rightarrow> if is_not_exist e then ret () else throw e
     | Inr l \<Rightarrow> if derefHolder l \<noteq> h' then ret ()
         else andthen (asks time_now) (\<lambda>now.
           update_lease (l\<lparr>l_holder := Some [], l_renew := Some (now - 3600)\<rparr>))))"
  proof (rule keepsI)
    fix w assume i: "lock_inv T h w"
    obtain r w1 where g: "get_lease w = (r, w1)" by (cases "get_lease w")
    have i1: "lock_inv T h w1" by (rule lock_inv_get [OF i g])
    have "lock_inv T h (snd (update_lease (l\<lparr>l_holder := Some [], l_renew := Some t\<rparr>) w1))"
      if "r = Inr l" "derefHolder l = h'" for l t
      by (rule lock_inv_write [OF i]) (use g that assms in \<open>auto simp: lock_held_def derefHolder_def\<close>)
    with g i1 show "lock_inv T h (snd (attempt get_lease (\<lambda>r. case r of
       Inl e \<Rightarrow> if is_not_exist e then ret () else throw e
     | Inr l \<Rightarrow> if derefHolder l \<noteq> h' then ret ()
         else andthen (asks time_now) (\<lambda>now.
           update_lease (l\<lparr>l_holder := Some [], l_renew := Some (now - 3600)\<rparr>))) w))"
      by (cases r) (auto simp: andthen_def attempt_def run_simps)
  qed
qed (intro keeps_intro)

text \<open>A lock that no step of anyone but its holder takes away, and its client: whoever holds it
  keeps it over any interleaving of the others' steps, and nobody else holds it meanwhile.\<close>

locale exclusive_lock =
  fixes held :: "'h \<Rightarrow> 's \<Rightarrow> bool" and step_by :: "'h \<Rightarrow> 's \<Rightarrow> 's \<Rightarrow> bool"
  assumes one_holder: "held h s \<Longrightarrow> held h' s \<Longrightarrow> h' = h"
    and others_keep: "held h s \<Longrightarrow> step_by h' s s' \<Longrightarrow> h' \<noteq> h \<Longrightarrow> held h s'"
begin

fun run_of :: "('h \<times> 's) list \<Rightarrow> 's \<Rightarrow> bool" where
  "run_of [] s = True"
| "run_of ((h, s') # r) s = (step_by h s s' \<and> run_of r s')"

lemma stays_held:
  assumes "held h s" "run_of r s" "\<forall>(h', _) \<in> set r. h' \<noteq> h" "(h', s') \<in> set r"
  shows "held h s' \<and> (held h'' s' \<longrightarrow> h'' = h)"
  using assms
proof (induction r arbitrary: s)
  case (Cons x r)
  obtain g t where x: "x = (g, t)" by (cases x)
  with Cons.prems others_keep have "held h t" by auto
  with Cons x one_holder show ?case by auto
qed simp

end

text \<open>An own step of a master's lock operation, made no later than \<open>T\<close>.\<close>

definition lock_step :: "int \<Rightarrow> string \<Rightarrow> kube \<Rightarrow> kube \<Rightarrow> bool" where
  "lock_step T h k k' \<longleftrightarrow> (\<exists>w. env_ok w \<and> clock_until T w \<and> a_log w = []
     \<and> ((\<exists>dur. (k, k') \<in> set (a_log (snd (tryAcquireLease h dur w))))
       \<or> (k, k') \<in> set (a_log (snd (releaseLease h w)))))"

lemma lock_step_kept: "lock_step T h' k k' \<Longrightarrow> h' \<noteq> h \<Longrightarrow> lock_kept T h k k'"
proof -
  assume "lock_step T h' k k'" and ne: "h' \<noteq> h"
  then obtain w where w: "env_ok w" "clock_until T w" "a_log w = []"
    and l: "(\<exists>dur. (k, k') \<in> set (a_log (snd (tryAcquireLease h' dur w))))
       \<or> (k, k') \<in> set (a_log (snd (releaseLease h' w)))" unfolding lock_step_def by blast
  from w have "lock_inv T h w" by (simp add: lock_inv_def guarded_def)
  then have "lock_inv T h (snd (tryAcquireLease h' dur w))" "lock_inv T h (snd (releaseLease h' w))" for dur
    using keepsD [OF keeps_tryAcquire [OF ne]] keepsD [OF keeps_release [OF ne]] by blast+
  with l show ?thesis by (auto simp: lock_inv_def guarded_def)
qed

interpretation restart_lock: exclusive_lock "lock_held T" "lock_step T" for T
proof
  fix h h' :: string and s s' :: kube
  show "lock_held T h s \<Longrightarrow> lock_held T h' s \<Longrightarrow> h' = h" by (auto simp: lock_held_def)
  show "lock_held T h s \<Longrightarrow> lock_step T h' s s' \<Longrightarrow> h' \<noteq> h \<Longrightarrow> lock_held T h s'"
    using lock_step_kept [of T h' s s' h] by (auto simp: lock_kept_def lock_held_def)
qed

lemma create_lease_ok:
  "create_lease l w = (Inr (), w') \<Longrightarrow> \<exists>n. k_lease (ak w') = Some (l\<lparr>l_rev := n\<rparr>)"
  by (auto simp: create_lease_def api_call_def Let_def kube_simps put_lease_def split: apifault.splits option.splits)

lemma tryAcquire_ok:
  assumes "tryAcquireLease h dur w = (Inr True, w')" "h \<noteq> []" "\<And>t. t0 \<le> a_time w t" "T < t0 + dur"
  shows "lock_held T h (ak w')"
proof -
  let ?P = "\<lambda>v. a_time v = a_time w"
  let ?body = "andthen (asks time_now) (\<lambda>now. attempt get_lease (\<lambda>r. case r of
       Inl e \<Rightarrow> if is_not_exist e
         then andthen (create_lease \<lparr>l_holder = Some h, l_duration = Some dur, l_acquire = Some now,
                l_renew = Some now, l_rev = 0\<rparr>) (\<lambda>_. ret True)
         else throw e
     | Inr l \<Rightarrow> andthen (asks time_now) (\<lambda>now2.
         if leaseHeldByOther l h now2 then ret False
         else andthen (update_lease (taken_lease l h dur now)) (\<lambda>_. ret True))))"
  have call: "keeps ?P (api_call f)" for f :: "kube \<Rightarrow> 'x result \<times> kube"
    by (auto simp: keeps_def api_call_def Let_def kube_simps split: apifault.splits)
  have "keeps ?P ?body"
    unfolding get_lease_def create_lease_def update_lease_def by (intro keeps_intro call)
  with retry_ok_from [OF assms(1) [unfolded tryAcquireLease_def RetryOnConflict_def], of ?P] obtain w0 where
    w0: "a_time w0 = a_time w" "?body w0 = (Inr True, w')" by auto
  then obtain r w1 where g: "get_lease w0 = (r, w1)" by (cases "get_lease w0")
  have now: "T < time_now w0 + dur" using assms(3,4) w0(1) by (auto simp: time_now_def intro: less_le_trans)
  from w0(2) g have "(\<exists>l. create_lease \<lparr>l_holder = Some h, l_duration = Some dur, l_acquire = Some (time_now w0),
                l_renew = Some (time_now w0), l_rev = 0\<rparr> w1 = (Inr (), w'))
     \<or> (\<exists>l. update_lease (taken_lease l h dur (time_now w0)) w1 = (Inr (), w'))"
    by (cases r) (auto simp: andthen_def attempt_def run_simps split: prod.splits sum.splits if_splits)
  then have "\<exists>l. k_lease (ak w') = Some l \<and> l_holder l = Some h \<and> l_renew l = Some (time_now w0)
      \<and> l_duration l = Some dur"
    using create_lease_ok [of _ w1 w'] update_lease_ok [of _ w1 w']
    by (elim disjE exE) (fastforce simp: kube_simps taken_lease_def Let_def)+
  with now assms(2) show ?thesis by (auto simp: lock_held_def)
qed

lemma guards_Heartbeat: "guards (phase_step rid) (Heartbeat rid)"
proof -
  have "phase_step rid k (put_cm ((cm_data c)(keyHeartbeat \<mapsto> v)) k)" if "k_cm k = Some c" for k c v
    using that by (simp add: phase_step_def owner_of_def desired_of_def desired_in_def participants_of_def kube_simps)
  then have "keeps (guarded (phase_step rid)) (patch_cm keyHeartbeat v)" for v
    unfolding patch_cm_def by (intro guards_call) (auto simp: orderly_def kube_simps split: option.splits)
  then show ?thesis
    unfolding guards_def Heartbeat_def by (intro keeps_intro guards_reads) auto
qed

lemma guards_log: "guards G m \<Longrightarrow> env_ok w \<Longrightarrow> a_log w = [] \<Longrightarrow> (k, k') \<in> set (a_log (snd (m w))) \<Longrightarrow> G k k'"
  unfolding guards_def using keepsD [of "guarded G" m w] by (auto simp: guarded_def)

lemma keeps_env_ok_try: "keeps env_ok (tryAcquireLease h dur)"
  unfolding tryAcquireLease_def by (intro keeps_intro)

lemma tryAcquire_refused:
  assumes "lock_held T h (ak w)" "\<forall>t k. lock_kept T h k (a_env w t k)" "clock_until T w" "h' \<noteq> h"
  shows "fst (tryAcquireLease h' dur w) \<noteq> Inr True"
proof -
  have "lock_held T h (ak (enter w))"
    using assms(1,2) by (auto simp: kube_simps lock_kept_def lock_held_def)
  then obtain l where l: "k_lease (ak (enter w)) = Some l" by (auto simp: lock_held_def)
  obtain r w1 where g: "get_lease w = (r, w1)" by (cases "get_lease w")
  have r: "r = Inr l \<or> r = Inl IOErr"
    using g l by (auto simp: get_lease_def api_call_def Let_def split: apifault.splits)
  have "time_now w1 \<le> T" using assms(3) get_lease_env [OF g] by (simp add: clock_until_def time_now_def)
  then have "leaseHeldByOther l h' (time_now w1)"
    using held_by_other [OF \<open>lock_held T h (ak (enter w))\<close> l assms(4)] by blast
  with r g show ?thesis
    by (auto simp: tryAcquireLease_def RetryOnConflict_def numeral_eq_Suc andthen_def attempt_def run_simps)
qed

section \<open>Properties\<close>

text \<open>C8: whatever the other clients do between its calls, and whichever calls fail or fail
  after taking effect, no step that a coordinator makes for a rotation moves that rotation's
  desired phase back, drops its participants, or gives its ConfigMap to another rotation.\<close>

theorem desired_phase_never_back:
  assumes "rid \<noteq> []" "env_ok w" "a_log w = []"
    and "m \<in> {EnsureRotation rid, AdvanceDesiredPhase rid to, Heartbeat rid}"
    and "(k, k') \<in> set (a_log (snd (m w)))"
  shows "phase_step rid k k'"
  using assms(4,5) guards_log [OF _ assms(2,3)] guards_EnsureRotation [OF assms(1)]
    guards_Advance [OF assms(1), of to] guards_Heartbeat [of rid] by blast

definition demo_node :: "string \<Rightarrow> bool \<Rightarrow> string \<Rightarrow> knode" where
  "demo_node name cp status = \<lparr>n_name = name,
     n_labels = (if cp then [controlPlaneRoleLabel \<mapsto> []] else Map.empty),
     n_annotations = (if status = [] then Map.empty else [NodeAnnotation \<mapsto> status]),
     n_deleting = False, n_conditions = [\<lparr>cond_type = ''Ready'', cond_status = ''True'', cond_since = None\<rparr>]\<rparr>"

definition demo_kube :: kube where
  "demo_kube = \<lparr>k_nodes = [demo_node ''m0'' True ''prepare@r1'', demo_node ''w0'' False ''prepare@r1''],
     k_cm = Some \<lparr>cm_data = [keyRotationID \<mapsto> ''r1'', keyDesiredPhase \<mapsto> ''prepare'', keyParticipants \<mapsto> ''m0 w0''], cm_rev = 3\<rparr>,
     k_lease = None, k_role = True, k_binding = True, k_rev = 3\<rparr>"

definition quiet_api :: "kube \<Rightarrow> api" where
  "quiet_api k = \<lparr>ak = k, a_tick = 0, a_fault = (\<lambda>_. AOk), a_env = (\<lambda>_ k. k), a_time = (\<lambda>_. 100),
     a_cancelled = (\<lambda>_. False), a_log = []\<rparr>"

lemma quiet_api_env: "revs_ok k \<Longrightarrow> env_ok (quiet_api k)"
  by (auto simp: env_ok_def quiet_api_def rely_def revs_ok_def)

lemma demo_revs: "revs_ok demo_kube"
  by (simp add: revs_ok_def demo_kube_def)

lemma desired_phase_never_back_witness:
  "\<exists>k k'. (k, k') \<in> set (a_log (snd (AdvanceDesiredPhase ''r1'' ''cutover'' (quiet_api demo_kube))))
     \<and> desired_of k' ''r1'' = ''cutover'' \<and> phase_step ''r1'' k k'"
proof -
  let ?L = "a_log (snd (AdvanceDesiredPhase ''r1'' ''cutover'' (quiet_api demo_kube)))"
  have "?L \<noteq> []" "desired_of (snd (last ?L)) ''r1'' = ''cutover''" by code_simp+
  then have "last ?L \<in> set ?L" by simp
  then obtain k k' where k: "(k, k') \<in> set ?L" "desired_of k' ''r1'' = ''cutover''"
    using \<open>desired_of (snd (last ?L)) ''r1'' = ''cutover''\<close> by (metis prod.collapse)
  have "phase_step ''r1'' k k'"
    by (rule desired_phase_never_back [of "''r1''" "quiet_api demo_kube" "AdvanceDesiredPhase ''r1'' ''cutover''" "''cutover''"])
       (use k quiet_api_env [OF demo_revs] in \<open>auto simp: quiet_api_def\<close>)
  with k show ?thesis by blast
qed


text \<open>C14: the barrier is live. A master whose calls are not disturbed, on a ConfigMap scoped to
  its rotation with every participant still in the cluster at the completed phase, advances the
  desired phase by exactly one and returns success within two turns.\<close>

theorem barrier_advances:
  assumes "api_quiet w" "owner_of (ak w) = rid" "rid \<noteq> []" "Next p \<noteq> PhaseDone"
    and "barrier_met (k_nodes (ak w)) (waited_on (ak w) rid) rid p"
    and "\<not> AtLeast (desired_of (ak w) rid) (Next p)"
  shows "\<exists>w'. Barrier (Suc (Suc n)) ctx rid p True opts w = Some (Inr (), w')
     \<and> desired_of (ak w') rid = Next p"
  using assms by (rule barrier_live)

lemma demo_quiet: "api_quiet (quiet_api k)"
  by (simp add: api_quiet_def quiet_api_def)

lemma ak_quiet_api [simp]: "ak (quiet_api k) = k"
  by (simp add: quiet_api_def)

definition demo_opts :: barrier_options where
  "demo_opts = \<lparr>bo_poll = 10, bo_timeout = 0, bo_stall = 20, bo_abandon = 0\<rparr>"

lemma demo_barrier_met:
  "owner_of demo_kube = ''r1''"
  "barrier_met (k_nodes demo_kube) (waited_on demo_kube ''r1'') ''r1'' PhasePrepare"
  "\<not> AtLeast (desired_of demo_kube ''r1'') (Next PhasePrepare)"
  by code_simp+

lemma barrier_advances_witness:
  "\<exists>w'. Barrier 2 \<lparr>ctx_deadline = None\<rparr> ''r1'' PhasePrepare True demo_opts (quiet_api demo_kube) = Some (Inr (), w')
     \<and> desired_of (ak w') ''r1'' = PhaseCutover"
  using barrier_advances [of "quiet_api demo_kube" "''r1''" PhasePrepare 0 "\<lparr>ctx_deadline = None\<rparr>" demo_opts]
    demo_barrier_met demo_quiet by (simp add: numeral_2_eq_2)


text \<open>C13: a worker's barrier always returns: however the API behaves, once the clock stays past
  the deadline the wait ends, with at most one turn for each tick until then.\<close>

theorem worker_barrier_returns:
  assumes "Next p \<noteq> PhaseDone"
    and "\<forall>t \<ge> T. a_time w t > runDeadline ctx (time_now w) (bo_timeout (barrier_defaults opts))"
  shows "\<exists>r w'. Barrier (Suc (T - a_tick w)) ctx rid p False opts w = Some (r, w')"
  using worker_returns [OF assms(2)] assms(1) by (simp add: Barrier_def Let_def)

lemma worker_barrier_returns_witness:
  "\<exists>r w'. Barrier 4 \<lparr>ctx_deadline = Some 150\<rparr> ''r1'' PhasePrepare False demo_opts (quiet_api demo_kube) = Some (r, w')"
  using worker_barrier_returns [where p = PhasePrepare and T = 3 and w = "quiet_api demo_kube"
      and ctx = "\<lparr>ctx_deadline = Some 150\<rparr>" and opts = demo_opts]
  by (simp add: quiet_api_def runDeadline_def barrierReserve_def numeral_eq_Suc)

text \<open>C15: the hold label fails closed: RotationHoldActive says no only when the node list was
  read and no live control-plane node in it carries the label; on any read error it says yes.\<close>

theorem hold_fails_closed:
  "RotationHoldActive w = ((held, who, e), w') \<Longrightarrow>
   (held = False \<longrightarrow> e = None \<and> list_nodes w = (Inr (k_nodes (ak (enter w))), w') \<and> \<not> hold_set (k_nodes (ak (enter w))))
   \<and> (held \<and> e = None \<longrightarrow> hold_set (k_nodes (ak (enter w))))"
  using list_nodes_ok [of w] first_holder_None [of "k_nodes (ak (enter w))"]
  by (auto simp: RotationHoldActive_def split: prod.splits sum.splits option.splits)

lemma hold_fails_closed_witness:
  "fst (fst (RotationHoldActive (quiet_api demo_kube))) = False \<and> \<not> hold_set (k_nodes (ak (enter (quiet_api demo_kube))))"
proof -
  obtain held who e w' where h: "RotationHoldActive (quiet_api demo_kube) = ((held, who, e), w')"
    by (cases "RotationHoldActive (quiet_api demo_kube)") auto
  have "fst (fst (RotationHoldActive (quiet_api demo_kube))) = False" by code_simp
  with hold_fails_closed [OF h] h show ?thesis by simp
qed

text \<open>A reported status is read back for its rotation only: after ReportStatus succeeds the
  node counts as having reached exactly the phases up to the reported one, and none of any other
  rotation.\<close>

theorem report_then_reached:
  assumes "ReportStatus name p rid w = (Inr (), w')" "CHR ''@'' \<notin> set rid"
    and "n \<in> set (k_nodes (ak w'))" "n_name n = name"
  shows "node_reached rid' q n \<longleftrightarrow> (if rid' = rid then AtLeast p q else Index q = -1)"
proof -
  from assms(1) have "annotate_node name NodeAnnotation (p @ ''@'' @ rid) w = (Inr (), w')"
    by (simp add: ReportStatus_def wrapping_ok_iff)
  from annotate_node_ok [OF this assms(3,4)]
  have "n_annotations n NodeAnnotation = Some (p @ ''@'' @ rid)" .
  then have "sget (n_annotations n) NodeAnnotation = p @ ''@'' @ rid" by (simp add: sget_def)
  then show ?thesis
    using parse_status [OF assms(2)] Index_range [of q] by (auto simp: node_reached_def AtLeast_def)
qed

lemma demo_report: "fst (ReportStatus ''m0'' PhaseCutover ''r1'' (quiet_api demo_kube)) = Inr ()"
  by code_simp

lemma report_then_reached_witness:
  "node_reached ''r1'' PhaseCutover (hd (k_nodes (ak (snd (ReportStatus ''m0'' PhaseCutover ''r1'' (quiet_api demo_kube))))))
   \<and> \<not> node_reached ''r2'' PhasePrepare (hd (k_nodes (ak (snd (ReportStatus ''m0'' PhaseCutover ''r1'' (quiet_api demo_kube))))))"
proof -
  let ?w = "snd (ReportStatus ''m0'' PhaseCutover ''r1'' (quiet_api demo_kube))"
  have r: "ReportStatus ''m0'' PhaseCutover ''r1'' (quiet_api demo_kube) = (Inr (), ?w)"
    using demo_report by (simp add: prod_eq_iff)
  have "k_nodes (ak ?w) \<noteq> []" "n_name (hd (k_nodes (ak ?w))) = ''m0''" by code_simp+
  then have n: "hd (k_nodes (ak ?w)) \<in> set (k_nodes (ak ?w))" "n_name (hd (k_nodes (ak ?w))) = ''m0''" by simp_all
  show ?thesis
    using report_then_reached [OF r _ n, of "''r1''" PhaseCutover]
      report_then_reached [OF r _ n, of "''r2''" PhasePrepare] by simp
qed

text \<open>C11: the restart lock is exclusive. From the moment an attempt with a lease of \<open>dur\<close> seconds
  succeeded and for as long as that lease runs, no interleaving of lock steps by other masters
  takes it away or lets another one hold it.\<close>

theorem restart_lock_exclusive:
  assumes "tryAcquireLease h dur w = (Inr True, w')" "h \<noteq> []" "\<And>t. t0 \<le> a_time w t" "T < t0 + dur"
    and "restart_lock.run_of T steps (ak w')" "\<forall>(h', _) \<in> set steps. h' \<noteq> h" "(h', k) \<in> set steps"
  shows "lock_held T h k \<and> (lock_held T h'' k \<longrightarrow> h'' = h)"
  using restart_lock.stays_held [OF tryAcquire_ok [OF assms(1-4)] assms(5-7)] .

lemma quiet_refused:
  assumes "api_quiet w" "k_lease (ak w) = Some l" "leaseHeldByOther l h (time_now (step_quiet w))"
  shows "tryAcquireLease h dur w = (Inr False, step_quiet w)"
proof -
  have "get_lease w = (Inr l, step_quiet w)"
    using assms(1,2) by (simp add: get_lease_def quiet_call upd_same step_quiet_def)
  with assms(3) show ?thesis
    unfolding tryAcquireLease_def by (intro retry_no_conflict) (simp_all add: andthen_def attempt_def run_simps)
qed

lemma restart_lock_exclusive_witness:
  "lock_held 1299 ''m0'' (ak (snd (tryAcquireLease ''m0'' 1200 (quiet_api demo_kube))))"
proof -
  let ?w = "quiet_api demo_kube"
  let ?v = "snd (tryAcquireLease ''m0'' 1200 ?w)"
  let ?k = "ak ?v"
  have f: "fst (tryAcquireLease ''m0'' 1200 ?w) = Inr True" by code_simp
  let ?u = "(quiet_api ?k)\<lparr>a_time := (\<lambda>_. 1000)\<rparr>"
  have "env_ok ?v"
    by (rule keepsD [OF keeps_env_ok_try]) (rule quiet_api_env [OF demo_revs])
  then have "revs_ok ?k" by (simp add: env_ok_def)
  then have "env_ok ?u" using quiet_api_env by (simp add: env_ok_def quiet_api_def)
  moreover have "tryAcquireLease ''m1'' 1200 ?u = (Inr False, step_quiet ?u)"
  proof (rule quiet_refused)
    show "k_lease (ak ?u) = Some (the (k_lease ?k))" "leaseHeldByOther (the (k_lease ?k)) ''m1'' (time_now (step_quiet ?u))"
      by code_simp+
  qed (simp add: api_quiet_def quiet_api_def)
  then have "(?k, ?k) \<in> set (a_log (snd (tryAcquireLease ''m1'' 1200 ?u)))"
    by (simp add: step_quiet_def kube_simps quiet_api_def)
  ultimately have "lock_step 1299 ''m1'' ?k ?k"
    unfolding lock_step_def by (intro exI [of _ ?u]) (auto simp: clock_until_def quiet_api_def)
  then have "restart_lock.run_of 1299 [(''m1'', ?k)] ?k" by simp
  from restart_lock_exclusive [of "''m0''" 1200 ?w ?v 100 1299, OF _ _ _ _ this, of "''m1''"] f
  show ?thesis by (simp add: prod_eq_iff quiet_api_def)
qed

text \<open>While a lease runs past the end of the attempt and nobody releases it, another master's
  attempt to take it does not succeed, whatever fails.\<close>

theorem restart_lock_refuses:
  assumes "lock_held T h (ak w)" "\<forall>t k. lock_kept T h k (a_env w t k)" "clock_until T w" "h' \<noteq> h"
  shows "fst (tryAcquireLease h' dur w) \<noteq> Inr True"
  using assms by (rule tryAcquire_refused)

definition held_kube :: kube where
  "held_kube = demo_kube\<lparr>k_lease := Some \<lparr>l_holder = Some ''m0'', l_duration = Some 1200,
     l_acquire = Some 90, l_renew = Some 90, l_rev = 3\<rparr>\<rparr>"

lemma restart_lock_refuses_witness:
  "fst (tryAcquireLease ''m1'' 1200 (quiet_api held_kube)) \<noteq> Inr True"
  by (rule restart_lock_refuses [where T = 200 and h = "''m0''"])
     (auto simp: lock_held_def held_kube_def quiet_api_def clock_until_def)

lemma hint_not_ready:
  assumes "List.find (\<lambda>c. cond_type c = ''Ready'') (n_conditions n) = Some c" "cond_status c \<noteq> ''True''"
    "cond_since c = Some s"
  shows "formatPending t name n = name @ ''(NotReady '' @ duration_text (t - s) @ '')''"
proof -
  have "notReadyHint_in t cs = ''NotReady '' @ duration_text (t - s)"
    if "List.find (\<lambda>c. cond_type c = ''Ready'') cs = Some c" for cs
    using that assms(2,3) by (induction cs) (auto split: if_splits)
  with assms(1) show ?thesis by (simp add: formatPending_def notReadyHint_def)
qed

text \<open>C24: a dead peer defeats the stall timeout. The pending list names a node that is not Ready
  together with how long it has been so; when such a node is the only one pending, each later
  observation of it counts as progress, so the master's turn never ends with the stall error.\<close>

theorem dead_peer_never_stalls:
  assumes "List.find (\<lambda>c. cond_type c = ''Ready'') (n_conditions n) = Some c" "cond_status c \<noteq> ''True''"
    "cond_since c = Some s" "s \<le> t0" "t0 < time_now w2"
    and seen: "st_key st = Some (pendingKey [formatPending t0 name n])"
    and now: "AllNodesReached rid p w1 = (Inr (False, [formatPending (time_now w2) name n]), w2)"
    and read: "ReadProgress rid w = (Inr (desired, beat), w1)" "\<not> AtLeast desired (Next p)"
    and "0 < bo_stall opts"
  shows "fst (barrier_turn rid p True opts dl st w) \<in>
    {Return (Inl (err_timeout (Next p))),
     Poll \<lparr>st_key = Some (pendingKey [formatPending (time_now w2) name n]), st_progress = time_now w2,
       st_pending = [formatPending (time_now w2) name n]\<rparr>}"
proof -
  have "duration_text (t0 - s) \<noteq> duration_text (time_now w2 - s)"
    using duration_text_inj [of "t0 - s" "time_now w2 - s"] assms(4,5) by auto
  then have "pendingKey [formatPending t0 name n] \<noteq> pendingKey [formatPending (time_now w2) name n]"
    using hint_not_ready [OF assms(1-3)] by (simp add: pendingKey_def)
  then have "note_pending [formatPending (time_now w2) name n] (time_now w2) st
     = \<lparr>st_key = Some (pendingKey [formatPending (time_now w2) name n]), st_progress = time_now w2,
       st_pending = [formatPending (time_now w2) name n]\<rparr>"
    using seen by (simp add: note_pending_def)
  with read now assms(10) show ?thesis by (simp add: barrier_turn_def Let_def)
qed

text \<open>The stuck node of the witness: not Ready since second 40, seen at 90 and again at 100.\<close>

definition dead_node :: knode where
  "dead_node = (demo_node ''w0'' False [])\<lparr>n_conditions := [\<lparr>cond_type = ''Ready'', cond_status = ''Unknown'', cond_since = Some 40\<rparr>]\<rparr>"

definition stuck_kube :: kube where
  "stuck_kube = demo_kube\<lparr>k_nodes := [demo_node ''m0'' True ''prepare@r1'', dead_node]\<rparr>"

lemma dead_peer_never_stalls_witness:
  "fst (barrier_turn ''r1'' PhasePrepare True demo_opts 10000
      \<lparr>st_key = Some (pendingKey [formatPending 90 ''w0'' dead_node]), st_progress = 0, st_pending = []\<rparr> (quiet_api stuck_kube))
   \<noteq> Return (Inl (err_stalled [formatPending 90 ''w0'' dead_node]))"
proof -
  let ?w = "quiet_api stuck_kube"
  let ?w1 = "snd (ReadProgress ''r1'' ?w)"
  let ?w2 = "snd (AllNodesReached ''r1'' PhasePrepare ?w1)"
  let ?st = "\<lparr>st_key = Some (pendingKey [formatPending 90 ''w0'' dead_node]), st_progress = 0, st_pending = []\<rparr>"
  have t: "time_now ?w2 = 100" by code_simp
  have a: "fst (AllNodesReached ''r1'' PhasePrepare ?w1) = Inr (False, [formatPending 100 ''w0'' dead_node])" by code_simp
  have r: "fst (ReadProgress ''r1'' ?w) = Inr (PhasePrepare, None)" by code_simp
  have "fst (barrier_turn ''r1'' PhasePrepare True demo_opts 10000 ?st ?w) \<in>
    {Return (Inl (err_timeout (Next PhasePrepare))),
     Poll \<lparr>st_key = Some (pendingKey [formatPending (time_now ?w2) ''w0'' dead_node]), st_progress = time_now ?w2,
       st_pending = [formatPending (time_now ?w2) ''w0'' dead_node]\<rparr>}"
    by (rule dead_peer_never_stalls [where c = "\<lparr>cond_type = ''Ready'', cond_status = ''Unknown'', cond_since = Some 40\<rparr>" and s = 40 and ?t0.0 = 90 and ?w1.0 = ?w1 and beat = None and desired = PhasePrepare])
       (use a r t in \<open>simp_all add: dead_node_def prod_eq_iff AtLeast_def demo_opts_def\<close>)
  then show ?thesis by (auto simp: err_timeout_def err_stalled_def)
qed

text \<open>Taking over an expired lease keeps the previous holder's acquire time: the holder is
  overwritten before it is compared, so the branch that would refresh the time is dead.\<close>

theorem takeover_keeps_acquire_time:
  assumes "l_acquire l = Some a"
  shows "l_acquire (taken_lease l holder dur now) = Some a \<and> l_holder (taken_lease l holder dur now) = Some holder"
  using assms by (simp add: taken_lease_def Let_def derefHolder_def)

lemma takeover_keeps_acquire_time_witness:
  "\<not> leaseHeldByOther (the (k_lease held_kube)) ''m1'' 5000
   \<and> l_acquire (taken_lease (the (k_lease held_kube)) ''m1'' 1200 5000) = Some 90"
  using takeover_keeps_acquire_time [of "the (k_lease held_kube)" 90 "''m1''" 1200 5000]
  by (simp add: held_kube_def leaseHeldByOther_def derefHolder_def Let_def)

end
