(* ===== verification/TrustBundle.thy ===== *)
theory TrustBundle
  imports Json Fs
begin

text \<open>
  internal/certutil/pubkeys.go: bundles of public keys and certificates. PEM armour, DER
  and X.509 parsing and SHA-256 are arguments (the record \<open>pki\<close>): the code only moves
  their results around. \<open>pki_ok\<close> states what their documentation promises: decoding an
  encoded block gives it back with the rest, and a key survives marshalling.
\<close>

section \<open>The cryptographic packages\<close>

text \<open>\<open>'k\<close> is crypto.PublicKey. A PEM block is its type and its bytes.\<close>

record 'k pki =
  pem_dec :: "string \<Rightarrow> ((string \<times> string) \<times> string) option"
  pem_enc :: "string \<times> string \<Rightarrow> string"
  parse_pkcs1 :: "string \<Rightarrow> 'k option"
  parse_pkix :: "string \<Rightarrow> 'k option"
  parse_cert :: "string \<Rightarrow> (string \<times> 'k) option"
  marshal_key :: "'k \<Rightarrow> string option"
  rsa_key :: "nat \<Rightarrow> nat \<Rightarrow> 'k"
  ec_key :: "string \<Rightarrow> string \<Rightarrow> 'k option"
  sha256 :: "string \<Rightarrow> string"

section \<open>Base64url\<close>

definition b64_char :: "nat \<Rightarrow> char" where
  "b64_char n = (if n < 26 then char_of (65 + n) else if n < 52 then char_of (71 + n)
     else if n < 62 then char_of (n - 4) else if n = 62 then CHR ''-'' else CHR ''_'')"

fun b64_encode :: "nat list \<Rightarrow> string" where
  "b64_encode (a # b # c # r) = [b64_char (a div 4), b64_char (a mod 4 * 16 + b div 16),
     b64_char (b mod 16 * 4 + c div 64), b64_char (c mod 64)] @ b64_encode r"
| "b64_encode [a, b] = [b64_char (a div 4), b64_char (a mod 4 * 16 + b div 16), b64_char (b mod 16 * 4)]"
| "b64_encode [a] = [b64_char (a div 4), b64_char (a mod 4 * 16)]"
| "b64_encode [] = []"

definition b64_val :: "char \<Rightarrow> nat option" where
  "b64_val c = (let n = (of_char c :: nat) in
     if 65 \<le> n \<and> n \<le> 90 then Some (n - 65) else if 97 \<le> n \<and> n \<le> 122 then Some (n - 71)
     else if 48 \<le> n \<and> n \<le> 57 then Some (n + 4) else if c = CHR ''-'' then Some 62
     else if c = CHR ''_'' then Some 63 else None)"

fun b64_groups :: "nat list \<Rightarrow> nat list option" where
  "b64_groups (a # b # c # d # r) = map_option (\<lambda>s. [a * 4 + b div 16, b mod 16 * 16 + c div 4, c mod 4 * 64 + d] @ s) (b64_groups r)"
| "b64_groups [a, b, c] = Some [a * 4 + b div 16, b mod 16 * 16 + c div 4]"
| "b64_groups [a, b] = Some [a * 4 + b div 16]"
| "b64_groups [a] = None"
| "b64_groups [] = Some []"

text \<open>RawURLEncoding and URLEncoding; the decoders skip newline characters.\<close>

definition b64_raw :: "string \<Rightarrow> nat list option" where
  "b64_raw s = (case those (map b64_val (filter (\<lambda>c. c \<notin> {CHR 0x0A, CHR 0x0D}) s)) of
     None \<Rightarrow> None | Some ds \<Rightarrow> b64_groups ds)"

definition b64_padded :: "string \<Rightarrow> nat list option" where
  "b64_padded s = (let t = filter (\<lambda>c. c \<notin> {CHR 0x0A, CHR 0x0D}) s; u = trim_right t ''=''
     in if length t mod 4 = 0 \<and> length t - length u \<le> 2 then b64_raw u else None)"

definition bytes_of :: "string \<Rightarrow> nat list" where
  "bytes_of s = map of_char s"

definition b64uBytes :: "string \<Rightarrow> string option" where
  "b64uBytes value = (if value = [] then None
     else map_option (map char_of) (case b64_raw value of Some b \<Rightarrow> Some b | None \<Rightarrow> b64_padded value))"

definition big_int :: "string \<Rightarrow> nat" where
  "big_int raw = foldl (\<lambda>a c. 256 * a + of_char c) 0 raw"

definition b64uBigInt :: "string \<Rightarrow> nat option" where
  "b64uBigInt value = map_option big_int (b64uBytes value)"

section \<open>Keys in a bundle\<close>

definition parsePublicKeyDER :: "'k pki \<Rightarrow> string \<times> string \<Rightarrow> 'k option" where
  "parsePublicKeyDER P = (\<lambda>(ty, bytes).
     if ty = ''RSA PUBLIC KEY'' then parse_pkcs1 P bytes
     else if ty = ''CERTIFICATE'' then map_option snd (parse_cert P bytes)
     else parse_pkix P bytes)"

definition PublicKeyPEM :: "'k pki \<Rightarrow> 'k \<Rightarrow> string option" where
  "PublicKeyPEM P k = map_option (\<lambda>der. pem_enc P (''PUBLIC KEY'', der)) (marshal_key P k)"

text \<open>The blocks of a file in order. Each decoded block takes at least one byte, so the length of
  the data is fuel enough.\<close>

fun pem_blocks :: "nat \<Rightarrow> 'k pki \<Rightarrow> string \<Rightarrow> (string \<times> string) list" where
  "pem_blocks 0 P d = []"
| "pem_blocks (Suc n) P d = (case pem_dec P d of None \<Rightarrow> [] | Some (b, rest) \<Rightarrow> b # pem_blocks n P rest)"

definition ParsePublicKeyPEMs :: "'k pki \<Rightarrow> string \<Rightarrow> string list" where
  "ParsePublicKeyPEMs P d = List.map_filter (\<lambda>b. case parsePublicKeyDER P b of None \<Rightarrow> None
     | Some k \<Rightarrow> PublicKeyPEM P k) (pem_blocks (length d) P d)"

definition PublicKeyID :: "'k pki \<Rightarrow> string \<Rightarrow> string option" where
  "PublicKeyID P pem = (case pem_dec P pem of None \<Rightarrow> None
     | Some (b, _) \<Rightarrow> (case parsePublicKeyDER P b of None \<Rightarrow> None
       | Some k \<Rightarrow> map_option (\<lambda>der. b64_encode (bytes_of (sha256 P der))) (marshal_key P k)))"

definition jwkPublicKey :: "'k pki \<Rightarrow> string \<Rightarrow> string \<Rightarrow> string \<Rightarrow> string \<Rightarrow> string \<Rightarrow> string \<Rightarrow> 'k option" where
  "jwkPublicKey P kty n e crv x y =
     (if kty = ''RSA'' then (case (b64uBigInt n, b64uBigInt e) of
          (Some m, Some ex) \<Rightarrow> if ex < 2 ^ 63 \<and> ex > 0 then Some (rsa_key P m ex) else None
        | _ \<Rightarrow> None)
      else if kty = ''EC'' then
        (case (if crv = ''P-256'' then Some (32 :: nat) else if crv = ''P-384'' then Some 48
               else if crv = ''P-521'' then Some 66 else None) of
           None \<Rightarrow> None
         | Some sz \<Rightarrow> (case (b64uBytes x, b64uBytes y) of
             (Some xr, Some yr) \<Rightarrow>
               if length xr > sz \<or> length yr > sz then None
               else ec_key P crv (CHR 0x04 # replicate (sz - length xr) (CHR 0x00) @ xr
                      @ replicate (sz - length yr) (CHR 0x00) @ yr)
           | _ \<Rightarrow> None))
      else None)"

text \<open>A member of the JWKS document decodes field by field; a wrong type anywhere is an error of
  the whole document, as json.Unmarshal has it.\<close>

definition jwk_of :: "json \<Rightarrow> (string \<times> string \<times> string \<times> string \<times> string \<times> string) option" where
  "jwk_of j = (case members_of (Some j) of None \<Rightarrow> None | Some m \<Rightarrow>
     (case (dec_str ''kty'' m, dec_str ''n'' m, dec_str ''e'' m, dec_str ''crv'' m, dec_str ''x'' m, dec_str ''y'' m) of
        (Some a, Some b, Some c, Some d, Some e, Some f) \<Rightarrow> Some (a, b, c, d, e, f)
      | _ \<Rightarrow> None))"

definition jwks_of :: "json option \<Rightarrow> (string \<times> string \<times> string \<times> string \<times> string \<times> string) list option" where
  "jwks_of j = (case members_of j of None \<Rightarrow> None | Some m \<Rightarrow>
     (case jfield ''keys'' m of None \<Rightarrow> Some [] | Some JNull \<Rightarrow> Some []
      | Some (JArr vs) \<Rightarrow> those (map jwk_of vs) | _ \<Rightarrow> None))"

definition JWKSPublicKeyPEMs :: "'k pki \<Rightarrow> string \<Rightarrow> string list option" where
  "JWKSPublicKeyPEMs P doc = (case jwks_of (parse_json doc) of None \<Rightarrow> None
     | Some ks \<Rightarrow> Some (List.map_filter (\<lambda>(kty, n, e, crv, x, y).
         case jwkPublicKey P kty n e crv x y of None \<Rightarrow> None | Some k \<Rightarrow> PublicKeyPEM P k) ks))"

definition PublicKeyPEMFile :: "'k pki \<Rightarrow> string \<Rightarrow> ('z os_scheme, string list) io" where
  "PublicKeyPEMFile P path = attempt (read_file path) (\<lambda>r. case r of
       Inl e \<Rightarrow> if is_not_exist e then ret [] else throw (Wrap (''read public key bundle '' @ path) e)
     | Inr d \<Rightarrow> ret (ParsePublicKeyPEMs P d))"

section \<open>Capping a bundle\<close>

text \<open>The loop of CapPublicKeyBundle: keys kept in order, identifiers dropped.\<close>

fun cap_loop :: "('a \<Rightarrow> string option) \<Rightarrow> int \<Rightarrow> string list \<Rightarrow> int \<Rightarrow> 'a list \<Rightarrow> 'a list \<times> string list" where
  "cap_loop ident mx seen count [] = ([], [])"
| "cap_loop ident mx seen count (k # ks) = (case ident k of
     None \<Rightarrow> cap_loop ident mx seen count ks
   | Some i \<Rightarrow> if i \<in> set seen then cap_loop ident mx seen count ks
       else if mx > 0 \<and> count \<ge> mx
       then (case cap_loop ident mx (i # seen) count ks of (kept, dropped) \<Rightarrow> (kept, i # dropped))
       else (case cap_loop ident mx (i # seen) (count + 1) ks of (kept, dropped) \<Rightarrow> (k # kept, dropped)))"

definition CapPublicKeyBundle :: "'k pki \<Rightarrow> string \<Rightarrow> int \<Rightarrow> string \<times> string list" where
  "CapPublicKeyBundle P bundle mx = (let keys = ParsePublicKeyPEMs P bundle in
     if keys = [] then (bundle, [])
     else case cap_loop (PublicKeyID P) mx [] 0 keys of (kept, dropped) \<Rightarrow> (concat kept, dropped))"

text \<open>CapCertBundle works on the raw certificates and counts what it drops.\<close>

definition bundle_certs :: "'k pki \<Rightarrow> string \<Rightarrow> string list" where
  "bundle_certs P bundle = List.map_filter (\<lambda>(ty, bytes).
     if ty \<noteq> ''CERTIFICATE'' then None else map_option fst (parse_cert P bytes))
     (pem_blocks (length bundle) P bundle)"

definition CapCertBundle :: "'k pki \<Rightarrow> string \<Rightarrow> int \<Rightarrow> string \<times> int" where
  "CapCertBundle P bundle mx = (let certs = bundle_certs P bundle in
     if certs = [] then (bundle, 0)
     else case cap_loop (\<lambda>raw. Some (sha256 P raw)) mx [] 0 certs of
       (kept, dropped) \<Rightarrow> (concat (map (\<lambda>raw. pem_enc P (''CERTIFICATE'', raw)) kept), int (length dropped)))"

section \<open>First occurrences\<close>

fun firsts :: "('a \<Rightarrow> 'i) \<Rightarrow> 'a list \<Rightarrow> 'a list" where
  "firsts f [] = []"
| "firsts f (x # xs) = x # filter (\<lambda>y. f y \<noteq> f x) (firsts f xs)"

lemma set_firsts: "set (firsts f xs) \<subseteq> set xs"
  by (induction xs) auto

lemma firsts_images: "f ` set (firsts f xs) = f ` set xs"
proof (induction xs)
  case (Cons x xs)
  have "f ` set (firsts f (x # xs)) = insert (f x) (f ` set (firsts f xs))" by auto
  with Cons show ?case by simp
qed simp

lemma firsts_distinct: "distinct (map f (firsts f xs))"
proof (induction xs)
  case (Cons x xs)
  then show ?case using distinct_map_filter by fastforce
qed simp

lemma firsts_filter_out: "firsts f (filter (\<lambda>y. f y \<noteq> a) xs) = filter (\<lambda>y. f y \<noteq> a) (firsts f xs)"
proof (induction xs)
  case (Cons x xs)
  have "filter (\<lambda>y. f y \<noteq> f x) (filter (\<lambda>y. f y \<noteq> a) (firsts f xs))
      = filter (\<lambda>y. f y \<noteq> a) (filter (\<lambda>y. f y \<noteq> f x) (firsts f xs))"
    by (simp add: filter_filter conj_commute)
  moreover have "filter (\<lambda>y. f y \<noteq> f x) (firsts f xs) = filter (\<lambda>y. f y \<noteq> a) (filter (\<lambda>y. f y \<noteq> f x) (firsts f xs))"
    if "f x = a" using that by (simp add: filter_filter)
  ultimately show ?case using Cons by auto
qed simp

lemma filter_out_once:
  assumes "distinct (map f ys)"
  shows "take n (filter (\<lambda>y. f y \<noteq> a) ys) = take n (filter (\<lambda>y. f y \<noteq> a) (take (Suc n) ys))"
  using assms
proof (induction ys arbitrary: n)
  case (Cons y ys)
  show ?case
  proof (cases "f y = a")
    case True
    have "filter (\<lambda>z. f z \<noteq> a) zs = zs" if "set zs \<subseteq> set ys" for zs
      by (intro filter_True ballI) (use that Cons.prems True in \<open>force simp: image_iff\<close>)
    with True show ?thesis by (simp add: set_take_subset)
  next
    case False
    with Cons show ?thesis by (cases n) auto
  qed
qed simp

lemma firsts_id: "distinct (map f xs) \<Longrightarrow> firsts f xs = xs"
proof (induction xs)
  case (Cons x xs)
  have "filter (\<lambda>y. f y \<noteq> f x) xs = xs" by (intro filter_True ballI) (use Cons.prems in \<open>auto simp: image_iff\<close>)
  with Cons show ?case by simp
qed simp

text \<open>What a rotation needs of a cap: it keeps the first \<open>n\<close> distinct entries of a bundle to which
  every rotation prepends. \<open>good\<close> are the entries the capping code recognises.\<close>

locale newest_first =
  fixes ident :: "'a \<Rightarrow> 'i" and good :: "'a \<Rightarrow> bool" and n :: nat and cap :: "'a list \<Rightarrow> 'a list"
  assumes cap_firsts: "list_all good xs \<Longrightarrow> cap xs = take n (firsts ident xs)"
    and room: "0 < n"
begin

lemma cap_good: "list_all good xs \<Longrightarrow> list_all good (cap xs)"
  using cap_firsts set_firsts [of ident xs] by (auto simp: list_all_iff dest: in_set_takeD)

lemma cap_length: "list_all good xs \<Longrightarrow> length (cap xs) \<le> n"
  by (simp add: cap_firsts)

lemma cap_distinct: "list_all good xs \<Longrightarrow> distinct (map ident (cap xs))"
  using firsts_distinct [of ident xs] by (simp add: cap_firsts take_map [symmetric])

lemma cap_nonempty: "list_all good xs \<Longrightarrow> xs \<noteq> [] \<Longrightarrow> cap xs \<noteq> [] \<and> hd (cap xs) = hd xs"
  using room by (cases xs; cases n) (auto simp: cap_firsts)

lemma cap_push: "good x \<Longrightarrow> list_all good xs \<Longrightarrow> cap (x # cap xs) = cap (x # xs)"
proof -
  assume g: "good x" "list_all good xs"
  obtain m where n: "n = Suc m" using room by (cases n) auto
  have "firsts ident (cap xs) = cap xs" by (rule firsts_id) (rule cap_distinct [OF g(2)])
  then show ?thesis
    using g cap_good [OF g(2)] filter_out_once [OF firsts_distinct [of ident xs], of m "ident x"]
    by (simp add: cap_firsts n)
qed

text \<open>After any number of rotations the bundle is the cap of the whole history, newest first.\<close>

lemma rotations:
  "list_all good xs \<Longrightarrow> list_all good b \<Longrightarrow> fold (\<lambda>x b. cap (x # b)) xs (cap b) = cap (rev xs @ b)"
proof (induction xs arbitrary: b)
  case (Cons x xs)
  then show ?case using Cons.IH [of "x # b"] by (simp add: cap_push)
qed simp

end

section \<open>The capping loop\<close>

lemma cap_loop_firsts:
  assumes "list_all (\<lambda>k. ident k \<noteq> None) ks" "0 < mx" "count \<le> mx"
  shows "cap_loop ident mx seen count ks =
    (let new = firsts ident (filter (\<lambda>k. the (ident k) \<notin> set seen) ks)
     in (take (nat (mx - count)) new, map (\<lambda>k. the (ident k)) (drop (nat (mx - count)) new)))"
  using assms(1,3)
proof (induction ks arbitrary: seen count)
  case (Cons k ks)
  from Cons.prems obtain i where i: "ident k = Some i" by auto
  show ?case
  proof (cases "i \<in> set seen")
    case True
    show ?thesis using Cons.IH Cons.prems i True by simp
  next
    case False
    let ?rest = "filter (\<lambda>k. the (ident k) \<notin> set seen) ks"
    have "filter (\<lambda>k'. the (ident k') \<notin> set (i # seen)) ks = filter (\<lambda>k'. ident k' \<noteq> Some i) ?rest"
      using Cons.prems(1) by (auto simp: filter_filter list_all_iff intro!: filter_cong)
    then have f: "firsts ident (filter (\<lambda>k'. the (ident k') \<notin> set (i # seen)) ks)
        = filter (\<lambda>y. ident y \<noteq> Some i) (firsts ident ?rest)"
      by (simp only: firsts_filter_out)
    show ?thesis
    proof (cases "count \<ge> mx")
      case full: True
      show ?thesis using Cons.IH full assms(2) Cons.prems f i False by (simp add: Let_def)
    next
      case room: False
      then have "nat (mx - count) = Suc (nat (mx - (count + 1)))" by simp
      then show ?thesis using Cons.IH room assms(2) Cons.prems f i False by (simp add: Let_def)
    qed
  qed
qed simp

section \<open>Bundles as lists of blocks\<close>

text \<open>What the packages promise about the two block types the program writes, and about keys.\<close>

definition pki_ok :: "'k pki \<Rightarrow> bool" where
  "pki_ok P \<longleftrightarrow>
     (\<forall>ty \<in> {''PUBLIC KEY'', ''CERTIFICATE''}. \<forall>d r. pem_dec P (pem_enc P (ty, d) @ r) = Some ((ty, d), r)
        \<and> pem_enc P (ty, d) \<noteq> [])
   \<and> pem_dec P [] = None
   \<and> (\<forall>k der. marshal_key P k = Some der \<longrightarrow> parse_pkix P der = Some k)
   \<and> (\<forall>raw raw' k. parse_cert P raw = Some (raw', k) \<longrightarrow> raw' = raw)"

lemma pem_blocks_concat:
  assumes "pki_ok P" "list_all (\<lambda>(ty, d). ty \<in> {''PUBLIC KEY'', ''CERTIFICATE''}) bs" "length bs \<le> n"
  shows "pem_blocks n P (concat (map (pem_enc P) bs)) = bs"
  using assms(2,3)
proof (induction bs arbitrary: n)
  case Nil
  then show ?case using assms(1) by (cases n) (simp_all add: pki_ok_def)
next
  case (Cons b bs)
  obtain ty d where b: "b = (ty, d)" by (cases b)
  from Cons.prems obtain m where m: "n = Suc m" by (cases n) auto
  have "pem_dec P (pem_enc P b @ r) = Some (b, r)" for r
    using assms(1) Cons.prems b by (auto simp: pki_ok_def)
  with Cons m show ?case by simp
qed

lemma concat_length:
  "(\<And>b. b \<in> set bs \<Longrightarrow> f b \<noteq> []) \<Longrightarrow> length bs \<le> length (concat (map f bs))"
proof (induction bs)
  case (Cons b bs)
  have "1 \<le> length (f b)" using Cons.prems [of b] by (cases "f b") auto
  moreover have "length bs \<le> length (concat (map f bs))" using Cons by simp
  ultimately show ?case by simp
qed simp

text \<open>A key as the parsers return it: the PEM text of some marshalled key.\<close>

definition key_text :: "'k pki \<Rightarrow> string \<Rightarrow> bool" where
  "key_text P pem \<longleftrightarrow> (\<exists>k. PublicKeyPEM P k = Some pem)"

lemma Parse_key_texts: "list_all (key_text P) (ParsePublicKeyPEMs P d)"
  by (auto simp: ParsePublicKeyPEMs_def List.map_filter_def list_all_iff key_text_def split: option.splits)

lemma Parse_concat:
  assumes "pki_ok P" "list_all (key_text P) pems"
  shows "ParsePublicKeyPEMs P (concat pems) = pems"
proof -
  obtain ders where ders: "pems = map (\<lambda>der. pem_enc P (''PUBLIC KEY'', der)) ders"
      "list_all (\<lambda>der. \<exists>k. marshal_key P k = Some der) ders"
    using assms(2)
  proof (induction pems arbitrary: thesis)
    case (Cons p ps)
    from Cons.prems(2) obtain k der where "marshal_key P k = Some der" "p = pem_enc P (''PUBLIC KEY'', der)"
      by (auto simp: key_text_def PublicKeyPEM_def)
    moreover obtain ds where "ps = map (\<lambda>der. pem_enc P (''PUBLIC KEY'', der)) ds"
      "list_all (\<lambda>der. \<exists>k. marshal_key P k = Some der) ds" using Cons.IH Cons.prems(2) by auto
    ultimately show ?case using Cons.prems(1) [of "der # ds"] by auto
  qed simp
  let ?bs = "map (Pair ''PUBLIC KEY'') ders"
  have pems: "pems = map (pem_enc P) ?bs" using ders(1) by simp
  have "length ?bs \<le> length (concat pems)"
    unfolding pems using assms(1) by (intro concat_length) (auto simp: pki_ok_def)
  then have "pem_blocks (length (concat pems)) P (concat pems) = ?bs"
    unfolding pems by (intro pem_blocks_concat [OF assms(1)]) (auto simp: list_all_iff)
  moreover have "List.map_filter (\<lambda>b. case parsePublicKeyDER P b of None \<Rightarrow> None | Some k \<Rightarrow> PublicKeyPEM P k) (map (Pair ''PUBLIC KEY'') ds)
      = map (\<lambda>der. pem_enc P (''PUBLIC KEY'', der)) ds" if "list_all (\<lambda>der. \<exists>k. marshal_key P k = Some der) ds" for ds
    using that
  proof (induction ds)
    case (Cons d ds)
    then obtain k where "marshal_key P k = Some d" by auto
    moreover from this have "parse_pkix P d = Some k" using assms(1) by (auto simp: pki_ok_def)
    ultimately show ?case using Cons by (simp add: map_filter_simps parsePublicKeyDER_def PublicKeyPEM_def)
  qed (simp add: map_filter_simps)
  ultimately show ?thesis using ders by (simp add: ParsePublicKeyPEMs_def)
qed

lemma key_text_id: "pki_ok P \<Longrightarrow> key_text P pem \<Longrightarrow> PublicKeyID P pem \<noteq> None"
proof -
  assume P: "pki_ok P" and "key_text P pem"
  then obtain k der where k: "marshal_key P k = Some der" "pem = pem_enc P (''PUBLIC KEY'', der)"
    by (auto simp: key_text_def PublicKeyPEM_def)
  have "pem_dec P (pem @ []) = Some ((''PUBLIC KEY'', der), [])" using P k(2) unfolding pki_ok_def by blast
  moreover have "parse_pkix P der = Some k" using P k(1) by (auto simp: pki_ok_def)
  ultimately show ?thesis using k(1) by (simp add: PublicKeyID_def parsePublicKeyDER_def)
qed

text \<open>The keys of a bundle after capping, as a function on the parsed keys.\<close>

definition cap_keys :: "'k pki \<Rightarrow> nat \<Rightarrow> string list \<Rightarrow> string list" where
  "cap_keys P n keys = fst (cap_loop (PublicKeyID P) (int n) [] 0 keys)"

definition recognised :: "'k pki \<Rightarrow> string \<Rightarrow> bool" where
  "recognised P pem \<longleftrightarrow> PublicKeyID P pem \<noteq> None"

lemma cap_keys_firsts: "0 < n \<Longrightarrow> list_all (recognised P) keys \<Longrightarrow> cap_keys P n keys = take n (firsts (PublicKeyID P) keys)"
  using cap_loop_firsts [of "PublicKeyID P" keys "int n" 0 "[]"]
  by (simp add: cap_keys_def recognised_def [abs_def] Let_def)

interpretation trust_cap: newest_first "PublicKeyID P" "recognised P" "Suc m" "cap_keys P (Suc m)" for P :: "'k pki" and m
  by unfold_locales (simp_all add: cap_keys_firsts)

lemma Cap_parse:
  assumes "pki_ok P" "0 < n" "ParsePublicKeyPEMs P bundle \<noteq> []"
  shows "ParsePublicKeyPEMs P (fst (CapPublicKeyBundle P bundle (int n))) = cap_keys P n (ParsePublicKeyPEMs P bundle)"
proof -
  let ?keys = "ParsePublicKeyPEMs P bundle"
  have "list_all (recognised P) ?keys"
    using Parse_key_texts [of P "bundle"] key_text_id [OF assms(1)] by (auto simp: list_all_iff recognised_def)
  then have "set (cap_keys P n ?keys) \<subseteq> set ?keys"
    using set_firsts [of "PublicKeyID P" ?keys] by (auto simp: cap_keys_firsts [OF assms(2)] dest: in_set_takeD)
  then have "list_all (key_text P) (cap_keys P n ?keys)"
    using Parse_key_texts [of P "bundle"] by (auto simp: list_all_iff)
  from Parse_concat [OF assms(1) this] show ?thesis
    using assms(3) by (simp add: CapPublicKeyBundle_def Let_def cap_keys_def case_prod_unfold)
qed

section \<open>The same for certificates\<close>

definition cap_certs :: "'k pki \<Rightarrow> nat \<Rightarrow> string list \<Rightarrow> string list" where
  "cap_certs P n certs = fst (cap_loop (\<lambda>raw. Some (sha256 P raw)) (int n) [] 0 certs)"

lemma firsts_Some: "firsts (\<lambda>x. Some (f x)) xs = firsts f xs"
  by (induction xs) auto

lemma cap_certs_firsts: "0 < n \<Longrightarrow> cap_certs P n certs = take n (firsts (sha256 P) certs)"
  using cap_loop_firsts [of "\<lambda>raw. Some (sha256 P raw)" certs "int n" 0 "[]"]
  by (simp add: cap_certs_def Let_def list_all_iff firsts_Some)

interpretation cert_cap: newest_first "sha256 P" "\<lambda>_. True" "Suc m" "cap_certs P (Suc m)" for P :: "'k pki" and m
  by unfold_locales (simp_all add: cap_certs_firsts)

definition cert_text :: "'k pki \<Rightarrow> string \<Rightarrow> bool" where
  "cert_text P raw \<longleftrightarrow> (\<exists>k. parse_cert P raw = Some (raw, k))"

lemma bundle_cert_texts: "pki_ok P \<Longrightarrow> list_all (cert_text P) (bundle_certs P d)"
  by (auto simp: bundle_certs_def List.map_filter_def list_all_iff cert_text_def pki_ok_def split: option.splits if_splits)
     metis

lemma bundle_certs_concat:
  assumes "pki_ok P" "list_all (cert_text P) raws"
  shows "bundle_certs P (concat (map (\<lambda>raw. pem_enc P (''CERTIFICATE'', raw)) raws)) = raws"
proof -
  let ?bs = "map (Pair ''CERTIFICATE'') raws"
  let ?d = "concat (map (pem_enc P) ?bs)"
  have d: "concat (map (\<lambda>raw. pem_enc P (''CERTIFICATE'', raw)) raws) = ?d" by (simp add: comp_def)
  have "length ?bs \<le> length ?d"
    using assms(1) by (intro concat_length) (auto simp: pki_ok_def)
  then have "pem_blocks (length ?d) P ?d = ?bs"
    by (intro pem_blocks_concat [OF assms(1)]) (auto simp: list_all_iff)
  moreover have "List.map_filter (\<lambda>(ty, bytes). if ty \<noteq> ''CERTIFICATE'' then None else map_option fst (parse_cert P bytes))
      (map (Pair ''CERTIFICATE'') raws) = raws"
    using assms(2) by (induction raws) (auto simp: map_filter_simps cert_text_def)
  ultimately show ?thesis unfolding d by (simp add: bundle_certs_def)
qed

lemma CapCert_parse:
  assumes "pki_ok P" "0 < n" "bundle_certs P d \<noteq> []"
  shows "bundle_certs P (fst (CapCertBundle P d (int n))) = cap_certs P n (bundle_certs P d)"
proof -
  let ?certs = "bundle_certs P d"
  have "set (cap_certs P n ?certs) \<subseteq> set ?certs"
    using set_firsts [of "sha256 P" ?certs] by (auto simp: cap_certs_firsts [OF assms(2)] dest: in_set_takeD)
  then have "list_all (cert_text P) (cap_certs P n ?certs)"
    using bundle_cert_texts [OF assms(1), of d] by (auto simp: list_all_iff)
  from bundle_certs_concat [OF assms(1) this] show ?thesis
    using assms(3) by (simp add: CapCertBundle_def Let_def cap_certs_def case_prod_unfold)
qed

section \<open>A concrete instance of the packages\<close>

text \<open>Keys and certificates are texts; a block is written with its two lengths in unary.\<close>

definition toy_enc :: "string \<times> string \<Rightarrow> string" where
  "toy_enc = (\<lambda>(ty, d). replicate (length ty) (CHR ''a'') @ ''b'' @ replicate (length d) (CHR ''a'') @ ''b'' @ ty @ d)"

definition toy_dec :: "string \<Rightarrow> ((string \<times> string) \<times> string) option" where
  "toy_dec s = (let n = length (takeWhile (\<lambda>c. c = CHR ''a'') s); s1 = drop (n + 1) s;
      m = length (takeWhile (\<lambda>c. c = CHR ''a'') s1); s2 = drop (m + 1) s1
    in if s = [] \<or> s1 = [] then None else Some ((take n s2, take m (drop n s2)), drop (n + m) s2))"

definition toy_pki :: "string pki" where
  "toy_pki = \<lparr>pem_dec = toy_dec, pem_enc = toy_enc, parse_pkcs1 = (\<lambda>_. None), parse_pkix = Some,
     parse_cert = (\<lambda>raw. Some (raw, raw)), marshal_key = Some, rsa_key = (\<lambda>n e. nat_str n @ '','' @ nat_str e),
     ec_key = (\<lambda>_ p. Some p), sha256 = (\<lambda>s. s)\<rparr>"

lemma takeWhile_unary: "takeWhile (\<lambda>c. c = CHR ''a'') (replicate n (CHR ''a'') @ CHR ''b'' # r) = replicate n (CHR ''a'')"
  by (induction n) auto

lemma toy_dec_enc: "toy_dec (toy_enc (ty, d) @ r) = Some ((ty, d), r)"
  by (simp add: toy_dec_def toy_enc_def Let_def takeWhile_unary)

lemma toy_pki_ok: "pki_ok toy_pki"
  using toy_dec_enc by (auto simp: pki_ok_def toy_pki_def toy_enc_def) (simp add: toy_dec_def)

section \<open>Properties\<close>



abbreviation cert_pem :: "'k pki \<Rightarrow> string \<Rightarrow> string" where
  "cert_pem P raw \<equiv> pem_enc P (''CERTIFICATE'', raw)"

lemma CapCert_concat:
  assumes "pki_ok P" "0 < n" "list_all (cert_text P) raws" "raws \<noteq> []"
  shows "fst (CapCertBundle P (concat (map (cert_pem P) raws)) (int n)) = concat (map (cert_pem P) (cap_certs P n raws))"
  using bundle_certs_concat [OF assms(1,3)] assms(4)
  by (simp add: CapCertBundle_def Let_def cap_certs_def case_prod_unfold)

lemma CapCert_fold:
  assumes "pki_ok P" "0 < n" "list_all (cert_text P) news" "list_all (cert_text P) old"
  shows "fold (\<lambda>c d. fst (CapCertBundle P (cert_pem P c @ d) (int n))) news (concat (map (cert_pem P) old))
    = concat (map (cert_pem P) (fold (\<lambda>c b. cap_certs P n (c # b)) news old))"
  using assms(3,4)
proof (induction news arbitrary: old)
  case (Cons c news)
  have t: "list_all (cert_text P) (c # old)" using Cons.prems by simp
  then have "list_all (cert_text P) (cap_certs P n (c # old))"
    using set_firsts [of "sha256 P" "c # old"] cap_certs_firsts [OF assms(2), of P "c # old"]
    by (auto simp: list_all_iff dest!: in_set_takeD)
  with Cons.IH [of "cap_certs P n (c # old)"] Cons.prems CapCert_concat [OF assms(1,2) t] show ?case by simp
qed simp

text \<open>C21: the same for the CA bundle: after any number of rotations, each of which puts its new
  certificate in front of the bundle and caps it, the file holds exactly the first \<open>n\<close> distinct
  certificates of the whole history, newest first.\<close>

theorem cert_bundle_history:
  assumes "pki_ok P" "0 < n" "list_all (cert_text P) news" "list_all (cert_text P) old"
    and "length old \<le> n" "distinct (map (sha256 P) old)"
  shows "bundle_certs P (fold (\<lambda>c d. fst (CapCertBundle P (cert_pem P c @ d) (int n))) news (concat (map (cert_pem P) old)))
    = take n (firsts (sha256 P) (rev news @ old))"
proof -
  obtain m where m: "n = Suc m" using assms(2) by (cases n) auto
  have old: "cap_certs P n old = old"
    using assms(5,6) by (simp add: cap_certs_firsts [OF assms(2)] firsts_id)
  let ?b = "fold (\<lambda>c b. cap_certs P n (c # b)) news old"
  have b: "?b = take n (firsts (sha256 P) (rev news @ old))"
    using cert_cap.rotations [of news old P m] cert_cap.cap_firsts [of "rev news @ old" P m] old
    unfolding m by (simp add: list_all_iff)
  then have "list_all (cert_text P) ?b"
    using set_firsts [of "sha256 P" "rev news @ old"] assms(3,4) by (auto simp: list_all_iff dest!: in_set_takeD)
  then show ?thesis
    using CapCert_fold [OF assms(1-4)] bundle_certs_concat [OF assms(1), of ?b] b by simp
qed

lemma cert_bundle_history_witness:
  "bundle_certs toy_pki (fold (\<lambda>c d. fst (CapCertBundle toy_pki (cert_pem toy_pki c @ d) 3))
      [''ca2'', ''ca3'', ''ca4''] (cert_pem toy_pki ''ca1''))
     = [''ca4'', ''ca3'', ''ca2'']"
proof -
  have "take 3 (firsts (sha256 toy_pki) (rev [''ca2'', ''ca3'', ''ca4''] @ [''ca1''])) = [''ca4'', ''ca3'', ''ca2'']"
    by code_simp
  then show ?thesis
    using cert_bundle_history [OF toy_pki_ok, of 3 "[''ca2'', ''ca3'', ''ca4'']" "[''ca1'']"]
    by (simp add: cert_text_def toy_pki_def)
qed

end
