(* ===== verification/HostOps.thy ===== *)
theory HostOps
  imports Fs
begin

text \<open>
  internal/host/ops.go and internal/fsatomic/fsatomic.go: the executor, through which every
  module changes the host. Atomic file replacement, the Ensure operations with the change
  they report, shell exports in shared files, downloads, and the systemctl wrappers. The
  Apply flag of the executor is the argument \<open>ap\<close>; logging has no effect on the host and
  is left out. An operation that fails reports no change here, since every caller looks
  at the error first. The lock that serializes EnsureLine and UpsertExport makes each of
  them one step.
\<close>

section \<open>Changes\<close>

record change =
  ch_action :: string
  ch_path :: string
  ch_summary :: string

definition ActionCreate :: string where "ActionCreate = ''create''"
definition ActionUpdate :: string where "ActionUpdate = ''update''"
definition ActionDelete :: string where "ActionDelete = ''delete''"
definition ActionReplace :: string where "ActionReplace = ''replace''"
definition ActionReload :: string where "ActionReload = ''reload''"
definition ActionRestart :: string where "ActionRestart = ''restart''"
definition ActionOther :: string where "ActionOther = ''other''"

fun octal :: "nat \<Rightarrow> string" where
  "octal n = (if n < 8 then [digit_char n] else octal (n div 8) @ [digit_char (n mod 8)])"

declare octal.simps [simp del]

definition octal4 :: "nat \<Rightarrow> string" where
  "octal4 n = (let s = octal n in replicate (4 - length s) (CHR ''0'') @ s)"

section \<open>Atomic writes\<close>

text \<open>The directory entry is synced after the rename; its outcome is ignored.\<close>

definition sync_dir :: "string \<Rightarrow> ('z os_scheme, unit) io" where
  "sync_dir d = attempt (stat d) (\<lambda>r. case r of Inl _ \<Rightarrow> ret ()
     | Inr _ \<Rightarrow> attempt sync_fd (\<lambda>_. attempt sync_fd (\<lambda>_. ret ())))"

definition close_after :: "('z os_scheme, 'a) io \<Rightarrow> ('z os_scheme, 'a) io" where
  "close_after m = attempt m (\<lambda>r. case r of Inl e \<Rightarrow> attempt sync_fd (\<lambda>_. throw e) | Inr x \<Rightarrow> ret x)"

definition writeFileAtomic :: "string \<Rightarrow> string \<Rightarrow> nat \<Rightarrow> ('z os_scheme, unit) io" where
  "writeFileAtomic path data mode =
     andthen (mkdir_all (dirname path) o755) (\<lambda>_.
     andthen (create_temp (dirname path) (''.'' @ basename path @ ''.tmp-'')) (\<lambda>tmp.
     deferring (remove tmp)
       (andthen (close_after (write_file tmp data 0)) (\<lambda>_.
        andthen (close_after sync_fd) (\<lambda>_.
        andthen sync_fd (\<lambda>_.
        andthen (chmod tmp mode) (\<lambda>_.
        andthen (rename tmp path) (\<lambda>_.
        sync_dir (dirname path)))))))))"

text \<open>fsatomic.WriteFile: the mode is set on the open file and the directory must exist.\<close>

definition WriteFile :: "string \<Rightarrow> string \<Rightarrow> nat \<Rightarrow> ('z os_scheme, unit) io" where
  "WriteFile path data mode =
     andthen (create_temp (dirname path) (basename path @ ''.tmp-'')) (\<lambda>tmp.
     deferring (remove tmp)
       (andthen (close_after (write_file tmp data 0)) (\<lambda>_.
        andthen (close_after sync_fd) (\<lambda>_.
        andthen (close_after (chmod tmp mode)) (\<lambda>_.
        andthen sync_fd (\<lambda>_.
        andthen (rename tmp path) (\<lambda>_.
        sync_dir (dirname path))))))))"

section \<open>The executor\<close>

definition applyFunc :: "bool \<Rightarrow> change \<Rightarrow> ('z os_scheme, unit) io \<Rightarrow> ('z os_scheme, change option) io" where
  "applyFunc ap ch fn = (if \<not> ap then ret (Some ch) else andthen fn (\<lambda>_. ret (Some ch)))"

definition mk_change :: "string \<Rightarrow> string \<Rightarrow> string \<Rightarrow> change" where
  "mk_change a p s = \<lparr>ch_action = a, ch_path = p, ch_summary = s\<rparr>"

definition EnsureDir :: "bool \<Rightarrow> string \<Rightarrow> nat \<Rightarrow> ('z os_scheme, change option) io" where
  "EnsureDir ap path mode = attempt (stat path) (\<lambda>r. case r of
       Inr (FileN _ _ _ _) \<Rightarrow> throw (Err (path @ '' exists and is not a directory''))
     | Inr (DirN m _ _) \<Rightarrow> if m = mode then ret None
         else applyFunc ap (mk_change ActionUpdate path (''set directory mode '' @ path @ '' to '' @ octal4 mode)) (chmod path mode)
     | Inl e \<Rightarrow> if \<not> is_not_exist e then throw e
         else applyFunc ap (mk_change ActionCreate path (''create directory '' @ path)) (mkdir_all path mode))"

definition EnsureFile :: "bool \<Rightarrow> string \<Rightarrow> string \<Rightarrow> nat \<Rightarrow> ('z os_scheme, change option) io" where
  "EnsureFile ap path data mode = attempt (read_file path) (\<lambda>r. case r of
       Inr current \<Rightarrow> andthen (stat path) (\<lambda>info.
         if current = data \<and> nmode info = mode then ret None
         else applyFunc ap (if current \<noteq> data then mk_change ActionReplace path (''replace file '' @ path)
                            else mk_change ActionUpdate path (''update file '' @ path))
                (writeFileAtomic path data mode))
     | Inl e \<Rightarrow> if is_not_exist e
         then applyFunc ap (mk_change ActionCreate path (''create file '' @ path)) (writeFileAtomic path data mode)
         else throw e)"

definition EnsureCopy :: "bool \<Rightarrow> string \<Rightarrow> string \<Rightarrow> nat \<Rightarrow> ('z os_scheme, change option) io" where
  "EnsureCopy ap src dst mode = andthen (read_file src) (\<lambda>data.
     andthen (EnsureFile ap dst data mode) (\<lambda>c. case c of None \<Rightarrow> ret None
       | Some ch \<Rightarrow> ret (Some (ch\<lparr>ch_summary :=
           (if ch_action ch = ActionCreate then ''copy '' @ src @ '' to '' @ dst
            else if ch_action ch = ActionReplace then ''replace '' @ dst @ '' from '' @ src
            else ''update '' @ dst @ '' from '' @ src)\<rparr>))))"

definition EnsureAbsent :: "bool \<Rightarrow> string \<Rightarrow> ('z os_scheme, change option) io" where
  "EnsureAbsent ap path = attempt (stat path) (\<lambda>r. case r of
       Inl e \<Rightarrow> if is_not_exist e then ret None else throw e
     | Inr _ \<Rightarrow> applyFunc ap (mk_change ActionDelete path (''remove '' @ path)) (remove path))"

definition ends_NL :: "string \<Rightarrow> string" where
  "ends_NL s = (if s \<noteq> [] \<and> last s \<noteq> CHR 0x0A then s @ NL else s)"

definition EnsureLine :: "bool \<Rightarrow> string \<Rightarrow> string \<Rightarrow> nat \<Rightarrow> ('z os_scheme, change option) io" where
  "EnsureLine ap path line mode = attempt (read_file path) (\<lambda>r. case r of
       Inl e \<Rightarrow> if is_not_exist e
         then applyFunc ap (mk_change ActionCreate path (''create '' @ path @ '' with required line''))
                (writeFileAtomic path (line @ NL) mode)
         else throw e
     | Inr current \<Rightarrow>
         if line \<in> set (split_on (CHR 0x0A) (trim_right current NL)) then ret None
         else applyFunc ap (mk_change ActionUpdate path (''append required line to '' @ path))
                (writeFileAtomic path (ends_NL current @ line @ NL) mode))"

section \<open>Shell exports\<close>

definition filterExportLines :: "string list \<Rightarrow> string \<Rightarrow> string list" where
  "filterExportLines ls var = filter (\<lambda>l. l = [] \<or> \<not> (has_prefix l (''export '' @ var @ ''='')
     \<or> has_prefix l (''declare -x '' @ var @ ''=''))) ls"

definition quoteShellValue :: "string \<Rightarrow> string" where
  "quoteShellValue v = replace_all v [CHR 0x27] [CHR 0x27, CHR 0x5C, CHR 0x27, CHR 0x27]"

definition normalizeLines :: "string \<Rightarrow> string" where
  "normalizeLines s = trim_right (replace_all s [CHR 0x0D, CHR 0x0A] NL) NL"

definition normalizeEmpty :: "string \<Rightarrow> string" where
  "normalizeEmpty s = (if s = [] then [] else normalizeLines s @ NL)"

definition dropEmptyTrailingLines :: "string list \<Rightarrow> string list" where
  "dropEmptyTrailingLines ls = rev (dropWhile (\<lambda>l. l = []) (rev ls))"

definition export_line :: "string \<Rightarrow> string \<Rightarrow> string" where
  "export_line var value = ''export '' @ var @ ''='' @ [CHR 0x27] @ quoteShellValue value @ [CHR 0x27]"

definition export_content :: "string \<Rightarrow> string \<Rightarrow> string \<Rightarrow> string" where
  "export_content var value current =
     (let ls = filterExportLines (split_on (CHR 0x0A) (normalizeLines current)) var;
          ls' = (if value \<noteq> [] then ls @ [export_line var value] else ls);
          c = trim_right (join NL (dropEmptyTrailingLines ls')) NL
      in if c \<noteq> [] then c @ NL else c)"

definition UpsertExport :: "bool \<Rightarrow> string \<Rightarrow> string \<Rightarrow> string \<Rightarrow> nat \<Rightarrow> ('z os_scheme, change option) io" where
  "UpsertExport ap path var value mode = andthen (attempt (read_file path) (\<lambda>r. case r of
       Inl e \<Rightarrow> if is_not_exist e then ret ([], True) else throw e
     | Inr d \<Rightarrow> ret (d, False))) (\<lambda>(current, fileMissing).
     let c = export_content var value current in
     if normalizeEmpty current = c then ret None
     else if c = [] then applyFunc ap (mk_change ActionDelete path (''remove export '' @ var @ '' from '' @ path))
            (writeFileAtomic path c mode)
     else applyFunc ap (mk_change (if fileMissing then ActionCreate else ActionUpdate) path
            (''upsert export '' @ var @ '' in '' @ path)) (writeFileAtomic path c mode))"

section \<open>Commands\<close>

definition Run :: "bool \<Rightarrow> string \<Rightarrow> string list \<Rightarrow> ('z os_scheme, unit) io" where
  "Run ap name args = (if \<not> ap then ret ()
     else andthen (wrapping (name @ '' '' @ join '' '' args) (run_cmd (name # args))) (\<lambda>_. ret ()))"

definition RunCapture :: "string \<Rightarrow> string list \<Rightarrow> ('z os_scheme, string) io" where
  "RunCapture name args = andthen (wrapping (name @ '' '' @ join '' '' args) (run_cmd (name # args)))
     (\<lambda>out. ret (trim_space out))"

definition Systemctl :: "bool \<Rightarrow> string \<Rightarrow> string list \<Rightarrow> ('z os_scheme, unit) io" where
  "Systemctl ap action units = (if action \<in> {''is-active'', ''is-enabled'', ''status''}
     then andthen (RunCapture ''systemctl'' (action # units)) (\<lambda>_. ret ())
     else Run ap ''systemctl'' (action # units))"

definition SystemctlIsActive :: "string \<Rightarrow> ('z os_scheme, bool) io" where
  "SystemctlIsActive unit = attempt (RunCapture ''systemctl'' [''is-active'', unit])
     (\<lambda>r. ret (case r of Inl _ \<Rightarrow> False | Inr out \<Rightarrow> trim_space out = ''active''))"

definition SystemctlExists :: "string \<Rightarrow> ('z os_scheme, bool) io" where
  "SystemctlExists unit = attempt (RunCapture ''systemctl'' [''cat'', unit]) (\<lambda>r. ret (case r of Inl _ \<Rightarrow> False | Inr _ \<Rightarrow> True))"

definition SystemctlIsEnabled :: "string \<Rightarrow> ('z os_scheme, bool) io" where
  "SystemctlIsEnabled unit = attempt (RunCapture ''systemctl'' [''is-enabled'', unit])
     (\<lambda>r. ret (case r of Inl _ \<Rightarrow> False | Inr out \<Rightarrow> trim_space out = ''enabled''))"

definition SystemctlIsMasked :: "string \<Rightarrow> ('z os_scheme, bool) io" where
  "SystemctlIsMasked unit = attempt (RunCapture ''systemctl'' [''show'', unit, ''--property=UnitFileState'', ''--value''])
     (\<lambda>r. ret (case r of Inl _ \<Rightarrow> False | Inr out \<Rightarrow> trim_space out = ''masked''))"

text \<open>The wait for a state that has held for \<open>stableFor\<close> seconds; \<open>since\<close> is when it began to
  hold. \<open>None\<close> is a wait that has not returned after that many probes.\<close>

definition os_now :: "'z os_scheme \<Rightarrow> int" where
  "os_now w = secs w (tick w)"

fun active_loop :: "nat \<Rightarrow> ('z os_scheme, bool) io \<Rightarrow> int \<Rightarrow> int \<Rightarrow> int option \<Rightarrow> 'z os_scheme \<Rightarrow> (bool \<times> 'z os_scheme) option" where
  "active_loop 0 check deadline stableFor since w = None"
| "active_loop (Suc n) check deadline stableFor since w =
     (case check w of (r, w1) \<Rightarrow>
       let ok = (case r of Inr b \<Rightarrow> b | Inl _ \<Rightarrow> False);
           since' = (if ok then Some (case since of None \<Rightarrow> os_now w1 | Some s \<Rightarrow> s) else None)
       in if ok \<and> os_now w1 - the since' \<ge> stableFor then Some (True, w1)
          else if os_now w1 > deadline then Some (False, w1)
          else active_loop n check deadline stableFor since' (snd (sleep w1)))"

definition waitForActiveState :: "nat \<Rightarrow> ('z os_scheme, bool) io \<Rightarrow> int \<Rightarrow> int \<Rightarrow> 'z os_scheme \<Rightarrow> (bool \<times> 'z os_scheme) option" where
  "waitForActiveState fuel check timeout stableFor w = active_loop fuel check (os_now w + timeout) stableFor None w"

definition WaitForSystemctlActive :: "nat \<Rightarrow> string \<Rightarrow> int \<Rightarrow> int \<Rightarrow> 'z os_scheme \<Rightarrow> (bool \<times> 'z os_scheme) option" where
  "WaitForSystemctlActive fuel unit timeout interval w =
     (let s = 3 * interval; s = (if s < 3 then 3 else s); s = (if s > 10 then 10 else s)
      in waitForActiveState fuel (SystemctlIsActive unit) timeout s w)"

section \<open>Downloads\<close>

text \<open>\<open>http t url\<close> is the answer of the server at tick \<open>t\<close>: no connection, or a status, a body
  and whether the body could be read to its end. \<open>sha\<close> is the hexadecimal SHA-256.\<close>

definition FileSHA256 :: "(string \<Rightarrow> string) \<Rightarrow> string \<Rightarrow> ('z os_scheme, string) io" where
  "FileSHA256 sha path = andthen (read_file path) (\<lambda>d. ret (sha d))"

record download_result =
  dl_checksum :: string
  dl_changed :: bool
  dl_change :: "change option"

definition downloadFileOnce ::
  "bool \<Rightarrow> (string \<Rightarrow> string) \<Rightarrow> (nat \<Rightarrow> string \<Rightarrow> (nat \<times> string \<times> bool) option) \<Rightarrow> string \<Rightarrow> string \<Rightarrow> nat
    \<Rightarrow> ('z os_scheme, download_result) io" where
  "downloadFileOnce ap sha http url path mode =
     andthen (asks (\<lambda>w. http (tick w) url)) (\<lambda>resp. case resp of None \<Rightarrow> throw IOErr
     | Some (status, body, complete) \<Rightarrow>
       if status < 200 \<or> status \<ge> 300 then throw (Err ''unexpected status'')
       else andthen (mkdir_all (dirname path) o755) (\<lambda>_.
         andthen (create_temp (dirname path) (''.'' @ basename path @ ''.tmp-'')) (\<lambda>tmp.
         deferring (remove tmp)
          (andthen (if complete then close_after (write_file tmp body 0) else throw IOErr) (\<lambda>_.
           andthen sync_fd (\<lambda>_.
           andthen (chmod tmp mode) (\<lambda>_.
           let newSum = sha body in
           attempt (FileSHA256 sha path) (\<lambda>cur.
           andthen (case cur of
               Inr sm \<Rightarrow> andthen (stat path) (\<lambda>info.
                 if sm = newSum \<and> nmode info = mode then ret None
                 else if sm = newSum then ret (Some (mk_change ActionUpdate path (''update file mode '' @ path @ '' after download from '' @ url)))
                 else ret (Some (mk_change ActionReplace path (''replace file '' @ path @ '' from '' @ url))))
             | Inl e \<Rightarrow> if is_not_exist e
                 then ret (Some (mk_change ActionCreate path (''download file '' @ path @ '' from '' @ url)))
                 else throw e)
             (\<lambda>mc. case mc of None \<Rightarrow> ret \<lparr>dl_checksum = newSum, dl_changed = False, dl_change = None\<rparr>
               | Some ch \<Rightarrow> andthen (applyFunc ap ch (rename tmp path))
                   (\<lambda>c. ret \<lparr>dl_checksum = newSum, dl_changed = True, dl_change = c\<rparr>))))))))))"

fun download_attempts :: "nat \<Rightarrow> string \<Rightarrow> (nat \<Rightarrow> bool) \<Rightarrow> ('z os_scheme, download_result) io \<Rightarrow> ('z os_scheme, download_result) io" where
  "download_attempts 0 msg cancelled once = wrapping msg once"
| "download_attempts (Suc n) msg cancelled once = attempt once (\<lambda>r. case r of Inr x \<Rightarrow> ret x
     | Inl e \<Rightarrow> andthen (asks (\<lambda>w. cancelled (tick w))) (\<lambda>c.
         if c then throw CtxDone else andthen sleep (\<lambda>_. download_attempts n msg cancelled once)))"

definition DownloadFileWithRetry ::
  "bool \<Rightarrow> (string \<Rightarrow> string) \<Rightarrow> (nat \<Rightarrow> string \<Rightarrow> (nat \<times> string \<times> bool) option) \<Rightarrow> (nat \<Rightarrow> bool)
    \<Rightarrow> string \<Rightarrow> string \<Rightarrow> nat \<Rightarrow> int \<Rightarrow> ('z os_scheme, download_result) io" where
  "DownloadFileWithRetry ap sha http cancelled url path mode retries =
     (let n = (if retries < 1 then 1 else nat retries) in
      download_attempts (n - 1) (''download '' @ url @ '' after '' @ nat_str n @ '' attempt(s)'') cancelled
        (downloadFileOnce ap sha http url path mode))"

definition CopyFileAtomic :: "string \<Rightarrow> string \<Rightarrow> nat \<Rightarrow> ('z os_scheme, unit) io" where
  "CopyFileAtomic src dst mode = andthen (read_file src) (\<lambda>d. writeFileAtomic dst d mode)"

section \<open>Atomicity of the writes\<close>

lemma sync_dir_ok: "\<exists>w'. sync_dir d w = (Inr (), w') \<and> (\<forall>q. regular w' q = regular w q)"
proof -
  have c: "confined {} (sync_dir d :: ('a os_scheme, unit) io)"
    unfolding sync_dir_def by (intro confined_intro)
  obtain r w' where s: "sync_dir d w = (r, w')" by (cases "sync_dir d w")
  then have "r = Inr ()"
    by (auto simp: sync_dir_def attempt_def run_simps split: prod.splits sum.splits)
  with s confinedD [OF c s] show ?thesis by auto
qed

lemma close_after_ok: "close_after m w = (Inr x, w') \<longleftrightarrow> m w = (Inr x, w')"
  by (cases "m w"; cases "fst (m w)") (auto simp: close_after_def attempt_def run_simps split: prod.splits)

lemma confined_close_after [confined_intro]: "confined P m \<Longrightarrow> confined P (close_after m)"
  unfolding close_after_def by (intro confined_intro)

lemma frames_close_after [frames_intro]: "frames v m \<Longrightarrow> frames v sync_fd \<Longrightarrow> frames v (close_after m)"
  unfolding close_after_def by (intro frames_intro)

text \<open>The two writers fill and prepare the temporary file, then rename it into place.\<close>

definition prepare_tmp :: "string \<Rightarrow> string \<Rightarrow> nat \<Rightarrow> ('z os_scheme, unit) io" where
  "prepare_tmp tmp data mode =
     andthen (close_after (write_file tmp data 0)) (\<lambda>_. andthen (close_after sync_fd) (\<lambda>_.
     andthen sync_fd (\<lambda>_. chmod tmp mode)))"

definition prepare_tmp2 :: "string \<Rightarrow> string \<Rightarrow> nat \<Rightarrow> ('z os_scheme, unit) io" where
  "prepare_tmp2 tmp data mode =
     andthen (close_after (write_file tmp data 0)) (\<lambda>_. andthen (close_after sync_fd) (\<lambda>_.
     andthen (close_after (chmod tmp mode)) (\<lambda>_. sync_fd)))"

definition place :: "('z os_scheme, unit) io \<Rightarrow> string \<Rightarrow> string \<Rightarrow> ('z os_scheme, unit) io" where
  "place prep tmp path = deferring (remove tmp) (andthen prep (\<lambda>_. andthen (rename tmp path) (\<lambda>_. sync_dir (dirname path))))"

lemma writeFileAtomic_place: "writeFileAtomic path data mode =
    andthen (mkdir_all (dirname path) o755) (\<lambda>_. andthen (create_temp (dirname path) (''.'' @ basename path @ ''.tmp-''))
      (\<lambda>tmp. place (prepare_tmp tmp data mode) tmp path))"
  by (simp add: writeFileAtomic_def place_def prepare_tmp_def andthen_assoc)

lemma WriteFile_place: "WriteFile path data mode = andthen (create_temp (dirname path) (basename path @ ''.tmp-''))
      (\<lambda>tmp. place (prepare_tmp2 tmp data mode) tmp path)"
  by (simp add: WriteFile_def place_def prepare_tmp2_def andthen_assoc)

lemma prepare_confined:
  "confined {tmp} (prepare_tmp tmp data mode)" "confined {tmp} (prepare_tmp2 tmp data mode)"
  unfolding prepare_tmp_def prepare_tmp2_def by (intro confined_intro singletonI)+

definition prepares :: "('z os_scheme, unit) io \<Rightarrow> string \<Rightarrow> string \<Rightarrow> nat \<Rightarrow> bool" where
  "prepares m tmp data mode \<longleftrightarrow> confined {tmp} m \<and> (\<forall>w w' m0 u g. regular w tmp = Some (FileN [] m0 u g)
     \<longrightarrow> m w = (Inr (), w') \<longrightarrow> regular w' tmp = Some (FileN data mode u g))"

lemma sync_fd_regular: "sync_fd w = (r, w') \<Longrightarrow> regular w' q = regular w q"
  by (auto simp: sync_fd_def fs_simps split: if_splits)

lemma write_file_regular:
  "write_file p c m w = (Inr (), w') \<Longrightarrow> regular w p = Some (FileN c0 m0 u g) \<Longrightarrow> regular w' p = Some (FileN c m0 u g)"
  using write_file_ok [of p c m w w'] put_content_regular(1) [of w p c0 m0 u g c m] by (simp add: fs_simps)

lemma sync_fd_same: "sync_fd w = (r, w') \<Longrightarrow> regular w' = regular w"
  by (rule ext) (rule sync_fd_regular)

lemma prepares_tmp:
  "prepares (prepare_tmp tmp data mode :: ('a os_scheme, unit) io) tmp data mode"
  "prepares (prepare_tmp2 tmp data mode :: ('a os_scheme, unit) io) tmp data mode"
proof -
  have 1: "regular w' tmp = Some (FileN data mode u g)"
    if t: "regular w tmp = Some (FileN [] m0 u g)" and run: "prepare_tmp tmp data mode w = (Inr (), w')"
    for w w' :: "'a os_scheme" and m0 u g
  proof -
    from run obtain w1 w2 w3 where s: "write_file tmp data 0 w = (Inr (), w1)" "sync_fd w1 = (Inr (), w2)"
      "sync_fd w2 = (Inr (), w3)" "chmod tmp mode w3 = (Inr (), w')"
      by (auto simp: prepare_tmp_def andthen_ok_iff close_after_ok)
    show ?thesis
      by (rule chmod_ok [OF s(4)]) (use write_file_regular [OF s(1) t] sync_fd_same [OF s(2)] sync_fd_same [OF s(3)] in simp)
  qed
  have 2: "regular w' tmp = Some (FileN data mode u g)"
    if t: "regular w tmp = Some (FileN [] m0 u g)" and run: "prepare_tmp2 tmp data mode w = (Inr (), w')"
    for w w' :: "'a os_scheme" and m0 u g
  proof -
    from run obtain w1 w2 w3 where s: "write_file tmp data 0 w = (Inr (), w1)" "sync_fd w1 = (Inr (), w2)"
      "chmod tmp mode w2 = (Inr (), w3)" "sync_fd w3 = (Inr (), w')"
      by (auto simp: prepare_tmp2_def andthen_ok_iff close_after_ok)
    have "regular w3 tmp = Some (FileN data mode u g)"
      by (rule chmod_ok [OF s(3)]) (use write_file_regular [OF s(1) t] sync_fd_same [OF s(2)] in simp)
    then show ?thesis using sync_fd_same [OF s(4)] by simp
  qed
  show "prepares (prepare_tmp tmp data mode :: ('a os_scheme, unit) io) tmp data mode"
    unfolding prepares_def using prepare_confined(1) 1 by blast
  show "prepares (prepare_tmp2 tmp data mode :: ('a os_scheme, unit) io) tmp data mode"
    unfolding prepares_def using prepare_confined(2) 2 by blast
qed

lemma confined_sync_dir [confined_intro]: "confined P (sync_dir d)"
  unfolding sync_dir_def by (intro confined_intro)

lemma place_outcome:
  assumes "place prep tmp path w = (r, w')" "prepares prep tmp data mode" "tmp \<noteq> path"
    and "regular w tmp = Some (FileN [] m0 u g)"
  shows "(r = Inr () \<and> regular w' path = Some (FileN data mode u g)) \<or> (\<exists>e. r = Inl e \<and> regular w' path = regular w path)"
    and "\<And>q. q \<notin> {tmp, path} \<Longrightarrow> regular w' q = regular w q"
proof -
  from assms(1) obtain w1 where body: "andthen prep (\<lambda>_. andthen (rename tmp path) (\<lambda>_. sync_dir (dirname path))) w = (r, w1)"
    and w': "w' = snd (remove tmp w1)"
    unfolding place_def deferring_iff by blast
  have rm: "regular w' q = regular w1 q" if "q \<noteq> tmp" for q
    using confinedD [OF confined_remove [of tmp "{tmp}"], of w1 "fst (remove tmp w1)" w' q] that w' by simp
  have prep: "confined {tmp} prep" using assms(2) by (simp add: prepares_def)
  show "(r = Inr () \<and> regular w' path = Some (FileN data mode u g)) \<or> (\<exists>e. r = Inl e \<and> regular w' path = regular w path)"
    using body
  proof (cases rule: andthen_cases)
    case (fail e)
    then show ?thesis using confinedD [OF prep fail(1), of path] rm [of path] assms(3) by auto
  next
    case (ok x w2)
    then have tmp: "regular w2 tmp = Some (FileN data mode u g)" using assms(2,4) by (auto simp: prepares_def)
    have p: "regular w2 path = regular w path" using confinedD [OF prep ok(1), of path] assms(3) by auto
    from ok(2) show ?thesis
    proof (cases rule: andthen_cases)
      case (fail e)
      then show ?thesis using rename_fail [OF fail(1)] p rm [of path] assms(3) by (auto simp: fs_simps)
    next
      case ren: (ok y w3)
      obtain w4 where s: "sync_dir (dirname path) w3 = (Inr (), w4)" "\<forall>q. regular w4 q = regular w3 q"
        using sync_dir_ok by blast
      with ren rename_ok [of tmp path w2 w3] tmp rm [of path] assms(3) show ?thesis by auto
    qed
  qed
  have "confined {tmp, path} (andthen prep (\<lambda>_. andthen (rename tmp path) (\<lambda>_. sync_dir (dirname path))))"
    by (intro confined_andthen confined_rename confined_sync_dir confined_mono [OF prep]) auto
  from confinedD [OF this body] rm show "\<And>q. q \<notin> {tmp, path} \<Longrightarrow> regular w' q = regular w q" by simp
qed

lemma slash_not_digit: "CHR ''/'' \<notin> set (nat_str n)"
  using nat_str_digits [of n] by (auto simp: list_all_iff is_digit_def)

lemma tmp_name_neq:
  assumes "pre \<in> {[], ''.''}"
  shows "dirname path @ ''/'' @ pre @ basename path @ ''.tmp-'' @ nat_str n \<noteq> path"
proof
  assume e: "dirname path @ ''/'' @ pre @ basename path @ ''.tmp-'' @ nat_str n = path"
  let ?f = "pre @ basename path @ ''.tmp-'' @ nat_str n"
  have "CHR ''/'' \<notin> set ?f" using assms basename_no_slash slash_not_digit by auto
  then have "basename (pjoin (dirname path) ?f) = ?f" by (rule basename_pjoin [rotated]) simp
  moreover have "pjoin (dirname path) ?f = path" using e by (simp add: pjoin_def)
  ultimately have "length (basename path) = length ?f" by simp
  then show False by simp
qed

text \<open>The outcome of an atomic write, for any failures: the new content with its mode, or an
  error and the old file; and no other existing file is touched.\<close>

definition atomic_outcome :: "string \<Rightarrow> string \<Rightarrow> nat \<Rightarrow> 'z os_scheme \<Rightarrow> unit result \<times> 'z os_scheme \<Rightarrow> bool" where
  "atomic_outcome path data mode w = (\<lambda>(r, w').
     ((r = Inr () \<and> regular w' path = Some (FileN data mode 0 0)) \<or> (\<exists>e. r = Inl e \<and> regular w' path = regular w path))
     \<and> (\<forall>q. q \<noteq> path \<longrightarrow> regular w q \<noteq> None \<longrightarrow> regular w' q = regular w q))"

lemma atomic_create_place:
  assumes "andthen (create_temp (dirname path) (pre @ basename path @ ''.tmp-'')) (\<lambda>tmp. place (prep tmp) tmp path) w = (r, w')"
    and "pre \<in> {[], ''.''}" "\<And>tmp. prepares (prep tmp) tmp data mode"
  shows "atomic_outcome path data mode w (r, w')"
  using assms(1)
proof (cases rule: andthen_cases)
  case (fail e)
  from create_temp_fail [OF fail(1)] fail show ?thesis by (simp add: atomic_outcome_def fs_simps)
next
  case (ok tmp w1)
  from create_temp_ok [OF ok(1)] have t: "tmp \<noteq> path" "regular w1 tmp = Some (FileN [] 384 0 0)"
      "\<forall>q. q \<noteq> tmp \<longrightarrow> regular w1 q = regular w q" "fget w tmp = None"
    using tmp_name_neq [OF assms(2), of path] by auto
  have none: "regular w tmp = None" using t(4) by (simp add: regular_def)
  note out = place_outcome [OF ok(2) assms(3) t(1,2)]
  have "regular w' q = regular w q" if "q \<noteq> path" "regular w q \<noteq> None" for q
  proof -
    have "q \<noteq> tmp" using that(2) none by auto
    with out(2) [of q] t(3) that(1) show ?thesis by simp
  qed
  moreover have "regular w1 path = regular w path" using t by auto
  ultimately show ?thesis using out(1) by (simp add: atomic_outcome_def)
qed

lemma writeFileAtomic_outcome: "atomic_outcome path data mode w (writeFileAtomic path data mode w)"
proof -
  obtain r w' where run: "writeFileAtomic path data mode w = (r, w')" by (cases "writeFileAtomic path data mode w")
  have "atomic_outcome path data mode w (r, w')"
    using run unfolding writeFileAtomic_place
  proof (cases rule: andthen_cases)
    case (fail e)
    then show ?thesis using confinedD [OF confined_mkdir_all fail(1), of _ "{}"] by (auto simp: atomic_outcome_def)
  next
    case (ok x w1)
    have "\<And>q. regular w1 q = regular w q" using confinedD [OF confined_mkdir_all ok(1), of _ "{}"] by simp
    with atomic_create_place [of path "''.''" "\<lambda>tmp. prepare_tmp tmp data mode" w1 r w' data mode] ok(2) prepares_tmp
    show ?thesis by (auto simp: atomic_outcome_def)
  qed
  with run show ?thesis by simp
qed

lemma WriteFile_outcome: "atomic_outcome path data mode w (WriteFile path data mode w)"
proof -
  obtain r w' where run: "WriteFile path data mode w = (r, w')" by (cases "WriteFile path data mode w")
  then have "andthen (create_temp (dirname path) ([] @ basename path @ ''.tmp-'')) (\<lambda>tmp. place (prepare_tmp2 tmp data mode) tmp path) w = (r, w')"
    by (simp add: WriteFile_place)
  from atomic_create_place [OF this _ prepares_tmp(2)] run show ?thesis by simp
qed

lemma applyFunc_outcome:
  assumes "applyFunc ap ch fn w = (r, w')"
  shows "(\<not> ap \<and> r = Inr (Some ch) \<and> w' = w) \<or> (ap \<and> (\<exists>x. fn w = (x, w') \<and> (case x of Inl e \<Rightarrow> r = Inl e | Inr _ \<Rightarrow> r = Inr (Some ch))))"
  using assms by (auto simp: applyFunc_def run_simps andthen_def split: if_splits prod.splits sum.splits)

section \<open>What the Ensure operations establish\<close>

lemma regular_content: "regular w p = Some (FileN c m u g) \<Longrightarrow> content w p = Some c"
  by (simp add: content_regular)

lemma content_fget: "content w p = Some c \<Longrightarrow> \<exists>m u g. regular w p = Some (FileN c m u g) \<and> fget w p = Some (FileN c m u g)"
  by (auto simp: content_def regular_def split: option.splits node.splits)

lemma read_file_cases:
  obtains (ok) c where "read_file p w = (Inr c, tock w)" "content w p = Some c"
    | (missing) "read_file p w = (Inl NotExist, tock w)" "fget w p = None"
    | (failed) "read_file p w = (Inl IOErr, tock w)"
proof (cases "now_fault w = Fine")
  case False
  then show ?thesis using failed by (cases "now_fault w") (auto simp: read_file_def)
next
  case True
  show ?thesis
  proof (cases "fget w p")
    case None
    with True show ?thesis using missing by (simp add: read_file_def)
  next
    case (Some n)
    with True show ?thesis using ok failed by (cases n) (simp_all add: read_file_def content_def)
  qed
qed

lemma regular_tock [simp]: "regular (tock w) p = regular w p" "content (tock w) p = content w p"
  by (simp_all add: fs_simps)

lemma atomic_apply:
  assumes "applyFunc True ch (writeFileAtomic path data mode) w = (r, w')"
  shows "(\<forall>c. r = Inr c \<longrightarrow> c = Some ch \<and> regular w' path = Some (FileN data mode 0 0))
    \<and> (\<forall>e. r = Inl e \<longrightarrow> regular w' path = regular w path)
    \<and> (\<forall>q. q \<noteq> path \<longrightarrow> regular w q \<noteq> None \<longrightarrow> regular w' q = regular w q)"
proof -
  from applyFunc_outcome [OF assms] obtain x where run: "writeFileAtomic path data mode w = (x, w')"
    and r: "case x of Inl e \<Rightarrow> r = Inl e | Inr _ \<Rightarrow> r = Inr (Some ch)" by auto
  have "atomic_outcome path data mode w (x, w')" using writeFileAtomic_outcome [of path data mode w] run by simp
  with r show ?thesis by (cases x) (auto simp: atomic_outcome_def)
qed

lemma EnsureFile_run:
  assumes "EnsureFile True path data mode w = (r, w')"
  shows "(\<forall>c. r = Inr c \<longrightarrow> (\<exists>u g. regular w' path = Some (FileN data mode u g))
            \<and> (c = None \<longrightarrow> regular w' path = regular w path)
            \<and> (c \<noteq> None \<longrightarrow> (\<nexists>u g. regular w path = Some (FileN data mode u g))))
    \<and> (\<forall>e. r = Inl e \<longrightarrow> regular w' path = regular w path)
    \<and> (\<forall>q. q \<noteq> path \<longrightarrow> regular w q \<noteq> None \<longrightarrow> regular w' q = regular w q)"
proof (cases rule: read_file_cases [of path w])
  case (ok cur)
  from content_fget [OF ok(2)] obtain m u g where reg: "regular w path = Some (FileN cur m u g)"
      "fget w path = Some (FileN cur m u g)" by blast
  from assms ok(1) have a: "andthen (stat path) (\<lambda>info.
         if cur = data \<and> nmode info = mode then ret None
         else applyFunc True (if cur \<noteq> data then mk_change ActionReplace path (''replace file '' @ path)
                            else mk_change ActionUpdate path (''update file '' @ path))
                (writeFileAtomic path data mode)) (tock w) = (r, w')"
    by (simp add: EnsureFile_def attempt_def)
  then show ?thesis
  proof (cases rule: andthen_cases)
    case (fail e)
    then have "w' = tock (tock w)" by (metis snd_conv stat_world)
    with fail show ?thesis by simp
  next
    case stat: (ok info w1)
    then have w1: "w1 = tock (tock w)" "info = FileN cur m u g"
      using reg(2) by (auto simp: stat_ok fs_simps)
    show ?thesis
    proof (cases "cur = data \<and> m = mode")
      case True
      with stat w1 reg show ?thesis by (auto simp: run_simps)
    next
      case False
      with stat w1 have "\<exists>ch. applyFunc True ch (writeFileAtomic path data mode) w1 = (r, w')" by auto
      then obtain ch where "applyFunc True ch (writeFileAtomic path data mode) w1 = (r, w')" by blast
      from atomic_apply [OF this] w1(1) reg(1) False show ?thesis by auto
    qed
  qed
next
  case missing
  then have "applyFunc True (mk_change ActionCreate path (''create file '' @ path)) (writeFileAtomic path data mode) (tock w) = (r, w')"
    using assms by (simp add: EnsureFile_def attempt_def)
  from atomic_apply [OF this] missing(2) show ?thesis by (auto simp: regular_def fs_simps)
next
  case failed
  with assms have "r = Inl IOErr" "w' = tock w" by (auto simp: EnsureFile_def attempt_def run_simps)
  then show ?thesis by simp
qed

text \<open>A file that is already right is left alone: only two ticks pass.\<close>

lemma EnsureFile_noop:
  assumes "no_faults w" "regular w path = Some (FileN data mode u g)"
  shows "EnsureFile ap path data mode w = (Inr None, tock (tock w))"
proof -
  have "fget w path = Some (FileN data mode u g)"
    using assms(2) by (auto simp: regular_def split: option.splits node.splits)
  with assms(1) show ?thesis
    by (simp add: EnsureFile_def attempt_def andthen_def read_file_def stat_def run_simps fs_simps)
qed

subsection \<open>Lines\<close>

lemma trim_right_snoc: "c \<notin> set cutset \<Longrightarrow> trim_right (s @ [c]) cutset = s @ [c]" "trim_right [] cutset = []"
  by (simp_all add: trim_right_def)

lemma trim_right_drop: "set t \<subseteq> set cutset \<Longrightarrow> trim_right (s @ t) cutset = trim_right s cutset"
proof -
  assume "set t \<subseteq> set cutset"
  then have "dropWhile (\<lambda>c. c \<in> set cutset) (rev t @ rev s) = dropWhile (\<lambda>c. c \<in> set cutset) (rev s)"
    by (intro dropWhile_append2) auto
  then show ?thesis by (simp add: trim_right_def)
qed

lemma trim_right_line: "line \<noteq> [] \<Longrightarrow> CHR 0x0A \<notin> set line \<Longrightarrow> trim_right (s @ line @ NL) NL = s @ line"
proof -
  assume "line \<noteq> []" "CHR 0x0A \<notin> set line"
  then obtain l c where "line = l @ [c]" "c \<noteq> CHR 0x0A" by (cases line rule: rev_cases) auto
  then show ?thesis
    using trim_right_drop [of NL NL "s @ line"] trim_right_snoc(1) [of c NL "s @ l"] by simp
qed

lemma split_on_last:
  "CHR 0x0A \<notin> set line \<Longrightarrow> split_on (CHR 0x0A) (s @ NL @ line) = split_on (CHR 0x0A) s @ [line]"
proof (induction s)
  case (Cons x s)
  then show ?case
    by (cases "split_on (CHR 0x0A) s") (auto split: list.splits)
qed (simp add: split_on_none)

definition lines_of :: "string \<Rightarrow> string list" where
  "lines_of s = split_on (CHR 0x0A) (trim_right s NL)"

lemma appended_lines:
  assumes "line \<noteq> []" "CHR 0x0A \<notin> set line"
  shows "lines_of (ends_NL cur @ line @ NL) =
    (if cur = [] then [line] else split_on (CHR 0x0A) (if last cur = CHR 0x0A then butlast cur else cur) @ [line])"
proof (cases "cur = []")
  case True
  then show ?thesis
    using trim_right_line [OF assms, of "[]"] by (simp add: lines_of_def ends_NL_def split_on_none [OF assms(2)])
next
  case False
  then obtain s c where cur: "cur = s @ [c]" by (cases cur rule: rev_cases) auto
  then have "ends_NL cur = (if c = CHR 0x0A then s else cur) @ NL" by (auto simp: ends_NL_def)
  then show ?thesis
    using trim_right_line [OF assms, of "ends_NL cur"] split_on_last [OF assms(2)] cur
    by (auto simp: lines_of_def)
qed

subsection \<open>Exports\<close>

definition exports_var :: "string \<Rightarrow> string \<Rightarrow> bool" where
  "exports_var var l \<longleftrightarrow> has_prefix l (''export '' @ var @ ''='') \<or> has_prefix l (''declare -x '' @ var @ ''='')"

lemma filterExportLines_alt: "filterExportLines ls var = filter (\<lambda>l. \<not> exports_var var l) ls"
  by (auto simp: filterExportLines_def exports_var_def str_simps intro!: filter_cong)

lemma export_line_exports: "exports_var var (export_line var value)"
  by (simp add: exports_var_def export_line_def str_simps)

lemma dropEmptyTrailing_snoc: "l \<noteq> [] \<Longrightarrow> dropEmptyTrailingLines (ls @ [l]) = ls @ [l]"
  by (simp add: dropEmptyTrailingLines_def)

lemma dropEmptyTrailing_idem: "dropEmptyTrailingLines (dropEmptyTrailingLines ls) = dropEmptyTrailingLines ls"
  by (simp add: dropEmptyTrailingLines_def takeWhile_rev_dropWhile)

lemma dropEmptyTrailing_last: "dropEmptyTrailingLines ls = [] \<or> last (dropEmptyTrailingLines ls) \<noteq> []"
  using hd_dropWhile_rev [of "\<lambda>l. l = []" "rev ls"] by (auto simp: dropEmptyTrailingLines_def last_rev)

lemma dropEmptyTrailing_prefix: "\<exists>n. ls = dropEmptyTrailingLines ls @ replicate n []"
proof -
  let ?t = "takeWhile (\<lambda>l. l = []) (rev ls)"
  have "?t = replicate (length ?t) []"
    by (rule replicate_length_same [symmetric]) (auto dest: set_takeWhileD)
  moreover have "ls = dropEmptyTrailingLines ls @ rev ?t"
    unfolding dropEmptyTrailingLines_def by (metis rev_append rev_rev_ident takeWhile_dropWhile_id)
  ultimately show ?thesis by (metis rev_replicate)
qed

text \<open>Content made of lines without a newline or carriage return, the last not blank.\<close>

definition clean_line :: "string \<Rightarrow> bool" where
  "clean_line l \<longleftrightarrow> CHR 0x0A \<notin> set l \<and> CHR 0x0D \<notin> set l"

lemma replace_none: "CHR 0x0D \<notin> set s \<Longrightarrow> replace_all s [CHR 0x0D, CHR 0x0A] NL = s"
proof -
  assume a: "CHR 0x0D \<notin> set s"
  have "replace_from 0 [CHR 0x0D, CHR 0x0A] NL s = s"
    using a by (induction s) (auto simp: has_prefix_def)
  then show ?thesis by (simp add: replace_all_def)
qed

lemma join_last: "ls \<noteq> [] \<Longrightarrow> last ls \<noteq> [] \<Longrightarrow> \<exists>p c. join sep ls = p @ [c] \<and> c = last (last ls)"
proof (induction ls)
  case (Cons l ls)
  show ?case
  proof (cases ls)
    case Nil
    with Cons.prems show ?thesis by (cases l rule: rev_cases) auto
  next
    case (Cons m ms)
    with Cons.IH Cons.prems obtain p c where "join sep ls = p @ [c]" "c = last (last ls)" by auto
    with Cons show ?thesis by (intro exI [of _ "l @ sep @ p"]) auto
  qed
qed simp

lemma set_join: "set (join sep ls) \<subseteq> set sep \<union> \<Union> (set ` set ls)"
  by (induction sep ls rule: join.induct) auto

lemma normalize_join:
  assumes "list_all clean_line ls" "ls \<noteq> []" "last ls \<noteq> []"
  shows "normalizeLines (join NL ls) = join NL ls" "normalizeLines (join NL ls @ NL) = join NL ls"
    "trim_right (join NL ls) NL = join NL ls"
proof -
  obtain p c where j: "join NL ls = p @ [c]" "c = last (last ls)" using join_last assms(2,3) by blast
  have "last ls \<in> set ls" using assms(2) by simp
  then have "c \<in> set (last ls)" "clean_line (last ls)" using j assms(1,3) by (auto simp: list_all_iff)
  then have c: "c \<noteq> CHR 0x0A" by (auto simp: clean_line_def)
  have cr: "CHR 0x0D \<notin> set (join NL ls)"
    using set_join [of NL ls] assms(1) by (auto simp: list_all_iff clean_line_def)
  show t: "trim_right (join NL ls) NL = join NL ls" using c by (simp add: j trim_right_snoc)
  show "normalizeLines (join NL ls) = join NL ls" using t cr by (simp add: normalizeLines_def replace_none)
  show "normalizeLines (join NL ls @ NL) = join NL ls"
    using t cr trim_right_drop [of NL NL "join NL ls"] by (simp add: normalizeLines_def replace_none)
qed

lemma split_normalized: "list_all clean_line ls \<Longrightarrow> ls \<noteq> [] \<Longrightarrow> split_on (CHR 0x0A) (join NL ls) = ls"
  by (rule split_join) (auto simp: list_all_iff clean_line_def)

lemma set_join_member: "w \<in> set ls \<Longrightarrow> set w \<subseteq> set (join sep ls)"
  by (induction sep ls rule: join.induct) auto

lemma clean_split: "CHR 0x0D \<notin> set s \<Longrightarrow> list_all clean_line (split_on (CHR 0x0A) (normalizeLines s))"
proof -
  assume s: "CHR 0x0D \<notin> set s"
  have sub: "set w \<subseteq> set t" if "w \<in> set (split_on c t)" for w c and t :: string
    using that set_join_member [of w "split_on c t" "[c]"] by (simp add: join_split)
  have "set (normalizeLines s) \<subseteq> set s"
    using s by (auto simp: normalizeLines_def replace_none trim_right_def dest!: set_dropWhileD)
  with s sub split_on_no_sep show ?thesis by (fastforce simp: list_all_iff clean_line_def)
qed

lemma frames_sleep [frames_intro]: "frames fault sleep"
  by (simp add: frames_def sleep_def fs_simps)

lemma frames_writeFileAtomic [frames_intro]: "frames fault (writeFileAtomic p d m)"
  unfolding writeFileAtomic_def sync_dir_def by (intro frames_intro)

lemma frames_applyFunc [frames_intro]: "frames fault m \<Longrightarrow> frames fault (applyFunc ap ch m)"
  unfolding applyFunc_def by (intro frames_intro)

lemma frames_case_node [frames_intro]:
  "(\<And>c m u g. n = FileN c m u g \<Longrightarrow> frames v (f c m u g)) \<Longrightarrow> (\<And>m u g. n = DirN m u g \<Longrightarrow> frames v (h m u g))
    \<Longrightarrow> frames v (case n of FileN c m u g \<Rightarrow> f c m u g | DirN m u g \<Rightarrow> h m u g)"
  by (cases n) auto

lemma frames_EnsureFile [frames_intro]: "frames fault (EnsureFile ap p d m)"
  unfolding EnsureFile_def by (intro frames_intro)

lemma frames_EnsureLine [frames_intro]: "frames fault (EnsureLine ap p d m)"
  unfolding EnsureLine_def by (intro frames_intro)

section \<open>Properties\<close>

text \<open>C22: Ensuring a file leaves it with exactly the asked content and mode when it reports
  success, whatever calls fail on the way; after an error the old file is there whole; no
  other existing file changes; and \<open>None\<close> (unchanged) is reported only if nothing had to change.\<close>

theorem EnsureFile_converges:
  assumes "EnsureFile True path data mode w = (r, w')"
  shows "(\<forall>c. r = Inr c \<longrightarrow> (\<exists>u g. regular w' path = Some (FileN data mode u g))
            \<and> (c = None \<longleftrightarrow> (\<exists>u g. regular w path = Some (FileN data mode u g))))
    \<and> (\<forall>e. r = Inl e \<longrightarrow> regular w' path = regular w path)
    \<and> (\<forall>q. q \<noteq> path \<longrightarrow> regular w q \<noteq> None \<longrightarrow> regular w' q = regular w q)"
  using EnsureFile_run [OF assms] by (metis not_None_eq)

definition demo_os :: os where
  "demo_os = calm_os\<lparr>files := [(''/etc'', DirN 493 0 0), (''/etc/a'', FileN ''old'' 420 0 0)],
     fault := (\<lambda>t. if t = 5 then Before else Fine)\<rparr>"

theorem EnsureFile_converges_witness:
  "(case EnsureFile True ''/etc/a'' ''new'' 384 demo_os of (r, w') \<Rightarrow>
     r = Inl IOErr \<and> regular w' ''/etc/a'' = Some (FileN ''old'' 420 0 0))"
proof -
  obtain r w' where run: "EnsureFile True ''/etc/a'' ''new'' 384 demo_os = (r, w')" by (cases "EnsureFile True ''/etc/a'' ''new'' 384 demo_os")
  have "(case fst (EnsureFile True ''/etc/a'' ''new'' 384 demo_os) of Inl e \<Rightarrow> e = IOErr | Inr _ \<Rightarrow> False)" by code_simp
  then have r: "r = Inl IOErr" using run by (cases r) auto
  moreover have "regular demo_os ''/etc/a'' = Some (FileN ''old'' 420 0 0)" by code_simp
  ultimately show ?thesis using EnsureFile_converges [OF run] run by simp
qed

text \<open>Ensuring is idempotent: with no failing calls, a run after a successful one reports
  no change and leaves every file alone.\<close>

theorem EnsureFile_idempotent:
  assumes "EnsureFile True path data mode w = (Inr c, w')" "no_faults w'"
  shows "\<exists>w''. EnsureFile True path data mode w' = (Inr None, w'') \<and> fget w'' = fget w'"
proof -
  obtain u g where "regular w' path = Some (FileN data mode u g)" using EnsureFile_run [OF assms(1)] by auto
  from EnsureFile_noop [OF assms(2) this] show ?thesis by (auto simp: fs_simps fun_eq_iff)
qed

theorem EnsureFile_idempotent_witness:
  "\<exists>w''. EnsureFile True ''/etc/a'' ''new'' 384 (snd (EnsureFile True ''/etc/a'' ''new'' 384 (demo_os\<lparr>fault := \<lambda>_. Fine\<rparr>))) = (Inr None, w'')"
proof -
  let ?w = "demo_os\<lparr>fault := \<lambda>_. Fine\<rparr>"
  obtain r w' where run: "EnsureFile True ''/etc/a'' ''new'' 384 ?w = (r, w')" by (cases "EnsureFile True ''/etc/a'' ''new'' 384 ?w")
  have "\<not> (case fst (EnsureFile True ''/etc/a'' ''new'' 384 ?w) of Inl _ \<Rightarrow> True | Inr _ \<Rightarrow> False)" by code_simp
  then obtain c where r: "r = Inr c" using run by (cases r) auto
  have "fault w' = (\<lambda>_. Fine)" using framesD [OF frames_EnsureFile run] by simp
  then have "no_faults w'" by (simp add: no_faults_def)
  from EnsureFile_idempotent [OF run [unfolded r] this] run show ?thesis by auto
qed

text \<open>Ensuring a line: after success the line is a line of the file, the lines before it
  are exactly the old ones in their order, and a second run changes nothing.\<close>

theorem EnsureLine_appends:
  assumes "EnsureLine True path line mode w = (Inr c, w')" "line \<noteq> []" "CHR 0x0A \<notin> set line"
  shows "\<exists>d. content w' path = Some d \<and> line \<in> set (lines_of d)
    \<and> (case content w path of None \<Rightarrow> d = line @ NL
        | Some d0 \<Rightarrow> (if line \<in> set (lines_of d0) then c = None \<and> d = d0
             else c \<noteq> None \<and> d = ends_NL d0 @ line @ NL))
    \<and> (no_faults w' \<longrightarrow> (\<exists>w''. EnsureLine True path line mode w' = (Inr None, w'')))"
proof -
  have noop: "\<exists>w''. EnsureLine True path line mode v = (Inr None, w'')"
    if "no_faults v" "content v path = Some d" "line \<in> set (lines_of d)" for v :: "'a os_scheme" and d
  proof -
    have "read_file path v = (Inr d, tock v)" using that by (simp add: read_file_ok)
    then show ?thesis using that(3) by (simp add: EnsureLine_def attempt_def lines_of_def run_simps)
  qed
  have new: "\<exists>d. content w' path = Some d \<and> d = data" if "applyFunc True ch (writeFileAtomic path data mode) (tock w) = (Inr c, w')" for ch data
    using atomic_apply [OF that] by (auto dest: regular_content)
  show ?thesis
  proof (cases rule: read_file_cases [of path w])
    case (ok d0)
    show ?thesis
    proof (cases "line \<in> set (lines_of d0)")
      case True
      with assms(1) ok have "c = None" "w' = tock w"
        by (auto simp: EnsureLine_def attempt_def lines_of_def run_simps)
      with ok True noop [of w' d0] show ?thesis by simp
    next
      case False
      with assms(1) ok have a: "applyFunc True (mk_change ActionUpdate path (''append required line to '' @ path))
          (writeFileAtomic path (ends_NL d0 @ line @ NL) mode) (tock w) = (Inr c, w')"
        by (simp add: EnsureLine_def attempt_def lines_of_def)
      have "line \<in> set (lines_of (ends_NL d0 @ line @ NL))" by (simp add: appended_lines [OF assms(2,3)])
      moreover have "c \<noteq> None" using atomic_apply [OF a] by auto
      ultimately show ?thesis using new [OF a] ok False noop [of w'] by auto
    qed
  next
    case missing
    then have a: "applyFunc True (mk_change ActionCreate path (''create '' @ path @ '' with required line''))
          (writeFileAtomic path (line @ NL) mode) (tock w) = (Inr c, w')"
      using assms(1) by (simp add: EnsureLine_def attempt_def)
    have "line \<in> set (lines_of (line @ NL))" using appended_lines [OF assms(2,3), of "[]"] by (simp add: ends_NL_def)
    moreover have "content w path = None" using missing(2) by (simp add: content_def)
    ultimately show ?thesis using new [OF a] noop [of w'] by auto
  next
    case failed
    with assms(1) show ?thesis by (simp add: EnsureLine_def attempt_def run_simps)
  qed
qed

theorem EnsureLine_appends_witness:
  "\<exists>d. content (snd (EnsureLine True ''/etc/a'' ''line'' 420 (demo_os\<lparr>fault := \<lambda>_. Fine\<rparr>))) ''/etc/a'' = Some d \<and> ''line'' \<in> set (lines_of d)"
proof -
  let ?w = "demo_os\<lparr>fault := \<lambda>_. Fine\<rparr>"
  obtain r w' where run: "EnsureLine True ''/etc/a'' ''line'' 420 ?w = (r, w')" by (cases "EnsureLine True ''/etc/a'' ''line'' 420 ?w")
  have "\<not> (case fst (EnsureLine True ''/etc/a'' ''line'' 420 ?w) of Inl _ \<Rightarrow> True | Inr _ \<Rightarrow> False)" by code_simp
  then obtain c where r: "r = Inr c" using run by (cases r) auto
  from EnsureLine_appends [OF run [unfolded r]] run show ?thesis by auto
qed

text \<open>What a shell reads from a word made of single-quoted pieces and escaped characters.\<close>

fun sh_word :: "bool \<Rightarrow> string \<Rightarrow> string option" where
  "sh_word True [] = None"
| "sh_word True (c # s) = (if c = CHR 0x27 then sh_word False s else map_option (Cons c) (sh_word True s))"
| "sh_word False [] = Some []"
| "sh_word False [c] = (if c = CHR 0x27 \<or> c = CHR 0x5C then None else Some [c])"
| "sh_word False (c # d # s) = (if c = CHR 0x27 then sh_word True (d # s)
     else if c = CHR 0x5C then map_option (Cons d) (sh_word False s)
     else map_option (Cons c) (sh_word False (d # s)))"

lemma replace_quote: "replace_from 0 [q] r s = concat (map (\<lambda>c. if c = q then r else [c]) s)"
  by (induction s) (auto simp: has_prefix_def)

lemma sh_word_start: "s \<noteq> [] \<Longrightarrow> sh_word False (CHR 0x27 # s) = sh_word True s"
  by (cases s) auto

lemma sh_word_quoted:
  "sh_word True (concat (map (\<lambda>c. if c = CHR 0x27 then [CHR 0x27, CHR 0x5C, CHR 0x27, CHR 0x27] else [c]) s) @ [CHR 0x27]) = Some s"
  by (induction s) (auto simp: sh_word_start)

text \<open>The export line carries the value through the shell: what follows the equals sign is
  one word, and a shell that reads it gets back the value, quotes and backslashes included.\<close>

theorem export_line_roundtrip:
  "\<exists>word. export_line var value = ''export '' @ var @ ''='' @ word \<and> sh_word False word = Some value"
  by (simp add: export_line_def quoteShellValue_def replace_all_def replace_quote sh_word_start sh_word_quoted)

lemma set_quoted: "set (quoteShellValue v) \<subseteq> set v \<union> {CHR 0x27, CHR 0x5C}"
  by (auto simp: quoteShellValue_def replace_all_def replace_quote split: if_splits)

lemma clean_export_line: "clean_line var \<Longrightarrow> clean_line value \<Longrightarrow> clean_line (export_line var value)"
  using set_quoted [of "value"] by (auto simp: clean_line_def export_line_def)

lemma export_line_nonempty [simp]: "export_line var value \<noteq> []"
  by (simp add: export_line_def)

text \<open>The lines that the upsert writes, before they are joined.\<close>

definition export_lines :: "string \<Rightarrow> string \<Rightarrow> string \<Rightarrow> string list" where
  "export_lines var value current = dropEmptyTrailingLines
     (filterExportLines (split_on (CHR 0x0A) (normalizeLines current)) var @ (if value \<noteq> [] then [export_line var value] else []))"

lemma clean_filter: "list_all clean_line ls \<Longrightarrow> list_all clean_line (filterExportLines ls var)"
  by (auto simp: filterExportLines_def list_all_iff)

lemma clean_drop: "list_all clean_line ls \<Longrightarrow> list_all clean_line (dropEmptyTrailingLines ls)"
  using dropEmptyTrailing_prefix [of ls] by (metis list_all_append)

lemma clean_export_lines:
  "CHR 0x0D \<notin> set current \<Longrightarrow> clean_line var \<Longrightarrow> clean_line value \<Longrightarrow> list_all clean_line (export_lines var value current)"
  unfolding export_lines_def
  by (intro clean_drop) (auto simp: clean_filter clean_split clean_export_line)

lemma export_content_lines:
  assumes "CHR 0x0D \<notin> set current" "clean_line var" "clean_line value"
  shows "export_content var value current =
    (if export_lines var value current = [] then [] else join NL (export_lines var value current) @ NL)"
proof -
  let ?ls = "export_lines var value current"
  have e: "export_content var value current = (let c = trim_right (join NL ?ls) NL in if c \<noteq> [] then c @ NL else c)"
    by (simp add: export_content_def export_lines_def Let_def)
  show ?thesis
  proof (cases "?ls = []")
    case True
    then show ?thesis by (simp add: e trim_right_def)
  next
    case False
    then have l: "last ?ls \<noteq> []" using dropEmptyTrailing_last unfolding export_lines_def by blast
    have "join NL ?ls \<noteq> []" using join_last [OF False l, of NL] by auto
    then show ?thesis
      using False normalize_join(3) [OF clean_export_lines [OF assms] False l] by (simp add: e)
  qed
qed

lemma export_filtered: "filterExportLines (filterExportLines ls var) var = filterExportLines ls var"
  by (simp add: filterExportLines_alt)

lemma export_lines_again:
  assumes "CHR 0x0D \<notin> set current" "clean_line var" "clean_line value"
  shows "export_lines var value (export_content var value current) = export_lines var value current"
proof -
  let ?ls = "export_lines var value current"
  let ?f = "filterExportLines (split_on (CHR 0x0A) (normalizeLines current)) var"
  show ?thesis
  proof (cases "?ls = []")
    case True
    then have v: "value = []" by (auto simp: export_lines_def dropEmptyTrailing_snoc split: if_splits)
    have "export_lines var [] [] = []" by (simp add: export_lines_def normalizeLines_def replace_all_def trim_right_def
      filterExportLines_def dropEmptyTrailingLines_def)
    moreover have "export_content var value current = []" using True export_content_lines [OF assms] by simp
    ultimately show ?thesis using True v by simp
  next
    case False
    then have l: "last ?ls \<noteq> []" using dropEmptyTrailing_last unfolding export_lines_def by blast
    note c = clean_export_lines [OF assms]
    have split: "split_on (CHR 0x0A) (normalizeLines (export_content var value current)) = ?ls"
      using False normalize_join(2) [OF c False l] split_normalized [OF c False] by (simp add: export_content_lines [OF assms])
    show ?thesis
    proof (cases "value = []")
      case True
      obtain n where "?f = ?ls @ replicate n []" using dropEmptyTrailing_prefix [of ?f] True by (auto simp: export_lines_def)
      then have "set ?ls \<subseteq> set ?f" by (metis Un_upper1 set_append)
      then have "filterExportLines ?ls var = ?ls" by (auto simp: filterExportLines_alt filter_id_conv)
      then have "export_lines var value (export_content var value current) = dropEmptyTrailingLines ?ls"
        unfolding export_lines_def [of var "value" "export_content var value current"] split using True by simp
      then show ?thesis using True by (simp add: export_lines_def dropEmptyTrailing_idem)
    next
      case vne: False
      then have ls: "?ls = ?f @ [export_line var value]" by (simp add: export_lines_def dropEmptyTrailing_snoc)
      then have "filterExportLines ?ls var = ?f"
        using export_line_exports [of var "value"] by (simp add: filterExportLines_alt)
      then show ?thesis
        unfolding export_lines_def [of var "value" "export_content var value current"] split
        using vne ls by (simp add: dropEmptyTrailing_snoc)
    qed
  qed
qed

lemma UpsertExport_run:
  assumes "UpsertExport True path var value mode w = (Inr c, w')" "content w path = Some cur"
  shows "(if normalizeEmpty cur = export_content var value cur then c = None \<and> content w' path = Some cur
          else c \<noteq> None \<and> content w' path = Some (export_content var value cur))"
proof (cases rule: read_file_cases [of path w])
  case (ok d)
  with assms(2) have d: "d = cur" by simp
  show ?thesis
  proof (cases "normalizeEmpty cur = export_content var value cur")
    case True
    with assms ok d show ?thesis by (auto simp: UpsertExport_def andthen_def attempt_def run_simps)
  next
    case False
    with assms(1) ok d have "\<exists>ch. applyFunc True ch (writeFileAtomic path (export_content var value cur) mode) (tock w) = (Inr c, w')"
      by (auto simp: UpsertExport_def andthen_def attempt_def run_simps Let_def split: if_splits)
    then obtain ch where "applyFunc True ch (writeFileAtomic path (export_content var value cur) mode) (tock w) = (Inr c, w')" by blast
    from atomic_apply [OF this] False show ?thesis by (auto dest: regular_content)
  qed
next
  case missing
  with assms(2) show ?thesis by (simp add: content_def)
next
  case failed
  with assms(1) show ?thesis by (simp add: UpsertExport_def andthen_def attempt_def run_simps)
qed

lemma normalize_export:
  assumes "CHR 0x0D \<notin> set current" "clean_line var" "clean_line value"
  shows "normalizeEmpty (export_content var value current) = export_content var value current"
proof (cases "export_lines var value current = []")
  case False
  then have l: "last (export_lines var value current) \<noteq> []" using dropEmptyTrailing_last unfolding export_lines_def by blast
  show ?thesis
    using False normalize_join(2) [OF clean_export_lines [OF assms] False l] by (simp add: export_content_lines [OF assms] normalizeEmpty_def)
qed (simp add: export_content_lines [OF assms] normalizeEmpty_def)

text \<open>C23: Setting an export in a shared file (clean content, names and values): afterwards the
  lines are exactly the old ones that do not export the variable, in their order, followed by
  the one new export line; and setting it again reports no change.\<close>

theorem UpsertExport_sets:
  assumes "UpsertExport True path var value mode w = (Inr c, w')" "content w path = Some cur"
    and "CHR 0x0D \<notin> set cur" "clean_line var" "clean_line value" "value \<noteq> []"
  shows "\<exists>d. content w' path = Some d \<and>
      split_on (CHR 0x0A) (normalizeLines d) = filter (\<lambda>l. \<not> exports_var var l) (split_on (CHR 0x0A) (normalizeLines cur)) @ [export_line var value]
    \<and> (no_faults w' \<longrightarrow> (\<exists>w''. UpsertExport True path var value mode w' = (Inr None, w'')))"
proof -
  let ?d = "export_content var value cur"
  note cl = assms(3-5)
  have ls: "export_lines var value cur = filter (\<lambda>l. \<not> exports_var var l) (split_on (CHR 0x0A) (normalizeLines cur)) @ [export_line var value]"
    using assms(6) by (simp add: export_lines_def dropEmptyTrailing_snoc filterExportLines_alt)
  then have ne: "export_lines var value cur \<noteq> []" "last (export_lines var value cur) \<noteq> []" by simp_all
  have n: "normalizeLines ?d = join NL (export_lines var value cur)"
    using normalize_join(2) [OF clean_export_lines [OF cl] ne] ne by (simp add: export_content_lines [OF cl])
  have again: "normalizeEmpty ?d = export_content var value ?d"
  proof -
    have "CHR 0x0D \<notin> set ?d"
      using clean_export_lines [OF cl] ne set_join [of NL "export_lines var value cur"]
      by (auto simp: export_content_lines [OF cl] list_all_iff clean_line_def)
    then have "export_content var value ?d = (if export_lines var value ?d = [] then [] else join NL (export_lines var value ?d) @ NL)"
      by (rule export_content_lines [OF _ cl(2,3)])
    also have "\<dots> = ?d" unfolding export_lines_again [OF cl] by (rule export_content_lines [OF cl, symmetric])
    finally show ?thesis using normalize_export [OF cl] by simp
  qed
  have same: "normalizeEmpty v = normalizeLines v @ NL" if "v \<noteq> []" for v using that by (simp add: normalizeEmpty_def)
  obtain d where d: "content w' path = Some d" "normalizeLines d = join NL (export_lines var value cur)"
    and stable: "normalizeEmpty d = export_content var value d"
  proof (cases "normalizeEmpty cur = ?d")
    case True
    moreover have "cur \<noteq> []" using True ne by (auto simp: normalizeEmpty_def export_content_lines [OF cl])
    ultimately have "normalizeLines cur = join NL (export_lines var value cur)"
      using same ne by (simp add: export_content_lines [OF cl])
    with True that [of cur] UpsertExport_run [OF assms(1,2)] show ?thesis by simp
  next
    case False
    with that [of ?d] UpsertExport_run [OF assms(1,2)] n again show ?thesis by simp
  qed
  have "\<exists>w''. UpsertExport True path var value mode w' = (Inr None, w'')" if "no_faults w'"
  proof -
    have "read_file path w' = (Inr d, tock w')" using that d by (simp add: read_file_ok)
    then show ?thesis using stable by (simp add: UpsertExport_def andthen_def attempt_def run_simps)
  qed
  then show ?thesis using d split_normalized [OF clean_export_lines [OF cl] ne(1)] ls by auto
qed

theorem UpsertExport_sets_witness:
  "\<exists>d. content (snd (UpsertExport True ''/etc/a'' ''P'' ''x'' 420 (demo_os\<lparr>fault := \<lambda>_. Fine\<rparr>))) ''/etc/a'' = Some d \<and>
    split_on (CHR 0x0A) (normalizeLines d) = [''old'', export_line ''P'' ''x'']"
proof -
  let ?w = "demo_os\<lparr>fault := \<lambda>_. Fine\<rparr>"
  obtain r w' where run: "UpsertExport True ''/etc/a'' ''P'' ''x'' 420 ?w = (r, w')" by (cases "UpsertExport True ''/etc/a'' ''P'' ''x'' 420 ?w")
  have "\<not> (case fst (UpsertExport True ''/etc/a'' ''P'' ''x'' 420 ?w) of Inl _ \<Rightarrow> True | Inr _ \<Rightarrow> False)" by code_simp
  then obtain c where r: "r = Inr c" using run by (cases r) auto
  have "content ?w ''/etc/a'' = Some ''old''" "CHR 0x0D \<notin> set ''old''" "clean_line ''P''" "clean_line ''x''" "''x'' \<noteq> []"
    by code_simp+
  from UpsertExport_sets [OF run [unfolded r] this] obtain d where d: "content w' ''/etc/a'' = Some d"
    "split_on (CHR 0x0A) (normalizeLines d) = filter (\<lambda>l. \<not> exports_var ''P'' l) (split_on (CHR 0x0A) (normalizeLines ''old'')) @ [export_line ''P'' ''x'']"
    by blast
  moreover have "filter (\<lambda>l. \<not> exports_var ''P'' l) (split_on (CHR 0x0A) (normalizeLines ''old'')) = [''old'']" by code_simp
  ultimately show ?thesis using run by auto
qed

end
