(* ===== verification/HostRes.thy ===== *)
theory HostRes
  imports HostOps
begin

text \<open>
  internal/hostresource: the declarative resources. A spec is applied through the executor;
  Observe reads the host and Diff lists why it differs from the spec. The locale
  \<open>provider_resource\<close> states the contract of the interface ProviderReadyResource and the
  consequences a caller relies on; files, modes and directories are interpretations of it.
  Lines are not, which is shown at the end. Register only reports to the Pulumi engine and is
  left out, and \<open>sha\<close> is the hexadecimal SHA-256 of the standard library. A file mode is its
  permission bits.
\<close>

section \<open>Results\<close>

record apply_result =
  ar_changes :: "change list"
  ar_changed :: bool

definition no_change :: apply_result where
  "no_change = \<lparr>ar_changes = [], ar_changed = False\<rparr>"

definition one_change :: "change \<Rightarrow> apply_result" where
  "one_change c = \<lparr>ar_changes = [c], ar_changed = True\<rparr>"

definition singleChange :: "change option \<Rightarrow> apply_result" where
  "singleChange c = (case c of None \<Rightarrow> no_change | Some ch \<Rightarrow> one_change ch)"

record drift_result =
  dr_changed :: bool
  dr_reasons :: "string list"

definition newDriftResult :: "string list \<Rightarrow> drift_result" where
  "newDriftResult rs = \<lparr>dr_changed = (rs \<noteq> []), dr_reasons = rs\<rparr>"

definition reason :: "bool \<Rightarrow> string \<Rightarrow> string list" where
  "reason b msg = (if b then [msg] else [])"

section \<open>Files\<close>

record FileSpec =
  f_path :: string
  f_content :: string
  f_mode :: nat
  f_absent :: bool

record FileState =
  fst_exists :: bool
  fst_regular :: bool
  fst_mode :: string
  fst_sha :: string

definition FileSpec_Apply :: "bool \<Rightarrow> FileSpec \<Rightarrow> ('z os_scheme, apply_result) io" where
  "FileSpec_Apply ap spec = andthen
     (if f_absent spec then EnsureAbsent ap (f_path spec) else EnsureFile ap (f_path spec) (f_content spec) (f_mode spec))
     (\<lambda>c. ret (singleChange c))"

definition FileSpec_Observe :: "(string \<Rightarrow> string) \<Rightarrow> FileSpec \<Rightarrow> ('z os_scheme, FileState) io" where
  "FileSpec_Observe sha spec = attempt (stat (f_path spec)) (\<lambda>r. case r of
       Inl e \<Rightarrow> if is_not_exist e then ret \<lparr>fst_exists = False, fst_regular = False, fst_mode = [], fst_sha = []\<rparr> else throw e
     | Inr (FileN c m u g) \<Rightarrow> andthen (read_file (f_path spec)) (\<lambda>d.
         ret \<lparr>fst_exists = True, fst_regular = True, fst_mode = octal4 m, fst_sha = sha d\<rparr>)
     | Inr (DirN m u g) \<Rightarrow> ret \<lparr>fst_exists = True, fst_regular = False, fst_mode = octal4 m, fst_sha = []\<rparr>)"

definition FileSpec_Diff :: "(string \<Rightarrow> string) \<Rightarrow> FileSpec \<Rightarrow> FileState \<Rightarrow> drift_result" where
  "FileSpec_Diff sha spec st =
     (if f_absent spec then newDriftResult (reason (fst_exists st) ''file should be absent'')
      else if \<not> fst_exists st then newDriftResult [''file missing'']
      else newDriftResult (reason (\<not> fst_regular st) ''path is not a regular file''
        @ reason (fst_mode st \<noteq> octal4 (f_mode spec)) ''file mode differs''
        @ reason (fst_sha st \<noteq> sha (f_content spec)) ''file content differs''))"

section \<open>Modes\<close>

record ModeSpec =
  m_path :: string
  m_mode :: nat
  m_skip :: bool

record ModeState =
  mst_exists :: bool
  mst_mode :: string

definition ModeSpec_Apply :: "bool \<Rightarrow> ModeSpec \<Rightarrow> ('z os_scheme, apply_result) io" where
  "ModeSpec_Apply ap spec = attempt (stat (m_path spec)) (\<lambda>r. case r of
       Inl e \<Rightarrow> if is_not_exist e \<and> m_skip spec then ret no_change else throw e
     | Inr info \<Rightarrow> if nmode info = m_mode spec then ret no_change
         else andthen (if ap then chmod (m_path spec) (m_mode spec) else ret ()) (\<lambda>_.
           ret (one_change (mk_change ActionUpdate (m_path spec)
             (''set mode on '' @ m_path spec @ '' to '' @ octal4 (m_mode spec))))))"

definition ModeSpec_Observe :: "ModeSpec \<Rightarrow> ('z os_scheme, ModeState) io" where
  "ModeSpec_Observe spec = attempt (stat (m_path spec)) (\<lambda>r. case r of
       Inl e \<Rightarrow> if is_not_exist e then ret \<lparr>mst_exists = False, mst_mode = []\<rparr> else throw e
     | Inr info \<Rightarrow> ret \<lparr>mst_exists = True, mst_mode = octal4 (nmode info)\<rparr>)"

definition ModeSpec_Diff :: "ModeSpec \<Rightarrow> ModeState \<Rightarrow> drift_result" where
  "ModeSpec_Diff spec st =
     (if \<not> mst_exists st then newDriftResult (reason (\<not> m_skip spec) ''path missing for mode enforcement'')
      else newDriftResult (reason (mst_mode st \<noteq> octal4 (m_mode spec)) ''mode differs''))"

section \<open>Directories\<close>

record DirectorySpec =
  d_path :: string
  d_mode :: nat

record DirectoryState =
  dst_exists :: bool
  dst_dir :: bool
  dst_mode :: string

definition DirectorySpec_Apply :: "bool \<Rightarrow> DirectorySpec \<Rightarrow> ('z os_scheme, apply_result) io" where
  "DirectorySpec_Apply ap spec = andthen (EnsureDir ap (d_path spec) (d_mode spec)) (\<lambda>c. ret (singleChange c))"

definition DirectorySpec_Observe :: "DirectorySpec \<Rightarrow> ('z os_scheme, DirectoryState) io" where
  "DirectorySpec_Observe spec = attempt (stat (d_path spec)) (\<lambda>r. case r of
       Inl e \<Rightarrow> if is_not_exist e then ret \<lparr>dst_exists = False, dst_dir = False, dst_mode = []\<rparr> else throw e
     | Inr (FileN c m u g) \<Rightarrow> ret \<lparr>dst_exists = True, dst_dir = False, dst_mode = octal4 m\<rparr>
     | Inr (DirN m u g) \<Rightarrow> ret \<lparr>dst_exists = True, dst_dir = True, dst_mode = octal4 m\<rparr>)"

definition DirectorySpec_Diff :: "DirectorySpec \<Rightarrow> DirectoryState \<Rightarrow> drift_result" where
  "DirectorySpec_Diff spec st =
     (if \<not> dst_exists st then newDriftResult [''directory missing'']
      else newDriftResult (reason (\<not> dst_dir st) ''path is not a directory''
        @ reason (dst_mode st \<noteq> octal4 (d_mode spec)) ''directory mode differs''))"

section \<open>Lines, exports, copies\<close>

record LineSpec =
  l_path :: string
  l_line :: string
  l_mode :: nat

record LineState =
  lst_exists :: bool
  lst_mode :: string
  lst_contains :: bool

definition LineSpec_Apply :: "bool \<Rightarrow> LineSpec \<Rightarrow> ('z os_scheme, apply_result) io" where
  "LineSpec_Apply ap spec = andthen (EnsureLine ap (l_path spec) (l_line spec) (l_mode spec)) (\<lambda>c. ret (singleChange c))"

definition LineSpec_Observe :: "LineSpec \<Rightarrow> ('z os_scheme, LineState) io" where
  "LineSpec_Observe spec = attempt (stat (l_path spec)) (\<lambda>r. case r of
       Inl e \<Rightarrow> if is_not_exist e then ret \<lparr>lst_exists = False, lst_mode = [], lst_contains = False\<rparr> else throw e
     | Inr info \<Rightarrow> andthen (read_file (l_path spec)) (\<lambda>d.
         ret \<lparr>lst_exists = True, lst_mode = octal4 (nmode info), lst_contains = contains d (l_line spec)\<rparr>))"

definition LineSpec_Diff :: "LineSpec \<Rightarrow> LineState \<Rightarrow> drift_result" where
  "LineSpec_Diff spec st =
     (if \<not> lst_exists st then newDriftResult [''line file missing'']
      else newDriftResult (reason (lst_mode st \<noteq> octal4 (l_mode spec)) ''line file mode differs''
        @ reason (\<not> lst_contains st) ''line missing''))"

record ExportSpec =
  e_path :: string
  e_var :: string
  e_value :: string
  e_mode :: nat

definition ExportSpec_Apply :: "bool \<Rightarrow> ExportSpec \<Rightarrow> ('z os_scheme, apply_result) io" where
  "ExportSpec_Apply ap spec = andthen (UpsertExport ap (e_path spec) (e_var spec) (e_value spec) (e_mode spec))
     (\<lambda>c. ret (singleChange c))"

record CopySpec =
  c_source :: string
  c_path :: string
  c_mode :: nat

definition CopySpec_Apply :: "bool \<Rightarrow> CopySpec \<Rightarrow> ('z os_scheme, apply_result) io" where
  "CopySpec_Apply ap spec = (let
       planned = one_change (mk_change ActionCreate (c_path spec) (''copy '' @ c_source spec @ '' to '' @ c_path spec));
       replaced = one_change (mk_change ActionReplace (c_path spec) (''replace '' @ c_path spec @ '' from '' @ c_source spec))
     in if \<not> ap then
         attempt (read_file (c_source spec)) (\<lambda>s. case s of Inl _ \<Rightarrow> ret planned
         | Inr data \<Rightarrow> attempt (read_file (c_path spec)) (\<lambda>r. case r of
             Inl e \<Rightarrow> if is_not_exist e then ret planned else throw e
           | Inr current \<Rightarrow> attempt (stat (c_path spec)) (\<lambda>i. case i of
               Inr info \<Rightarrow> if current = data \<and> nmode info = c_mode spec then ret no_change else ret replaced
             | Inl _ \<Rightarrow> ret replaced)))
       else andthen (EnsureCopy ap (c_source spec) (c_path spec) (c_mode spec)) (\<lambda>c. ret (singleChange c)))"

section \<open>Kernel modules and sysctl\<close>

record ModuleLoadSpec =
  ml_path :: string
  ml_modules :: "string list"
  ml_mode :: nat

definition ModuleLoadSpec_Apply :: "bool \<Rightarrow> ModuleLoadSpec \<Rightarrow> ('z os_scheme, apply_result) io" where
  "ModuleLoadSpec_Apply ap spec =
     (if ml_modules spec = [] then ret no_change
      else andthen (wrapping (''modprobe '' @ join '' '' (ml_modules spec))
          (Run ap ''modprobe'' ((if length (ml_modules spec) > 1 then [''-a''] else []) @ ml_modules spec))) (\<lambda>_.
        andthen (EnsureFile ap (ml_path spec) (join NL (ml_modules spec) @ NL) (ml_mode spec)) (\<lambda>c.
        ret (singleChange c))))"

record SysctlSpec =
  sy_path :: string
  sy_content :: string
  sy_mode :: nat
  sy_reload :: "string list"

definition SysctlSpec_Apply :: "bool \<Rightarrow> SysctlSpec \<Rightarrow> ('z os_scheme, apply_result) io" where
  "SysctlSpec_Apply ap spec = andthen (EnsureFile ap (sy_path spec) (sy_content spec) (sy_mode spec)) (\<lambda>c.
     if c \<noteq> None then attempt (Run ap ''sysctl'' (if sy_reload spec = [] then [''--system''] else sy_reload spec))
        (\<lambda>_. ret (singleChange c))
     else ret (singleChange c))"

section \<open>systemd services\<close>

record SystemdServiceSpec =
  sv_unit :: string
  sv_skip :: bool
  sv_enabled :: "bool option"
  sv_active :: "bool option"
  sv_masked :: "bool option"
  sv_restart :: bool
  sv_reason :: string
  sv_reload :: bool

record SystemdServiceState =
  svs_exists :: bool
  svs_enabled :: bool
  svs_active :: bool
  svs_masked :: bool

text \<open>One conditional step: run systemctl with \<open>args\<close> and report the change when \<open>guard\<close> says so.\<close>

definition unit_step :: "bool \<Rightarrow> ('z os_scheme, bool) io \<Rightarrow> string \<Rightarrow> string list \<Rightarrow> change \<Rightarrow> ('z os_scheme, change list) io" where
  "unit_step ap guard msg args ch = andthen guard (\<lambda>b. if \<not> b then ret []
     else andthen (if msg = [] then Run ap ''systemctl'' args else wrapping msg (Run ap ''systemctl'' args)) (\<lambda>_. ret [ch]))"

definition negated :: "('w, bool) io \<Rightarrow> ('w, bool) io" where
  "negated m = andthen m (\<lambda>b. ret (\<not> b))"

definition SystemdServiceSpec_steps :: "bool \<Rightarrow> SystemdServiceSpec \<Rightarrow> ('z os_scheme, change list) io list" where
  "SystemdServiceSpec_steps ap spec = (let u = sv_unit spec; doing = (\<lambda>verb. verb @ '' '' @ u) in [
     unit_step ap (if sv_masked spec = Some False then SystemctlIsMasked u else ret False)
       (doing ''unmask'') [''unmask'', u] (mk_change ActionUpdate u (doing ''unmask'')),
     unit_step ap (ret (sv_reload spec)) [] [''daemon-reload'']
       (mk_change ActionReload ''systemd'' ''reload systemd manager configuration''),
     unit_step ap (if sv_active spec = Some False then SystemctlIsActive u else ret False)
       (doing ''stop'') [''stop'', u] (mk_change ActionOther u (doing ''stop'')),
     (case sv_enabled spec of None \<Rightarrow> ret []
      | Some want \<Rightarrow> (let act = (if want then ''enable'' else ''disable'') in
          unit_step ap (andthen (SystemctlIsEnabled u) (\<lambda>cur. ret (want \<noteq> cur)))
            (doing act) [act, u] (mk_change ActionUpdate u (doing act)))),
     unit_step ap (if sv_masked spec = Some True then negated (SystemctlIsMasked u) else ret False)
       (doing ''mask'') [''mask'', u] (mk_change ActionUpdate u (doing ''mask'')),
     unit_step ap (ret (sv_restart spec)) (doing ''restart'') [''restart'', u]
       (mk_change ActionRestart u (doing ''restart'' @ (if sv_reason spec \<noteq> [] then '' ('' @ sv_reason spec @ '')'' else []))),
     unit_step ap (if sv_active spec = Some True then negated (SystemctlIsActive u) else ret False)
       (doing ''start'') [''start'', u] (mk_change ActionCreate u (doing ''start''))])"

fun gather :: "('w, 'a list) io list \<Rightarrow> ('w, 'a list) io" where
  "gather [] = ret []"
| "gather (m # ms) = andthen m (\<lambda>xs. andthen (gather ms) (\<lambda>ys. ret (xs @ ys)))"

definition SystemdServiceSpec_Apply :: "bool \<Rightarrow> SystemdServiceSpec \<Rightarrow> ('z os_scheme, apply_result) io" where
  "SystemdServiceSpec_Apply ap spec = andthen (if sv_skip spec then SystemctlExists (sv_unit spec) else ret True) (\<lambda>present.
     if \<not> present then ret no_change
     else andthen (gather (SystemdServiceSpec_steps ap spec)) (\<lambda>cs. ret \<lparr>ar_changes = cs, ar_changed = (cs \<noteq> [])\<rparr>))"

definition SystemdServiceSpec_Observe :: "SystemdServiceSpec \<Rightarrow> ('z os_scheme, SystemdServiceState) io" where
  "SystemdServiceSpec_Observe spec = andthen (SystemctlExists (sv_unit spec)) (\<lambda>e.
     if \<not> e then ret \<lparr>svs_exists = False, svs_enabled = False, svs_active = False, svs_masked = False\<rparr>
     else andthen (SystemctlIsEnabled (sv_unit spec)) (\<lambda>en. andthen (SystemctlIsActive (sv_unit spec)) (\<lambda>ac.
       andthen (SystemctlIsMasked (sv_unit spec)) (\<lambda>ma.
       ret \<lparr>svs_exists = True, svs_enabled = en, svs_active = ac, svs_masked = ma\<rparr>))))"

definition differs :: "bool option \<Rightarrow> bool \<Rightarrow> bool" where
  "differs want have = (case want of None \<Rightarrow> False | Some b \<Rightarrow> have \<noteq> b)"

definition SystemdServiceSpec_Diff :: "SystemdServiceSpec \<Rightarrow> SystemdServiceState \<Rightarrow> drift_result" where
  "SystemdServiceSpec_Diff spec st =
     (if \<not> svs_exists st then newDriftResult (reason (\<not> sv_skip spec) ''systemd unit missing'')
      else newDriftResult (reason (differs (sv_enabled spec) (svs_enabled st)) ''enabled state differs''
        @ reason (differs (sv_active spec) (svs_active st)) ''active state differs''
        @ reason (differs (sv_masked spec) (svs_masked st)) ''masked state differs''))"

section \<open>Downloads and archives\<close>

record DownloadSpec =
  dn_url :: string
  dn_path :: string
  dn_mode :: nat
  dn_retries :: int

definition DownloadSpec_ApplyWithResult ::
  "bool \<Rightarrow> (string \<Rightarrow> string) \<Rightarrow> (nat \<Rightarrow> string \<Rightarrow> (nat \<times> string \<times> bool) option) \<Rightarrow> (nat \<Rightarrow> bool)
    \<Rightarrow> DownloadSpec \<Rightarrow> ('z os_scheme, download_result) io" where
  "DownloadSpec_ApplyWithResult ap sha http cancelled spec =
     (if dn_url spec = [] then ret \<lparr>dl_checksum = [], dl_changed = False, dl_change = None\<rparr>
      else if \<not> ap then attempt (stat (dn_path spec)) (\<lambda>r. case r of
          Inr _ \<Rightarrow> ret \<lparr>dl_checksum = [], dl_changed = True, dl_change =
             Some (mk_change ActionReplace (dn_path spec) (''replace file '' @ dn_path spec @ '' from '' @ dn_url spec))\<rparr>
        | Inl e \<Rightarrow> if is_not_exist e then ret \<lparr>dl_checksum = [], dl_changed = True, dl_change =
             Some (mk_change ActionCreate (dn_path spec) (''download file '' @ dn_path spec @ '' from '' @ dn_url spec))\<rparr>
          else throw e)
      else DownloadFileWithRetry ap sha http cancelled (dn_url spec) (dn_path spec) (dn_mode spec)
             (if dn_retries spec < 1 then 1 else dn_retries spec))"

definition DownloadSpec_ApplyContext ::
  "bool \<Rightarrow> (string \<Rightarrow> string) \<Rightarrow> (nat \<Rightarrow> string \<Rightarrow> (nat \<times> string \<times> bool) option) \<Rightarrow> (nat \<Rightarrow> bool)
    \<Rightarrow> DownloadSpec \<Rightarrow> ('z os_scheme, apply_result) io" where
  "DownloadSpec_ApplyContext ap sha http cancelled spec =
     andthen (DownloadSpec_ApplyWithResult ap sha http cancelled spec) (\<lambda>r. ret (case dl_change r of
         None \<Rightarrow> \<lparr>ar_changes = [], ar_changed = dl_changed r\<rparr>
       | Some c \<Rightarrow> \<lparr>ar_changes = [c], ar_changed = dl_changed r\<rparr>))"

record ExtractTarSpec =
  x_archive :: string
  x_dest :: string
  x_checks :: "string list"
  x_chmod :: bool
  x_stamp :: string

fun all_exist :: "string list \<Rightarrow> ('z os_scheme, bool) io" where
  "all_exist [] = ret True"
| "all_exist (p # ps) = attempt (stat p) (\<lambda>r. case r of Inl _ \<Rightarrow> ret False | Inr _ \<Rightarrow> all_exist ps)"

definition isSatisfied :: "ExtractTarSpec \<Rightarrow> ('z os_scheme, bool) io" where
  "isSatisfied spec = (if x_checks spec = [] then ret False
     else andthen (all_exist (x_checks spec)) (\<lambda>b. if \<not> b then ret False
       else if x_stamp spec = [] then ret True
       else attempt (read_file (x_stamp spec)) (\<lambda>r. ret (case r of Inl _ \<Rightarrow> False
          | Inr d \<Rightarrow> trim_space d = x_archive spec))))"

definition ExtractTarSpec_Apply :: "bool \<Rightarrow> ExtractTarSpec \<Rightarrow> ('z os_scheme, apply_result) io" where
  "ExtractTarSpec_Apply ap spec = andthen (isSatisfied spec) (\<lambda>b. if b then ret no_change
     else andthen (wrapping (''extract tar '' @ x_archive spec)
           (Run ap ''tar'' [''-C'', x_dest spec, ''-xzf'', x_archive spec])) (\<lambda>_.
       andthen (if x_chmod spec then wrapping (''chmod extracted files in '' @ x_dest spec)
            (Run ap ''chmod'' [''+x'', x_dest spec @ ''/.'']) else ret ()) (\<lambda>_.
       andthen (if x_stamp spec \<noteq> [] then andthen (wrapping (''write extract stamp '' @ x_stamp spec)
            (EnsureFile ap (x_stamp spec) (x_archive spec @ NL) o644)) (\<lambda>_. ret ()) else ret ()) (\<lambda>_.
       ret (one_change (mk_change ActionUpdate (x_dest spec) (''extract '' @ x_archive spec @ '' into '' @ x_dest spec)))))))"

section \<open>Ownership\<close>

record OwnershipSpec =
  o_path :: string
  o_owner :: string
  o_group :: string
  o_recursive :: bool
  o_skip :: bool

record OwnershipState =
  ost_exists :: bool
  ost_owner :: string
  ost_group :: string
  ost_match :: bool

definition ownershipMismatch :: "node \<Rightarrow> int \<Rightarrow> int \<Rightarrow> bool" where
  "ownershipMismatch info uid gid \<longleftrightarrow> int (nuid info) \<noteq> uid \<or> int (ngid info) \<noteq> gid"

text \<open>filepath.Walk over the tree, which stops at the first mismatch: its answer is whether
  there is one.\<close>

definition in_tree :: "string \<Rightarrow> string \<Rightarrow> bool" where
  "in_tree root q \<longleftrightarrow> q = root \<or> has_prefix q (root @ ''/'')"

definition walk_mismatch :: "string \<Rightarrow> int \<Rightarrow> int \<Rightarrow> ('z os_scheme, bool) io" where
  "walk_mismatch root uid gid w = (if now_fault w \<noteq> Fine then (Inl IOErr, tock w)
     else (Inr (\<exists>(q, n) \<in> set (files w). in_tree root q \<and> fget w q = Some n \<and> ownershipMismatch n uid gid), tock w))"

definition needsApply :: "OwnershipSpec \<Rightarrow> int \<Rightarrow> int \<Rightarrow> ('z os_scheme, bool) io" where
  "needsApply spec uid gid = attempt (stat (o_path spec)) (\<lambda>r. case r of
       Inl e \<Rightarrow> if is_not_exist e \<and> o_skip spec then ret False else throw e
     | Inr _ \<Rightarrow> if o_recursive spec then walk_mismatch (o_path spec) uid gid
         else andthen (stat (o_path spec)) (\<lambda>info. ret (ownershipMismatch info uid gid)))"

text \<open>strconv.Atoi on a numeric field of a passwd or group entry.\<close>

definition id_field :: "string list \<Rightarrow> nat \<Rightarrow> string \<Rightarrow> ('w, int) io" where
  "id_field fs least msg = (if length fs < least then throw (Err msg)
     else case atoi (fs ! 2) of None \<Rightarrow> throw (Err ''invalid syntax'') | Some v \<Rightarrow> ret v)"

definition resolveIDs :: "string \<Rightarrow> string \<Rightarrow> ('z os_scheme, int \<times> int) io" where
  "resolveIDs owner grp =
     andthen (RunCapture ''getent'' [''passwd'', owner]) (\<lambda>pl.
     andthen (id_field (split_on (CHR '':'') (trim_space pl)) 4 (''unexpected passwd entry for '' @ owner)) (\<lambda>uid.
     andthen (RunCapture ''getent'' [''group'', grp]) (\<lambda>gl.
     andthen (id_field (split_on (CHR '':'') (trim_space gl)) 3 (''unexpected group entry for '' @ grp)) (\<lambda>gid.
     ret (uid, gid)))))"

definition OwnershipSpec_Apply :: "bool \<Rightarrow> OwnershipSpec \<Rightarrow> ('z os_scheme, apply_result) io" where
  "OwnershipSpec_Apply ap spec = (let planned = one_change (mk_change ActionUpdate (o_path spec)
       (''set ownership on '' @ o_path spec @ '' to '' @ o_owner spec @ '':'' @ o_group spec))
     in attempt (resolveIDs (o_owner spec) (o_group spec)) (\<lambda>r. case r of
       Inl e \<Rightarrow> if \<not> ap then ret planned else throw e
     | Inr (uid, gid) \<Rightarrow> andthen (needsApply spec uid gid) (\<lambda>needs. if \<not> needs then ret no_change
         else andthen (if ap then Run ap ''chown'' ((if o_recursive spec then [''-R''] else [])
              @ [o_owner spec @ '':'' @ o_group spec, o_path spec]) else ret ()) (\<lambda>_. ret planned))))"

definition lookupOwnerGroup :: "string \<Rightarrow> node \<Rightarrow> ('z os_scheme, string \<times> string) io" where
  "lookupOwnerGroup path info = attempt (RunCapture ''stat'' [''-c'', ''%U:%G'', path]) (\<lambda>r. ret (case r of
       Inl _ \<Rightarrow> (nat_str (nuid info), nat_str (ngid info))
     | Inr out \<Rightarrow> (case cut_at (CHR '':'') (trim_space out) of Some ab \<Rightarrow> ab
         | None \<Rightarrow> (nat_str (nuid info), nat_str (ngid info)))))"

definition OwnershipSpec_Observe :: "OwnershipSpec \<Rightarrow> ('z os_scheme, OwnershipState) io" where
  "OwnershipSpec_Observe spec = attempt (stat (o_path spec)) (\<lambda>r. case r of
       Inl e \<Rightarrow> if is_not_exist e then ret \<lparr>ost_exists = False, ost_owner = [], ost_group = [], ost_match = False\<rparr> else throw e
     | Inr info \<Rightarrow> andthen (lookupOwnerGroup (o_path spec) info) (\<lambda>(ow, gr).
         let st = (\<lambda>b. \<lparr>ost_exists = True, ost_owner = ow, ost_group = gr, ost_match = b\<rparr>) in
         if o_recursive spec then attempt (resolveIDs (o_owner spec) (o_group spec)) (\<lambda>r. case r of
             Inl _ \<Rightarrow> ret (st False)
           | Inr (uid, gid) \<Rightarrow> andthen (needsApply spec uid gid) (\<lambda>needs. ret (st (\<not> needs))))
         else ret (st True)))"

definition OwnershipSpec_Diff :: "OwnershipSpec \<Rightarrow> OwnershipState \<Rightarrow> drift_result" where
  "OwnershipSpec_Diff spec st =
     (if \<not> ost_exists st then newDriftResult (reason (\<not> o_skip spec) ''path missing for ownership enforcement'')
      else newDriftResult (reason (ost_owner st \<noteq> o_owner spec) ''owner differs''
        @ reason (ost_group st \<noteq> o_group spec) ''group differs''
        @ reason (o_recursive spec \<and> \<not> ost_match st) ''recursive ownership differs''))"

section \<open>The contract of a provider resource\<close>

locale provider_resource =
  fixes perform :: "bool \<Rightarrow> 'spec \<Rightarrow> ('w, apply_result) io"
    and observe :: "'spec \<Rightarrow> ('w, 'st) io"
    and diff :: "'spec \<Rightarrow> 'st \<Rightarrow> drift_result"
    and calm :: "'w \<Rightarrow> bool"
    and okay :: "'spec \<Rightarrow> bool"
  assumes settles: "okay s \<Longrightarrow> perform True s w = (Inr r, w') \<Longrightarrow> calm w' \<Longrightarrow> \<exists>w''. perform ap s w' = (Inr no_change, w'')"
    and reports: "okay s \<Longrightarrow> calm w \<Longrightarrow> observe s w = (Inr st, w1) \<Longrightarrow> dr_changed (diff s st) \<Longrightarrow>
      perform ap s w = (Inr r, w2) \<Longrightarrow> ar_changed r"
    and observable: "calm w \<Longrightarrow> \<exists>st w1. observe s w = (Inr st, w1)"
begin

text \<open>A successful apply leaves no drift, and the preview after it has nothing to do.\<close>

lemma no_drift_after_apply:
  assumes "okay s" "perform True s w = (Inr r, w')" "calm w'"
  shows "\<exists>st w1. observe s w' = (Inr st, w1) \<and> \<not> dr_changed (diff s st)"
proof -
  obtain w'' where a: "perform False s w' = (Inr no_change, w'')" using settles [OF assms] by blast
  obtain st w1 where o: "observe s w' = (Inr st, w1)" using observable [OF assms(3)] by blast
  have "\<not> dr_changed (diff s st)" using reports [OF assms(1,3) o _ a] by (auto simp: no_change_def)
  with o show ?thesis by blast
qed

text \<open>Drift is never overlooked: when Observe finds drift, an apply reports the change or an error.\<close>

lemma drift_is_work:
  assumes "okay s" "calm w" "observe s w = (Inr st, w1)" "dr_changed (diff s st)"
  shows "\<not> (\<exists>w2. perform ap s w = (Inr no_change, w2))"
proof
  assume "\<exists>w2. perform ap s w = (Inr no_change, w2)"
  then obtain w2 where "perform ap s w = (Inr no_change, w2)" by blast
  from reports [OF assms this] show False by (simp add: no_change_def)
qed

end

subsection \<open>Files\<close>

lemma EnsureAbsent_gone: "EnsureAbsent True p w = (Inr c, w') \<Longrightarrow> fget w' p = None"
proof -
  assume a: "EnsureAbsent True p w = (Inr c, w')"
  obtain r w1 where s: "stat p w = (r, w1)" by (cases "stat p w")
  have w1: "w1 = tock w" using stat_world [of p w] s by simp
  show ?thesis
  proof (cases r)
    case (Inl e)
    with a s have "is_not_exist e" "w' = w1" by (auto simp: EnsureAbsent_def attempt_def run_simps split: if_splits)
    moreover have "fget w p = None"
      using s Inl calculation(1) by (auto simp: stat_def split: fault.splits option.splits)
    ultimately show ?thesis by (simp add: w1 fs_simps)
  next
    case (Inr n)
    with a s have "applyFunc True (mk_change ActionDelete p (''remove '' @ p)) (remove p) w1 = (Inr c, w')"
      by (simp add: EnsureAbsent_def attempt_def)
    then have "remove p w1 = (Inr (), w')"
      by (cases "remove p w1"; cases "fst (remove p w1)") (auto simp: applyFunc_def andthen_def run_simps)
    then show ?thesis by (auto simp: remove_def fs_simps split: if_splits option.splits node.splits)
  qed
qed

lemma EnsureAbsent_gone_noop: "no_faults w \<Longrightarrow> fget w p = None \<Longrightarrow> EnsureAbsent ap p w = (Inr None, tock w)"
  by (simp add: EnsureAbsent_def attempt_def stat_def run_simps)

lemma applyFunc_reports: "applyFunc ap ch m w = (Inr c, w') \<Longrightarrow> c = Some ch"
  by (cases "m w"; cases "fst (m w)") (auto simp: applyFunc_def andthen_def run_simps split: if_splits)

lemma EnsureAbsent_None: "EnsureAbsent ap p w = (Inr None, w') \<Longrightarrow> fget w p = None"
  by (auto simp: EnsureAbsent_def attempt_def stat_def run_simps dest!: applyFunc_reports
      split: fault.splits option.splits if_splits)

lemma EnsureFile_None:
  assumes "EnsureFile ap p d m w = (Inr None, w')"
  shows "\<exists>u g. fget w p = Some (FileN d m u g)"
proof (cases rule: read_file_cases [of p w])
  case (ok cur)
  from content_fget [OF ok(2)] obtain m0 u g where f: "fget w p = Some (FileN cur m0 u g)" by blast
  from assms ok(1) f have "cur = d \<and> m0 = m"
    by (auto simp: EnsureFile_def attempt_def andthen_def stat_def fs_simps run_simps dest: applyFunc_reports
        split: fault.splits if_splits)
  with f show ?thesis by blast
next
  case missing
  with assms show ?thesis by (auto simp: EnsureFile_def attempt_def dest: applyFunc_reports)
next
  case failed
  with assms show ?thesis by (auto simp: EnsureFile_def attempt_def run_simps)
qed

lemma singleChange_simps [simp]:
  "singleChange None = no_change" "singleChange (Some c) = one_change c"
  "ar_changed no_change = False" "ar_changed (one_change c) = True"
  by (simp_all add: singleChange_def no_change_def one_change_def)

lemma singleChange_changed: "\<not> ar_changed (singleChange c) \<longleftrightarrow> c = None"
  by (cases c) simp_all

lemma andthen_single_iff:
  "andthen m (\<lambda>c. ret (singleChange c)) w = (Inr r, w') \<longleftrightarrow> (\<exists>c. m w = (Inr c, w') \<and> r = singleChange c)"
  by (auto simp: andthen_ok_iff run_simps)

definition FileSpec_done :: "FileSpec \<Rightarrow> 'z os_scheme \<Rightarrow> bool" where
  "FileSpec_done s w \<longleftrightarrow> (if f_absent s then fget w (f_path s) = None
     else (\<exists>u g. fget w (f_path s) = Some (FileN (f_content s) (f_mode s) u g)))"

lemma FileSpec_settled: "no_faults w \<Longrightarrow> FileSpec_done s w \<Longrightarrow> \<exists>w''. FileSpec_Apply ap s w = (Inr no_change, w'')"
proof -
  assume n: "no_faults w" and d: "FileSpec_done s w"
  show ?thesis
  proof (cases "f_absent s")
    case True
    with d EnsureAbsent_gone_noop [OF n] show ?thesis
      by (simp add: FileSpec_Apply_def FileSpec_done_def andthen_def run_simps)
  next
    case False
    with d obtain u g where "regular w (f_path s) = Some (FileN (f_content s) (f_mode s) u g)"
      by (auto simp: FileSpec_done_def regular_def)
    from EnsureFile_noop [OF n this] False show ?thesis by (simp add: FileSpec_Apply_def andthen_def run_simps)
  qed
qed

lemma FileSpec_applied: "FileSpec_Apply True s w = (Inr r, w') \<Longrightarrow> FileSpec_done s w'"
proof -
  assume a: "FileSpec_Apply True s w = (Inr r, w')"
  show ?thesis
  proof (cases "f_absent s")
    case True
    with a EnsureAbsent_gone show ?thesis
      by (fastforce simp: FileSpec_Apply_def FileSpec_done_def andthen_single_iff)
  next
    case False
    with a obtain c where "EnsureFile True (f_path s) (f_content s) (f_mode s) w = (Inr c, w')"
      by (auto simp: FileSpec_Apply_def andthen_single_iff)
    from EnsureFile_run [OF this] obtain u g where "regular w' (f_path s) = Some (FileN (f_content s) (f_mode s) u g)" by auto
    then have "fget w' (f_path s) = Some (FileN (f_content s) (f_mode s) u g)"
      by (auto simp: regular_def split: option.splits node.splits)
    with False show ?thesis by (simp add: FileSpec_done_def)
  qed
qed

lemma FileSpec_observes:
  "no_faults w \<Longrightarrow> FileSpec_Observe sha s w = (Inr (case fget w (f_path s) of
       None \<Rightarrow> \<lparr>fst_exists = False, fst_regular = False, fst_mode = [], fst_sha = []\<rparr>
     | Some (FileN c m u g) \<Rightarrow> \<lparr>fst_exists = True, fst_regular = True, fst_mode = octal4 m, fst_sha = sha c\<rparr>
     | Some (DirN m u g) \<Rightarrow> \<lparr>fst_exists = True, fst_regular = False, fst_mode = octal4 m, fst_sha = []\<rparr>),
     (case fget w (f_path s) of Some (FileN c m u g) \<Rightarrow> tock (tock w) | _ \<Rightarrow> tock w))"
  by (simp add: FileSpec_Observe_def attempt_def andthen_def stat_def read_file_def run_simps fs_simps
      split: option.splits node.splits)

lemma FileSpec_unchanged: "FileSpec_Apply ap s w = (Inr r, w') \<Longrightarrow> \<not> ar_changed r \<Longrightarrow> FileSpec_done s w"
  by (auto simp: FileSpec_Apply_def andthen_single_iff FileSpec_done_def singleChange_changed
      dest: EnsureAbsent_None EnsureFile_None split: if_splits)

lemma FileSpec_done_drift:
  "no_faults w \<Longrightarrow> FileSpec_done s w \<Longrightarrow> FileSpec_Observe sha s w = (Inr st, w1) \<Longrightarrow> \<not> dr_changed (FileSpec_Diff sha s st)"
  by (auto simp: FileSpec_observes FileSpec_done_def FileSpec_Diff_def newDriftResult_def reason_def split: if_splits)

interpretation file_resource: provider_resource FileSpec_Apply "FileSpec_Observe sha" "FileSpec_Diff sha" no_faults "\<lambda>_. True" for sha
proof
  show "\<exists>w''. FileSpec_Apply ap s w' = (Inr no_change, w'')" if "FileSpec_Apply True s w = (Inr r, w')" "no_faults w'"
    for s r ap and w w' :: "'a os_scheme"
    using FileSpec_settled FileSpec_applied that by blast
  show "ar_changed r" if "no_faults w" "FileSpec_Observe sha s w = (Inr st, w1)" "dr_changed (FileSpec_Diff sha s st)"
      "FileSpec_Apply ap s w = (Inr r, w2)" for s st ap r and w w1 w2 :: "'a os_scheme"
    using FileSpec_unchanged FileSpec_done_drift that by blast
  show "\<exists>st w1. FileSpec_Observe sha s w = (Inr st, w1)" if "no_faults w" for s and w :: "'a os_scheme"
    using FileSpec_observes [OF that] by blast
qed

subsection \<open>Modes\<close>

definition ModeSpec_done :: "ModeSpec \<Rightarrow> 'z os_scheme \<Rightarrow> bool" where
  "ModeSpec_done s w \<longleftrightarrow> (case fget w (m_path s) of None \<Rightarrow> m_skip s | Some n \<Rightarrow> nmode n = m_mode s)"

lemma ModeSpec_settled: "no_faults w \<Longrightarrow> ModeSpec_done s w \<Longrightarrow> ModeSpec_Apply ap s w = (Inr no_change, tock w)"
  by (simp add: ModeSpec_Apply_def ModeSpec_done_def attempt_def stat_def run_simps split: option.splits)

lemma ModeSpec_applied: "ModeSpec_Apply True s w = (Inr r, w') \<Longrightarrow> ModeSpec_done s w'"
  by (auto simp: ModeSpec_Apply_def ModeSpec_done_def attempt_def andthen_def stat_def chmod_def run_simps fs_simps
      split: option.splits fault.splits if_splits node.splits prod.splits sum.splits)

lemma ModeSpec_unchanged: "ModeSpec_Apply ap s w = (Inr r, w') \<Longrightarrow> \<not> ar_changed r \<Longrightarrow> ModeSpec_done s w"
  by (auto simp: ModeSpec_Apply_def ModeSpec_done_def attempt_def stat_def run_simps andthen_ok_iff
      split: option.splits fault.splits if_splits)

lemma ModeSpec_observes:
  "no_faults w \<Longrightarrow> ModeSpec_Observe s w = (Inr (case fget w (m_path s) of
     None \<Rightarrow> \<lparr>mst_exists = False, mst_mode = []\<rparr> | Some n \<Rightarrow> \<lparr>mst_exists = True, mst_mode = octal4 (nmode n)\<rparr>), tock w)"
  by (simp add: ModeSpec_Observe_def attempt_def stat_def run_simps split: option.splits)

lemma ModeSpec_done_drift:
  "no_faults w \<Longrightarrow> ModeSpec_done s w \<Longrightarrow> ModeSpec_Observe s w = (Inr st, w1) \<Longrightarrow> \<not> dr_changed (ModeSpec_Diff s st)"
  by (auto simp: ModeSpec_observes ModeSpec_done_def ModeSpec_Diff_def newDriftResult_def reason_def split: option.splits)

interpretation mode_resource: provider_resource ModeSpec_Apply ModeSpec_Observe ModeSpec_Diff no_faults "\<lambda>_. True"
proof
  show "\<exists>w''. ModeSpec_Apply ap s w' = (Inr no_change, w'')" if "ModeSpec_Apply True s w = (Inr r, w')" "no_faults w'"
    for s r ap and w w' :: "'a os_scheme"
    using ModeSpec_settled ModeSpec_applied that by blast
  show "ar_changed r" if "no_faults w" "ModeSpec_Observe s w = (Inr st, w1)" "dr_changed (ModeSpec_Diff s st)"
      "ModeSpec_Apply ap s w = (Inr r, w2)" for s st ap r and w w1 w2 :: "'a os_scheme"
    using ModeSpec_unchanged ModeSpec_done_drift that by blast
  show "\<exists>st w1. ModeSpec_Observe s w = (Inr st, w1)" if "no_faults w" for s and w :: "'a os_scheme"
    using ModeSpec_observes [OF that] by blast
qed

subsection \<open>Directories\<close>

text \<open>The root and the empty path always count as present, so they are not specs to create.\<close>

definition proper_dir :: "DirectorySpec \<Rightarrow> bool" where
  "proper_dir s \<longleftrightarrow> d_path s \<notin> {'''', ''/'', ''.''}"

definition DirectorySpec_done :: "DirectorySpec \<Rightarrow> 'z os_scheme \<Rightarrow> bool" where
  "DirectorySpec_done s w \<longleftrightarrow> (\<exists>u g. fget w (d_path s) = Some (DirN (d_mode s) u g))"

lemma mkdir_fold_other:
  "p \<notin> set ds \<Longrightarrow> fget (fold (\<lambda>d v. if is_dir v d then v else fput d (DirN m 0 0) v) ds w) p = fget w p"
  by (induction ds arbitrary: w) (auto simp: fs_simps)

lemma ancestors_split: "ancestors p = filter (\<lambda>d. d \<noteq> p) (ancestors p) @ [p]"
proof -
  have "take i p \<noteq> p" if "i \<in> set [1..<length p]" for i using that by (auto simp: take_all_iff)
  then have "filter (\<lambda>i. p ! i = CHR ''/'' \<and> take i p \<noteq> p) [1..<length p] = filter (\<lambda>i. p ! i = CHR ''/'') [1..<length p]"
    by (intro filter_cong) auto
  then show ?thesis by (simp add: ancestors_def filter_map o_def)
qed

lemma mkdir_all_creates:
  assumes "mkdir_all p m w = (Inr (), w')" "fget w p = None" "p \<notin> {'''', ''/'', ''.''}"
  shows "fget w' p = Some (DirN m 0 0)"
proof -
  let ?step = "\<lambda>d v. if is_dir v d then v else fput d (DirN m 0 0) v"
  let ?ds = "filter (\<lambda>d. d \<noteq> p) (ancestors p)"
  have w': "w' = tock (fold ?step (ancestors p) w)" using assms(1) by (auto simp: mkdir_all_def split: if_splits)
  have "fold ?step (ancestors p) w = ?step p (fold ?step ?ds w)" by (subst ancestors_split) simp
  moreover have none: "fget (fold ?step ?ds w) p = None" using assms(2) by (simp add: mkdir_fold_other)
  moreover have "\<not> is_dir (fold ?step ?ds w) p" using none assms(3) by (simp add: is_dir_def)
  ultimately show ?thesis by (simp add: w' fs_simps)
qed

lemma DirectorySpec_applied:
  assumes "DirectorySpec_Apply True s w = (Inr r, w')" "proper_dir s"
  shows "DirectorySpec_done s w'"
proof -
  obtain c where e: "EnsureDir True (d_path s) (d_mode s) w = (Inr c, w')"
    using assms(1) by (auto simp: DirectorySpec_Apply_def andthen_single_iff)
  show ?thesis
  proof (cases "fget w (d_path s)")
    case None
    from e None have "applyFunc True (mk_change ActionCreate (d_path s) (''create directory '' @ d_path s)) (mkdir_all (d_path s) (d_mode s)) (tock w) = (Inr c, w')"
      by (auto simp: EnsureDir_def attempt_def stat_def run_simps split: fault.splits)
    then have "mkdir_all (d_path s) (d_mode s) (tock w) = (Inr (), w')"
      by (cases "mkdir_all (d_path s) (d_mode s) (tock w)"; cases "fst (mkdir_all (d_path s) (d_mode s) (tock w))")
         (auto simp: applyFunc_def andthen_def run_simps)
    from mkdir_all_creates [OF this] None assms(2) show ?thesis
      by (simp add: fs_simps DirectorySpec_done_def proper_dir_def)
  next
    case (Some n)
    with e show ?thesis
      by (cases n) (auto simp: EnsureDir_def attempt_def stat_def applyFunc_def andthen_def chmod_def run_simps fs_simps
        DirectorySpec_done_def split: fault.splits if_splits prod.splits sum.splits)
  qed
qed

lemma DirectorySpec_settled: "no_faults w \<Longrightarrow> DirectorySpec_done s w \<Longrightarrow> DirectorySpec_Apply ap s w = (Inr no_change, tock w)"
  by (auto simp: DirectorySpec_Apply_def DirectorySpec_done_def EnsureDir_def attempt_def andthen_def stat_def run_simps)

lemma DirectorySpec_unchanged: "DirectorySpec_Apply ap s w = (Inr r, w') \<Longrightarrow> \<not> ar_changed r \<Longrightarrow> DirectorySpec_done s w"
  by (auto simp: DirectorySpec_Apply_def andthen_single_iff DirectorySpec_done_def EnsureDir_def attempt_def stat_def
      run_simps singleChange_changed dest: applyFunc_reports split: option.splits node.splits fault.splits if_splits)

lemma DirectorySpec_observes:
  "no_faults w \<Longrightarrow> DirectorySpec_Observe s w = (Inr (case fget w (d_path s) of
     None \<Rightarrow> \<lparr>dst_exists = False, dst_dir = False, dst_mode = []\<rparr>
   | Some (FileN c m u g) \<Rightarrow> \<lparr>dst_exists = True, dst_dir = False, dst_mode = octal4 m\<rparr>
   | Some (DirN m u g) \<Rightarrow> \<lparr>dst_exists = True, dst_dir = True, dst_mode = octal4 m\<rparr>), tock w)"
  by (simp add: DirectorySpec_Observe_def attempt_def stat_def run_simps split: option.splits node.splits)

lemma DirectorySpec_done_drift:
  "no_faults w \<Longrightarrow> DirectorySpec_done s w \<Longrightarrow> DirectorySpec_Observe s w = (Inr st, w1) \<Longrightarrow>
    \<not> dr_changed (DirectorySpec_Diff s st)"
  by (auto simp: DirectorySpec_observes DirectorySpec_done_def DirectorySpec_Diff_def newDriftResult_def reason_def)

interpretation directory_resource: provider_resource DirectorySpec_Apply DirectorySpec_Observe DirectorySpec_Diff no_faults proper_dir
proof
  show "\<exists>w''. DirectorySpec_Apply ap s w' = (Inr no_change, w'')"
    if "proper_dir s" "DirectorySpec_Apply True s w = (Inr r, w')" "no_faults w'" for s r ap and w w' :: "'a os_scheme"
    using DirectorySpec_settled DirectorySpec_applied that by blast
  show "ar_changed r" if "no_faults w" "DirectorySpec_Observe s w = (Inr st, w1)" "dr_changed (DirectorySpec_Diff s st)"
      "DirectorySpec_Apply ap s w = (Inr r, w2)" for s st ap r and w w1 w2 :: "'a os_scheme"
    using DirectorySpec_unchanged DirectorySpec_done_drift that by blast
  show "\<exists>st w1. DirectorySpec_Observe s w = (Inr st, w1)" if "no_faults w" for s and w :: "'a os_scheme"
    using DirectorySpec_observes [OF that] by blast
qed

section \<open>Properties\<close>

text \<open>Applying a file resource settles it. After any successful Apply the observation finds
  no drift, and a preview or a second apply reports no change.\<close>

theorem file_resource_settles:
  assumes "FileSpec_Apply True s w = (Inr r, w')" "no_faults w'"
  shows "(\<exists>st w1. FileSpec_Observe sha s w' = (Inr st, w1) \<and> \<not> dr_changed (FileSpec_Diff sha s st))
    \<and> (\<exists>w''. FileSpec_Apply ap s w' = (Inr no_change, w''))"
  using file_resource.no_drift_after_apply [OF TrueI assms] file_resource.settles [OF TrueI assms] by blast

theorem file_resource_settles_witness:
  "\<exists>w''. FileSpec_Apply False \<lparr>f_path = ''/etc/a'', f_content = ''old'', f_mode = 384, f_absent = False\<rparr>
     (snd (FileSpec_Apply True \<lparr>f_path = ''/etc/a'', f_content = ''old'', f_mode = 384, f_absent = False\<rparr> (demo_os\<lparr>fault := \<lambda>_. Fine\<rparr>)))
     = (Inr no_change, w'')"
proof -
  let ?s = "\<lparr>f_path = ''/etc/a'', f_content = ''old'', f_mode = 384, f_absent = False\<rparr>" and ?w = "demo_os\<lparr>fault := \<lambda>_. Fine\<rparr>"
  obtain r w' where run: "FileSpec_Apply True ?s ?w = (r, w')" by (cases "FileSpec_Apply True ?s ?w")
  have "\<not> (case fst (FileSpec_Apply True ?s ?w) of Inl _ \<Rightarrow> True | Inr _ \<Rightarrow> False)" by code_simp
  then obtain c where r: "r = Inr c" using run by (cases r) auto
  have fr: "frames fault (FileSpec_Apply True ?s :: (os, apply_result) io)"
    unfolding FileSpec_Apply_def by (auto intro!: frames_intro)
  have "no_faults w'" using framesD [OF fr run] by (simp add: no_faults_def)
  from file_resource_settles [OF run [unfolded r] this] run show ?thesis by auto
qed

text \<open>A file that has the required line but another mode drifts for ever: Apply succeeds
  without a change, and Diff keeps reporting the mode, since EnsureLine never looks at it.\<close>

theorem line_drift_not_repaired:
  assumes "no_faults w" "fget w (l_path s) = Some (FileN d m u g)" "l_line s \<in> set (lines_of d)"
    and "octal4 m \<noteq> octal4 (l_mode s)"
  shows "\<exists>w'. LineSpec_Apply True s w = (Inr no_change, w') \<and> fget w' = fget w
    \<and> (\<exists>st w1. LineSpec_Observe s w' = (Inr st, w1) \<and> dr_changed (LineSpec_Diff s st))"
proof -
  have a: "LineSpec_Apply True s w = (Inr no_change, tock w)"
    using assms(1-3) by (simp add: LineSpec_Apply_def EnsureLine_def andthen_def attempt_def read_file_def lines_of_def run_simps)
  have "LineSpec_Observe s (tock w) = (Inr \<lparr>lst_exists = True, lst_mode = octal4 m, lst_contains = contains d (l_line s)\<rparr>, tock (tock (tock w)))"
    using assms(1,2) by (simp add: LineSpec_Observe_def attempt_def andthen_def stat_def read_file_def run_simps fs_simps)
  with a assms(4) show ?thesis
    by (auto simp: LineSpec_Diff_def newDriftResult_def reason_def fs_simps fun_eq_iff)
qed

theorem line_drift_not_repaired_witness:
  "\<exists>w'. LineSpec_Apply True \<lparr>l_path = ''/etc/a'', l_line = ''old'', l_mode = 384\<rparr> (demo_os\<lparr>fault := \<lambda>_. Fine\<rparr>) = (Inr no_change, w')"
proof -
  let ?s = "\<lparr>l_path = ''/etc/a'', l_line = ''old'', l_mode = 384\<rparr>" and ?w = "demo_os\<lparr>fault := \<lambda>_. Fine\<rparr>"
  have "no_faults ?w" by (simp add: no_faults_def)
  moreover have "fget ?w (l_path ?s) = Some (FileN ''old'' 420 0 0)" "l_line ?s \<in> set (lines_of ''old'')"
    "octal4 420 \<noteq> octal4 (l_mode ?s)" by code_simp+
  ultimately show ?thesis using line_drift_not_repaired [of ?w ?s] by blast
qed

text \<open>The systemctl verbs that change a unit, in the order in which Apply may issue them.\<close>

definition unit_verbs :: "SystemdServiceSpec \<Rightarrow> string list list" where
  "unit_verbs s = (let u = sv_unit s in
     (if sv_masked s = Some False then [[''systemctl'', ''unmask'', u]] else [])
     @ (if sv_reload s then [[''systemctl'', ''daemon-reload'']] else [])
     @ (if sv_active s = Some False then [[''systemctl'', ''stop'', u]] else [])
     @ (case sv_enabled s of None \<Rightarrow> [] | Some b \<Rightarrow> [[''systemctl'', if b then ''enable'' else ''disable'', u]])
     @ (if sv_masked s = Some True then [[''systemctl'', ''mask'', u]] else [])
     @ (if sv_restart s then [[''systemctl'', ''restart'', u]] else [])
     @ (if sv_active s = Some True then [[''systemctl'', ''start'', u]] else []))"

definition is_query :: "string list \<Rightarrow> bool" where
  "is_query argv \<longleftrightarrow> length argv > 1 \<and> argv ! 1 \<in> {''is-active'', ''is-enabled'', ''show'', ''cat''}"

text \<open>\<open>issues vs m\<close>: whatever fails, \<open>m\<close> appends queries and, of the others, a subsequence of \<open>vs\<close>.\<close>

definition issues :: "string list list \<Rightarrow> ('z os_scheme, 'a) io \<Rightarrow> bool" where
  "issues vs m \<longleftrightarrow> (\<forall>w. \<exists>cs. cmd_trace (snd (m w)) = cmd_trace w @ cs \<and> subseq (filter (\<lambda>c. \<not> is_query c) cs) vs)"

lemma issues_ret: "issues [] (ret x)" "issues [] (throw e)"
  by (simp_all add: issues_def run_simps)

lemma issues_run_cmd: "issues (if is_query argv then [] else [argv]) (run_cmd argv)"
  unfolding issues_def by (auto simp: run_cmd_def Let_def tock_def split: prod.splits)

lemma issues_andthen:
  assumes "issues vs m" "\<And>x. issues us (f x)"
  shows "issues (vs @ us) (andthen m f)"
  unfolding issues_def
proof
  fix w
  obtain cs where cs: "cmd_trace (snd (m w)) = cmd_trace w @ cs" "subseq (filter (\<lambda>c. \<not> is_query c) cs) vs"
    using assms(1) unfolding issues_def by blast
  show "\<exists>cs. cmd_trace (snd (andthen m f w)) = cmd_trace w @ cs \<and> subseq (filter (\<lambda>c. \<not> is_query c) cs) (vs @ us)"
  proof (cases "fst (m w)")
    case (Inl e)
    then have "andthen m f w = (Inl e, snd (m w))" by (cases "m w") (simp add: andthen_def)
    with cs show ?thesis by (metis list_emb_append2 list_emb_prefix snd_conv)
  next
    case (Inr x)
    then have "andthen m f w = f x (snd (m w))" by (cases "m w") (simp add: andthen_def)
    moreover obtain ds where "cmd_trace (snd (f x (snd (m w)))) = cmd_trace (snd (m w)) @ ds" "subseq (filter (\<lambda>c. \<not> is_query c) ds) us"
      using assms(2) unfolding issues_def by blast
    ultimately show ?thesis using cs by (auto intro: list_emb_append_mono)
  qed
qed

lemma issues_mono: "issues vs m \<Longrightarrow> subseq vs us \<Longrightarrow> issues us m"
  unfolding issues_def by (meson subseq_order.order_trans)

lemma issues_more: "issues [] m \<Longrightarrow> issues us m"
  by (erule issues_mono) simp

lemma issues_attempt_ret: "issues vs m \<Longrightarrow> issues vs (attempt m (\<lambda>r. ret (f r)))"
proof -
  assume "issues vs m"
  moreover have "snd (attempt m (\<lambda>r. ret (f r)) w) = snd (m w)" for w by (simp add: attempt_def run_simps split: prod.splits)
  ultimately show ?thesis by (simp add: issues_def)
qed

lemma issues_wrapping: "issues vs m \<Longrightarrow> issues vs (wrapping msg m)"
  by (simp add: issues_def wrapping_snd)

lemma issues_andthen_query: "issues [] m \<Longrightarrow> (\<And>x. issues us (f x)) \<Longrightarrow> issues us (andthen m f)"
  using issues_andthen [of "[]" m us f] by simp

lemma issues_andthen_ret: "issues us m \<Longrightarrow> issues us (andthen m (\<lambda>x. ret (f x)))"
proof -
  assume "issues us m"
  from issues_andthen [OF this issues_ret(1)] show ?thesis by simp
qed

lemma issues_RunCapture: "is_query (name # args) \<Longrightarrow> issues [] (RunCapture name args)"
  unfolding RunCapture_def
  using issues_run_cmd [of "name # args"] by (auto intro!: issues_andthen_ret issues_wrapping)

lemma issues_Run: "issues [name # args] (Run ap name args)"
  unfolding Run_def
  using issues_run_cmd [of "name # args"]
  by (auto intro!: issues_andthen_ret issues_wrapping issues_more [OF issues_ret(1)] split: if_splits intro: issues_more)

lemma issues_queries:
  "issues [] (SystemctlIsActive u)" "issues [] (SystemctlIsEnabled u)" "issues [] (SystemctlIsMasked u)" "issues [] (SystemctlExists u)"
  unfolding SystemctlIsActive_def SystemctlIsEnabled_def SystemctlIsMasked_def SystemctlExists_def
  by (intro issues_attempt_ret issues_RunCapture; simp add: is_query_def)+

lemma issues_unit_step:
  assumes "issues [] guard"
  shows "issues [''systemctl'' # args] (unit_step ap guard msg args ch)"
  unfolding unit_step_def
proof (rule issues_andthen_query [OF assms])
  fix b
  show "issues [''systemctl'' # args] (if \<not> b then ret []
      else andthen (if msg = [] then Run ap ''systemctl'' args else wrapping msg (Run ap ''systemctl'' args)) (\<lambda>_. ret [ch]))"
    by (cases "msg = []"; cases b) (simp_all add: issues_more [OF issues_ret(1)] issues_andthen_ret issues_Run issues_wrapping)
qed

lemma issues_step_never: "issues [] (unit_step ap (ret False) msg args ch)"
  by (simp add: unit_step_def andthen_def run_simps issues_def)

lemma issues_gather: "list_all2 issues vss ms \<Longrightarrow> issues (concat vss) (gather ms)"
proof (induction rule: list_all2_induct)
  case (Cons vs vss m ms)
  then show ?case by (auto intro!: issues_andthen issues_andthen_ret)
qed (simp add: issues_ret)

text \<open>Whatever systemd answers and whichever command fails, applying a service changes the
  unit only by the verbs its spec asks for, each at most once and in this order: unmask before
  anything else, stop before disable and mask, enable before restart and start. A unit to be
  inactive is never started and a unit to be active never stopped.\<close>

theorem systemd_apply_order:
  fixes w :: "'a os_scheme"
  shows "\<exists>cs. cmd_trace (snd (SystemdServiceSpec_Apply ap s w)) = cmd_trace w @ cs
     \<and> subseq (filter (\<lambda>c. \<not> is_query c) cs) (unit_verbs s)"
proof -
  let ?u = "sv_unit s"
  define vss where "vss = [
     (if sv_masked s = Some False then [[''systemctl'', ''unmask'', ?u]] else []),
     (if sv_reload s then [[''systemctl'', ''daemon-reload'']] else []),
     (if sv_active s = Some False then [[''systemctl'', ''stop'', ?u]] else []),
     (case sv_enabled s of None \<Rightarrow> [] | Some b \<Rightarrow> [[''systemctl'', if b then ''enable'' else ''disable'', ?u]]),
     (if sv_masked s = Some True then [[''systemctl'', ''mask'', ?u]] else []),
     (if sv_restart s then [[''systemctl'', ''restart'', ?u]] else []),
     (if sv_active s = Some True then [[''systemctl'', ''start'', ?u]] else [])]"
  have q: "issues [] (negated (SystemctlIsMasked ?u))" "issues [] (negated (SystemctlIsActive ?u))"
    "issues [] (andthen (SystemctlIsEnabled ?u) (\<lambda>cur. ret (f cur)))" for f :: "bool \<Rightarrow> bool"
    unfolding negated_def by (intro issues_andthen_ret issues_queries)+
  note step = issues_unit_step [OF issues_queries(1)] issues_unit_step [OF issues_queries(3)] issues_unit_step [OF issues_ret(1)]
    issues_unit_step [OF q(1)] issues_unit_step [OF q(2)] issues_unit_step [OF q(3)] issues_step_never issues_ret(1)
  have "list_all2 issues vss (SystemdServiceSpec_steps ap s)"
    unfolding vss_def SystemdServiceSpec_steps_def Let_def
    by (simp add: step split: option.splits)
  then have g: "issues (unit_verbs s) (gather (SystemdServiceSpec_steps ap s))"
    using issues_gather by (fastforce simp: vss_def unit_verbs_def Let_def)
  have "issues (unit_verbs s) (SystemdServiceSpec_Apply ap s :: ('a os_scheme, apply_result) io)"
    unfolding SystemdServiceSpec_Apply_def
    using g issues_queries(4) issues_ret(1) issues_more [OF issues_ret(1)]
    by (auto intro!: issues_andthen_query issues_andthen_ret split: if_splits)
  then show ?thesis by (simp add: issues_def)
qed

lemma EnsureCopy_None:
  "EnsureCopy ap src dst mode w = (Inr c, w') \<Longrightarrow> now_fault w = Fine \<and>
    (\<exists>data c0. content w src = Some data \<and> EnsureFile ap dst data mode (tock w) = (Inr c0, w') \<and> (c = None \<longleftrightarrow> c0 = None))"
  by (auto simp: EnsureCopy_def andthen_ok_iff read_file_ok run_simps split: option.splits)

text \<open>The preview of a copy tells the truth: on a host without failures, it reports a change
  exactly when the apply from the same state makes one.\<close>

theorem copy_preview_agrees:
  assumes "no_faults w" "CopySpec_Apply False s w = (Inr p, w1)" "CopySpec_Apply True s w = (Inr r, w2)"
  shows "ar_changed p = ar_changed r"
proof -
  from assms(3) obtain c where "EnsureCopy True (c_source s) (c_path s) (c_mode s) w = (Inr c, w2)" "r = singleChange c"
    by (auto simp: CopySpec_Apply_def andthen_single_iff)
  with EnsureCopy_None obtain data c0 where src: "content w (c_source s) = Some data"
    and ens: "EnsureFile True (c_path s) data (c_mode s) (tock w) = (Inr c0, w2)" and r: "ar_changed r \<longleftrightarrow> c0 \<noteq> None"
    by (metis singleChange_changed)
  have n: "no_faults (tock w)" using assms(1) by (simp add: no_faults_def fs_simps)
  have c0: "c0 = None \<longleftrightarrow> (\<exists>u g. fget w (c_path s) = Some (FileN data (c_mode s) u g))"
  proof
    assume "c0 = None"
    with EnsureFile_None ens show "\<exists>u g. fget w (c_path s) = Some (FileN data (c_mode s) u g)" by (fastforce simp: fs_simps)
  next
    assume "\<exists>u g. fget w (c_path s) = Some (FileN data (c_mode s) u g)"
    then obtain u g where "regular (tock w) (c_path s) = Some (FileN data (c_mode s) u g)" by (auto simp: regular_def fs_simps)
    from EnsureFile_noop [OF n this, of True] ens show "c0 = None" by simp
  qed
  have rd: "read_file (c_source s) w = (Inr data, tock w)" using src assms(1) by (simp add: read_file_ok)
  have "ar_changed p \<longleftrightarrow> \<not> (\<exists>u g. fget w (c_path s) = Some (FileN data (c_mode s) u g))"
    using assms(1,2) rd
    by (auto simp: CopySpec_Apply_def Let_def attempt_def read_file_def stat_def run_simps fs_simps
        split: option.splits node.splits if_splits)
  with r c0 show ?thesis by simp
qed

theorem copy_preview_agrees_witness:
  "(let s = \<lparr>c_source = ''/etc/a'', c_path = ''/etc/b'', c_mode = 420\<rparr>; w = demo_os\<lparr>fault := \<lambda>_. Fine\<rparr> in
    map_sum id ar_changed (fst (CopySpec_Apply False s w)) = map_sum id ar_changed (fst (CopySpec_Apply True s w)))"
proof -
  let ?s = "\<lparr>c_source = ''/etc/a'', c_path = ''/etc/b'', c_mode = 420\<rparr>" and ?w = "demo_os\<lparr>fault := \<lambda>_. Fine\<rparr>"
  obtain p w1 r w2 where runs: "CopySpec_Apply False ?s ?w = (p, w1)" "CopySpec_Apply True ?s ?w = (r, w2)" by fastforce
  have "\<not> (case fst (CopySpec_Apply False ?s ?w) of Inl _ \<Rightarrow> True | Inr _ \<Rightarrow> False)"
    "\<not> (case fst (CopySpec_Apply True ?s ?w) of Inl _ \<Rightarrow> True | Inr _ \<Rightarrow> False)" by code_simp+
  then obtain p' r' where "p = Inr p'" "r = Inr r'" using runs by (cases p; cases r) auto
  moreover have "no_faults ?w" by (simp add: no_faults_def)
  ultimately show ?thesis using copy_preview_agrees [of ?w ?s p' w1 r' w2] runs by (simp add: Let_def)
qed

end
