(* ===== verification/VersionMap.thy ===== *)
theory VersionMap
  imports Fs "HOL-Library.Word"
begin

text \<open>
  internal/config/versionmap.go, internal/kubeletconfig/feature_gates.go and
  internal/config/resources.go: choosing a component version for a Kubernetes version, the
  feature gates of the kubelet, and the width of a run. A Go map is an association list with
  distinct keys, iterated in list order; the lookup is proved for every order.
\<close>

section \<open>Versions as pairs\<close>

datatype majorMinor = MM (mm_major: int) (mm_minor: int)

definition mm_less :: "majorMinor \<Rightarrow> majorMinor \<Rightarrow> bool" where
  "mm_less a b = (if mm_major a \<noteq> mm_major b then mm_major a < mm_major b else mm_minor a < mm_minor b)"

instantiation majorMinor :: linorder
begin

definition less_majorMinor :: "majorMinor \<Rightarrow> majorMinor \<Rightarrow> bool" where
  "less_majorMinor a b = mm_less a b"

definition less_eq_majorMinor :: "majorMinor \<Rightarrow> majorMinor \<Rightarrow> bool" where
  "less_eq_majorMinor a b = (\<not> mm_less b a)"

instance
proof
  fix x y z :: majorMinor
  show "x < y \<longleftrightarrow> x \<le> y \<and> \<not> y \<le> x" "x \<le> x" "x \<le> y \<or> y \<le> x"
    by (auto simp: less_majorMinor_def less_eq_majorMinor_def mm_less_def split: if_splits)
  show "x \<le> y \<Longrightarrow> y \<le> z \<Longrightarrow> x \<le> z" "x \<le> y \<Longrightarrow> y \<le> x \<Longrightarrow> x = y"
    by (auto simp: less_eq_majorMinor_def mm_less_def majorMinor.expand split: if_splits)
qed

end

definition parseMajorMinor :: "string \<Rightarrow> majorMinor option" where
  "parseMajorMinor version = (case split_on (CHR ''.'') (trim_prefix (trim_space version) ''v'') of
     a # b # _ \<Rightarrow> (case atoi a of None \<Rightarrow> None | Some major \<Rightarrow>
       (case atoi b of None \<Rightarrow> None | Some minor \<Rightarrow> Some (MM major minor)))
   | _ \<Rightarrow> None)"

definition mm_key :: "majorMinor \<Rightarrow> string" where
  "mm_key r = itoa (mm_major r) @ ''.'' @ itoa (mm_minor r)"

section \<open>The lookup\<close>

type_synonym version_map = "(string \<times> string) list"

definition mget :: "version_map \<Rightarrow> string \<Rightarrow> string" where
  "mget m k = (case map_of m k of None \<Rightarrow> [] | Some v \<Rightarrow> v)"

definition version_entries :: "version_map \<Rightarrow> (majorMinor \<times> string) list" where
  "version_entries m = sort_key fst (List.map_filter (\<lambda>(k, _). map_option (\<lambda>v. (v, k)) (parseMajorMinor k)) m)"

definition boundaryValue :: "version_map \<Rightarrow> bool \<Rightarrow> string" where
  "boundaryValue m upper = (let es = version_entries m in
     if es = [] then [] else mget m (snd (if upper then last es else hd es)))"

fun floor_key :: "majorMinor \<Rightarrow> string \<Rightarrow> (majorMinor \<times> string) list \<Rightarrow> string" where
  "floor_key r chosen [] = chosen"
| "floor_key r chosen (e # es) = (if \<not> r < fst e then floor_key r (snd e) es else chosen)"

definition LookupByKubeVersionClamped :: "version_map \<Rightarrow> string \<Rightarrow> string \<times> bool" where
  "LookupByKubeVersionClamped m kubeVersion = (case parseMajorMinor kubeVersion of
     None \<Rightarrow> (boundaryValue m False, True)
   | Some r \<Rightarrow> (case map_of m (mm_key r) of Some v \<Rightarrow> (v, False)
     | None \<Rightarrow> (let es = version_entries m in
         if es = [] then ([], False)
         else if fst (last es) < r then (mget m (snd (last es)), False)
         else if r < fst (hd es) then (mget m (snd (hd es)), True)
         else (mget m (floor_key r (snd (hd es)) es), False))))"

definition LookupByKubeVersion :: "version_map \<Rightarrow> string \<Rightarrow> string" where
  "LookupByKubeVersion m kubeVersion = fst (LookupByKubeVersionClamped m kubeVersion)"

section \<open>Feature gates\<close>

text \<open>The digits accumulate in a 64-bit int, which wraps.\<close>

definition parseDecimal :: "string \<Rightarrow> int option" where
  "parseDecimal s = (if s = [] \<or> \<not> list_all is_digit s then None
     else Some (sint (foldl (\<lambda>r c. r * 10 + of_nat (digit_val c)) (0 :: 64 word) s)))"

definition kubeTag_match :: "string \<Rightarrow> (string \<times> string) option" where
  "kubeTag_match tag = (let s = trim_prefix tag ''v''; a = takeWhile is_digit s; r = dropWhile is_digit s in
     case r of c # t \<Rightarrow> (if a \<noteq> [] \<and> c = CHR ''.'' \<and> takeWhile is_digit t \<noteq> [] then Some (a, takeWhile is_digit t) else None)
   | [] \<Rightarrow> None)"

definition ParseKubeMajorMinor :: "string \<Rightarrow> (int \<times> int) option" where
  "ParseKubeMajorMinor tag = (case kubeTag_match tag of None \<Rightarrow> None
   | Some (a, b) \<Rightarrow> (case parseDecimal a of None \<Rightarrow> None | Some major \<Rightarrow>
       (case parseDecimal b of None \<Rightarrow> None | Some minor \<Rightarrow> Some (major, minor))))"

definition KubeMinorAtLeast :: "string \<Rightarrow> int \<Rightarrow> bool" where
  "KubeMinorAtLeast tag minMinor = (case ParseKubeMajorMinor tag of None \<Rightarrow> False
   | Some (major, minor) \<Rightarrow> major = 1 \<and> minor \<ge> minMinor)"

definition shouldDisableGracefulNodeShutdown :: "string \<Rightarrow> bool" where
  "shouldDisableGracefulNodeShutdown tag = (case ParseKubeMajorMinor tag of None \<Rightarrow> False
   | Some (major, minor) \<Rightarrow> if major \<noteq> 1 then False else minor > 21 \<and> minor < 35)"

definition FeatureGatesYAML :: "string \<Rightarrow> string" where
  "FeatureGatesYAML tag = (if shouldDisableGracefulNodeShutdown tag
     then ''featureGates:'' @ NL @ ''  GracefulNodeShutdown: false'' @ NL else [])"

section \<open>Parallelism\<close>

definition maxAutoParallelism :: int where "maxAutoParallelism = 10"

text \<open>Go's division truncates; the counts are not negative in practice, but a parsed field may be.\<close>

definition tdiv :: "int \<Rightarrow> int \<Rightarrow> int" where
  "tdiv a b = (if a < 0 then - ((- a) div b) else a div b)"

fun mem_total_of :: "string list \<Rightarrow> int" where
  "mem_total_of [] = 0"
| "mem_total_of (l # ls) = (if \<not> has_prefix l ''MemTotal:'' then mem_total_of ls
     else (case str_fields l of _ # kb # _ \<Rightarrow> (case atoi kb of None \<Rightarrow> 0 | Some v \<Rightarrow> tdiv v 1024) | _ \<Rightarrow> 0))"

definition hostMemTotalMiB :: "('z os_scheme, int) io" where
  "hostMemTotalMiB = attempt (read_file ''/proc/meminfo'') (\<lambda>r. ret (case r of Inl _ \<Rightarrow> 0
     | Inr d \<Rightarrow> mem_total_of (split_on (CHR 0x0A) d)))"

definition parallelismFor :: "int \<Rightarrow> int \<Rightarrow> int" where
  "parallelismFor memMiB numCPU = (let
     p = (if memMiB \<le> 0 then 4 else if memMiB < 2560 then 1 else if memMiB < 4096 then 2
          else if memMiB < 8192 then 4 else if memMiB < 16384 then 8 else maxAutoParallelism);
     p = (if numCPU > 0 \<and> p > numCPU * 2 then numCPU * 2 else p)
   in if p < 1 then 1 else p)"

definition AutoParallelism :: "int \<Rightarrow> ('z os_scheme, int) io" where
  "AutoParallelism numCPU = andthen hostMemTotalMiB (\<lambda>m. ret (parallelismFor m numCPU))"

section \<open>Facts\<close>

lemma version_entries_sorted: "sorted (map fst (version_entries m))"
  by (simp add: version_entries_def)

lemma set_version_entries:
  "set (version_entries m) = {(q, k). (\<exists>v. (k, v) \<in> set m) \<and> parseMajorMinor k = Some q}"
  by (force simp: version_entries_def List.map_filter_def)

lemma floor_key_last:
  "floor_key r c es = (let f = takeWhile (\<lambda>e. \<not> r < fst e) es in if f = [] then c else snd (last f))"
  by (induction es arbitrary: c) (auto simp: Let_def)

lemma takeWhile_floor:
  assumes "sorted (map fst es)"
  shows "set (takeWhile (\<lambda>e. \<not> r < fst e) es) = {e \<in> set es. fst e \<le> r}"
  using assms by (induction es) (auto simp: not_less)

lemma last_is_Max: "sorted (map fst es) \<Longrightarrow> es \<noteq> [] \<Longrightarrow> fst (last es) = Max (fst ` set es)"
proof (induction es)
  case (Cons e es)
  show ?case
  proof (cases "es = []")
    case False
    then have "Max (insert (fst e) (fst ` set es)) = max (fst e) (Max (fst ` set es))" by (intro Max_insert) auto
    moreover have "fst e \<le> fst (last es)" using Cons.prems False by auto
    ultimately show ?thesis using Cons False by simp
  qed simp
qed simp

lemma hd_is_Min: "sorted (map fst es) \<Longrightarrow> es \<noteq> [] \<Longrightarrow> fst (hd es) = Min (fst ` set es)"
  by (cases es) (auto intro!: Min_eqI [symmetric])

text \<open>The keys of the program's maps: the canonical text of a version.\<close>

definition canonical_map :: "version_map \<Rightarrow> bool" where
  "canonical_map m \<longleftrightarrow> list_all (\<lambda>(k, _). \<exists>q. parseMajorMinor k = Some q \<and> k = mm_key q) m"

definition map_versions :: "version_map \<Rightarrow> majorMinor set" where
  "map_versions m = {q. mm_key q \<in> fst ` set m \<and> parseMajorMinor (mm_key q) = Some q}"

lemma canonical_entries:
  "canonical_map m \<Longrightarrow> set (version_entries m) = (\<lambda>q. (q, mm_key q)) ` map_versions m"
  unfolding set_version_entries map_versions_def canonical_map_def list_all_iff by force

lemma finite_map_versions: "finite (map_versions m)"
proof -
  have "map_versions m \<subseteq> the ` parseMajorMinor ` fst ` set m" unfolding map_versions_def by force
  then show ?thesis by (rule finite_subset) simp
qed

text \<open>What a lookup is meant to answer: the value of the greatest version not above the
  requested one, or of the least when there is none, flagged as clamped.\<close>

definition floor_version :: "majorMinor set \<Rightarrow> majorMinor \<Rightarrow> majorMinor" where
  "floor_version V r = (if \<exists>q\<in>V. q \<le> r then Max {q \<in> V. q \<le> r} else Min V)"

lemma nat_str_inject: "nat_str a = nat_str b \<Longrightarrow> a = b"
  by (metis digits_val_nat_str)

lemma itoa_inject: "itoa a = itoa b \<longleftrightarrow> a = b"
proof
  assume e: "itoa a = itoa b"
  have minus: "CHR ''-'' # s \<noteq> nat_str n" for s n using nat_str_hd [of n] by auto
  show "a = b"
  proof (cases "a < 0"; cases "b < 0")
    assume "a < 0" "b < 0"
    with e have "nat (- a) = nat (- b)" by (simp add: itoa_def nat_str_inject)
    with \<open>a < 0\<close> \<open>b < 0\<close> show ?thesis by simp
  next
    assume "\<not> a < 0" "\<not> b < 0"
    with e have "nat a = nat b" by (simp add: itoa_def nat_str_inject)
    with \<open>\<not> a < 0\<close> \<open>\<not> b < 0\<close> show ?thesis by simp
  qed (use e minus in \<open>auto simp: itoa_def\<close>, metis)
qed simp

lemma nat_str_no_dot: "CHR ''.'' \<notin> set (itoa i)"
proof -
  have "CHR ''.'' \<notin> set (nat_str n)" for n using nat_str_digits [of n] by (auto simp: list_all_iff is_digit_def)
  then show ?thesis by (simp add: itoa_def)
qed

lemma mm_key_inject: "mm_key a = mm_key b \<Longrightarrow> a = b"
proof -
  assume "mm_key a = mm_key b"
  then have "cut_at (CHR ''.'') (mm_key a) = cut_at (CHR ''.'') (mm_key b)" by simp
  then have "itoa (mm_major a) = itoa (mm_major b) \<and> itoa (mm_minor a) = itoa (mm_minor b)"
    by (simp add: mm_key_def cut_at_append nat_str_no_dot)
  then show ?thesis by (simp add: itoa_inject majorMinor.expand)
qed

section \<open>Properties\<close>

text \<open>C29: for any iteration order of the map, a version lookup answers the value of the greatest
  known version not above the requested one, or of the least one when the request is below all
  of them, and raises the clamped flag exactly in that last case.\<close>

theorem lookup_is_floor:
  assumes "canonical_map m" "m \<noteq> []" "parseMajorMinor kubeVersion = Some r"
  shows "LookupByKubeVersionClamped m kubeVersion =
    (mget m (mm_key (floor_version (map_versions m) r)), \<forall>q\<in>map_versions m. r < q)"
proof -
  let ?V = "map_versions m" and ?es = "version_entries m"
  note es = canonical_entries [OF assms(1)]
  have ne: "?es \<noteq> []" "?V \<noteq> {}"
    using assms(1,2) es by (cases m; force simp: canonical_map_def map_versions_def)+
  have fst_es: "fst ` set ?es = ?V" and snd_es: "\<And>e. e \<in> set ?es \<Longrightarrow> snd e = mm_key (fst e)"
    unfolding es by force+
  note hd = hd_is_Min [OF version_entries_sorted ne(1)] and last = last_is_Max [OF version_entries_sorted ne(1)]
  note sn = snd_es [OF hd_in_set [OF ne(1)]] snd_es [OF last_in_set [OF ne(1)]]
  show ?thesis
  proof (cases "mm_key r \<in> fst ` set m")
    case True
    then obtain v where v: "map_of m (mm_key r) = Some v" by (metis map_of_eq_None_iff not_None_eq)
    have "\<exists>q. parseMajorMinor (mm_key r) = Some q \<and> mm_key r = mm_key q"
      using True assms(1) by (force simp: canonical_map_def list_all_iff)
    then obtain q where "parseMajorMinor (mm_key r) = Some q" "mm_key r = mm_key q" by blast
    then have "q \<in> ?V \<and> mm_key q = mm_key r" using True by (simp add: map_versions_def)
    then obtain q where q: "q \<in> ?V" "mm_key q = mm_key r" by blast
    have key: "q' = r" if "mm_key q' = mm_key r" for q'
      using that mm_key_inject by blast
    have "r \<in> ?V" using key q by metis
    then have "floor_version ?V r = r"
      unfolding floor_version_def using finite_map_versions by (auto intro!: Max_eqI)
    with v \<open>r \<in> ?V\<close> show ?thesis by (auto simp: LookupByKubeVersionClamped_def assms(3) mget_def)
  next
    case False
    then have none: "map_of m (mm_key r) = None" and notin: "r \<notin> ?V"
      by (auto simp: map_of_eq_None_iff map_versions_def)
    consider (above) "fst (last ?es) < r" | (below) "\<not> fst (last ?es) < r" "r < fst (hd ?es)"
      | (between) "\<not> fst (last ?es) < r" "\<not> r < fst (hd ?es)" by blast
    then show ?thesis
    proof cases
      case above
      then have all: "\<And>q. q \<in> ?V \<Longrightarrow> q < r"
        using last fst_es finite_map_versions [of m] by (metis Max_ge le_less_trans)
      have "{q \<in> ?V. q \<le> r} = ?V" using all by (auto intro: less_imp_le)
      then have "floor_version ?V r = Max ?V" using all ne(2) by (auto simp: floor_version_def intro: less_imp_le)
      moreover have "\<not> (\<forall>q\<in>?V. r < q)" using all ne(2) by (meson all_not_in_conv less_asym)
      ultimately show ?thesis
        using above none ne(1) last fst_es sn by (simp add: LookupByKubeVersionClamped_def assms(3) Let_def)
    next
      case below
      then have all: "\<And>q. q \<in> ?V \<Longrightarrow> r < q"
        using hd fst_es finite_map_versions [of m] by (metis Min_le less_le_trans)
      then have "floor_version ?V r = Min ?V" by (auto simp: floor_version_def not_less [symmetric])
      then show ?thesis
        using below none ne(1) hd fst_es sn all by (simp add: LookupByKubeVersionClamped_def assms(3) Let_def)
    next
      case between
      let ?f = "takeWhile (\<lambda>e. \<not> r < fst e) ?es"
      have f: "set ?f = {e \<in> set ?es. fst e \<le> r}" by (rule takeWhile_floor [OF version_entries_sorted])
      have hdf: "hd ?es \<in> set ?f" unfolding f using between ne(1) by (simp add: not_less)
      then have fne: "?f \<noteq> []" by auto
      have "sorted (map fst ?f)" using version_entries_sorted by (metis sorted_wrt_map sorted_wrt_takeWhile)
      note lf0 = last_is_Max [OF this fne]
      have "fst ` {e \<in> set ?es. fst e \<le> r} = {q \<in> ?V. q \<le> r}" unfolding fst_es [symmetric] by blast
      then have lf: "fst (last ?f) = Max {q \<in> ?V. q \<le> r}" using lf0 f by simp
      have "hd ?es \<in> set ?es" using ne(1) by simp
      then have ex: "\<exists>q\<in>?V. q \<le> r" using between fst_es by (metis imageI not_less)
      then have "floor_version ?V r = fst (last ?f)" by (simp add: floor_version_def lf)
      moreover have "last ?f \<in> set ?es" using last_in_set [OF fne] f by simp
      then have "snd (last ?f) = mm_key (fst (last ?f))" by (rule snd_es)
      moreover have "\<not> (\<forall>q\<in>?V. r < q)" using ex by (auto simp: not_less)
      ultimately show ?thesis
        using between none ne(1) fne by (simp add: LookupByKubeVersionClamped_def assms(3) Let_def floor_key_last)
    qed
  qed
qed

definition demo_versions :: version_map where
  "demo_versions = [(''1.35'', ''new''), (''1.31'', ''old'')]"

theorem lookup_is_floor_witness:
  "LookupByKubeVersion demo_versions ''v1.33.2'' = mget demo_versions (mm_key (floor_version (map_versions demo_versions) (MM 1 33)))
   \<and> LookupByKubeVersion demo_versions ''v1.33.2'' = ''old''"
proof
  have e: "parseMajorMinor ''1.35'' = Some (MM 1 35) \<and> mm_key (MM 1 35) = ''1.35''"
    "parseMajorMinor ''1.31'' = Some (MM 1 31) \<and> mm_key (MM 1 31) = ''1.31''" by code_simp+
  have "canonical_map demo_versions" using e by (fastforce simp: canonical_map_def demo_versions_def)
  moreover have "demo_versions \<noteq> []" "parseMajorMinor ''v1.33.2'' = Some (MM 1 33)" by code_simp+
  ultimately show "LookupByKubeVersion demo_versions ''v1.33.2'' = mget demo_versions (mm_key (floor_version (map_versions demo_versions) (MM 1 33)))"
    using lookup_is_floor by (simp add: LookupByKubeVersion_def)
  show "LookupByKubeVersion demo_versions ''v1.33.2'' = ''old''" by code_simp
qed

text \<open>The digits of a number below \<open>2 ^ 63\<close> are read without wrapping.\<close>

lemma word_digits: "foldl (\<lambda>r c. r * 10 + of_nat (digit_val c)) (of_nat a :: 64 word) s = of_nat (foldl (\<lambda>r c. 10 * r + digit_val c) a s)"
proof (induction s arbitrary: a)
  case (Cons c s)
  have "of_nat a * 10 + of_nat (digit_val c) = (of_nat (10 * a + digit_val c) :: 64 word)" by (simp add: mult.commute)
  then show ?case using Cons.IH [of "10 * a + digit_val c"] by (simp only: foldl_Cons)
qed simp

lemma parseDecimal_nat_str: "int n < 2 ^ 63 \<Longrightarrow> parseDecimal (nat_str n) = Some (int n)"
proof -
  assume n: "int n < 2 ^ 63"
  have "foldl (\<lambda>r c. r * 10 + of_nat (digit_val c)) (0 :: 64 word) (nat_str n) = of_nat n"
    using word_digits [of 0 "nat_str n"] digits_val_nat_str [of n] by (simp add: digits_val_def)
  moreover have "sint (of_nat n :: 64 word) = int n" using n by (simp add: signed_of_nat signed_take_bit_int_eq_self_iff)
  ultimately show ?thesis using nat_str_digits [of n] by (simp add: parseDecimal_def)
qed

definition no_digit_first :: "string \<Rightarrow> bool" where
  "no_digit_first s \<longleftrightarrow> s = [] \<or> \<not> is_digit (hd s)"

lemma takeWhile_digits: "no_digit_first s \<Longrightarrow> takeWhile is_digit (nat_str n @ s) = nat_str n \<and> dropWhile is_digit (nat_str n @ s) = s"
  using nat_str_digits [of n] by (cases s) (auto simp: no_digit_first_def list_all_iff takeWhile_append dropWhile_append)

lemma dot_no_digit: "no_digit_first (CHR ''.'' # s)"
  by (simp add: no_digit_first_def is_digit_def)

lemma parse_kube_tag:
  assumes "int M < 2 ^ 63" "int N < 2 ^ 63" "no_digit_first rest"
  shows "ParseKubeMajorMinor (''v'' @ nat_str M @ ''.'' @ nat_str N @ rest) = Some (int M, int N)"
  using takeWhile_digits [OF dot_no_digit [of "nat_str N @ rest"], of M] takeWhile_digits [OF assms(3), of N]
    nat_str_digits [of M] nat_str_digits [of N] parseDecimal_nat_str [OF assms(1)] parseDecimal_nat_str [OF assms(2)]
  by (simp add: ParseKubeMajorMinor_def kubeTag_match_def trim_prefix_def has_prefix_def Let_def)

text \<open>A release tag is read back exactly, whatever follows the minor version, and the graceful
  shutdown gate is turned off exactly for Kubernetes 1.22 to 1.34.\<close>

theorem feature_gate_range:
  assumes "int M < 2 ^ 63" "int N < 2 ^ 63" "no_digit_first rest"
  shows "ParseKubeMajorMinor (''v'' @ nat_str M @ ''.'' @ nat_str N @ rest) = Some (int M, int N)
    \<and> (FeatureGatesYAML (''v'' @ nat_str M @ ''.'' @ nat_str N @ rest) \<noteq> [] \<longleftrightarrow> M = 1 \<and> 22 \<le> N \<and> N \<le> 34)"
  using parse_kube_tag [OF assms] by (auto simp: FeatureGatesYAML_def shouldDisableGracefulNodeShutdown_def)

theorem feature_gate_range_witness:
  "FeatureGatesYAML (''v'' @ nat_str 1 @ ''.'' @ nat_str 30 @ ''.4'') \<noteq> [] \<and> FeatureGatesYAML (''v'' @ nat_str 1 @ ''.'' @ nat_str 35 @ ''.4'') = []"
  using feature_gate_range [of 1 30 "''.4''"] feature_gate_range [of 1 35 "''.4''"]
  by (simp add: no_digit_first_def is_digit_def)

text \<open>The automatic width of a run is between 1 and 10, never above twice the processors (when
  their number is known), and with known memory it does not shrink when memory grows.\<close>

theorem parallelism_bounds:
  "1 \<le> parallelismFor mem cpu \<and> parallelismFor mem cpu \<le> maxAutoParallelism
   \<and> (0 < cpu \<longrightarrow> parallelismFor mem cpu \<le> 2 * cpu)
   \<and> (0 < mem \<and> mem \<le> mem' \<longrightarrow> parallelismFor mem cpu \<le> parallelismFor mem' cpu)"
  by (auto simp: parallelismFor_def maxAutoParallelism_def Let_def)

theorem parallelism_bounds_witness:
  "parallelismFor 2048 8 = 1 \<and> parallelismFor 2048 8 \<le> 2 * 8 \<and> parallelismFor 2048 8 \<le> parallelismFor 16384 8"
  using parallelism_bounds [of 2048 8 16384]
  by (simp add: parallelismFor_def)

end
