(* ===== verification/GoText.thy ===== *)
theory GoText
  imports Prelude
begin

text \<open>
  Text of the Go standard library that several components use: double-quoted literals as
  strconv.Quote (the verb %q) writes them and strconv.Unquote reads them. A string is its bytes;
  bytes above 127 are taken to be printable UTF-8 and pass through, which is what both functions
  do on printable text. Nothing here carries a manifest entry.
\<close>

definition hex_digit :: "nat \<Rightarrow> char" where
  "hex_digit n = (if n < 10 then char_of (48 + n) else char_of (87 + n))"

definition hex_val :: "char \<Rightarrow> nat option" where
  "hex_val c = (let n = (of_char c :: nat) in if 48 \<le> n \<and> n \<le> 57 then Some (n - 48)
     else if 97 \<le> n \<and> n \<le> 102 then Some (n - 87) else if 65 \<le> n \<and> n \<le> 70 then Some (n - 55) else None)"

definition quote_char :: "char \<Rightarrow> string" where
  "quote_char c = (let n = (of_char c :: nat) in
     if c = CHR 0x22 \<or> c = CHR 0x5C then [CHR 0x5C, c]
     else if n = 7 then [CHR 0x5C, CHR ''a''] else if n = 8 then [CHR 0x5C, CHR ''b'']
     else if n = 12 then [CHR 0x5C, CHR ''f''] else if n = 10 then [CHR 0x5C, CHR ''n'']
     else if n = 13 then [CHR 0x5C, CHR ''r''] else if n = 9 then [CHR 0x5C, CHR ''t'']
     else if n = 11 then [CHR 0x5C, CHR ''v'']
     else if n < 32 \<or> n = 127 then [CHR 0x5C, CHR ''x'', hex_digit (n div 16), hex_digit (n mod 16)]
     else [c])"

definition go_quote :: "string \<Rightarrow> string" where
  "go_quote s = [CHR 0x22] @ concat (map quote_char s) @ [CHR 0x22]"

text \<open>UTF-8 of a rune; surrogates and values past the last code point have none.\<close>

definition utf8 :: "nat \<Rightarrow> string option" where
  "utf8 r = (if r < 128 then Some [char_of r]
     else if r < 2048 then Some [char_of (192 + r div 64), char_of (128 + r mod 64)]
     else if 55296 \<le> r \<and> r < 57344 then None
     else if r < 65536 then Some [char_of (224 + r div 4096), char_of (128 + r div 64 mod 64), char_of (128 + r mod 64)]
     else if r \<le> 1114111 then Some [char_of (240 + r div 262144), char_of (128 + r div 4096 mod 64),
            char_of (128 + r div 64 mod 64), char_of (128 + r mod 64)]
     else None)"

definition hex_vals :: "string \<Rightarrow> nat option" where
  "hex_vals s = map_option (foldl (\<lambda>a d. 16 * a + d) 0) (those (map hex_val s))"

definition simple_escape :: "char \<Rightarrow> char option" where
  "simple_escape c = map_of [(CHR ''a'', CHR 0x07), (CHR ''b'', CHR 0x08), (CHR ''f'', CHR 0x0C), (CHR ''n'', CHR 0x0A),
     (CHR ''r'', CHR 0x0D), (CHR ''t'', CHR 0x09), (CHR ''v'', CHR 0x0B), (CHR 0x5C, CHR 0x5C), (CHR 0x22, CHR 0x22)] c"

definition oct_val :: "char \<Rightarrow> nat option" where
  "oct_val c = (if is_digit c \<and> digit_val c < 8 then Some (digit_val c) else None)"

text \<open>One character after the backslash: the bytes it stands for and the rest.\<close>

definition unescape :: "string \<Rightarrow> (string \<times> string) option" where
  "unescape s = (case s of [] \<Rightarrow> None | c # t \<Rightarrow>
     (case simple_escape c of Some d \<Rightarrow> Some ([d], t)
      | None \<Rightarrow>
        let width = (if c = CHR ''x'' then 2 else if c = CHR ''u'' then 4 else if c = CHR ''U'' then 8 else 0) in
        if width > 0 then
          (if length t < width then None else (case hex_vals (take width t) of None \<Rightarrow> None
             | Some v \<Rightarrow> map_option (\<lambda>bs. (bs, drop width t)) (if c = CHR ''x'' then Some [char_of v] else utf8 v)))
        else (case (oct_val c, t) of
            (Some a, d # e # u) \<Rightarrow> (case (oct_val d, oct_val e) of
               (Some b, Some f) \<Rightarrow> (if 64 * a + 8 * b + f > 255 then None else Some ([char_of (64 * a + 8 * b + f)], u))
             | _ \<Rightarrow> None)
          | _ \<Rightarrow> None)))"

text \<open>The body of a double-quoted literal; every step consumes a character, so the length is fuel.\<close>

fun unquote_body :: "nat \<Rightarrow> string \<Rightarrow> string option" where
  "unquote_body 0 s = (if s = [] then Some [] else None)"
| "unquote_body (Suc n) [] = Some []"
| "unquote_body (Suc n) (c # s) =
     (if c = CHR 0x22 \<or> c = CHR 0x0A then None
      else if c = CHR 0x5C then (case unescape s of None \<Rightarrow> None
        | Some (bs, t) \<Rightarrow> map_option (append bs) (unquote_body n t))
      else map_option (Cons c) (unquote_body n s))"

definition go_unquote :: "string \<Rightarrow> string option" where
  "go_unquote s = (if length s \<ge> 2 \<and> hd s = CHR 0x22 \<and> last s = CHR 0x22
     then unquote_body (length s) (butlast (tl s)) else None)"

lemma char_ctrl_cases: "(of_char c :: nat) < 32 \<or> of_char c = (127 :: nat) \<Longrightarrow>
    hex_vals [hex_digit (of_char c div 16), hex_digit (of_char c mod 16)] = Some (of_char c)"
proof -
  have h: "hex_val (hex_digit n) = Some n" if "n < 16" for n
    using that by (auto simp: hex_val_def hex_digit_def Let_def)
  have "(of_char c :: nat) < 256" by simp
  then have "(of_char c :: nat) div 16 < 16" by linarith
  then show ?thesis by (simp add: hex_vals_def h)
qed

lemma unescape_hex: "unescape (CHR ''x'' # a # b # s) = map_option (\<lambda>v. ([char_of v], s)) (hex_vals [a, b])"
  by (simp add: unescape_def simple_escape_def split: option.splits)

lemma append_single [simp]: "(@) [c] = (#) c"
  by (simp add: fun_eq_iff)

lemma unquote_step: "unquote_body (Suc n) (quote_char c @ s) = map_option (Cons c) (unquote_body n s)"
proof -
  have code: "c = CHR 0x07 \<longleftrightarrow> (of_char c :: nat) = 7" "c = CHR 0x08 \<longleftrightarrow> (of_char c :: nat) = 8" "c = CHR 0x0C \<longleftrightarrow> (of_char c :: nat) = 12"
    "c = CHR 0x0A \<longleftrightarrow> (of_char c :: nat) = 10" "c = CHR 0x0D \<longleftrightarrow> (of_char c :: nat) = 13" "c = CHR 0x09 \<longleftrightarrow> (of_char c :: nat) = 9"
    "c = CHR 0x0B \<longleftrightarrow> (of_char c :: nat) = 11"
    by (simp_all add: of_char_eq_iff [where 'a = nat, symmetric] del: of_char_eq_iff)
  let ?sp = "[CHR 0x22, CHR 0x5C, CHR 0x07, CHR 0x08, CHR 0x0C, CHR 0x0A, CHR 0x0D, CHR 0x09, CHR 0x0B]"
  show ?thesis
  proof (cases "c \<in> set ?sp")
    case True
    have "list_all (\<lambda>d. quote_char d = [CHR 0x5C, (quote_char d) ! 1] \<and> simple_escape ((quote_char d) ! 1) = Some d) ?sp" by code_simp
    with True obtain x where x: "quote_char c = [CHR 0x5C, x]" "simple_escape x = Some c" unfolding list_all_iff by blast
    then show ?thesis by (simp add: unescape_def)
  next
    case False
    then have n: "c \<noteq> CHR 0x22" "c \<noteq> CHR 0x5C" "c \<noteq> CHR 0x0A" "(of_char c :: nat) \<notin> {7, 8, 12, 10, 13, 9, 11}"
      unfolding insert_iff code [symmetric] by simp_all
    show ?thesis
    proof (cases "(of_char c :: nat) < 32 \<or> of_char c = (127 :: nat)")
      case True
      with n have "quote_char c = [CHR 0x5C, CHR ''x'', hex_digit (of_char c div 16), hex_digit (of_char c mod 16)]"
        by (simp add: quote_char_def Let_def)
      then show ?thesis using char_ctrl_cases [OF True] by (simp add: unescape_hex)
    next
      case False
      with n have "quote_char c = [c]" by (simp add: quote_char_def Let_def)
      with n show ?thesis by simp
    qed
  qed
qed

lemma unquote_quoted: "length s \<le> n \<Longrightarrow> unquote_body n (concat (map quote_char s)) = Some s"
proof (induction s arbitrary: n)
  case Nil
  then show ?case by (cases n) simp_all
next
  case (Cons c s)
  then obtain m where "n = Suc m" "length s \<le> m" by (cases n) auto
  with Cons show ?case by (simp add: unquote_step)
qed

lemma quote_char_nonempty [simp]: "quote_char c \<noteq> []"
  by (simp add: quote_char_def Let_def)

lemma length_quoted: "length s \<le> length (concat (map quote_char s))"
proof (induction s)
  case (Cons c s)
  have "1 \<le> length (quote_char c)" by (cases "quote_char c") simp_all
  with Cons show ?case by simp
qed simp

lemma unquote_quote: "go_unquote (go_quote s) = Some s"
  using length_quoted [of s] by (simp add: go_unquote_def go_quote_def unquote_quoted)

end
