(* ===== verification/NodeMeta.thy ===== *)
theory NodeMeta
  imports GoText "HOL-Library.AList"
begin

text \<open>
  internal/config/nodemetadata.go: the labels and taints of a node group as they come from
  heat-params. An entry that Kubernetes would refuse is skipped with a warning; the maps are
  association lists. A regular expression of the code is the predicate it stands for.
\<close>

section \<open>Names\<close>

definition is_lower :: "char \<Rightarrow> bool" where
  "is_lower c \<longleftrightarrow> 97 \<le> (of_char c :: nat) \<and> (of_char c :: nat) \<le> 122"

definition is_alnum :: "char \<Rightarrow> bool" where
  "is_alnum c \<longleftrightarrow> is_lower c \<or> is_digit c \<or> (65 \<le> (of_char c :: nat) \<and> (of_char c :: nat) \<le> 90)"

text \<open>The shape of the expressions: an edge character, at most 61 inner ones and an edge character.\<close>

definition edged :: "(char \<Rightarrow> bool) \<Rightarrow> (char \<Rightarrow> bool) \<Rightarrow> string \<Rightarrow> bool" where
  "edged edge inner s \<longleftrightarrow> s \<noteq> [] \<and> length s \<le> 63 \<and> edge (hd s) \<and> edge (last s) \<and> list_all (\<lambda>c. edge c \<or> inner c) s"

definition qualifiedNameRe :: "string \<Rightarrow> bool" where
  "qualifiedNameRe s = edged is_alnum (\<lambda>c. c \<in> {CHR ''.'', CHR ''_'', CHR ''-''}) s"

definition labelValueRe :: "string \<Rightarrow> bool" where
  "labelValueRe s = edged is_alnum (\<lambda>c. c \<in> {CHR ''.'', CHR ''_'', CHR ''-''}) s"

definition dnsSubdomainRe :: "string \<Rightarrow> bool" where
  "dnsSubdomainRe s = list_all (edged (\<lambda>c. is_lower c \<or> is_digit c) (\<lambda>c. c = CHR ''-'')) (split_on (CHR ''.'') s)"

definition ManagedLabelsAnnotation :: string where "ManagedLabelsAnnotation = ''magnum.openstack.org/managed-labels''"
definition ManagedTaintsAnnotation :: string where "ManagedTaintsAnnotation = ''magnum.openstack.org/managed-taints''"

definition reservedLabelKeys :: "string list" where
  "reservedLabelKeys = [''magnum.openstack.org/role'', ''magnum.openstack.org/nodegroup'',
     ManagedLabelsAnnotation, ManagedTaintsAnnotation]"

definition validTaintEffects :: "string list" where
  "validTaintEffects = [''NoSchedule'', ''PreferNoSchedule'', ''NoExecute'']"

text \<open>\<open>None\<close> is a valid key; otherwise the text of the error.\<close>

definition validLabelKey :: "string \<Rightarrow> string option" where
  "validLabelKey key = (case cut_at (CHR ''/'') key of
     Some (pre, name) \<Rightarrow>
       if pre = [] \<or> length pre > 253 \<or> \<not> dnsSubdomainRe pre then Some (''invalid key prefix '' @ go_quote pre)
       else if name = [] \<or> \<not> qualifiedNameRe name then Some (''invalid key name '' @ go_quote name) else None
   | None \<Rightarrow> if key = [] \<or> \<not> qualifiedNameRe key then Some (''invalid key name '' @ go_quote key) else None)"

section \<open>Labels\<close>

definition cut_eq :: "string \<Rightarrow> string \<times> string" where
  "cut_eq s = (case cut_at (CHR ''='') s of Some (k, v) \<Rightarrow> (trim_space k, trim_space v) | None \<Rightarrow> (trim_space s, []))"

datatype 'a outcome = Take 'a | Warn string | Blank

definition label_item :: "string \<Rightarrow> (string \<times> string) outcome" where
  "label_item raw = (let item = trim_space raw in if item = [] then Blank else
     case cut_eq item of (key, value) \<Rightarrow>
       (case validLabelKey key of Some e \<Rightarrow> Warn (''NODE_LABELS: skipping '' @ go_quote item @ '': '' @ e)
        | None \<Rightarrow> if key \<in> set reservedLabelKeys then Warn (''NODE_LABELS: skipping reserved key '' @ go_quote key)
            else if value \<noteq> [] \<and> \<not> labelValueRe value then Warn (''NODE_LABELS: skipping '' @ go_quote item @ '': invalid value'')
            else Take (key, value)))"

fun label_loop :: "(string \<times> string) list \<Rightarrow> string list \<Rightarrow> string list \<Rightarrow> (string \<times> string) list \<times> string list" where
  "label_loop labels ws [] = (labels, ws)"
| "label_loop labels ws (i # is) = (case label_item i of
     Blank \<Rightarrow> label_loop labels ws is
   | Warn w \<Rightarrow> label_loop labels (ws @ [w]) is
   | Take (k, v) \<Rightarrow> label_loop (AList.update k v labels) ws is)"

definition ParseNodeLabels :: "string \<Rightarrow> (string \<times> string) list \<times> string list" where
  "ParseNodeLabels raw = (let r = trim_space raw in if r = [] then ([], []) else label_loop [] [] (split_on (CHR '';'') r))"

section \<open>Taints\<close>

record NodeTaint =
  nt_key :: string
  nt_value :: string
  nt_effect :: string

definition NodeTaint_String :: "NodeTaint \<Rightarrow> string" where
  "NodeTaint_String t = (if nt_value t = [] then nt_key t @ '':'' @ nt_effect t
     else nt_key t @ ''='' @ nt_value t @ '':'' @ nt_effect t)"

definition cutLast :: "char \<Rightarrow> string \<Rightarrow> (string \<times> string) option" where
  "cutLast sep s = (case cut_at sep (rev s) of None \<Rightarrow> None | Some (a, b) \<Rightarrow> Some (rev b, rev a))"

definition taint_item :: "string list \<Rightarrow> string \<Rightarrow> NodeTaint outcome" where
  "taint_item seen raw = (let item = trim_space raw; skip = ''NODE_TAINTS: skipping '' @ go_quote item in
     if item = [] then Blank else
     case cutLast (CHR '':'') item of None \<Rightarrow> Warn (skip @ '': effect must be one of NoSchedule, PreferNoSchedule, NoExecute'')
     | Some (body, effect) \<Rightarrow>
       if effect \<notin> set validTaintEffects then Warn (skip @ '': effect must be one of NoSchedule, PreferNoSchedule, NoExecute'')
       else (case cut_eq body of (key, value) \<Rightarrow>
         (case validLabelKey key of Some e \<Rightarrow> Warn (skip @ '': '' @ e)
          | None \<Rightarrow> if has_prefix key ''node-role.kubernetes.io/'' \<or> has_prefix key ''node.kubernetes.io/''
              then Warn (''NODE_TAINTS: skipping reserved key '' @ go_quote key)
              else if value \<noteq> [] \<and> \<not> labelValueRe value then Warn (skip @ '': invalid value'')
              else if key @ '':'' @ effect \<in> set seen then Warn (''NODE_TAINTS: skipping duplicate '' @ go_quote (key @ '':'' @ effect))
              else Take \<lparr>nt_key = key, nt_value = value, nt_effect = effect\<rparr>)))"

definition taint_id :: "NodeTaint \<Rightarrow> string" where
  "taint_id t = nt_key t @ '':'' @ nt_effect t"

fun taint_loop :: "NodeTaint list \<Rightarrow> string list \<Rightarrow> string list \<Rightarrow> NodeTaint list \<times> string list" where
  "taint_loop ts ws [] = (ts, ws)"
| "taint_loop ts ws (i # is) = (case taint_item (map taint_id ts) i of
     Blank \<Rightarrow> taint_loop ts ws is
   | Warn w \<Rightarrow> taint_loop ts (ws @ [w]) is
   | Take t \<Rightarrow> taint_loop (ts @ [t]) ws is)"

definition ParseNodeTaints :: "string \<Rightarrow> NodeTaint list \<times> string list" where
  "ParseNodeTaints raw = (let r = trim_space raw in if r = [] then ([], []) else taint_loop [] [] (split_on (CHR '';'') r))"

section \<open>Labels the kubelet may set\<close>

definition kubeletForbiddenLabelKey :: "string \<Rightarrow> bool" where
  "kubeletForbiddenLabelKey key = (case cut_at (CHR ''/'') key of None \<Rightarrow> False
   | Some (pre, _) \<Rightarrow>
      (pre = ''kubernetes.io'' \<or> pre = ''k8s.io'' \<or> has_suffix pre ''.kubernetes.io'' \<or> has_suffix pre ''.k8s.io'')
      \<and> \<not> (pre = ''kubelet.kubernetes.io'' \<or> pre = ''node.kubernetes.io''
           \<or> has_suffix pre ''.kubelet.kubernetes.io'' \<or> has_suffix pre ''.node.kubernetes.io''))"

definition KubeletSafeLabels :: "(string \<times> string) list \<Rightarrow> (string \<times> string) list \<times> (string \<times> string) list" where
  "KubeletSafeLabels labels = (filter (\<lambda>(k, _). \<not> kubeletForbiddenLabelKey k) labels,
     filter (\<lambda>(k, _). kubeletForbiddenLabelKey k) labels)"

definition SortedLabelKeys :: "(string \<times> string) list \<Rightarrow> string list" where
  "SortedLabelKeys labels = sort (map fst labels)"

section \<open>What is accepted\<close>

definition valid_label :: "string \<times> string \<Rightarrow> bool" where
  "valid_label = (\<lambda>(k, v). validLabelKey k = None \<and> k \<notin> set reservedLabelKeys \<and> (v = [] \<or> labelValueRe v))"

definition valid_taint :: "NodeTaint \<Rightarrow> bool" where
  "valid_taint t \<longleftrightarrow> nt_effect t \<in> set validTaintEffects \<and> validLabelKey (nt_key t) = None
     \<and> \<not> has_prefix (nt_key t) ''node-role.kubernetes.io/'' \<and> \<not> has_prefix (nt_key t) ''node.kubernetes.io/''
     \<and> (nt_value t = [] \<or> labelValueRe (nt_value t))"

lemma label_item_valid: "label_item i = Take kv \<Longrightarrow> valid_label kv"
  by (auto simp: label_item_def valid_label_def Let_def split: if_splits prod.splits option.splits)

lemma taint_item_valid: "taint_item seen i = Take t \<Longrightarrow> valid_taint t \<and> taint_id t \<notin> set seen"
  by (auto simp: taint_item_def valid_taint_def taint_id_def Let_def split: if_splits prod.splits option.splits)

lemma in_updated: "x \<in> set (AList.update k v ls) \<Longrightarrow> x = (k, v) \<or> x \<in> set ls"
  by (induction ls) (auto split: if_splits)

lemma label_loop_inv:
  assumes "label_loop ls ws is = (ls', ws')" "list_all valid_label ls" "distinct (map fst ls)"
  shows "list_all valid_label ls' \<and> distinct (map fst ls')"
  using assms
proof (induction "is" arbitrary: ls ws)
  case (Cons i "is")
  show ?case
  proof (cases "label_item i")
    case (Take kv)
    obtain k v where kv: "kv = (k, v)" by (cases kv)
    have "list_all valid_label (AList.update k v ls)"
      using label_item_valid [OF Take] Cons.prems(2) kv by (auto simp: list_all_iff dest!: in_updated)
    then show ?thesis using Cons Take kv by (auto simp: distinct_update)
  qed (use Cons in auto)
qed simp

lemma taint_loop_inv:
  assumes "taint_loop ts ws is = (ts', ws')" "list_all valid_taint ts" "distinct (map taint_id ts)"
  shows "list_all valid_taint ts' \<and> distinct (map taint_id ts')"
  using assms
proof (induction "is" arbitrary: ts ws)
  case (Cons i "is")
  show ?case
  proof (cases "taint_item (map taint_id ts) i")
    case (Take t)
    then show ?thesis using Cons taint_item_valid [OF Take] by auto
  qed (use Cons in auto)
qed simp


text \<open>The split for the kubelet loses nothing: every label goes to exactly one side, with its
  value, and none that the kubelet refuses is passed to it.\<close>

theorem kubelet_split:
  "KubeletSafeLabels labels = (safe, api) \<Longrightarrow>
   set safe \<union> set api = set labels \<and> set safe \<inter> set api = {} \<and> length safe + length api = length labels
   \<and> list_all (\<lambda>(k, _). \<not> kubeletForbiddenLabelKey k) safe \<and> list_all (\<lambda>(k, _). kubeletForbiddenLabelKey k) api"
proof -
  assume "KubeletSafeLabels labels = (safe, api)"
  then have s: "safe = filter (\<lambda>(k, _). \<not> kubeletForbiddenLabelKey k) labels" "api = filter (\<lambda>(k, _). kubeletForbiddenLabelKey k) labels"
    by (auto simp: KubeletSafeLabels_def)
  have "length safe + length api = length labels"
    unfolding s using sum_length_filter_compl [of "\<lambda>(k, _). kubeletForbiddenLabelKey k" labels]
    by (simp add: case_prod_unfold)
  then show ?thesis unfolding s by (auto simp: list_all_iff)
qed

theorem kubelet_split_witness:
  "length (fst (KubeletSafeLabels [(''a'', ''1''), (''node-role.kubernetes.io/x'', '''')]))
   + length (snd (KubeletSafeLabels [(''a'', ''1''), (''node-role.kubernetes.io/x'', '''')])) = 2"
  using kubelet_split [OF prod.collapse [symmetric], of "[(''a'', ''1''), (''node-role.kubernetes.io/x'', '''')]"] by simp

section \<open>Rendering and reading back\<close>

definition key_char :: "char \<Rightarrow> bool" where
  "key_char c \<longleftrightarrow> is_alnum c \<or> c \<in> {CHR ''.'', CHR ''_'', CHR ''-'', CHR ''/''}"

lemma edged_chars: "edged e i s \<Longrightarrow> c \<in> set s \<Longrightarrow> e c \<or> i c"
  by (auto simp: edged_def list_all_iff)

lemma qualified_chars: "qualifiedNameRe s \<Longrightarrow> list_all key_char s"
  by (auto simp: qualifiedNameRe_def key_char_def list_all_iff dest: edged_chars)

lemma value_chars: "labelValueRe s \<Longrightarrow> list_all key_char s"
  by (auto simp: labelValueRe_def key_char_def list_all_iff dest: edged_chars)

lemma in_join: "c \<in> set (join sep ls) \<Longrightarrow> c \<in> set sep \<or> (\<exists>l\<in>set ls. c \<in> set l)"
  by (induction sep ls rule: join.induct) auto

lemma dns_chars: "dnsSubdomainRe s \<Longrightarrow> list_all key_char s"
proof -
  assume d: "dnsSubdomainRe s"
  have "key_char c" if "c \<in> set s" for c
  proof -
    from that have "c \<in> set (join ''.'' (split_on (CHR ''.'') s))" by (simp add: join_split)
    from in_join [OF this] d show ?thesis
      by (auto simp: dnsSubdomainRe_def list_all_iff key_char_def is_alnum_def dest!: edged_chars)
  qed
  then show ?thesis by (simp add: list_all_iff)
qed

lemma valid_key_chars: "validLabelKey k = None \<Longrightarrow> k \<noteq> [] \<and> list_all key_char k"
proof -
  assume v: "validLabelKey k = None"
  show ?thesis
  proof (cases "cut_at (CHR ''/'') k")
    case None
    with v show ?thesis using qualified_chars by (auto simp: validLabelKey_def split: if_splits)
  next
    case (Some pq)
    obtain p q where pq: "pq = (p, q)" by (cases pq)
    with Some have k: "k = p @ CHR ''/'' # q" using cut_at_SomeD by blast
    from v Some pq have "dnsSubdomainRe p" "qualifiedNameRe q" by (auto simp: validLabelKey_def split: if_splits)
    then show ?thesis using dns_chars qualified_chars by (simp add: k key_char_def)
  qed
qed

lemma key_char_not_space: "key_char c \<Longrightarrow> \<not> is_space c \<and> c \<noteq> CHR '';'' \<and> c \<noteq> CHR ''='' \<and> c \<noteq> CHR '':''"
  by (auto simp: key_char_def is_alnum_def is_lower_def is_digit_def is_space_def)

lemma key_word: "list_all key_char k \<Longrightarrow> k \<noteq> [] \<Longrightarrow> word_str k"
  using key_char_not_space by (auto simp: word_str_def list_all_iff)

lemma key_trim: "list_all key_char k \<Longrightarrow> trim_space k = k"
  by (cases "k = []") (simp_all add: trim_space_word key_word)

lemma cut_eq_pair: "list_all key_char k \<Longrightarrow> list_all key_char v \<Longrightarrow> cut_eq (k @ ''='' @ v) = (k, v)"
proof -
  assume kv: "list_all key_char k" "list_all key_char v"
  then have "CHR ''='' \<notin> set k" using key_char_not_space by (auto simp: list_all_iff)
  then have "cut_at (CHR ''='') (k @ ''='' @ v) = Some (k, v)" using cut_at_append by fastforce
  then show ?thesis using kv by (simp add: cut_eq_def key_trim)
qed

lemma cut_none: "c \<notin> set s \<Longrightarrow> cut_at c s = None"
  by (auto simp: cut_at_def takeWhile_eq_all_conv)

lemma cut_eq_bare: "list_all key_char k \<Longrightarrow> cut_eq k = (k, [])"
proof -
  assume k: "list_all key_char k"
  then have "CHR ''='' \<notin> set k" using key_char_not_space by (auto simp: list_all_iff)
  with k show ?thesis by (simp add: cut_eq_def cut_none key_trim)
qed

text \<open>An item is text without blanks or separators; a list of them survives the outer trim and split.\<close>

definition item_text :: "string \<Rightarrow> bool" where
  "item_text s \<longleftrightarrow> s \<noteq> [] \<and> list_all (\<lambda>c. key_char c \<or> c = CHR ''='' \<or> c = CHR '':'') s"

lemma item_word: "item_text s \<Longrightarrow> word_str s \<and> CHR '';'' \<notin> set s"
  using key_char_not_space by (force simp: item_text_def word_str_def list_all_iff is_space_def)

lemma items_split:
  assumes "list_all item_text is" "is \<noteq> []"
  shows "trim_space (join '';'' is) = join '';'' is \<and> join '';'' is \<noteq> [] \<and> split_on (CHR '';'') (join '';'' is) = is"
proof -
  have w: "list_all (\<lambda>c. \<not> is_space c) (join '';'' is)"
    using assms(1) item_word by (auto simp: list_all_iff word_str_def is_space_def dest!: in_join)
  have ne: "join '';'' is \<noteq> []" using assms by (cases "is" rule: list.exhaust; cases "tl is") (auto simp: item_text_def)
  have "split_on (CHR '';'') (join '';'' is) = is"
    using assms item_word by (intro split_join) (auto simp: list_all_iff)
  with w ne show ?thesis by (simp add: trim_space_word word_str_def)
qed

definition label_text :: "string \<times> string \<Rightarrow> string" where
  "label_text = (\<lambda>(k, v). k @ ''='' @ v)"

lemma label_text_item: "valid_label kv \<Longrightarrow> item_text (label_text kv) \<and> label_item (label_text kv) = Take kv"
proof -
  assume valid: "valid_label kv"
  obtain k v where kv: "kv = (k, v)" by (cases kv)
  have k: "k \<noteq> []" "list_all key_char k" and v: "list_all key_char v"
    using valid valid_key_chars value_chars by (auto simp: valid_label_def kv)
  have it: "item_text (label_text kv)" using k v by (auto simp: item_text_def label_text_def kv list_all_iff)
  then have "trim_space (label_text kv) = label_text kv" "label_text kv \<noteq> []"
    using item_word trim_space_word by (auto simp: item_text_def)
  moreover have "cut_eq (label_text kv) = (k, v)" using cut_eq_pair k v by (simp add: label_text_def kv)
  ultimately have "label_item (label_text kv) = Take kv"
    using valid by (auto simp: label_item_def valid_label_def kv)
  with it show ?thesis by blast
qed

lemma update_new: "k \<notin> fst ` set ls \<Longrightarrow> AList.update k v ls = ls @ [(k, v)]"
  by (induction ls) auto

lemma label_loop_texts:
  "list_all valid_label ls \<Longrightarrow> distinct (map fst (acc @ ls)) \<Longrightarrow> label_loop acc ws (map label_text ls) = (acc @ ls, ws)"
proof (induction ls arbitrary: acc)
  case (Cons kv ls)
  obtain k v where kv: "kv = (k, v)" by (cases kv)
  then have "AList.update k v acc = acc @ [kv]" using Cons.prems(2) update_new [of k acc v] by auto
  then show ?case using Cons label_text_item kv by simp
qed simp

lemma effect_chars: "e \<in> set validTaintEffects \<Longrightarrow> e \<noteq> [] \<and> list_all key_char e"
  by (auto simp: validTaintEffects_def key_char_def is_alnum_def is_lower_def)

lemma cutLast_append: "c \<notin> set b \<Longrightarrow> cutLast c (a @ c # b) = Some (a, b)"
proof -
  assume "c \<notin> set b"
  then have "cut_at c (rev b @ c # rev a) = Some (rev b, rev a)" by (intro cut_at_append) simp
  then show ?thesis by (simp add: cutLast_def)
qed

lemma taint_text_item:
  assumes "valid_taint t"
  shows "item_text (NodeTaint_String t) \<and> (taint_id t \<notin> set seen \<longrightarrow> taint_item seen (NodeTaint_String t) = Take t)"
proof -
  let ?body = "if nt_value t = [] then nt_key t else nt_key t @ ''='' @ nt_value t"
  have k: "nt_key t \<noteq> []" "list_all key_char (nt_key t)" and v: "list_all key_char (nt_value t)"
    and eff: "nt_effect t \<noteq> []" "list_all key_char (nt_effect t)"
    using assms valid_key_chars value_chars effect_chars by (auto simp: valid_taint_def)
  have shown: "NodeTaint_String t = ?body @ CHR '':'' # nt_effect t" by (simp add: NodeTaint_String_def)
  have it: "item_text (NodeTaint_String t)" unfolding shown using k v eff by (auto simp: item_text_def list_all_iff)
  then have trim: "trim_space (NodeTaint_String t) = NodeTaint_String t" "NodeTaint_String t \<noteq> []"
    using item_word trim_space_word by (auto simp: item_text_def)
  have "CHR '':'' \<notin> set (nt_effect t)" using eff key_char_not_space by (auto simp: list_all_iff)
  then have "cutLast (CHR '':'') (NodeTaint_String t) = Some (?body, nt_effect t)"
    unfolding shown by (rule cutLast_append)
  moreover have "cut_eq ?body = (nt_key t, nt_value t)" using cut_eq_pair [OF k(2) v] cut_eq_bare [OF k(2)] by simp
  ultimately have "taint_item seen (NodeTaint_String t) = Take t" if "taint_id t \<notin> set seen"
    using assms trim that by (auto simp: taint_item_def valid_taint_def taint_id_def Let_def)
  with it show ?thesis by blast
qed

lemma taint_loop_texts:
  "list_all valid_taint ts \<Longrightarrow> distinct (map taint_id (acc @ ts)) \<Longrightarrow> taint_loop acc ws (map NodeTaint_String ts) = (acc @ ts, ws)"
proof (induction ts arbitrary: acc)
  case (Cons t ts)
  then have "taint_item (map taint_id acc) (NodeTaint_String t) = Take t" using taint_text_item by auto
  then show ?case using Cons by simp
qed simp

text \<open>C28: valid labels and taints survive their textual form: written as NODE_LABELS and NODE_TAINTS
  have them, they are read back exactly, in order and without a warning.\<close>

theorem node_metadata_roundtrip:
  assumes "list_all valid_label ls" "distinct (map fst ls)" "list_all valid_taint ts" "distinct (map taint_id ts)"
  shows "ParseNodeLabels (join '';'' (map label_text ls)) = (ls, []) \<and>
    ParseNodeTaints (join '';'' (map NodeTaint_String ts)) = (ts, [])"
proof
  show "ParseNodeLabels (join '';'' (map label_text ls)) = (ls, [])"
  proof (cases "ls = []")
    case False
    have "list_all item_text (map label_text ls)" using assms(1) label_text_item by (auto simp: list_all_iff)
    from items_split [OF this] False label_loop_texts [OF assms(1), of "[]"] assms(2)
    show ?thesis by (simp add: ParseNodeLabels_def)
  qed (simp add: ParseNodeLabels_def)
  show "ParseNodeTaints (join '';'' (map NodeTaint_String ts)) = (ts, [])"
  proof (cases "ts = []")
    case False
    have "list_all item_text (map NodeTaint_String ts)" using assms(3) taint_text_item by (auto simp: list_all_iff)
    from items_split [OF this] False taint_loop_texts [OF assms(3), of "[]"] assms(4)
    show ?thesis by (simp add: ParseNodeTaints_def)
  qed (simp add: ParseNodeTaints_def)
qed

theorem node_metadata_roundtrip_witness:
  "ParseNodeLabels ''gpu=a100;example.com/tier='' = ([(''gpu'', ''a100''), (''example.com/tier'', '''')], [])
   \<and> ParseNodeTaints ''gpu=yes:NoSchedule'' = ([\<lparr>nt_key = ''gpu'', nt_value = ''yes'', nt_effect = ''NoSchedule''\<rparr>], [])"
proof -
  let ?ls = "[(''gpu'', ''a100''), (''example.com/tier'', '''')]"
  let ?ts = "[\<lparr>nt_key = ''gpu'', nt_value = ''yes'', nt_effect = ''NoSchedule''\<rparr>]"
  have "list_all valid_label ?ls" "distinct (map fst ?ls)" "list_all valid_taint ?ts" "distinct (map taint_id ?ts)"
    "join '';'' (map label_text ?ls) = ''gpu=a100;example.com/tier=''" "join '';'' (map NodeTaint_String ?ts) = ''gpu=yes:NoSchedule''"
    by code_simp+
  then show ?thesis using node_metadata_roundtrip [of ?ls ?ts] by metis
qed

end
