(* ===== verification/Config.thy ===== *)
theory Config
  imports VersionMap NodeMeta
begin

text \<open>
  internal/config/config.go and internal/config/heatparams.go: the node's configuration, read
  from the heat-params file, and what the reconciler derives from it. The records have the
  fields of the source. Options that come from the environment are arguments: the SHA-256 of
  the standard library, whether /sys/fs/cgroup is a cgroup2 mount, the version of the build and
  the answers of the metadata service.
\<close>

section \<open>The configuration\<close>

record SharedConfig =
  InstanceName :: string
  NodegroupRole :: string
  NodegroupName :: string
  Arch :: string
  TLSDisabled :: bool
  KubeTag :: string
  KubeVersion :: string
  KubeAPIPort :: int
  ClusterUUID :: string
  NetworkDriver :: string
  ContainerRuntime :: string
  SELinuxMode :: string
  ReconcilerVersion :: string
  ReconcilerBinaryURL :: string
  ReconcilerBinaryURLSHA256 :: string
  AuthURL :: string
  TrusteeUserID :: string
  TrusteePassword :: string
  TrustID :: string
  OctaviaEnabled :: bool
  ClusterSubnet :: string
  ExternalNetworkID :: string
  ClusterNetworkName :: string
  HTTPProxy :: string
  HTTPSProxy :: string
  NoProxy :: string
  CgroupDriver :: string
  UsePodman :: bool
  ContainerInfraPrefix :: string
  HeatContainerAgentTag :: string
  KubeNodeIP :: string
  KubeNodePublicIP :: string
  PortalNetworkCIDR :: string
  PodsNetworkCIDR :: string
  KubeAllowPriv :: string
  AdmissionControlList :: string
  KeystoneAuthEnabled :: bool
  CloudProviderEnabled :: bool
  CertManagerAPI :: bool
  CAKey :: string
  KubeServiceAccountKey :: string
  KubeServiceAccountPrivateKey :: string
  VerifyCA :: bool
  MagnumURL :: string
  DNSServiceIP :: string
  DNSClusterDomain :: string
  DockerVolume :: string
  DockerVolumeSize :: int
  DockerStorageDriver :: string
  EnableCinder :: bool
  InsecureRegistryURL :: string
  KubeletOptions :: string
  KubeAPIOptions :: string
  KubeControllerOptions :: string
  KubeProxyOptions :: string
  KubeSchedulerOptions :: string
  KubeSchedulerScoringStrategy :: string
  KubeFiles :: string
  LeadNodeRoleName :: string
  KubeImageDigest :: string
  NodeLabels :: "(string \<times> string) list"
  NodeTaints :: "NodeTaint list"
  NodeMetadataWarnings :: "string list"
  RegionName :: string
  FlannelBackend :: string
  FlannelNetworkCIDR :: string
  KubeDashboardEnabled :: bool
  MetricsServerEnabled :: bool
  AutoHealingEnabled :: bool
  AutoHealingController :: string
  AutoScalingEnabled :: bool
  MinNodeCount :: int
  MaxNodeCount :: int
  VolumeDriver :: string
  CinderCSIEnabled :: bool
  CinderCSIDefaultStorageClass :: string
  ManilaCSIEnabled :: bool
  ManilaShareType :: string
  GPUOperatorEnabled :: bool
  OSAutoUpgradeEnabled :: bool
  PostInstallManifestURL :: string

record MasterConfig =
  NumberOfMasters :: int
  KubeAPIPublicAddress :: string
  KubeAPIPrivateAddress :: string
  InitialCluster :: string
  MasterHostname :: string
  EtcdLBVIP :: string
  EtcdVolume :: string
  EtcdVolumeSize :: int

record WorkerConfig =
  KubeMasterIP :: string
  EtcdServerIP :: string
  RegistryEnabled :: bool
  RegistryPort :: int
  RegistryContainer :: string
  RegistryInsecure :: bool
  RegistryChunksize :: int
  SwiftRegion :: string
  TrusteeUsername :: string
  TrusteeDomainID :: string

record TriggerConfig =
  CARotationID :: string
  AppliedCARotationID :: string

record Config =
  InputChecksum :: string
  Raw :: "(string \<times> string) list"
  Shared :: SharedConfig
  Master :: "MasterConfig option"
  Worker :: "WorkerConfig option"
  Trigger :: TriggerConfig
  Distro :: string

section \<open>Values\<close>

definition parseBool :: "string \<Rightarrow> bool" where
  "parseBool v \<longleftrightarrow> to_lower (trim_space v) \<in> {''1'', ''true'', ''yes'', ''y''}"

definition parseFalse :: "string \<Rightarrow> bool" where
  "parseFalse v \<longleftrightarrow> to_lower (trim_space v) \<in> {''0'', ''false'', ''no'', ''n''}"

definition parseInt :: "string \<Rightarrow> int" where
  "parseInt v = (case atoi (trim_space v) of None \<Rightarrow> 0 | Some n \<Rightarrow> n)"

type_synonym raw_params = "(string \<times> string) list"

definition rget :: "raw_params \<Rightarrow> string \<Rightarrow> string" where
  "rget raw k = (case map_of raw k of None \<Rightarrow> [] | Some v \<Rightarrow> v)"

text \<open>A literal of one quote character alone is not a quoted value; Unquote also reads a literal
  in backquotes or single quotes, which a double-quoted value is not.\<close>

definition decodeValue :: "string \<Rightarrow> string" where
  "decodeValue v = (case (if length v \<ge> 2 \<and> has_prefix v [CHR 0x22] \<and> has_suffix v [CHR 0x22] then go_unquote v else None) of
     Some u \<Rightarrow> u
   | None \<Rightarrow> if length v \<ge> 2 \<and> has_prefix v [CHR 0x27] \<and> has_suffix v [CHR 0x27] then butlast (tl v) else v)"

definition param_line :: "string \<Rightarrow> (string \<times> string) option" where
  "param_line text = (let line = trim_space text in
     if line = [] \<or> has_prefix line ''#'' then None
     else case cut_at (CHR ''='') line of None \<Rightarrow> None
       | Some (k, v) \<Rightarrow> if trim_space k = [] then None else Some (trim_space k, decodeValue (trim_space v)))"

fun param_loop :: "raw_params \<Rightarrow> string list \<Rightarrow> raw_params" where
  "param_loop raw [] = raw"
| "param_loop raw (l # ls) = (case param_line l of None \<Rightarrow> param_loop raw ls
     | Some (k, v) \<Rightarrow> param_loop (AList.update k v raw) ls)"

text \<open>The scanner gives up on a line of four mebibytes.\<close>

definition maxLine :: int where "maxLine = 4194304"

definition parseHeatParams :: "string \<Rightarrow> raw_params option" where
  "parseHeatParams text = (let ls = split_on (CHR 0x0A) text in
     if list_ex (\<lambda>l. int (length l) \<ge> maxLine) ls then None else Some (param_loop [] ls))"

definition shared_of_raw :: "raw_params \<Rightarrow> SharedConfig" where
  "shared_of_raw raw = \<lparr>
     InstanceName = rget raw ''INSTANCE_NAME'',
     NodegroupRole = rget raw ''NODEGROUP_ROLE'',
     NodegroupName = rget raw ''NODEGROUP_NAME'',
     Arch = rget raw ''ARCH'',
     TLSDisabled = parseBool (rget raw ''TLS_DISABLED''),
     KubeTag = rget raw ''KUBE_TAG'',
     KubeVersion = rget raw ''KUBE_VERSION'',
     KubeAPIPort = parseInt (rget raw ''KUBE_API_PORT''),
     ClusterUUID = rget raw ''CLUSTER_UUID'',
     NetworkDriver = rget raw ''NETWORK_DRIVER'',
     ContainerRuntime = rget raw ''CONTAINER_RUNTIME'',
     SELinuxMode = rget raw ''SELINUX_MODE'',
     ReconcilerVersion = rget raw ''RECONCILER_VERSION'',
     ReconcilerBinaryURL = rget raw ''RECONCILER_BINARY_URL'',
     ReconcilerBinaryURLSHA256 = rget raw ''RECONCILER_BINARY_URL_SHA256'',
     AuthURL = rget raw ''AUTH_URL'',
     TrusteeUserID = rget raw ''TRUSTEE_USER_ID'',
     TrusteePassword = rget raw ''TRUSTEE_PASSWORD'',
     TrustID = rget raw ''TRUST_ID'',
     OctaviaEnabled = parseBool (rget raw ''OCTAVIA_ENABLED''),
     ClusterSubnet = rget raw ''CLUSTER_SUBNET'',
     ExternalNetworkID = rget raw ''EXTERNAL_NETWORK_ID'',
     ClusterNetworkName = rget raw ''CLUSTER_NETWORK_NAME'',
     HTTPProxy = rget raw ''HTTP_PROXY'',
     HTTPSProxy = rget raw ''HTTPS_PROXY'',
     NoProxy = rget raw ''NO_PROXY'',
     CgroupDriver = rget raw ''CGROUP_DRIVER'',
     UsePodman = parseBool (rget raw ''USE_PODMAN''),
     ContainerInfraPrefix = rget raw ''CONTAINER_INFRA_PREFIX'',
     HeatContainerAgentTag = rget raw ''HEAT_CONTAINER_AGENT_TAG'',
     KubeNodeIP = rget raw ''KUBE_NODE_IP'',
     KubeNodePublicIP = rget raw ''KUBE_NODE_PUBLIC_IP'',
     PortalNetworkCIDR = rget raw ''PORTAL_NETWORK_CIDR'',
     PodsNetworkCIDR = rget raw ''PODS_NETWORK_CIDR'',
     KubeAllowPriv = rget raw ''KUBE_ALLOW_PRIV'',
     AdmissionControlList = rget raw ''ADMISSION_CONTROL_LIST'',
     KeystoneAuthEnabled = parseBool (rget raw ''KEYSTONE_AUTH_ENABLED''),
     CloudProviderEnabled = parseBool (rget raw ''CLOUD_PROVIDER_ENABLED''),
     CertManagerAPI = parseBool (rget raw ''CERT_MANAGER_API''),
     CAKey = rget raw ''CA_KEY'',
     KubeServiceAccountKey = rget raw ''KUBE_SERVICE_ACCOUNT_KEY'',
     KubeServiceAccountPrivateKey = rget raw ''KUBE_SERVICE_ACCOUNT_PRIVATE_KEY'',
     VerifyCA = (\<not> parseFalse (rget raw ''VERIFY_CA'')),
     MagnumURL = rget raw ''MAGNUM_URL'',
     DNSServiceIP = rget raw ''DNS_SERVICE_IP'',
     DNSClusterDomain = rget raw ''DNS_CLUSTER_DOMAIN'',
     DockerVolume = rget raw ''DOCKER_VOLUME'',
     DockerVolumeSize = parseInt (rget raw ''DOCKER_VOLUME_SIZE''),
     DockerStorageDriver = rget raw ''DOCKER_STORAGE_DRIVER'',
     EnableCinder = (\<not> parseFalse (rget raw ''ENABLE_CINDER'')),
     InsecureRegistryURL = rget raw ''INSECURE_REGISTRY_URL'',
     KubeletOptions = rget raw ''KUBELET_OPTIONS'',
     KubeAPIOptions = rget raw ''KUBEAPI_OPTIONS'',
     KubeControllerOptions = rget raw ''KUBECONTROLLER_OPTIONS'',
     KubeProxyOptions = rget raw ''KUBEPROXY_OPTIONS'',
     KubeSchedulerOptions = rget raw ''KUBESCHEDULER_OPTIONS'',
     KubeSchedulerScoringStrategy = rget raw ''KUBE_SCHEDULER_SCORING_STRATEGY'',
     KubeFiles = rget raw ''KUBE_FILES'',
     LeadNodeRoleName = rget raw ''LEAD_NODE_ROLE_NAME'',
     KubeImageDigest = rget raw ''KUBE_IMAGE_DIGEST'',
     NodeLabels = fst (ParseNodeLabels (rget raw ''NODE_LABELS'')),
     NodeTaints = fst (ParseNodeTaints (rget raw ''NODE_TAINTS'')),
     NodeMetadataWarnings = snd (ParseNodeLabels (rget raw ''NODE_LABELS'')) @ snd (ParseNodeTaints (rget raw ''NODE_TAINTS'')),
     RegionName = rget raw ''REGION_NAME'',
     FlannelBackend = rget raw ''FLANNEL_BACKEND'',
     FlannelNetworkCIDR = rget raw ''FLANNEL_NETWORK_CIDR'',
     KubeDashboardEnabled = parseBool (rget raw ''KUBE_DASHBOARD_ENABLED''),
     MetricsServerEnabled = parseBool (rget raw ''METRICS_SERVER_ENABLED''),
     AutoHealingEnabled = parseBool (rget raw ''AUTO_HEALING_ENABLED''),
     AutoHealingController = rget raw ''AUTO_HEALING_CONTROLLER'',
     AutoScalingEnabled = parseBool (rget raw ''AUTO_SCALING_ENABLED''),
     MinNodeCount = parseInt (rget raw ''MIN_NODE_COUNT''),
     MaxNodeCount = parseInt (rget raw ''MAX_NODE_COUNT''),
     VolumeDriver = rget raw ''VOLUME_DRIVER'',
     CinderCSIEnabled = parseBool (rget raw ''CINDER_CSI_ENABLED''),
     CinderCSIDefaultStorageClass = rget raw ''CINDER_CSI_DEFAULT_STORAGE_CLASS'',
     ManilaCSIEnabled = parseBool (rget raw ''MANILA_CSI_ENABLED''),
     ManilaShareType = rget raw ''MANILA_SHARE_TYPE'',
     GPUOperatorEnabled = parseBool (rget raw ''GPU_OPERATOR_ENABLED''),
     OSAutoUpgradeEnabled = parseBool (rget raw ''OS_AUTOUPGRADE_ENABLED''),
     PostInstallManifestURL = rget raw ''POST_INSTALL_MANIFEST_URL''\<rparr>"

definition master_of_raw :: "raw_params \<Rightarrow> MasterConfig" where
  "master_of_raw raw = \<lparr>NumberOfMasters = parseInt (rget raw ''NUMBER_OF_MASTERS''),
     KubeAPIPublicAddress = rget raw ''KUBE_API_PUBLIC_ADDRESS'',
     KubeAPIPrivateAddress = rget raw ''KUBE_API_PRIVATE_ADDRESS'',
     InitialCluster = rget raw ''ETCD_INITIAL_CLUSTER'',
     MasterHostname = rget raw ''MASTER_HOSTNAME'',
     EtcdLBVIP = rget raw ''ETCD_LB_VIP'',
     EtcdVolume = rget raw ''ETCD_VOLUME'',
     EtcdVolumeSize = parseInt (rget raw ''ETCD_VOLUME_SIZE'')\<rparr>"

definition workerConfigFromRaw :: "raw_params \<Rightarrow> WorkerConfig" where
  "workerConfigFromRaw raw = \<lparr>KubeMasterIP = rget raw ''KUBE_MASTER_IP'',
     EtcdServerIP = rget raw ''ETCD_SERVER_IP'',
     RegistryEnabled = parseBool (rget raw ''REGISTRY_ENABLED''),
     RegistryPort = parseInt (rget raw ''REGISTRY_PORT''),
     RegistryContainer = rget raw ''REGISTRY_CONTAINER'',
     RegistryInsecure = parseBool (rget raw ''REGISTRY_INSECURE''),
     RegistryChunksize = parseInt (rget raw ''REGISTRY_CHUNKSIZE''),
     SwiftRegion = rget raw ''SWIFT_REGION'',
     TrusteeUsername = rget raw ''TRUSTEE_USERNAME'',
     TrusteeDomainID = rget raw ''TRUSTEE_DOMAIN_ID''\<rparr>"
definition master_name :: "string \<Rightarrow> bool" where
  "master_name role \<longleftrightarrow> role = ''master'' \<or> role = ''control-plane''"

definition worker_name :: "string \<Rightarrow> bool" where
  "worker_name role \<longleftrightarrow> role = ''worker'' \<or> role = ''minion''"

section \<open>The operating system of the node\<close>

fun os_release_id :: "string list \<Rightarrow> string" where
  "os_release_id [] = []"
| "os_release_id (l # ls) = (let line = trim_space l in
     if has_prefix line ''ID='' then to_lower (trim_cut (trim_space (drop 3 line)) [CHR 0x22, CHR 0x27])
     else os_release_id ls)"

definition parseOSReleaseID :: "string \<Rightarrow> string" where
  "parseOSReleaseID text = os_release_id (split_on (CHR 0x0A) text)"

fun first_release_id :: "string list \<Rightarrow> ('z os_scheme, string) io" where
  "first_release_id [] = ret []"
| "first_release_id (p # ps) = attempt (read_file p) (\<lambda>r. case r of
     Inl _ \<Rightarrow> first_release_id ps
   | Inr d \<Rightarrow> if parseOSReleaseID d \<noteq> [] then ret (parseOSReleaseID d) else first_release_id ps)"

definition detectDistro :: "('z os_scheme, string) io" where
  "detectDistro = first_release_id [''/etc/os-release'', ''/usr/lib/os-release'']"

definition IsUbuntu :: "Config \<Rightarrow> bool" where
  "IsUbuntu c = (let d = to_lower (Distro c) in contains d ''ubuntu'' \<or> contains d ''debian'')"

definition IsFCoS :: "Config \<Rightarrow> bool" where
  "IsFCoS c \<longleftrightarrow> \<not> IsUbuntu c"

section \<open>Loading\<close>

definition host_docker_fix :: "SharedConfig \<Rightarrow> SharedConfig" where
  "host_docker_fix s = (if to_lower (ContainerRuntime s) = ''host-docker'' \<and> KubeMinorAtLeast (KubeTag s) 24
     then s\<lparr>ContainerRuntime := ''containerd''\<rparr> else s)"

definition kube_version_fix :: "SharedConfig \<Rightarrow> SharedConfig" where
  "kube_version_fix s = (if parseMajorMinor (KubeVersion s) = None then s\<lparr>KubeVersion := KubeTag s\<rparr> else s)"

definition role_text :: "raw_params \<Rightarrow> string" where
  "role_text raw = to_lower (trim_space (rget raw ''NODEGROUP_ROLE''))"

definition config_of_raw :: "string \<Rightarrow> string \<Rightarrow> raw_params \<Rightarrow> Config" where
  "config_of_raw sm distro raw = \<lparr>InputChecksum = sm, Raw = raw,
     Shared = host_docker_fix (kube_version_fix (shared_of_raw raw)),
     Master = (if master_name (role_text raw) then Some (master_of_raw raw) else None),
     Worker = (if master_name (role_text raw) then None
               else if worker_name (role_text raw) then Some (workerConfigFromRaw raw)
               else if role_text raw \<noteq> [] then Some (workerConfigFromRaw raw) else None),
     Trigger = \<lparr>CARotationID = trim_space (rget raw ''CA_ROTATION_ID''), AppliedCARotationID = []\<rparr>,
     Distro = distro\<rparr>"

definition Load :: "(string \<Rightarrow> string) \<Rightarrow> string \<Rightarrow> ('z os_scheme, Config) io" where
  "Load sha path = andthen (wrapping (''read '' @ path) (read_file path)) (\<lambda>text.
     case parseHeatParams text of None \<Rightarrow> throw (Wrap (''parse '' @ path) (Err ''token too long''))
     | Some raw \<Rightarrow>
       let d = to_lower (trim_space (rget raw ''OS_DISTRO'')) in
       andthen (if d \<noteq> [] then ret d else detectDistro) (\<lambda>distro. ret (config_of_raw (sha text) distro raw)))"

section \<open>What is derived\<close>

definition RoleUnknown :: string where "RoleUnknown = ''unknown''"
definition RoleMaster :: string where "RoleMaster = ''master''"
definition RoleWorker :: string where "RoleWorker = ''worker''"
definition OperationCreate :: string where "OperationCreate = ''create''"
definition OperationCARotate :: string where "OperationCARotate = ''ca-rotate''"

definition Role :: "Config \<Rightarrow> string" where
  "Role c = (let role = to_lower (trim_space (NodegroupRole (Shared c))) in
     if master_name role then RoleMaster
     else if worker_name role then RoleWorker
     else if Master c \<noteq> None \<and> Worker c = None then RoleMaster
     else if Worker c \<noteq> None \<and> Master c = None then RoleWorker
     else RoleUnknown)"

definition Operation :: "Config \<Rightarrow> string" where
  "Operation c = (if CARotationID (Trigger c) \<noteq> [] \<and> CARotationID (Trigger c) \<noteq> AppliedCARotationID (Trigger c)
     then OperationCARotate else OperationCreate)"

definition IsPureCARotation :: "Config \<Rightarrow> bool" where
  "IsPureCARotation c \<longleftrightarrow> CARotationID (Trigger c) \<noteq> []"

definition ident_char :: "char \<Rightarrow> bool" where
  "ident_char c \<longleftrightarrow> is_alnum c \<or> c = CHR ''-''"

text \<open>A maximal run of other characters becomes one dash.\<close>

fun squash :: "bool \<Rightarrow> string \<Rightarrow> string" where
  "squash inrun [] = []"
| "squash inrun (c # s) = (if ident_char c then c # squash False s
     else if inrun then squash True s else CHR ''-'' # squash True s)"

definition sanitizeIdentifier :: "string \<Rightarrow> string" where
  "sanitizeIdentifier v = (let safe = trim_cut (squash False (to_lower v)) ''-'' in if safe = [] then ''unknown'' else safe)"

definition StackName :: "Config \<Rightarrow> string" where
  "StackName c = (let base = InstanceName (Shared c); base = (if base = [] then Role c else base);
     base = (if base = [] then ''unknown'' else base) in ''node-'' @ sanitizeIdentifier base)"

definition IsTaggedRelease :: "string \<Rightarrow> bool" where
  "IsTaggedRelease version \<longleftrightarrow> length version > 1 \<and> hd version = CHR ''v''
     \<and> \<not> contains version ''-dirty'' \<and> \<not> contains version ''-g''"

definition EffectiveReconcilerVersion :: "string \<Rightarrow> Config \<Rightarrow> string" where
  "EffectiveReconcilerVersion build c = (if IsTaggedRelease build then build else ReconcilerVersion (Shared c))"

definition GenerationToken :: "Config \<Rightarrow> string" where
  "GenerationToken c = (if Operation c = OperationCARotate then ''ca-rotate:'' @ CARotationID (Trigger c)
     else ''create:'' @ KubeTag (Shared c))"

definition IsFirstMaster :: "Config \<Rightarrow> bool" where
  "IsFirstMaster c \<longleftrightarrow> Role c = RoleMaster \<and> (has_suffix (InstanceName (Shared c)) ''master-0''
     \<or> (case Master c of None \<Rightarrow> False | Some m \<Rightarrow> NumberOfMasters m = 1))"

section \<open>The node address\<close>

text \<open>net.ParseIP accepts a dotted IPv4 address without leading zeros or an IPv6 address.\<close>

definition ip4_octet :: "string \<Rightarrow> bool" where
  "ip4_octet s \<longleftrightarrow> s \<noteq> [] \<and> length s \<le> 3 \<and> list_all is_digit s \<and> (length s > 1 \<longrightarrow> hd s \<noteq> CHR ''0'') \<and> digits_val s \<le> 255"

definition is_ip4 :: "string \<Rightarrow> bool" where
  "is_ip4 s \<longleftrightarrow> (let ps = split_on (CHR ''.'') s in length ps = 4 \<and> list_all ip4_octet ps)"

definition ip6_group :: "string \<Rightarrow> bool" where
  "ip6_group s \<longleftrightarrow> s \<noteq> [] \<and> length s \<le> 4 \<and> list_all (\<lambda>c. hex_val c \<noteq> None) s"

text \<open>The number of 16-bit groups of a colon-separated part; the last may be an IPv4 address.\<close>

definition ip6_groups :: "bool \<Rightarrow> string \<Rightarrow> nat option" where
  "ip6_groups v4 s = (if s = [] then Some 0 else let gs = split_on (CHR '':'') s in
     if list_all ip6_group gs then Some (length gs)
     else if v4 \<and> list_all ip6_group (butlast gs) \<and> is_ip4 (last gs) then Some (length gs + 1) else None)"

fun cut_double :: "string \<Rightarrow> string \<Rightarrow> (string \<times> string) option" where
  "cut_double acc (a # b # s) = (if a = CHR '':'' \<and> b = CHR '':'' then Some (rev acc, s) else cut_double (a # acc) (b # s))"
| "cut_double acc s = None"

definition is_ip6 :: "string \<Rightarrow> bool" where
  "is_ip6 s = (case cut_double [] s of
     None \<Rightarrow> ip6_groups True s = Some 8
   | Some (l, r) \<Rightarrow> (case (ip6_groups False l, ip6_groups True r) of
        (Some a, Some b) \<Rightarrow> cut_double [] r = None \<and> a + b \<le> 7 | _ \<Rightarrow> False))"

definition is_ip :: "string \<Rightarrow> bool" where
  "is_ip s \<longleftrightarrow> is_ip4 s \<or> is_ip6 s"

text \<open>\<open>meta\<close> is the metadata service: status and body of a request at a tick, or no answer.\<close>

definition fetchMetadataNodeIPOnce :: "(nat \<Rightarrow> (nat \<times> string) option) \<Rightarrow> ('z os_scheme, string) io" where
  "fetchMetadataNodeIPOnce meta w = (case meta (tick w) of
     None \<Rightarrow> (Inl IOErr, tock w)
   | Some (status, body) \<Rightarrow> if status \<noteq> 200 then (Inl (Err ''metadata service returned status''), tock w)
       else let ip = trim_space (take 256 body) in
         if \<not> is_ip ip then (Inl (Err ''metadata service returned no IP''), tock w) else (Inr ip, tock w))"

fun fetch_attempts :: "nat \<Rightarrow> (nat \<Rightarrow> (nat \<times> string) option) \<Rightarrow> ('z os_scheme, string) io" where
  "fetch_attempts 0 meta = ret []"
| "fetch_attempts (Suc n) meta = attempt (fetchMetadataNodeIPOnce meta) (\<lambda>r. case r of
     Inr ip \<Rightarrow> ret ip | Inl _ \<Rightarrow> if n = 0 then ret [] else andthen sleep (\<lambda>_. fetch_attempts n meta))"

definition fetchMetadataNodeIP :: "(nat \<Rightarrow> (nat \<times> string) option) \<Rightarrow> ('z os_scheme, string) io" where
  "fetchMetadataNodeIP meta = fetch_attempts 3 meta"

text \<open>The cache of sync.Once is passed along: the answer and the cache after the call.\<close>

definition ResolveNodeIP :: "(nat \<Rightarrow> (nat \<times> string) option) \<Rightarrow> Config \<Rightarrow> string option \<Rightarrow> ('z os_scheme, string \<times> string option) io" where
  "ResolveNodeIP meta c cache = (if KubeNodeIP (Shared c) \<noteq> [] then ret (KubeNodeIP (Shared c), cache)
     else case cache of Some ip \<Rightarrow> ret (ip, cache)
       | None \<Rightarrow> andthen (fetchMetadataNodeIP meta) (\<lambda>ip. ret (ip, Some ip)))"

section \<open>The cgroup driver\<close>

fun kubelet_driver_of :: "string list \<Rightarrow> string" where
  "kubelet_driver_of [] = []"
| "kubelet_driver_of (l # ls) = (let line = trim_space l in
     if \<not> has_prefix line ''cgroupDriver:'' then kubelet_driver_of ls
     else let v = trim_cut (trim_space (trim_prefix line ''cgroupDriver:'')) [CHR 0x22, CHR 0x27] in
       if v \<noteq> [] then v else kubelet_driver_of ls)"

fun containerd_driver_of :: "string list \<Rightarrow> string" where
  "containerd_driver_of [] = []"
| "containerd_driver_of (l # ls) = (let line = trim_space l in
     if \<not> has_prefix line ''SystemdCgroup'' then containerd_driver_of ls
     else if contains line ''true'' then ''systemd''
     else if contains line ''false'' then ''cgroupfs'' else containerd_driver_of ls)"

definition driver_in :: "(string list \<Rightarrow> string) \<Rightarrow> string \<Rightarrow> ('z os_scheme, string) io" where
  "driver_in scan path = attempt (read_file path) (\<lambda>r. ret (case r of Inl _ \<Rightarrow> [] | Inr d \<Rightarrow> scan (split_on (CHR 0x0A) d)))"

definition cgroupDriverFromKubeletConfig :: "string \<Rightarrow> ('z os_scheme, string) io" where
  "cgroupDriverFromKubeletConfig path = driver_in kubelet_driver_of path"

definition cgroupDriverFromContainerdConfig :: "string \<Rightarrow> ('z os_scheme, string) io" where
  "cgroupDriverFromContainerdConfig path = driver_in containerd_driver_of path"

definition ExistingCgroupDriver :: "('z os_scheme, string) io" where
  "ExistingCgroupDriver = andthen (cgroupDriverFromKubeletConfig ''/etc/kubernetes/kubelet-config.yaml'') (\<lambda>d.
     if d \<noteq> [] then ret d else cgroupDriverFromContainerdConfig ''/etc/containerd/config.toml'')"

definition isSystemdBooted :: "('z os_scheme, bool) io" where
  "isSystemdBooted = attempt (stat ''/run/systemd/system'') (\<lambda>r. ret (case r of Inr (DirN _ _ _) \<Rightarrow> True | _ \<Rightarrow> False))"

definition detectCgroupDriver :: "bool \<Rightarrow> ('z os_scheme, string) io" where
  "detectCgroupDriver cgroup2 = (if cgroup2 then ret ''systemd''
     else andthen isSystemdBooted (\<lambda>b. ret (if b then ''systemd'' else ''cgroupfs'')))"

definition ResolveCgroupDriver :: "bool \<Rightarrow> Config \<Rightarrow> ('z os_scheme, string) io" where
  "ResolveCgroupDriver cgroup2 c = (if CgroupDriver (Shared c) \<noteq> [] then ret (CgroupDriver (Shared c))
     else andthen ExistingCgroupDriver (\<lambda>e. if e \<noteq> [] then ret e else detectCgroupDriver cgroup2))"

section \<open>Facts\<close>

lemma shared_fix_fields:
  "NodegroupRole (host_docker_fix s) = NodegroupRole s" "KubeTag (host_docker_fix s) = KubeTag s"
  "NodegroupRole (kube_version_fix s) = NodegroupRole s" "KubeTag (kube_version_fix s) = KubeTag s"
  "ContainerRuntime (kube_version_fix s) = ContainerRuntime s" "KubeVersion (host_docker_fix s) = KubeVersion s"
  by (simp_all add: host_docker_fix_def kube_version_fix_def)

lemma raw_role: "NodegroupRole (shared_of_raw raw) = rget raw ''NODEGROUP_ROLE''"
  by (simp add: shared_of_raw_def)

lemma role_names: "worker_name r \<Longrightarrow> \<not> master_name r \<and> r \<noteq> []" "\<not> master_name []"
  by (auto simp: worker_name_def master_name_def)

lemma config_fields:
  "Shared (config_of_raw sm d raw) = host_docker_fix (kube_version_fix (shared_of_raw raw))"
  "Master (config_of_raw sm d raw) = None \<longleftrightarrow> \<not> master_name (role_text raw)"
  "Worker (config_of_raw sm d raw) = None \<longleftrightarrow> master_name (role_text raw) \<or> role_text raw = []"
  "to_lower (trim_space (NodegroupRole (Shared (config_of_raw sm d raw)))) = role_text raw"
  using role_names by (auto simp: config_of_raw_def shared_fix_fields raw_role role_text_def)

lemma Load_ok: "Load sha path w = (Inr c, w') \<Longrightarrow> \<exists>text distro raw. c = config_of_raw (sha text) distro raw"
  unfolding Load_def andthen_ok_iff
  by (elim exE conjE) (simp add: Let_def andthen_ok_iff run_simps split: option.splits, blast)

lemma role_distinct: "RoleMaster \<noteq> RoleWorker" "RoleMaster \<noteq> RoleUnknown" "RoleWorker \<noteq> RoleUnknown"
  by code_simp+

text \<open>A loaded configuration has one role. It is a master's exactly for the two master names,
  a worker's for every other name, and unknown only when no name was given; and it carries the
  settings of that role and not of the other.\<close>

theorem load_role:
  assumes "Load sha path w = (Inr c, w')"
  shows "Role c = (let role = to_lower (trim_space (NodegroupRole (Shared c))) in
      if master_name role then RoleMaster else if role = [] then RoleUnknown else RoleWorker)
    \<and> (Master c \<noteq> None \<longleftrightarrow> Role c = RoleMaster) \<and> (Worker c \<noteq> None \<longleftrightarrow> Role c = RoleWorker)"
proof -
  obtain sm d raw where c: "c = config_of_raw sm d raw" using Load_ok [OF assms] by blast
  let ?r = "role_text raw"
  have role: "Role c = (if master_name ?r then RoleMaster else if ?r = [] then RoleUnknown else RoleWorker)"
    unfolding c Role_def Let_def config_fields(4) using role_names(1) [of ?r] role_names(2) config_fields(2,3) by auto
  show ?thesis
    unfolding c Let_def config_fields(2-4) role [unfolded c] using role_distinct role_names
    by (cases "master_name ?r"; cases "?r = []") auto
qed

definition params_text :: string where
  "params_text = ''NODEGROUP_ROLE=gpu'' @ NL @ ''KUBE_TAG=v1.30.1'' @ NL @ ''CONTAINER_RUNTIME=Host-Docker'' @ NL @ ''OS_DISTRO=fcos''"

definition params_raw :: raw_params where
  "params_raw = [(''NODEGROUP_ROLE'', ''gpu''), (''KUBE_TAG'', ''v1.30.1''), (''CONTAINER_RUNTIME'', ''Host-Docker''), (''OS_DISTRO'', ''fcos'')]"

definition params_os :: os where
  "params_os = calm_os\<lparr>files := [(''/p'', FileN params_text 384 0 0)]\<rparr>"

lemma demo_load: "Load (\<lambda>s. s) ''/p'' params_os = (Inr (config_of_raw params_text ''fcos'' params_raw), tock params_os)"
proof -
  have "parseHeatParams params_text = Some params_raw" "to_lower (trim_space (rget params_raw ''OS_DISTRO'')) = ''fcos''" by code_simp+
  moreover have "read_file ''/p'' params_os = (Inr params_text, tock params_os)"
    by (simp add: read_file_ok params_os_def calm_os_def content_def fget_def)
  ultimately show ?thesis by (simp add: Load_def andthen_def wrapping_def run_simps Let_def)
qed

theorem load_role_witness:
  "\<exists>c w'. Load (\<lambda>s. s) ''/p'' params_os = (Inr c, w') \<and> Role c = RoleWorker \<and> Master c = None \<and> Worker c \<noteq> None"
proof -
  let ?c = "config_of_raw params_text ''fcos'' params_raw"
  have "role_text params_raw = ''gpu'' \<and> \<not> master_name ''gpu''" by code_simp
  then have "Role ?c = RoleWorker" using load_role [OF demo_load] config_fields(4) by (simp add: Let_def)
  with load_role [OF demo_load] role_distinct demo_load show ?thesis by auto
qed

text \<open>After loading, no node of Kubernetes 1.24 or later is left on the host's docker runtime.\<close>

theorem no_host_docker:
  assumes "Load sha path w = (Inr c, w')"
  shows "\<not> (to_lower (ContainerRuntime (Shared c)) = ''host-docker'' \<and> KubeMinorAtLeast (KubeTag (Shared c)) 24)"
proof -
  obtain sm d raw where c: "c = config_of_raw sm d raw" using Load_ok [OF assms] by blast
  have n: "to_lower ''containerd'' \<noteq> ''host-docker''" by code_simp
  show ?thesis unfolding c config_fields
    by (cases "to_lower (ContainerRuntime (kube_version_fix (shared_of_raw raw))) = ''host-docker''
        \<and> KubeMinorAtLeast (KubeTag (kube_version_fix (shared_of_raw raw))) 24")
       (use n in \<open>auto simp: host_docker_fix_def\<close>)
qed

theorem no_host_docker_witness:
  "\<exists>c w'. Load (\<lambda>s. s) ''/p'' params_os = (Inr c, w') \<and> KubeMinorAtLeast ''v1.30.1'' 24
     \<and> \<not> (to_lower (ContainerRuntime (Shared c)) = ''host-docker'' \<and> KubeMinorAtLeast (KubeTag (Shared c)) 24)"
proof -
  have "KubeMinorAtLeast ''v1.30.1'' 24" by code_simp
  with no_host_docker [OF demo_load] demo_load show ?thesis by blast
qed

section \<open>The parameter file\<close>

text \<open>A file of one quoted assignment per line, as the node's templates write it.\<close>

definition param_key :: "string \<Rightarrow> bool" where
  "param_key k \<longleftrightarrow> word_str k \<and> CHR ''='' \<notin> set k \<and> hd k \<noteq> CHR ''#''"

definition param_text :: "string \<times> string \<Rightarrow> string" where
  "param_text = (\<lambda>(k, v). k @ ''='' @ go_quote v)"

lemma hex_digit_no_NL: "n < 16 \<Longrightarrow> CHR 0x0A \<noteq> hex_digit n"
  by (auto simp: hex_digit_def of_char_eq_iff [where 'a = nat, symmetric] simp del: of_char_eq_iff)

lemma quote_char_no_NL: "CHR 0x0A \<notin> set (quote_char c)"
proof -
  have "(of_char c :: nat) < 256" by simp
  then have "(of_char c :: nat) div 16 < 16" by linarith
  then show ?thesis
    using hex_digit_no_NL [of "of_char c div 16"] hex_digit_no_NL [of "of_char c mod 16"]
    by (auto simp: quote_char_def Let_def)
qed

lemma trim_edges:
  assumes "s \<noteq> []" "\<not> is_space (hd s)" "\<not> is_space (last s)"
  shows "trim_space s = s"
proof -
  have "dropWhile is_space s = s" using assms by (intro dropWhile_hd) simp
  moreover have "dropWhile is_space (rev s) = rev s" using assms by (intro dropWhile_hd) (simp add: hd_rev)
  ultimately show ?thesis by (simp add: trim_space_def)
qed

lemma go_quote_edges: "go_quote s \<noteq> []" "hd (go_quote s) = CHR 0x22" "last (go_quote s) = CHR 0x22" "2 \<le> length (go_quote s)"
  by (simp_all add: go_quote_def)

lemma quote_not_space: "\<not> is_space (CHR 0x22)"
  by (simp add: is_space_def)

lemma decode_quoted: "decodeValue (go_quote v) = v"
proof -
  have "has_prefix (go_quote v) [CHR 0x22]" "has_suffix (go_quote v) [CHR 0x22]"
    by (simp_all add: go_quote_def has_prefix_def has_suffix_iff suffix_def)
  then show ?thesis using go_quote_edges(4) by (simp add: decodeValue_def unquote_quote)
qed

lemma param_line_text: "param_key k \<Longrightarrow> param_line (param_text (k, v)) = Some (k, v)"
proof -
  assume k: "param_key k"
  then have w: "word_str k" "k \<noteq> []" "CHR ''='' \<notin> set k" "hd k \<noteq> CHR ''#''" by (auto simp: param_key_def word_str_def)
  have sp: "\<not> is_space (hd k)" using w by (cases k) (auto simp: word_str_def)
  have t: "trim_space (param_text (k, v)) = param_text (k, v)"
    using w sp go_quote_edges quote_not_space by (intro trim_edges) (auto simp: param_text_def)
  have "trim_space (go_quote v) = go_quote v"
    using go_quote_edges quote_not_space by (intro trim_edges) auto
  moreover have "cut_at (CHR ''='') (param_text (k, v)) = Some (k, go_quote v)"
    using cut_at_append [OF w(3), of "go_quote v"] by (simp add: param_text_def)
  moreover have "\<not> has_prefix (param_text (k, v)) ''#''" "param_text (k, v) \<noteq> []"
    using w by (cases k; auto simp: param_text_def has_prefix_def)+
  ultimately show ?thesis
    unfolding param_line_def t Let_def using w by (simp add: trim_space_word decode_quoted)
qed

lemma param_loop_texts:
  "list_all (\<lambda>(k, _). param_key k) ps \<Longrightarrow> distinct (map fst (acc @ ps)) \<Longrightarrow> param_loop acc (map param_text ps) = acc @ ps"
proof (induction ps arbitrary: acc)
  case (Cons kv ps)
  obtain k v where kv: "kv = (k, v)" by (cases kv)
  then have "AList.update k v acc = acc @ [kv]" using Cons.prems(2) update_new [of k acc v] by auto
  then show ?case using Cons kv by (simp add: param_line_text)
qed simp

lemma param_text_no_NL: "param_key k \<Longrightarrow> CHR 0x0A \<notin> set (param_text (k, v))"
  using quote_char_no_NL by (auto simp: param_text_def go_quote_def param_key_def word_str_def list_all_iff)

text \<open>C26: any values survive the parameter file. Written one quoted assignment per line (values may
  hold newlines, quotes and control characters; a line stays below the scanner's limit), the
  file is read back as exactly the same parameters.\<close>

theorem heat_params_roundtrip:
  assumes "list_all (\<lambda>(k, _). param_key k) ps" "distinct (map fst ps)" "ps \<noteq> []"
    and "list_all (\<lambda>p. int (length (param_text p)) < maxLine) ps"
  shows "parseHeatParams (join NL (map param_text ps)) = Some ps"
proof -
  have "split_on (CHR 0x0A) (join NL (map param_text ps)) = map param_text ps"
    using assms(1,3) param_text_no_NL by (intro split_join) (auto simp: list_all_iff)
  moreover have "\<not> list_ex (\<lambda>l. int (length l) \<ge> maxLine) (map param_text ps)"
    using assms(4) by (auto simp: list_ex_iff list_all_iff)
  ultimately show ?thesis
    using param_loop_texts [OF assms(1), of "[]"] assms(2) by (simp add: parseHeatParams_def)
qed

theorem heat_params_roundtrip_witness:
  "parseHeatParams (join NL (map param_text [(''CA_KEY'', ''a'' @ NL @ ''b''), (''P'', [CHR 0x22])])) = Some [(''CA_KEY'', ''a'' @ NL @ ''b''), (''P'', [CHR 0x22])]"
proof (rule heat_params_roundtrip)
  show "list_all (\<lambda>(k, _). param_key k) [(''CA_KEY'', ''a'' @ NL @ ''b''), (''P'', [CHR 0x22])]" by code_simp
  show "list_all (\<lambda>p. int (length (param_text p)) < maxLine) [(''CA_KEY'', ''a'' @ NL @ ''b''), (''P'', [CHR 0x22])]" by code_simp
qed simp_all

section \<open>Names\<close>

lemma squash_chars: "c \<in> set (squash b s) \<Longrightarrow> ident_char c"
  by (induction b s rule: squash.induct) (auto simp: ident_char_def split: if_splits)

lemma squash_id: "list_all ident_char s \<Longrightarrow> squash b s = s"
  by (induction s arbitrary: b) auto

lemma set_trim_cut: "set (trim_cut s t) \<subseteq> set s"
  by (auto simp: trim_cut_def trim_left_def trim_right_def dest!: set_dropWhileD)

lemma squash_from: "c \<in> set (squash b s) \<Longrightarrow> c \<in> set s \<or> c = CHR ''-''"
  by (induction b s rule: squash.induct) (auto split: if_splits)

lemma lower_idem: "lower_char (lower_char c) = lower_char c"
proof -
  have "(of_char c :: nat) < 256" by simp
  then show ?thesis by (simp add: lower_char_def Let_def)
qed

lemma trim_cut_edges:
  assumes "trim_cut s t \<noteq> []"
  shows "hd (trim_cut s t) \<notin> set t \<and> last (trim_cut s t) \<notin> set t"
proof -
  define u where "u = dropWhile (\<lambda>c. c \<in> set t) s"
  have tc: "trim_cut s t = rev (dropWhile (\<lambda>c. c \<in> set t) (rev u))" by (simp add: trim_cut_def trim_right_def trim_left_def u_def)
  then have ne: "dropWhile (\<lambda>c. c \<in> set t) (rev u) \<noteq> []" using assms by simp
  have "last (trim_cut s t) \<notin> set t"
    unfolding tc last_rev using hd_dropWhile [OF ne] by simp
  moreover have "u \<noteq> []" using ne by auto
  then have "hd u \<notin> set t" unfolding u_def by (rule hd_dropWhile)
  moreover have "hd (trim_cut s t) = hd u"
  proof -
    have "u = trim_cut s t @ rev (takeWhile (\<lambda>c. c \<in> set t) (rev u))"
      unfolding tc by (metis rev_append rev_rev_ident takeWhile_dropWhile_id)
    then show ?thesis using assms by (metis hd_append2)
  qed
  ultimately show ?thesis by simp
qed

lemma trim_cut_id: "s \<noteq> [] \<Longrightarrow> hd s \<notin> set t \<Longrightarrow> last s \<notin> set t \<Longrightarrow> trim_cut s t = s"
proof -
  assume s: "s \<noteq> []" "hd s \<notin> set t" "last s \<notin> set t"
  have "dropWhile (\<lambda>c. c \<in> set t) s = s" using s by (intro dropWhile_hd) simp
  moreover have "dropWhile (\<lambda>c. c \<in> set t) (rev s) = rev s" using s by (intro dropWhile_hd) (simp add: hd_rev)
  ultimately show ?thesis by (simp add: trim_cut_def trim_left_def trim_right_def)
qed

definition clean_ident :: "string \<Rightarrow> bool" where
  "clean_ident s \<longleftrightarrow> s \<noteq> [] \<and> list_all (\<lambda>c. ident_char c \<and> lower_char c = c) s \<and> hd s \<noteq> CHR ''-'' \<and> last s \<noteq> CHR ''-''"

lemma sanitize_clean: "clean_ident (sanitizeIdentifier v)"
proof -
  let ?safe = "trim_cut (squash False (to_lower v)) ''-''"
  have "ident_char c \<and> lower_char c = c" if "c \<in> set ?safe" for c
  proof -
    have m: "c \<in> set (squash False (to_lower v))" using that set_trim_cut by blast
    have "lower_char c = c" using squash_from [OF m] lower_idem by (auto simp: to_lower_def lower_char_def)
    with squash_chars [OF m] show ?thesis by simp
  qed
  then have "clean_ident ?safe" if "?safe \<noteq> []"
    using trim_cut_edges [OF that] that by (simp add: clean_ident_def list_all_iff)
  moreover have "clean_ident ''unknown''" by code_simp
  ultimately show ?thesis by (simp add: sanitizeIdentifier_def Let_def)
qed

lemma sanitize_id: "clean_ident s \<Longrightarrow> sanitizeIdentifier s = s"
proof -
  assume c: "clean_ident s"
  then have "to_lower s = s" by (auto simp: clean_ident_def to_lower_def list_all_iff intro: map_idI)
  moreover have "squash False s = s" using c by (intro squash_id) (simp add: clean_ident_def list_all_iff)
  ultimately show ?thesis using c trim_cut_id [of s "''-''"] by (simp add: sanitizeIdentifier_def clean_ident_def)
qed

text \<open>The stack name of a node is a valid identifier whatever its instance name: after the
  prefix it is not empty, has only small letters, digits and inner dashes, and sanitizing it
  again changes nothing.\<close>

theorem stack_name_clean:
  "\<exists>s. StackName c = ''node-'' @ s \<and> clean_ident s \<and> sanitizeIdentifier s = s"
  using sanitize_clean sanitize_id by (auto simp: StackName_def Let_def)

lemma fetch_attempts_ip: "\<exists>ip w'. fetch_attempts n meta w = (Inr ip, w') \<and> (ip = [] \<or> is_ip ip)"
proof (induction n arbitrary: w)
  case (Suc n)
  obtain r w1 where f: "fetchMetadataNodeIPOnce meta w = (r, w1)" by (cases "fetchMetadataNodeIPOnce meta w")
  show ?case
  proof (cases r)
    case (Inr ip)
    with f have "is_ip ip" by (auto simp: fetchMetadataNodeIPOnce_def Let_def split: option.splits if_splits prod.splits)
    with f Inr show ?thesis by (simp add: attempt_def run_simps)
  next
    case (Inl e)
    obtain w2 where "sleep w1 = (Inr (), w2)" by (auto simp: sleep_def)
    with f Inl Suc.IH [of w2] show ?thesis by (auto simp: attempt_def andthen_def run_simps)
  qed
qed (simp add: run_simps)

text \<open>The node has one address in a run. Whatever the metadata service answers later, every
  call after the first returns the same address; and it is the configured one or, when none is
  configured, one that the service gave as a well-formed IP, or empty when it gave none.\<close>

theorem node_ip_stable:
  assumes "ResolveNodeIP meta c None w = (r, w')"
  shows "\<exists>ip cache. r = Inr (ip, cache) \<and> (KubeNodeIP (Shared c) = [] \<longrightarrow> ip = [] \<or> is_ip ip)
    \<and> (KubeNodeIP (Shared c) \<noteq> [] \<longrightarrow> ip = KubeNodeIP (Shared c))
    \<and> ResolveNodeIP meta' c cache w2 = (Inr (ip, cache), w2)"
proof -
  obtain ip w1 where "fetch_attempts 3 meta w = (Inr ip, w1)" "ip = [] \<or> is_ip ip" using fetch_attempts_ip by blast
  with assms show ?thesis
    by (cases "KubeNodeIP (Shared c) = []") (auto simp: ResolveNodeIP_def fetchMetadataNodeIP_def andthen_def run_simps)
qed

theorem node_ip_stable_witness:
  "fst (ResolveNodeIP (\<lambda>t. if t = 0 then None else Some (200, ''10.0.0.5'' @ NL)) (config_of_raw [] [] []) None calm_os) = Inr (''10.0.0.5'', Some ''10.0.0.5'')
   \<and> fst (ResolveNodeIP (\<lambda>t. None) (config_of_raw [] [] []) (Some ''10.0.0.5'') calm_os) = Inr (''10.0.0.5'', Some ''10.0.0.5'')"
proof -
  let ?m = "\<lambda>t::nat. if t = 0 then None else Some (200::nat, ''10.0.0.5'' @ NL)" and ?c = "config_of_raw [] [] []"
  have k: "KubeNodeIP (Shared ?c) = []"
    by (simp add: config_fields host_docker_fix_def kube_version_fix_def shared_of_raw_def rget_def)
  have "fst (fetch_attempts 3 ?m calm_os) = Inr ''10.0.0.5''" by code_simp
  then obtain w1 where f: "fetch_attempts 3 ?m calm_os = (Inr ''10.0.0.5'', w1)" by (metis prod.collapse)
  then have r: "ResolveNodeIP ?m ?c None calm_os = (Inr (''10.0.0.5'', Some ''10.0.0.5''), w1)"
    using k by (simp add: ResolveNodeIP_def fetchMetadataNodeIP_def andthen_def run_simps)
  from node_ip_stable [OF this, of "\<lambda>_. None" calm_os] r show ?thesis by auto
qed

end
