(* ===== verification/SaKeys.thy ===== *)
theory SaKeys
  imports CaState TrustBundle HostRes Config
begin

text \<open>
  internal/module/master-certs/sakeys.go: each master makes its bundle of ServiceAccount verify
  keys the union of the keys known in the cluster. The network is the argument \<open>net\<close> (status and
  body for a tick, host and path, or no answer, timeouts included); the crypto packages are the
  record of TrustBundle, and \<open>priv_pub\<close>, \<open>pair_ok\<close> the parsers of private keys and key pairs.
\<close>

section \<open>Keys\<close>

definition saVerifyKeyFile :: string where "saVerifyKeyFile = ''service_account.key''"
definition saPrivateKeyFile :: string where "saPrivateKeyFile = ''service_account_private.key''"

definition PublicKeyPEMFromPrivateKeyFile :: "'k pki \<Rightarrow> (string \<Rightarrow> 'k option) \<Rightarrow> string \<Rightarrow> ('z os_scheme, string) io" where
  "PublicKeyPEMFromPrivateKeyFile P priv_pub path = andthen (wrapping (''read private key '' @ path) (read_file path)) (\<lambda>d.
     case priv_pub d of None \<Rightarrow> throw (Err ''unsupported private key'')
     | Some k \<Rightarrow> (case PublicKeyPEM P k of None \<Rightarrow> throw (Err ''marshal public key'') | Some pem \<Rightarrow> ret pem))"

text \<open>A rotation moves certificates unless it is parked; an unreadable state counts as moving.\<close>

definition rotationInFlight :: "Config \<Rightarrow> ('z os_scheme, bool) io" where
  "rotationInFlight cfg = (if Operation cfg \<noteq> OperationCARotate then ret False
     else attempt (RotationParked (CARotationID (Trigger cfg))) (\<lambda>r. ret (case r of Inl _ \<Rightarrow> True | Inr parked \<Rightarrow> \<not> parked)))"

definition dropRetiredKeys :: "'k pki \<Rightarrow> string list \<Rightarrow> string list \<Rightarrow> string list \<times> nat" where
  "dropRetiredKeys P keys ids = (if ids = [] then (keys, 0)
     else let withdrawn = (\<lambda>k. case PublicKeyID P k of None \<Rightarrow> False | Some i \<Rightarrow> i \<in> set ids) in
       (filter (\<lambda>k. \<not> withdrawn k) keys, length (filter withdrawn keys)))"

fun take_new :: "'k pki \<Rightarrow> string list \<Rightarrow> string list \<Rightarrow> (string \<times> string) list" where
  "take_new P seen [] = []"
| "take_new P seen (k # ks) = (case PublicKeyID P k of None \<Rightarrow> take_new P seen ks
     | Some i \<Rightarrow> if i \<in> set seen then take_new P seen ks else (i, k) # take_new P (i # seen) ks)"

definition mergeSAVerifyKeys :: "'k pki \<Rightarrow> string list \<Rightarrow> string list \<Rightarrow> string list \<times> nat" where
  "mergeSAVerifyKeys P existing candidates = (let old = take_new P [] existing;
       fresh = sort_key fst (take_new P (map fst old) candidates)
     in (map snd old @ map snd fresh, length fresh))"

definition describeSAKeySplit :: "'k pki \<Rightarrow> nat \<Rightarrow> string list \<Rightarrow> string" where
  "describeSAKeySplit P added keys = (if added = 0 then [] else
     ''adopted '' @ nat_str added @ '' service-account verification key(s) this master was missing; until now it rejected tokens issued by the masters holding them (401 Unauthorized). The bundle is now ''
     @ nat_str (length keys) @ '' key(s): '' @ join '', '' (List.map_filter (PublicKeyID P) keys)
     @ ''. Usual cause is Magnum regenerating the keypair on a full-template update and a master seeding from the new value'')"

definition normalizeHeatPEM :: "string \<Rightarrow> string" where
  "normalizeHeatPEM v = (if v = [] \<or> contains v NL then v else replace_all v [CHR 0x5C, CHR ''n''] NL)"

section \<open>Peers\<close>

record 'w sa_env =
  se_certDir :: string
  se_apply :: bool
  se_heat :: string
  se_self :: string
  se_endpoint :: string
  se_masters :: int
  se_retired :: "string list"
  se_list :: "('w, string list) io option"
  se_fetch :: "(string \<Rightarrow> ('w, string) io) option"

text \<open>Repeated probes of the load balancer; what fails to answer or to parse is skipped.\<close>

fun sweep :: "'k pki \<Rightarrow> nat \<Rightarrow> (string \<Rightarrow> ('w, string) io) \<Rightarrow> string \<Rightarrow> ('w, string list) io" where
  "sweep P 0 fetch host = ret []"
| "sweep P (Suc n) fetch host = attempt (fetch host) (\<lambda>r.
     let got = (case r of Inl _ \<Rightarrow> [] | Inr doc \<Rightarrow> (case JWKSPublicKeyPEMs P doc of None \<Rightarrow> [] | Some ks \<Rightarrow> ks))
     in andthen (sweep P n fetch host) (\<lambda>more. ret (got @ more)))"

fun ask_peers :: "'k pki \<Rightarrow> string \<Rightarrow> (string \<Rightarrow> ('w, string) io) \<Rightarrow> string list \<Rightarrow> ('w, string list \<times> string list) io" where
  "ask_peers P self fetch [] = ret ([], [])"
| "ask_peers P self fetch (ip # ips) = (if ip = [] \<or> ip = self then ask_peers P self fetch ips
     else attempt (fetch ip) (\<lambda>r.
       let (got, warn) = (case r of
           Inl _ \<Rightarrow> ([], [''could not read service-account keys from master '' @ ip])
         | Inr doc \<Rightarrow> (case JWKSPublicKeyPEMs P doc of
             None \<Rightarrow> ([], [''master '' @ ip @ '' served an unparseable JWKS document''])
           | Some ks \<Rightarrow> (ks, [])))
       in andthen (ask_peers P self fetch ips) (\<lambda>(ks, ws). ret (got @ ks, warn @ ws))))"

definition collectPeerSAKeys :: "'k pki \<Rightarrow> 'w sa_env \<Rightarrow> ('w, string list \<times> string list) io" where
  "collectPeerSAKeys P env = (case (se_fetch env, se_list env) of
     (Some fetch, Some list_peers) \<Rightarrow> attempt list_peers (\<lambda>r.
       if (case r of Inl _ \<Rightarrow> True | Inr ts \<Rightarrow> ts = []) then
         (if se_endpoint env = [] then ret ([], [])
          else andthen (sweep P (nat (max (4 * se_masters env) 4)) fetch (se_endpoint env)) (\<lambda>ks. ret (ks, [])))
       else (case r of Inr targets \<Rightarrow> ask_peers P (se_self env) fetch targets | Inl _ \<Rightarrow> ret ([], [])))
   | _ \<Rightarrow> ret ([], []))"

section \<open>Convergence\<close>

definition convergeSAVerifyKeys ::
  "'k pki \<Rightarrow> (string \<Rightarrow> 'k option) \<Rightarrow> 'z os_scheme sa_env \<Rightarrow> ('z os_scheme, change list \<times> string list) io" where
  "convergeSAVerifyKeys P priv_pub env = (let bundlePath = se_certDir env @ ''/'' @ saVerifyKeyFile in
     andthen (wrapping ''master-certificates: read service-account verify keys'' (PublicKeyPEMFile P bundlePath)) (\<lambda>existing.
     if existing = [] then ret ([], [])
     else attempt (PublicKeyPEMFromPrivateKeyFile P priv_pub (se_certDir env @ ''/'' @ saPrivateKeyFile)) (\<lambda>o1.
       let own = (case o1 of Inl _ \<Rightarrow> [] | Inr pem \<Rightarrow> [pem]) in
       andthen (collectPeerSAKeys P env) (\<lambda>(peerKeys, warnings).
       let adoptable = fst (dropRetiredKeys P (ParsePublicKeyPEMs P (normalizeHeatPEM (se_heat env)) @ peerKeys) (se_retired env));
           (merged, added) = mergeSAVerifyKeys P existing (existing @ own @ adoptable)
       in if added = 0 then ret ([], warnings)
          else andthen (wrapping ''master-certificates: write service-account verify keys''
              (FileSpec_Apply (se_apply env) \<lparr>f_path = bundlePath, f_content = concat merged, f_mode = o440, f_absent = False\<rparr>)) (\<lambda>res.
            ret (ar_changes res, warnings @ [describeSAKeySplit P added merged]))))))"

section \<open>The production environment\<close>

definition http_get :: "(nat \<Rightarrow> string \<Rightarrow> string \<Rightarrow> (nat \<times> string) option) \<Rightarrow> string \<Rightarrow> string \<Rightarrow> ('z os_scheme, string) io" where
  "http_get net host path w = (case net (tick w) host path of None \<Rightarrow> (Inl IOErr, tock w)
     | Some (status, body) \<Rightarrow> if status \<noteq> 200 then (Inl (Err (''HTTP '' @ nat_str status)), tock w)
         else (Inr (take 1048576 body), tock w))"

definition address_ip :: "json \<Rightarrow> string option" where
  "address_ip j = (case members_of (Some j) of None \<Rightarrow> None | Some m \<Rightarrow> dec_str ''ip'' m)"

definition json_items :: "string \<Rightarrow> (string \<times> json) list \<Rightarrow> json list option" where
  "json_items k m = (case jfield k m of None \<Rightarrow> Some [] | Some JNull \<Rightarrow> Some [] | Some (JArr vs) \<Rightarrow> Some vs | _ \<Rightarrow> None)"

definition subset_ips :: "json \<Rightarrow> string list option" where
  "subset_ips j = (case members_of (Some j) of None \<Rightarrow> None | Some m \<Rightarrow>
     (case json_items ''addresses'' m of None \<Rightarrow> None | Some as \<Rightarrow> those (map address_ip as)))"

definition parseEndpointIPs :: "string \<Rightarrow> string list option" where
  "parseEndpointIPs body = (case members_of (parse_json body) of None \<Rightarrow> None | Some m \<Rightarrow>
     (case json_items ''subsets'' m of None \<Rightarrow> None | Some ss \<Rightarrow>
       map_option (\<lambda>ips. filter (\<lambda>ip. ip \<noteq> []) (concat ips)) (those (map subset_ips ss))))"

fun list_from :: "(string \<Rightarrow> string \<Rightarrow> ('w, string) io) \<Rightarrow> err \<Rightarrow> string list \<Rightarrow> ('w, string list) io" where
  "list_from get lastErr [] = throw lastErr"
| "list_from get lastErr (s # ss) = attempt (get s ''/api/v1/namespaces/default/endpoints/kubernetes'') (\<lambda>r. case r of
     Inl e \<Rightarrow> list_from get e ss
   | Inr body \<Rightarrow> (case parseEndpointIPs body of None \<Rightarrow> list_from get (Err ''parse kubernetes endpoints'') ss
       | Some ips \<Rightarrow> ret ips))"

definition saAPIClient :: "'k pki \<Rightarrow> (string \<Rightarrow> string \<Rightarrow> bool) \<Rightarrow> string \<Rightarrow> ('z os_scheme, unit) io" where
  "saAPIClient P pair_ok certDir = andthen (read_file (certDir @ ''/ca.crt'')) (\<lambda>ca.
     if bundle_certs P ca = [] then throw (Err (''no usable CA in '' @ certDir @ ''/ca.crt''))
     else andthen (read_file (certDir @ ''/admin.crt'')) (\<lambda>crt. andthen (read_file (certDir @ ''/admin.key'')) (\<lambda>key.
       if pair_ok crt key then ret () else throw (Err ''tls: bad key pair''))))"

text \<open>\<open>selfIP\<close> is the answer of ResolveNodeIP. The port goes into \<open>net\<close>, which stands for the wire.\<close>

definition newSAKeyEnv ::
  "'k pki \<Rightarrow> (string \<Rightarrow> string \<Rightarrow> bool) \<Rightarrow> (int \<Rightarrow> nat \<Rightarrow> string \<Rightarrow> string \<Rightarrow> (nat \<times> string) option) \<Rightarrow> string
    \<Rightarrow> Config \<Rightarrow> string \<Rightarrow> bool \<Rightarrow> ('z os_scheme, 'z os_scheme sa_env) io" where
  "newSAKeyEnv P pair_ok net selfIP cfg certDir ap = (let
       env = \<lparr>se_certDir = certDir, se_apply = ap, se_heat = KubeServiceAccountKey (Shared cfg), se_self = selfIP,
         se_endpoint = (case Master cfg of None \<Rightarrow> [] | Some m \<Rightarrow> KubeAPIPrivateAddress m),
         se_masters = (case Master cfg of None \<Rightarrow> 0 | Some m \<Rightarrow> NumberOfMasters m),
         se_retired = [], se_list = None, se_fetch = None\<rparr>;
       port = (if KubeAPIPort (Shared cfg) = 0 then 6443 else KubeAPIPort (Shared cfg));
       get = http_get (net port)
     in attempt LoadRetiredSAKeys (\<lambda>r. case r of
         Inl _ \<Rightarrow> ret env
       | Inr ids \<Rightarrow> attempt (saAPIClient P pair_ok certDir) (\<lambda>c. case c of
           Inl _ \<Rightarrow> ret (env\<lparr>se_retired := ids\<rparr>)
         | Inr _ \<Rightarrow> ret (env\<lparr>se_retired := ids,
             se_fetch := Some (\<lambda>host. get host ''/openid/v1/jwks''),
             se_list := Some (list_from get IOErr ([''127.0.0.1''] @ (if se_endpoint env \<noteq> [] then [se_endpoint env] else [])))\<rparr>))))"

section \<open>The merge\<close>

definition key_ids :: "'k pki \<Rightarrow> string list \<Rightarrow> string set" where
  "key_ids P ks = {i. \<exists>k\<in>set ks. PublicKeyID P k = Some i}"

lemma key_ids_simps [simp]:
  "key_ids P [] = {}" "key_ids P (k # ks) = set_option (PublicKeyID P k) \<union> key_ids P ks"
  "key_ids P (ks @ ks') = key_ids P ks \<union> key_ids P ks'"
  by (auto simp: key_ids_def)

lemma take_new_ids: "set (map fst (take_new P seen ks)) = key_ids P ks - set seen"
  by (induction P seen ks rule: take_new.induct) (auto split: option.splits)

lemma take_new_distinct: "distinct (map fst (take_new P seen ks))"
proof (induction P seen ks rule: take_new.induct)
  case (2 P seen k ks)
  show ?case
  proof (cases "PublicKeyID P k")
    case (Some i)
    have "i \<notin> set (map fst (take_new P (i # seen) ks))" unfolding take_new_ids by simp
    with 2 Some show ?thesis by simp
  qed (use 2 in simp)
qed simp

lemma take_new_mem: "(i, k) \<in> set (take_new P seen ks) \<Longrightarrow> PublicKeyID P k = Some i \<and> k \<in> set ks"
  by (induction P seen ks rule: take_new.induct) (auto split: option.splits if_splits)

lemma pairs_ids: "list_all (\<lambda>(i, k). PublicKeyID P k = Some i) ps \<Longrightarrow> key_ids P (map snd ps) = set (map fst ps)"
  by (induction ps) auto

lemma take_new_pairs:
  "list_all (\<lambda>(i, k). PublicKeyID P k = Some i) ps \<Longrightarrow> distinct (map fst ps) \<Longrightarrow> set (map fst ps) \<inter> set seen = {} \<Longrightarrow>
   take_new P seen (map snd ps) = ps"
  by (induction ps arbitrary: seen) auto

lemma take_new_none: "key_ids P ks \<subseteq> set seen \<Longrightarrow> take_new P seen ks = []"
proof -
  assume "key_ids P ks \<subseteq> set seen"
  then have "key_ids P ks - set seen = {}" by blast
  with take_new_ids [of P seen ks] show ?thesis by simp
qed

lemma merge_pairs:
  obtains ps where "list_all (\<lambda>(i, k). PublicKeyID P k = Some i) ps" "distinct (map fst ps)"
    "fst (mergeSAVerifyKeys P ex cs) = map snd ps" "set (map fst ps) = key_ids P ex \<union> key_ids P cs"
    "set (map snd ps) \<subseteq> set ex \<union> set cs" "snd (mergeSAVerifyKeys P ex cs) = card (key_ids P cs - key_ids P ex)"
    "take (length (take_new P [] ex)) ps = take_new P [] ex"
proof -
  let ?old = "take_new P [] ex"
  let ?new = "take_new P (map fst ?old) cs"
  let ?ps = "?old @ sort_key fst ?new"
  have 1: "list_all (\<lambda>(i, k). PublicKeyID P k = Some i) ?ps" by (auto simp: list_all_iff dest: take_new_mem)
  have d: "distinct (map fst (sort_key fst ?new))"
    using take_new_distinct [of P "map fst ?old" cs] by (simp add: distinct_map)
  have n: "set (map fst ?new) = key_ids P cs - key_ids P ex" by (simp only: take_new_ids set_map) (simp add: take_new_ids [unfolded set_map])
  have o: "set (map fst ?old) = key_ids P ex" by (simp add: take_new_ids [unfolded set_map])
  have 2: "distinct (map fst ?ps)" using take_new_distinct [of P "[]" ex] d n o by auto
  have 4: "set (map fst ?ps) = key_ids P ex \<union> key_ids P cs" using n o by auto
  have 5: "set (map snd ?ps) \<subseteq> set ex \<union> set cs" by (auto dest: take_new_mem)
  have "length ?new = card (set (map fst ?new))" using distinct_card [OF take_new_distinct [of P "map fst ?old" cs]] by simp
  then have 6: "snd (mergeSAVerifyKeys P ex cs) = card (key_ids P cs - key_ids P ex)" using n by (simp add: mergeSAVerifyKeys_def Let_def)
  show ?thesis using that [OF 1 2 _ 4 5 6] by (simp add: mergeSAVerifyKeys_def Let_def)
qed

lemma merge_is_union_ids: "key_ids P (fst (mergeSAVerifyKeys P ex cs)) = key_ids P ex \<union> key_ids P cs"
proof -
  obtain ps where "list_all (\<lambda>(i, k). PublicKeyID P k = Some i) ps" "fst (mergeSAVerifyKeys P ex cs) = map snd ps"
    "set (map fst ps) = key_ids P ex \<union> key_ids P cs" by (rule merge_pairs [of P ex cs]) blast
  then show ?thesis using pairs_ids by metis
qed

lemma merge_subset: "set (fst (mergeSAVerifyKeys P ex cs)) \<subseteq> set ex \<union> set cs"
  by (auto simp: mergeSAVerifyKeys_def Let_def dest: take_new_mem)

text \<open>Merging verify keys is a set union on key identifiers. Every known key stays, the own
  ones first and in their order, every new one is added once, nothing is duplicated, the count
  is the number of new keys; and a bundle that has them all is returned as it is, so it does not
  churn between runs.\<close>

theorem merge_is_union:
  "let m = mergeSAVerifyKeys P ex cs in
     key_ids P (fst m) = key_ids P ex \<union> key_ids P cs
   \<and> distinct (map (PublicKeyID P) (fst m))
   \<and> snd m = card (key_ids P cs - key_ids P ex)
   \<and> (\<exists>new. fst m = map snd (take_new P [] ex) @ new)
   \<and> (key_ids P cs' \<subseteq> key_ids P (fst m) \<longrightarrow> mergeSAVerifyKeys P (fst m) cs' = (fst m, 0))"
proof -
  obtain ps where ps: "list_all (\<lambda>(i, k). PublicKeyID P k = Some i) ps" "distinct (map fst ps)"
    "fst (mergeSAVerifyKeys P ex cs) = map snd ps" "set (map fst ps) = key_ids P ex \<union> key_ids P cs"
    "snd (mergeSAVerifyKeys P ex cs) = card (key_ids P cs - key_ids P ex)"
    "take (length (take_new P [] ex)) ps = take_new P [] ex" by (rule merge_pairs [of P ex cs])
  have ids: "map (PublicKeyID P) (map snd ps) = map Some (map fst ps)" using ps(1) by (auto simp: list_all_iff)
  have "distinct (map Some (map fst ps))" using ps(2) by (simp only: distinct_map) (simp add: inj_on_def)
  then have dist: "distinct (map (PublicKeyID P) (map snd ps))" by (simp only: ids)
  have old: "take_new P [] (map snd ps) = ps" using take_new_pairs [OF ps(1,2), of "[]"] by simp
  have "ps = take_new P [] ex @ drop (length (take_new P [] ex)) ps" using ps(6) by (metis append_take_drop_id)
  then have first: "\<exists>new. map snd ps = map snd (take_new P [] ex) @ new" by (metis map_append)
  have again: "mergeSAVerifyKeys P (map snd ps) cs' = (map snd ps, 0)" if "key_ids P cs' \<subseteq> key_ids P (map snd ps)"
  proof -
    have "take_new P (map fst ps) cs' = []" using that pairs_ids [OF ps(1)] by (intro take_new_none) simp
    then show ?thesis by (simp add: mergeSAVerifyKeys_def old)
  qed
  show ?thesis unfolding Let_def ps(3) using pairs_ids [OF ps(1)] ps(4,5) dist first again by simp
qed

section \<open>Convergence only adds\<close>

text \<open>Everything before the write only reads.\<close>

lemma confined_http [confined_intro]: "confined Q (http_get net host path)"
  by (auto simp: confined_def http_get_def fs_simps split: option.splits prod.splits)

lemma confined_own [confined_intro]: "confined Q (PublicKeyPEMFromPrivateKeyFile P pp path)"
  unfolding PublicKeyPEMFromPrivateKeyFile_def by (intro confined_intro)

lemma confined_bundle [confined_intro]: "confined Q (PublicKeyPEMFile P path)"
  unfolding PublicKeyPEMFile_def by (intro confined_intro)

lemma confined_sweep: "(\<And>h. confined Q (f h)) \<Longrightarrow> confined Q (sweep P n f host)"
  by (induction n) (auto intro!: confined_intro simp: Let_def)

lemma confined_ask: "(\<And>h. confined Q (f h)) \<Longrightarrow> confined Q (ask_peers P self f ips)"
  by (induction ips) (auto intro!: confined_intro simp: Let_def split: prod.splits)

lemma confined_list_from: "(\<And>h p. confined Q (g h p)) \<Longrightarrow> confined Q (list_from g e ss)"
  by (induction ss arbitrary: e) (auto intro!: confined_intro)

definition reading_env :: "'z os_scheme sa_env \<Rightarrow> bool" where
  "reading_env env \<longleftrightarrow> (\<forall>f h Q. se_fetch env = Some f \<longrightarrow> confined Q (f h)) \<and> (\<forall>l Q. se_list env = Some l \<longrightarrow> confined Q l)"

lemma confined_collect: "reading_env env \<Longrightarrow> confined Q (collectPeerSAKeys P env)"
  unfolding collectPeerSAKeys_def reading_env_def
  by (auto intro!: confined_intro confined_sweep confined_ask split: option.splits)

lemma confined_client [confined_intro]: "confined Q (saAPIClient P ok dir)"
  unfolding saAPIClient_def by (intro confined_intro)

lemma confined_retired [confined_intro]: "confined Q LoadRetiredSAKeys"
  unfolding LoadRetiredSAKeys_def by (intro confined_intro)

lemma newSAKeyEnv_run:
  assumes "newSAKeyEnv P ok net self cfg dir ap w = (r, w')"
  obtains env where "r = Inr env" "reading_env env" "se_certDir env = dir" "se_apply env = ap"
    "\<And>q. regular w' q = regular w q" "\<And>ids. fst (LoadRetiredSAKeys w) = Inr ids \<Longrightarrow> se_retired env = ids"
    "se_heat env = KubeServiceAccountKey (Shared cfg)"
proof -
  obtain r1 w1 where l: "LoadRetiredSAKeys w = (r1, w1)" by (cases "LoadRetiredSAKeys w")
  have w1: "\<And>q. regular w1 q = regular w q" using confinedD [OF confined_retired l, of _ "{}"] by simp
  have base: "reading_env (e\<lparr>se_retired := ids\<rparr>) = reading_env e" "reading_env \<lparr>se_certDir = a, se_apply = b, se_heat = c, se_self = d,
     se_endpoint = e1, se_masters = m, se_retired = i, se_list = None, se_fetch = None\<rparr>" for e :: "'a os_scheme sa_env" and ids a b c d e1 m i
    by (simp_all add: reading_env_def)
  show ?thesis
  proof (cases r1)
    case (Inl e)
    with assms l w1 base show ?thesis by (intro that) (auto simp: newSAKeyEnv_def Let_def attempt_def run_simps)
  next
    case (Inr ids)
    obtain c w2 where s: "saAPIClient P ok dir w1 = (c, w2)" by (cases "saAPIClient P ok dir w1")
    have w2: "\<And>q. regular w2 q = regular w q" using confinedD [OF confined_client s, of _ "{}"] w1 by simp
    show ?thesis
      using assms l Inr s w2 base
      by (cases c; intro that) (auto simp: newSAKeyEnv_def Let_def attempt_def run_simps reading_env_def
          simp del: list_from.simps intro!: confined_http confined_list_from)
  qed
qed

lemma jwks_texts: "JWKSPublicKeyPEMs P doc = Some ks \<Longrightarrow> list_all (key_text P) ks"
  by (auto simp: JWKSPublicKeyPEMs_def List.map_filter_def list_all_iff key_text_def split: option.splits) blast+

lemma sweep_texts: "sweep P n f h w = (Inr ks, w') \<Longrightarrow> list_all (key_text P) ks"
proof (induction n arbitrary: w ks)
  case (Suc n)
  obtain r w1 where f: "f h w = (r, w1)" by (cases "f h w")
  with Suc.prems obtain got more where g: "ks = got @ more" "sweep P n f h w1 = (Inr more, w')"
      "got = (case r of Inl _ \<Rightarrow> [] | Inr doc \<Rightarrow> (case JWKSPublicKeyPEMs P doc of None \<Rightarrow> [] | Some ks \<Rightarrow> ks))"
    by (auto simp: attempt_def Let_def andthen_ok_iff run_simps)
  then have "list_all (key_text P) got" using jwks_texts by (auto split: sum.splits option.splits)
  with g Suc.IH show ?case by simp
qed (simp add: run_simps)

lemma ask_texts: "ask_peers P self f ips w = (Inr (ks, ws), w') \<Longrightarrow> list_all (key_text P) ks"
proof (induction ips arbitrary: w ks ws)
  case (Cons ip ips)
  show ?case
  proof (cases "ip = [] \<or> ip = self")
    case False
    obtain r w1 where f: "f ip w = (r, w1)" by (cases "f ip w")
    with Cons.prems False obtain got warn more ws' where g: "ks = got @ more" "ask_peers P self f ips w1 = (Inr (more, ws'), w')"
      "(got, warn) = (case r of Inl _ \<Rightarrow> ([], [''could not read service-account keys from master '' @ ip])
         | Inr doc \<Rightarrow> (case JWKSPublicKeyPEMs P doc of None \<Rightarrow> ([], [''master '' @ ip @ '' served an unparseable JWKS document'']) | Some ks \<Rightarrow> (ks, [])))"
      by (auto simp: attempt_def Let_def andthen_ok_iff run_simps split: prod.splits)
    then have "list_all (key_text P) got" using jwks_texts by (auto split: sum.splits option.splits)
    with g Cons.IH show ?thesis by simp
  qed (use Cons in auto)
qed (simp add: run_simps)

lemma collect_texts: "collectPeerSAKeys P env w = (Inr (ks, ws), w') \<Longrightarrow> list_all (key_text P) ks"
  unfolding collectPeerSAKeys_def
  by (auto simp: attempt_def andthen_ok_iff run_simps dest: sweep_texts ask_texts split: option.splits prod.splits sum.splits if_splits)

definition bundle_ids :: "'k pki \<Rightarrow> 'z os_scheme \<Rightarrow> string \<Rightarrow> string set" where
  "bundle_ids P w path = (case content w path of None \<Rightarrow> {} | Some d \<Rightarrow> key_ids P (ParsePublicKeyPEMs P d))"

definition own_ids :: "'k pki \<Rightarrow> (string \<Rightarrow> 'k option) \<Rightarrow> 'z os_scheme \<Rightarrow> string \<Rightarrow> string set" where
  "own_ids P priv_pub w path = (case content w path of None \<Rightarrow> {} | Some d \<Rightarrow>
     (case priv_pub d of None \<Rightarrow> {} | Some k \<Rightarrow> (case PublicKeyPEM P k of None \<Rightarrow> {} | Some pem \<Rightarrow> set_option (PublicKeyID P pem))))"

lemma FileSpec_write:
  assumes "FileSpec_Apply ap \<lparr>f_path = p, f_content = d, f_mode = m, f_absent = False\<rparr> w = (r, w')"
  shows "content w' p = content w p \<or> content w' p = Some d"
proof -
  obtain r0 where e: "EnsureFile ap p d m w = (r0, w')"
    using assms by (cases "EnsureFile ap p d m w") (auto simp: FileSpec_Apply_def andthen_def run_simps split: sum.splits)
  show ?thesis
  proof (cases ap)
    case True
    with EnsureFile_run [of p d m w r0 w'] e show ?thesis
      by (cases r0) (auto simp: content_regular)
  next
    case False
    have "confined {} (EnsureFile False p d m :: ('a os_scheme, change option) io)"
      unfolding EnsureFile_def applyFunc_def by (auto intro!: confined_intro)
    from confinedD_content [OF this] e False show ?thesis by simp
  qed
qed

lemma own_key: 
  assumes "PublicKeyPEMFromPrivateKeyFile P pp path w = (Inr pem, w')"
  shows "key_text P pem" "set_option (PublicKeyID P pem) \<subseteq> own_ids P pp w path"
  using assms by (auto simp: PublicKeyPEMFromPrivateKeyFile_def andthen_ok_iff wrapping_ok_iff read_file_ok run_simps
      own_ids_def key_text_def split: option.splits)

lemma drop_subset: "set (fst (dropRetiredKeys P ks ids)) \<subseteq> set ks"
  "key_ids P (fst (dropRetiredKeys P ks ids)) \<inter> set ids = {}"
  by (auto simp: dropRetiredKeys_def Let_def key_ids_def)

lemma own_ids_same: "(\<And>q. regular w' q = regular w q) \<Longrightarrow> own_ids P pp w' p = own_ids P pp w p"
  by (simp add: own_ids_def content_regular)

lemma converge_run:
  assumes P: "pki_ok P" and env: "reading_env env" and b: "b = se_certDir env @ ''/'' @ saVerifyKeyFile"
    and run: "convergeSAVerifyKeys P pp env w = (r, w')"
  shows "content w' b = content w b \<or> (bundle_ids P w b \<subseteq> bundle_ids P w' b \<and>
     bundle_ids P w' b - bundle_ids P w b \<subseteq> own_ids P pp w (se_certDir env @ ''/'' @ saPrivateKeyFile) \<union> - set (se_retired env))"
proof -
  let ?priv = "se_certDir env @ ''/'' @ saPrivateKeyFile"
  let ?rd = "wrapping ''master-certificates: read service-account verify keys'' (PublicKeyPEMFile P b)"
  obtain r1 w1 where rd: "?rd w = (r1, w1)" by (cases "?rd w")
  have c1: "confined Q ?rd" for Q by (intro confined_intro)
  have w1: "\<And>q. regular w1 q = regular w q" using confinedD [OF c1 rd, of _ "{}"] by simp
  obtain o1 w2 where own: "PublicKeyPEMFromPrivateKeyFile P pp ?priv w1 = (o1, w2)" by (cases "PublicKeyPEMFromPrivateKeyFile P pp ?priv w1")
  have w2: "\<And>q. regular w2 q = regular w q" using confinedD [OF confined_own own, of _ "{}"] w1 by simp
  obtain r3 w3 where col: "collectPeerSAKeys P env w2 = (r3, w3)" by (cases "collectPeerSAKeys P env w2")
  have w3: "\<And>q. regular w3 q = regular w q" using confinedD [OF confined_collect [OF env] col, of _ "{}"] w2 by simp
  have same: "content v b = content w b" if "\<And>q. regular v q = regular w q" for v using that by (simp add: content_regular)
  show ?thesis
  proof (cases r1)
    case (Inl e)
    with run rd have "w' = w1" by (auto simp: convergeSAVerifyKeys_def Let_def andthen_def b)
    with same w1 show ?thesis by blast
  next
    case ex: (Inr existing)
    have ex_ids: "existing = (case content w b of None \<Rightarrow> [] | Some d \<Rightarrow> ParsePublicKeyPEMs P d)"
      using rd ex by (auto simp: wrapping_ok_iff PublicKeyPEMFile_def attempt_def read_file_def content_def run_simps
          split: fault.splits option.splits node.splits if_splits)
    then have ids0: "bundle_ids P w b = key_ids P existing" by (simp add: bundle_ids_def split: option.splits)
    show ?thesis
    proof (cases "existing = [] \<or> (\<exists>e. r3 = Inl e)")
      case True
      with run rd ex own col have "w' \<in> {w1, w3}"
        by (auto simp: convergeSAVerifyKeys_def Let_def andthen_def attempt_def run_simps b split: if_splits)
      with same w1 w3 show ?thesis by blast
    next
      case False
      then obtain pk ws where r3: "r3 = Inr (pk, ws)" by (cases r3) auto
      define ad where "ad = fst (dropRetiredKeys P (ParsePublicKeyPEMs P (normalizeHeatPEM (se_heat env)) @ pk) (se_retired env))"
      define ow where "ow = (case o1 of Inl _ \<Rightarrow> [] | Inr pem \<Rightarrow> [pem])"
      let ?m = "mergeSAVerifyKeys P existing (existing @ ow @ ad)"
      have same_own: "own_ids P pp w1 ?priv = own_ids P pp w ?priv" by (rule own_ids_same) (rule w1)
      have ow: "list_all (key_text P) ow" "key_ids P ow \<subseteq> own_ids P pp w ?priv"
        using own_key [of P pp ?priv w1 _ w2] own same_own by (auto simp: ow_def split: sum.splits)
      have ad_t: "list_all (key_text P) ad"
        using drop_subset(1) collect_texts [of P env w2 pk ws w3] col r3 Parse_key_texts [of P "normalizeHeatPEM (se_heat env)"]
        unfolding ad_def by (fastforce simp: list_all_iff)
      have ad_i: "key_ids P ad \<inter> set (se_retired env) = {}" unfolding ad_def by (rule drop_subset(2))
      have ex_t: "list_all (key_text P) existing" using ex_ids Parse_key_texts by (auto split: option.splits)
      have m_ids: "key_ids P (fst ?m) = key_ids P existing \<union> key_ids P ow \<union> key_ids P ad"
        using merge_is_union_ids [of P existing "existing @ ow @ ad"] by auto
      have m_t: "list_all (key_text P) (fst ?m)" using merge_subset [of P existing "existing @ ow @ ad"] ex_t ow ad_t by (auto simp: list_all_iff)
      show ?thesis
      proof (cases "snd ?m = 0")
        case True
        with run rd ex own col r3 False have "w' = w3"
          by (simp add: convergeSAVerifyKeys_def Let_def andthen_def attempt_def run_simps b ad_def ow_def case_prod_unfold)
        with same w3 show ?thesis by blast
      next
        case added: False
        let ?fs = "FileSpec_Apply (se_apply env) \<lparr>f_path = b, f_content = concat (fst ?m), f_mode = o440, f_absent = False\<rparr> w3"
        have "w' = snd ?fs"
          using run rd ex own col r3 False added
          by (auto simp: convergeSAVerifyKeys_def Let_def andthen_def attempt_def wrapping_def run_simps b ad_def ow_def case_prod_unfold
              split: prod.splits sum.splits)
        then have "?fs = (fst ?fs, w')" by simp
        from FileSpec_write [OF this] have "content w' b = content w b \<or> content w' b = Some (concat (fst ?m))"
          using same [OF w3] by simp
        moreover have "bundle_ids P w' b = key_ids P (fst ?m)" if "content w' b = Some (concat (fst ?m))"
          using that Parse_concat [OF P m_t] by (simp add: bundle_ids_def)
        ultimately show ?thesis using m_ids ids0 ow(2) ad_i by blast
      qed
    qed
  qed
qed

text \<open>C12: converging the verify keys never withdraws a key and never brings a retired one back.
  Whatever the network answers and whichever call fails, after the step every key the bundle had
  is still there, and each key it gained is this master's own signing key or is not listed in
  the registry of retired keys, provided the registry could be read.\<close>

theorem converge_additive:
  assumes "pki_ok P" "andthen (newSAKeyEnv P pair_ok net self cfg dir ap) (convergeSAVerifyKeys P priv_pub) w = (r, w')"
  shows "let b = dir @ ''/'' @ saVerifyKeyFile; gained = bundle_ids P w' b - bundle_ids P w b in
    bundle_ids P w b \<subseteq> bundle_ids P w' b
    \<and> (\<forall>ids. fst (LoadRetiredSAKeys w) = Inr ids \<longrightarrow> gained \<subseteq> own_ids P priv_pub w (dir @ ''/'' @ saPrivateKeyFile) \<union> - set ids)"
proof -
  let ?b = "dir @ ''/'' @ saVerifyKeyFile"
  obtain r1 w1 where n: "newSAKeyEnv P pair_ok net self cfg dir ap w = (r1, w1)" by (cases "newSAKeyEnv P pair_ok net self cfg dir ap w")
  obtain env where env: "r1 = Inr env" "reading_env env" "se_certDir env = dir"
    and w1: "\<And>q. regular w1 q = regular w q" and ids: "\<And>ids. fst (LoadRetiredSAKeys w) = Inr ids \<Longrightarrow> se_retired env = ids"
    by (rule newSAKeyEnv_run [OF n]) blast
  have run: "convergeSAVerifyKeys P priv_pub env w1 = (r, w')" using assms(2) n env(1) by (simp add: andthen_def)
  have "?b = se_certDir env @ ''/'' @ saVerifyKeyFile" using env(3) by simp
  note step = converge_run [OF assms(1) env(2) this run]
  have b: "bundle_ids P w1 ?b = bundle_ids P w ?b" using w1 by (simp add: bundle_ids_def content_regular)
  have o: "own_ids P priv_pub w1 (dir @ ''/'' @ saPrivateKeyFile) = own_ids P priv_pub w (dir @ ''/'' @ saPrivateKeyFile)"
    by (rule own_ids_same) (rule w1)
  from step show ?thesis
  proof
    assume "content w' ?b = content w1 ?b"
    then have "bundle_ids P w' ?b = bundle_ids P w ?b" using b by (simp add: bundle_ids_def)
    then show ?thesis by (simp add: Let_def)
  next
    assume "bundle_ids P w1 ?b \<subseteq> bundle_ids P w' ?b \<and> bundle_ids P w' ?b - bundle_ids P w1 ?b \<subseteq>
      own_ids P priv_pub w1 (se_certDir env @ ''/'' @ saPrivateKeyFile) \<union> - set (se_retired env)"
    then show ?thesis unfolding b env(3) o Let_def using ids by blast
  qed
qed

section \<open>The registry that cannot be read\<close>

definition demo_key :: "string \<Rightarrow> string" where
  "demo_key k = toy_enc (''PUBLIC KEY'', k)"

definition sa_cfg :: Config where
  "sa_cfg = config_of_raw [] [] [(''KUBE_SERVICE_ACCOUNT_KEY'', demo_key ''k2'')]"

definition sa_os :: "fault \<Rightarrow> os" where
  "sa_os f = calm_os\<lparr>files := [(''/c'', DirN 493 0 0), (''/c/service_account.key'', FileN (demo_key ''k1'') 288 0 0),
     (RetiredSAKeysPath, FileN (the (PublicKeyID toy_pki (demo_key ''k2'')) @ NL) 420 0 0)],
     fault := (\<lambda>t. if t = 0 then f else Fine)\<rparr>"

definition sa_run :: "fault \<Rightarrow> os" where
  "sa_run f = snd (andthen (newSAKeyEnv toy_pki (\<lambda>_ _. False) (\<lambda>_ _ _ _. None) [] sa_cfg ''/c'' True)
     (convergeSAVerifyKeys toy_pki (\<lambda>_. None)) (sa_os f))"

theorem converge_additive_witness:
  "bundle_ids toy_pki (sa_os Fine) ''/c/service_account.key'' \<subseteq> bundle_ids toy_pki (sa_run Fine) ''/c/service_account.key''"
proof -
  obtain r w' where run: "andthen (newSAKeyEnv toy_pki (\<lambda>_ _. False) (\<lambda>_ _ _ _. None) [] sa_cfg ''/c'' True)
     (convergeSAVerifyKeys toy_pki (\<lambda>_. None)) (sa_os Fine) = (r, w')" by (meson surj_pair)
  from converge_additive [OF toy_pki_ok run] run show ?thesis
    by (simp add: Let_def sa_run_def saVerifyKeyFile_def)
qed


theorem merge_is_union_witness:
  "(let m = fst (mergeSAVerifyKeys toy_pki [demo_key ''k1''] [demo_key ''k2'', demo_key ''k1''])
    in mergeSAVerifyKeys toy_pki m [demo_key ''k2''] = (m, 0)) \<and> key_ids toy_pki [demo_key ''k2''] \<noteq> {}"
proof -
  have "PublicKeyID toy_pki (demo_key ''k2'') \<noteq> None" by code_simp
  then have known: "key_ids toy_pki [demo_key ''k2''] \<noteq> {}" by auto
  let ?m = "mergeSAVerifyKeys toy_pki [demo_key ''k1''] [demo_key ''k2'', demo_key ''k1'']"
  have "key_ids toy_pki [demo_key ''k2''] \<subseteq> key_ids toy_pki (fst ?m)"
    unfolding merge_is_union_ids by auto
  with merge_is_union [of toy_pki "[demo_key ''k1'']" "[demo_key ''k2'', demo_key ''k1'']" "[demo_key ''k2'']"]
  have "mergeSAVerifyKeys toy_pki (fst ?m) [demo_key ''k2''] = (fst ?m, 0)" unfolding Let_def by blast
  then show ?thesis unfolding Let_def using known by blast
qed

end
