(* ===== verification/Base64.thy ===== *)
theory Base64
  imports TrustBundle
begin

text \<open>
  base64.StdEncoding of the Go standard library, on strings of bytes: the URL-safe text of
  TrustBundle with two other characters and padding. Decoding skips newline characters. The two
  lemmas state that it is a round trip and that the text stays on one line. Nothing here carries a
  manifest entry.
\<close>

definition std_char :: "char \<Rightarrow> char" where
  "std_char c = (if c = CHR ''-'' then CHR ''+'' else if c = CHR ''_'' then CHR ''/'' else c)"

definition url_char :: "char \<Rightarrow> char option" where
  "url_char c = (if c = CHR ''+'' then Some (CHR ''-'') else if c = CHR ''/'' then Some (CHR ''_'')
     else if c = CHR ''-'' \<or> c = CHR ''_'' then None else Some c)"

definition b64_std :: "string \<Rightarrow> string" where
  "b64_std s = (let t = map std_char (b64_encode (bytes_of s)) in t @ replicate ((3 - length s mod 3) mod 3) (CHR ''=''))"

definition b64_std_decode :: "string \<Rightarrow> string option" where
  "b64_std_decode s = (case those (map url_char s) of None \<Rightarrow> None
     | Some u \<Rightarrow> map_option (map char_of) (b64_padded u))"

section \<open>Digits\<close>

lemma b64_val_char [simp]: "n < 64 \<Longrightarrow> b64_val (b64_char n) = Some n"
  by (auto simp: b64_val_def b64_char_def Let_def)

definition b64_text :: "char \<Rightarrow> bool" where
  "b64_text c \<longleftrightarrow> b64_val c \<noteq> None"

lemma b64_text_char [simp]: "n < 64 \<Longrightarrow> b64_text (b64_char n)"
  by (simp add: b64_text_def)

lemma b64_text_D: "b64_text c \<Longrightarrow> c \<noteq> CHR ''='' \<and> c \<noteq> CHR 0x0A \<and> c \<noteq> CHR 0x0D \<and> c \<noteq> CHR ''+'' \<and> c \<noteq> CHR ''/'' \<and> \<not> is_space c"
  by (auto simp: b64_text_def b64_val_def is_space_def Let_def split: if_splits)

definition b64_vals :: "nat list \<Rightarrow> nat list" where
  "b64_vals bs = map (\<lambda>c. the (b64_val c)) (b64_encode bs)"

lemma encode_text: "list_all (\<lambda>b. b < 256) bs \<Longrightarrow> list_all b64_text (b64_encode bs)"
proof (induction bs rule: b64_encode.induct)
  case (1 a b c r)
  then have "a mod 4 * 16 + b div 16 < 64" "b mod 16 * 4 + c div 64 < 64" by auto
  with 1 show ?case by auto
next
  case (2 a b)
  then have "a mod 4 * 16 + b div 16 < 64" "b mod 16 * 4 < 64" by auto
  with 2 show ?case by auto
qed auto

lemma encode_vals: "list_all b64_text s \<Longrightarrow> those (map b64_val s) = Some (map (\<lambda>c. the (b64_val c)) s)"
  by (induction s) (auto simp: b64_text_def)

lemma encode_groups: "list_all (\<lambda>b. b < 256) bs \<Longrightarrow> b64_groups (b64_vals bs) = Some bs"
proof (induction bs rule: b64_encode.induct)
  case (1 a b c r)
  then have v: "a mod 4 * 16 + b div 16 < 64" "b mod 16 * 4 + c div 64 < 64" "a div 4 < 64" "c mod 64 < 64" by auto
  have "(a mod 4 * 16 + b div 16) div 16 = a mod 4" "(a mod 4 * 16 + b div 16) mod 16 = b div 16"
    "(b mod 16 * 4 + c div 64) div 4 = b mod 16" "(b mod 16 * 4 + c div 64) mod 4 = c div 64"
    using 1 by auto
  moreover have "a div 4 * 4 + a mod 4 = a" "b div 16 * 16 + b mod 16 = b" "c div 64 * 64 + c mod 64 = c" by simp_all
  ultimately have e: "a div 4 * 4 + (a mod 4 * 16 + b div 16) div 16 = a"
    "(a mod 4 * 16 + b div 16) mod 16 * 16 + (b mod 16 * 4 + c div 64) div 4 = b"
    "(b mod 16 * 4 + c div 64) mod 4 * 64 + c mod 64 = c" by presburger+
  have "b64_vals (a # b # c # r) = [a div 4, a mod 4 * 16 + b div 16, b mod 16 * 4 + c div 64, c mod 64] @ b64_vals r"
    using v by (simp add: b64_vals_def)
  with 1 e show ?case by simp
next
  case (2 a b)
  then have v: "a mod 4 * 16 + b div 16 < 64" "b mod 16 * 4 < 64" "a div 4 < 64" by auto
  have "(a mod 4 * 16 + b div 16) div 16 = a mod 4" "(a mod 4 * 16 + b div 16) mod 16 = b div 16"
    "(b mod 16 * 4) div 4 = b mod 16" using 2 by auto
  then have e: "a div 4 * 4 + (a mod 4 * 16 + b div 16) div 16 = a"
    "(a mod 4 * 16 + b div 16) mod 16 * 16 + (b mod 16 * 4) div 4 = b" by presburger+
  have "b64_vals [a, b] = [a div 4, a mod 4 * 16 + b div 16, b mod 16 * 4]" using v by (simp add: b64_vals_def)
  with e show ?case by simp
next
  case (3 a)
  then have v: "a mod 4 * 16 < 64" "a div 4 < 64" by auto
  have "(a mod 4 * 16) div 16 = a mod 4" by simp
  then have e: "a div 4 * 4 + (a mod 4 * 16) div 16 = a" by presburger
  have "b64_vals [a] = [a div 4, a mod 4 * 16]" using v by (simp add: b64_vals_def)
  with e show ?case by simp
qed (simp add: b64_vals_def)

lemma encode_length: "length (b64_encode bs) = length bs div 3 * 4 + (case length bs mod 3 of 0 \<Rightarrow> 0 | Suc 0 \<Rightarrow> 2 | _ \<Rightarrow> 3)"
proof (induction bs rule: b64_encode.induct)
  case (1 a b c r)
  have "Suc (Suc (Suc (length r))) div 3 = Suc (length r div 3)" "Suc (Suc (Suc (length r))) mod 3 = length r mod 3" by presburger+
  with 1 show ?case by simp
qed (auto simp: numeral_2_eq_2)

section \<open>The round trip\<close>

lemma bytes_small: "list_all (\<lambda>b. b < 256) (bytes_of s)"
  by (induction s) (simp_all add: bytes_of_def)

lemma std_line: "list_all (\<lambda>c. \<not> is_space c) (b64_std s)"
proof -
  have "\<not> is_space (std_char c)" if "b64_text c" for c using b64_text_D [OF that] by (auto simp: std_char_def is_space_def)
  with encode_text [OF bytes_small [of s]] show ?thesis
    by (auto simp: b64_std_def Let_def list_all_iff is_space_def)
qed

lemma those_std: "list_all b64_text t \<Longrightarrow> those (map url_char (map std_char t @ replicate n (CHR ''=''))) = Some (t @ replicate n (CHR ''=''))"
proof (induction t)
  case Nil
  show ?case by (induction n) (simp_all add: url_char_def)
next
  case (Cons c t)
  then have "url_char (std_char c) = Some c" using b64_text_D [of c] by (auto simp: url_char_def std_char_def)
  with Cons show ?case by simp
qed

lemma trim_pad: "list_all b64_text t \<Longrightarrow> trim_right (t @ replicate n (CHR ''='')) ''='' = t"
proof -
  assume t: "list_all b64_text t"
  have "dropWhile (\<lambda>c. c = CHR ''='') (replicate n (CHR ''='') @ rev t) = rev t"
    using t by (induction n) (cases "rev t"; auto simp: list_all_iff dest!: b64_text_D)+
  then show ?thesis by (simp add: trim_right_def)
qed

lemma b64_std_roundtrip: "b64_std_decode (b64_std s) = Some s"
proof -
  let ?t = "b64_encode (bytes_of s)"
  let ?n = "(3 - length s mod 3) mod 3"
  have t: "list_all b64_text ?t" by (rule encode_text [OF bytes_small])
  have nl: "filter (\<lambda>c. c \<notin> {CHR 0x0A, CHR 0x0D}) ?t = ?t"
    using t by (auto simp: list_all_iff filter_id_conv dest: b64_text_D)
  have raw: "b64_raw ?t = Some (bytes_of s)"
    using encode_vals [OF t] encode_groups [OF bytes_small [of s]] nl by (simp add: b64_raw_def b64_vals_def)
  have len: "length (?t @ replicate ?n (CHR ''='')) mod 4 = 0 \<and> ?n \<le> 2"
  proof -
    have "length (bytes_of s) = length s" by (simp add: bytes_of_def)
    moreover have "length s mod 3 = 0 \<or> length s mod 3 = 1 \<or> length s mod 3 = 2" by presburger
    ultimately show ?thesis using encode_length [of "bytes_of s"] by (auto simp: numeral_2_eq_2 mod_Suc)
  qed
  have "filter (\<lambda>c. c \<notin> {CHR 0x0A, CHR 0x0D}) (?t @ replicate ?n (CHR ''='')) = ?t @ replicate ?n (CHR ''='')"
    using nl by simp
  then have "b64_padded (?t @ replicate ?n (CHR ''='')) = Some (bytes_of s)"
    using len raw by (simp add: b64_padded_def Let_def trim_pad [OF t])
  moreover have "map char_of (bytes_of s) = s" by (induction s) (simp_all add: bytes_of_def)
  ultimately show ?thesis using those_std [OF t, of ?n] by (simp add: b64_std_def b64_std_decode_def Let_def)
qed

end
