(* ===== verification/Certs.thy ===== *)
theory Certs
  imports Base64 HostOps GoText "HOL-Library.Word" "HOL-Library.Multiset"
begin

unbundle bit_operations_syntax

text \<open>
  internal/certutil/certutil.go: what the certificate modules ask about certificates and keys. X.509
  parsing, signature checks and certificate creation are the record \<open>x509\<close>, which extends the
  record of TrustBundle: a certificate is its bytes with its public key, the other fields are read
  from the bytes. \<open>'p\<close> is crypto.PrivateKey. An IP address is its 16-byte form as text.
\<close>

section \<open>The cryptographic packages\<close>

record cert_info =
  ci_not_before :: int
  ci_not_after :: int
  ci_cn :: string
  ci_orgs :: "string list"
  ci_dns :: "string list"
  ci_ips :: "string list"
  ci_usage :: "64 word"
  ci_ext :: "nat list"
  ci_serial :: int
  ci_ca :: bool

record ('k, 'p) x509 = "'k pki" +
  cert_of :: "string \<Rightarrow> cert_info"
  priv_pkcs1 :: "string \<Rightarrow> 'p option"
  priv_pkcs8 :: "string \<Rightarrow> 'p option"
  priv_ec :: "string \<Rightarrow> 'p option"
  pub_half :: "'p \<Rightarrow> 'k option"
  can_sign :: "'p \<Rightarrow> bool"
  sig_from :: "string \<Rightarrow> string \<Rightarrow> bool"
  sig_bare :: "string \<Rightarrow> string \<Rightarrow> bool"
  create_cert :: "nat \<Rightarrow> cert_info \<Rightarrow> string option \<Rightarrow> 'k \<Rightarrow> 'p \<Rightarrow> string option"

abbreviation pki_of :: "('k, 'p) x509 \<Rightarrow> 'k pki" where "pki_of X \<equiv> pki.truncate X"

text \<open>err.Error().\<close>

fun err_text :: "err \<Rightarrow> string" where
  "err_text NotExist = ''no such file or directory''"
| "err_text IOErr = ''input/output error''"
| "err_text Conflict = ''conflict''"
| "err_text AlreadyExists = ''already exists''"
| "err_text CtxDone = ''context canceled''"
| "err_text (Err s) = s"
| "err_text (Wrap s e) = s @ '': '' @ err_text e"

section \<open>Parsing\<close>

definition parseCertPEM :: "('k, 'p) x509 \<Rightarrow> string \<Rightarrow> err + (string \<times> 'k)" where
  "parseCertPEM X d = (case pem_dec X d of None \<Rightarrow> Inl (Err ''invalid certificate PEM'')
     | Some ((ty, raw), _) \<Rightarrow> if ty \<noteq> ''CERTIFICATE'' then Inl (Err ''invalid certificate PEM'')
         else (case parse_cert X raw of None \<Rightarrow> Inl (Err ''parse certificate'') | Some c \<Rightarrow> Inr c))"

definition loadCertificate :: "('k, 'p) x509 \<Rightarrow> string \<Rightarrow> ('z os_scheme, string \<times> 'k) io" where
  "loadCertificate X path = andthen (wrapping (''read certificate '' @ path) (read_file path)) (\<lambda>d.
     case parseCertPEM X d of Inl e \<Rightarrow> throw (Err (err_text e @ '' ('' @ path @ '')'')) | Inr c \<Rightarrow> ret c)"

definition loadPrivateKeyPEM :: "('k, 'p) x509 \<Rightarrow> string \<Rightarrow> err + 'p" where
  "loadPrivateKeyPEM X d = (case pem_dec X d of None \<Rightarrow> Inl (Err ''invalid private key PEM'')
     | Some ((_, b), _) \<Rightarrow> (case priv_pkcs1 X b of Some k \<Rightarrow> Inr k
       | None \<Rightarrow> (case priv_pkcs8 X b of Some k \<Rightarrow> Inr k
         | None \<Rightarrow> (case priv_ec X b of Some k \<Rightarrow> Inr k | None \<Rightarrow> Inl (Err ''unsupported private key'')))))"

definition loadPrivateKey :: "('k, 'p) x509 \<Rightarrow> string \<Rightarrow> ('z os_scheme, 'p) io" where
  "loadPrivateKey X path = andthen (wrapping (''read private key '' @ path) (read_file path)) (\<lambda>d.
     case loadPrivateKeyPEM X d of Inl e \<Rightarrow> throw (Err (err_text e @ '': '' @ path)) | Inr k \<Rightarrow> ret k)"

text \<open>The certificates of a file, unparseable ones skipped.\<close>

definition certs_in :: "('k, 'p) x509 \<Rightarrow> string \<Rightarrow> (string \<times> 'k) list" where
  "certs_in X d = List.map_filter (\<lambda>(ty, raw). if ty \<noteq> ''CERTIFICATE'' then None else parse_cert X raw)
     (pem_blocks (length d) (pki_of X) d)"

definition loadCACerts :: "('k, 'p) x509 \<Rightarrow> string \<Rightarrow> ('z os_scheme, (string \<times> 'k) list) io" where
  "loadCACerts X path = andthen (wrapping (''read CA file '' @ path) (read_file path)) (\<lambda>d.
     if certs_in X d = [] then throw (Err (''no certificate found in '' @ path)) else ret (certs_in X d))"

text \<open>A nil key and a key that cannot be marshalled match nothing.\<close>

definition publicKeysMatch :: "('k, 'p) x509 \<Rightarrow> 'k option \<Rightarrow> 'k option \<Rightarrow> bool" where
  "publicKeysMatch X a b = (case (a, b) of (Some x, Some y) \<Rightarrow>
       (case (marshal_key X x, marshal_key X y) of (Some da, Some db) \<Rightarrow> da = db | _ \<Rightarrow> False)
     | _ \<Rightarrow> False)"

definition leafSignedBy :: "('k, 'p) x509 \<Rightarrow> string \<times> 'k \<Rightarrow> string \<times> 'k \<Rightarrow> bool" where
  "leafSignedBy X leaf ca \<longleftrightarrow> sig_from X (fst leaf) (fst ca) \<or> sig_bare X (fst leaf) (fst ca)"

section \<open>Does a pair have to be made again?\<close>

record Spec =
  CommonName :: string
  Organizations :: "string list"
  DNSNames :: "string list"
  IPAddresses :: "string list"
  KeyUsage :: "64 word"
  ExtKeyUsage :: "nat list"

definition containsIP :: "string list \<Rightarrow> string \<Rightarrow> bool" where
  "containsIP vs t \<longleftrightarrow> t \<in> set vs"

text \<open>The checks on a parsed pair in their order: the first complaint.\<close>

definition shape_reason :: "Spec \<Rightarrow> cert_info \<Rightarrow> int \<Rightarrow> string option" where
  "shape_reason spec c now =
    (if now < ci_not_before c then Some ''certificate is not yet valid''
     else if now > ci_not_after c then Some ''certificate is expired''
     else if CommonName spec \<noteq> [] \<and> ci_cn c \<noteq> CommonName spec
     then Some (''certificate CN mismatch: have '' @ go_quote (ci_cn c) @ '' want '' @ go_quote (CommonName spec))
     else if Organizations spec \<noteq> [] \<and> sort (ci_orgs c) \<noteq> sort (Organizations spec)
     then Some ''certificate organization mismatch''
     else case find (\<lambda>d. d \<notin> set (ci_dns c)) (DNSNames spec) of Some d \<Rightarrow> Some (''certificate missing DNS SAN '' @ go_quote d)
     | None \<Rightarrow> (case find (\<lambda>i. \<not> containsIP (ci_ips c) i) (IPAddresses spec) of Some i \<Rightarrow> Some (''certificate missing IP SAN '' @ go_quote i)
     | None \<Rightarrow> if KeyUsage spec \<noteq> 0 \<and> (ci_usage c AND KeyUsage spec) \<noteq> KeyUsage spec then Some ''certificate key usage mismatch''
     else map_option (\<lambda>u. ''certificate missing extended key usage '' @ nat_str u)
            (find (\<lambda>u. u \<notin> set (ci_ext c)) (ExtKeyUsage spec))))"

definition NeedsReconcile :: "('k, 'p) x509 \<Rightarrow> string \<Rightarrow> string \<Rightarrow> Spec \<Rightarrow> ('z os_scheme, bool \<times> string) io" where
  "NeedsReconcile X certPath keyPath spec = attempt (loadCertificate X certPath) (\<lambda>r. case r of
       Inl e \<Rightarrow> ret (True, err_text e)
     | Inr (raw, pub) \<Rightarrow> attempt (loadPrivateKey X keyPath) (\<lambda>r. case r of
       Inl e \<Rightarrow> ret (True, err_text e)
     | Inr key \<Rightarrow> if \<not> publicKeysMatch X (Some pub) (pub_half X key) then ret (True, ''certificate and key do not match'')
       else andthen (asks os_now) (\<lambda>now. ret (case shape_reason spec (cert_of X raw) now of
           Some why \<Rightarrow> (True, why) | None \<Rightarrow> (False, [])))))"

section \<open>Chains\<close>

definition LeafChainBroken :: "('k, 'p) x509 \<Rightarrow> string \<Rightarrow> string \<Rightarrow> ('z os_scheme, bool) io" where
  "LeafChainBroken X leafPath caFile = attempt (loadCertificate X leafPath) (\<lambda>r. case r of Inl _ \<Rightarrow> ret False
     | Inr leaf \<Rightarrow> attempt (loadCACerts X caFile) (\<lambda>r. ret (case r of Inl _ \<Rightarrow> False
       | Inr cas \<Rightarrow> cas \<noteq> [] \<and> (\<forall>ca \<in> set cas. \<not> leafSignedBy X leaf ca))))"

definition LeafNotSignedByCurrentCA :: "('k, 'p) x509 \<Rightarrow> string \<Rightarrow> string \<Rightarrow> string \<Rightarrow> ('z os_scheme, bool) io" where
  "LeafNotSignedByCurrentCA X leafPath caFile caKeyPath = attempt (loadCertificate X leafPath) (\<lambda>r. case r of Inl _ \<Rightarrow> ret False
     | Inr leaf \<Rightarrow> attempt (loadCACerts X caFile) (\<lambda>r. case r of Inl _ \<Rightarrow> ret False
     | Inr cas \<Rightarrow> if cas = [] then ret False else attempt (loadPrivateKey X caKeyPath) (\<lambda>r. ret (case r of Inl _ \<Rightarrow> False
       | Inr key \<Rightarrow> (case find (\<lambda>ca. publicKeysMatch X (Some (snd ca)) (pub_half X key)) cas of None \<Rightarrow> False
           | Some current \<Rightarrow> \<not> leafSignedBy X leaf current)))))"

section \<open>Fitness of single files\<close>

definition CertPEMNeedsRefresh :: "('k, 'p) x509 \<Rightarrow> string \<Rightarrow> int \<Rightarrow> bool \<times> string" where
  "CertPEMNeedsRefresh X d now = (case parseCertPEM X d of Inl e \<Rightarrow> (True, err_text e)
     | Inr (raw, _) \<Rightarrow> if now < ci_not_before (cert_of X raw) then (True, ''certificate is not yet valid'')
         else if now > ci_not_after (cert_of X raw) then (True, ''certificate is expired'') else (False, []))"

definition CertFileNeedsRefresh :: "('k, 'p) x509 \<Rightarrow> string \<Rightarrow> ('z os_scheme, bool \<times> string) io" where
  "CertFileNeedsRefresh X path = attempt (read_file path) (\<lambda>r. case r of
       Inl e \<Rightarrow> ret (True, err_text (Wrap (''read certificate '' @ path) e))
     | Inr d \<Rightarrow> andthen (asks os_now) (\<lambda>now. ret (CertPEMNeedsRefresh X d now)))"

definition CertPEMMatchesKeyFile :: "('k, 'p) x509 \<Rightarrow> string \<Rightarrow> string \<Rightarrow> ('z os_scheme, bool) io" where
  "CertPEMMatchesKeyFile X d keyPath = (case parseCertPEM X d of Inl _ \<Rightarrow> ret False
     | Inr (_, pub) \<Rightarrow> attempt (loadPrivateKey X keyPath) (\<lambda>r. ret (case r of Inl _ \<Rightarrow> False
         | Inr key \<Rightarrow> publicKeysMatch X (Some pub) (pub_half X key))))"

definition KeyPEMMatchesCertPEM :: "('k, 'p) x509 \<Rightarrow> string \<Rightarrow> string \<Rightarrow> bool" where
  "KeyPEMMatchesCertPEM X keyPEM certPEM = (case parseCertPEM X certPEM of Inl _ \<Rightarrow> False
     | Inr (_, pub) \<Rightarrow> (case loadPrivateKeyPEM X keyPEM of Inl _ \<Rightarrow> False
         | Inr key \<Rightarrow> publicKeysMatch X (Some pub) (pub_half X key)))"

definition KeyPEMMatchesCertFile :: "('k, 'p) x509 \<Rightarrow> string \<Rightarrow> string \<Rightarrow> ('z os_scheme, bool) io" where
  "KeyPEMMatchesCertFile X keyPEM certPath = attempt (loadCertificate X certPath) (\<lambda>r. ret (case r of Inl _ \<Rightarrow> False
     | Inr (_, pub) \<Rightarrow> (case loadPrivateKeyPEM X keyPEM of Inl _ \<Rightarrow> False
         | Inr key \<Rightarrow> publicKeysMatch X (Some pub) (pub_half X key))))"

definition LocalCAUsable :: "('k, 'p) x509 \<Rightarrow> string \<Rightarrow> string \<Rightarrow> ('z os_scheme, bool \<times> string) io" where
  "LocalCAUsable X caCertPath caKeyPath = andthen (CertFileNeedsRefresh X caCertPath) (\<lambda>(needs, why).
     if needs then ret (False, why)
     else attempt (read_file caCertPath) (\<lambda>r. case r of Inl e \<Rightarrow> ret (False, err_text e)
     | Inr d \<Rightarrow> andthen (CertPEMMatchesKeyFile X d caKeyPath) (\<lambda>m. ret (if m then (True, [])
         else (False, ''CA certificate '' @ caCertPath @ '' and key '' @ caKeyPath
           @ '' are not a matching pair (or the key is missing/unreadable)'')))))"

section \<open>Recovery\<close>

definition usage_digital_signature :: "64 word" where "usage_digital_signature = 1"
definition usage_key_encipherment :: "64 word" where "usage_key_encipherment = 4"
definition usage_cert_sign :: "64 word" where "usage_cert_sign = 32"

text \<open>\<open>serial\<close> is the random number of 128 bits.\<close>

definition RenewExpiredCA :: "('k, 'p) x509 \<Rightarrow> int \<Rightarrow> string \<Rightarrow> string \<Rightarrow> ('z os_scheme, string) io" where
  "RenewExpiredCA X serial certPath keyPath = andthen (loadCertificate X certPath) (\<lambda>(raw, pub). let c = cert_of X raw in
     andthen (asks os_now) (\<lambda>now. if now < ci_not_after c
       then throw (Err (''CA certificate '' @ certPath @ '' is not expired; refusing to renew''))
     else andthen (loadPrivateKey X keyPath) (\<lambda>key. if \<not> publicKeysMatch X (Some pub) (pub_half X key)
       then throw (Err (''key '' @ keyPath @ '' is not the pair of CA certificate '' @ certPath @ ''; refusing to renew''))
     else if \<not> can_sign X key then throw (Err (''key '' @ keyPath @ '' cannot sign''))
     else andthen (asks os_now) (\<lambda>now. andthen (asks tick) (\<lambda>t.
       case create_cert X t \<lparr>ci_not_before = now - 300, ci_not_after = now + 10 * 365 * 86400, ci_cn = ci_cn c,
           ci_orgs = ci_orgs c, ci_dns = [], ci_ips = [], ci_usage = ci_usage c OR usage_cert_sign OR usage_digital_signature,
           ci_ext = [], ci_serial = serial, ci_ca = True\<rparr> None pub key of
         None \<Rightarrow> throw (Err ''renew CA certificate'')
       | Some der \<Rightarrow> ret (pem_enc X (''CERTIFICATE'', der)))))))"

definition LeafPEMSignedByCAFile :: "('k, 'p) x509 \<Rightarrow> string \<Rightarrow> string \<Rightarrow> ('z os_scheme, bool) io" where
  "LeafPEMSignedByCAFile X leafPEM caPath = (case parseCertPEM X leafPEM of Inl _ \<Rightarrow> ret False
     | Inr leaf \<Rightarrow> attempt (loadCACerts X caPath) (\<lambda>r. ret (case r of Inl _ \<Rightarrow> True
         | Inr cas \<Rightarrow> cas = [] \<or> (\<exists>ca \<in> set cas. leafSignedBy X leaf ca))))"

section \<open>Bundles\<close>

definition CertMatchingKeyPEM :: "('k, 'p) x509 \<Rightarrow> string \<Rightarrow> string \<Rightarrow> string option" where
  "CertMatchingKeyPEM X bundle keyPEM = (case loadPrivateKeyPEM X keyPEM of Inl _ \<Rightarrow> None
     | Inr key \<Rightarrow> map_option (\<lambda>(ty, raw). pem_enc X (''CERTIFICATE'', raw))
         (find (\<lambda>(ty, raw). ty = ''CERTIFICATE'' \<and> (case parse_cert X raw of None \<Rightarrow> False
             | Some (_, pub) \<Rightarrow> publicKeysMatch X (Some pub) (pub_half X key)))
           (pem_blocks (length bundle) (pki_of X) bundle)))"

definition BundleContainsCertPEM :: "('k, 'p) x509 \<Rightarrow> string \<Rightarrow> string \<Rightarrow> bool" where
  "BundleContainsCertPEM X bundle certPEM = (case pem_dec X certPEM of None \<Rightarrow> False
     | Some (want, _) \<Rightarrow> fst want = ''CERTIFICATE'' \<and> want \<in> set (pem_blocks (length bundle) (pki_of X) bundle))"

definition SanitizeTrustBundle :: "('k, 'p) x509 \<Rightarrow> string \<Rightarrow> string \<times> nat" where
  "SanitizeTrustBundle X bundle = (let raws = map snd (filter (\<lambda>(ty, _). ty = ''CERTIFICATE'') (pem_blocks (length bundle) (pki_of X) bundle));
       bad = (\<lambda>raw. parse_cert X raw = None \<or> ci_serial (cert_of X raw) < 0)
     in (concat (map (\<lambda>raw. pem_enc X (''CERTIFICATE'', raw)) (filter (\<lambda>raw. \<not> bad raw) raws)), length (filter bad raws)))"

section \<open>The authority in a kubeconfig\<close>

definition authority_key :: string where "authority_key = ''certificate-authority-data:''"

definition authority_in :: "string \<Rightarrow> string \<Rightarrow> string result" where
  "authority_in path d = (case find (\<lambda>t. has_prefix t authority_key \<and> trim_space (trim_prefix t authority_key) \<noteq> [])
       (map trim_space (split_on (CHR 0x0A) d)) of
     None \<Rightarrow> Inl (Err (''no certificate-authority-data in '' @ path))
   | Some t \<Rightarrow> (case b64_std_decode (trim_space (trim_prefix t authority_key)) of
       None \<Rightarrow> Inl (Err (''decode certificate-authority-data in '' @ path)) | Some b \<Rightarrow> Inr b))"

definition CAFromKubeconfig :: "string \<Rightarrow> ('z os_scheme, string) io" where
  "CAFromKubeconfig path = andthen (read_file path) (\<lambda>d. case authority_in path d of Inl e \<Rightarrow> throw e | Inr b \<Rightarrow> ret b)"

section \<open>Which certificates are kept\<close>

lemma pki_of_fields [simp]: "pem_dec (pki_of X) = pem_dec X" "pem_enc (pki_of X) = pem_enc X" "parse_cert (pki_of X) = parse_cert X"
  "marshal_key (pki_of X) = marshal_key X" "sha256 (pki_of X) = sha256 X"
  by (simp_all add: pki.truncate_def)

text \<open>What a certificate must offer, without the order of the checks.\<close>

definition fits :: "Spec \<Rightarrow> cert_info \<Rightarrow> int \<Rightarrow> bool" where
  "fits spec c now \<longleftrightarrow> ci_not_before c \<le> now \<and> now \<le> ci_not_after c
     \<and> CommonName spec \<in> {[], ci_cn c}
     \<and> (Organizations spec = [] \<or> mset (ci_orgs c) = mset (Organizations spec))
     \<and> set (DNSNames spec) \<subseteq> set (ci_dns c) \<and> set (IPAddresses spec) \<subseteq> set (ci_ips c)
     \<and> {n. bit (KeyUsage spec) n} \<subseteq> {n. bit (ci_usage c) n}
     \<and> set (ExtKeyUsage spec) \<subseteq> set (ci_ext c)"

lemma usage_subset: "(a AND b) = b \<longleftrightarrow> {n. bit b n} \<subseteq> {n. bit (a :: 'w::len word) n}"
proof -
  have "(a AND b) = b \<longleftrightarrow> (\<forall>n. bit (a AND b) n = bit b n)" by (metis bit_eq_iff)
  then show ?thesis by (auto simp: bit_and_iff)
qed

lemma sort_mset: "sort xs = sort ys \<longleftrightarrow> mset xs = mset (ys :: 'a::linorder list)"
  by (metis mset_sort properties_for_sort sorted_sort)

lemma shape_reason_None: "shape_reason spec c now = None \<longleftrightarrow> fits spec c now"
proof -
  have f: "(case find P xs of None \<Rightarrow> e | Some x \<Rightarrow> Some (g x)) = None \<longleftrightarrow> find P xs = None \<and> e = (None :: string option)"
    for P :: "'b \<Rightarrow> bool" and xs e g by (auto split: option.splits)
  have "KeyUsage spec = 0 \<Longrightarrow> {n. bit (KeyUsage spec) n} \<subseteq> {n. bit (ci_usage c) n}" by simp
  then show ?thesis
    by (auto simp: shape_reason_def fits_def f find_None_iff containsIP_def sort_mset usage_subset)
qed

lemma read_file_quiet:
  "no_faults w \<Longrightarrow> read_file p w = (case fget w p of None \<Rightarrow> Inl NotExist | Some (FileN c _ _ _) \<Rightarrow> Inr c | Some (DirN _ _ _) \<Rightarrow> Inl IOErr, tock w)"
  by (simp add: read_file_def split: option.splits node.splits)

text \<open>What the two files say, when reading works.\<close>

definition cert_at :: "('k, 'p) x509 \<Rightarrow> 'z os_scheme \<Rightarrow> string \<Rightarrow> (string \<times> 'k) option" where
  "cert_at X w p = (case content w p of None \<Rightarrow> None | Some d \<Rightarrow> (case parseCertPEM X d of Inl _ \<Rightarrow> None | Inr c \<Rightarrow> Some c))"

definition key_at :: "('k, 'p) x509 \<Rightarrow> 'z os_scheme \<Rightarrow> string \<Rightarrow> 'p option" where
  "key_at X w p = (case content w p of None \<Rightarrow> None | Some d \<Rightarrow> (case loadPrivateKeyPEM X d of Inl _ \<Rightarrow> None | Inr k \<Rightarrow> Some k))"

lemma load_quiet:
  assumes "no_faults w"
  shows "\<exists>r. loadCertificate X p w = (r, tock w) \<and> (case cert_at X w p of None \<Rightarrow> \<exists>e. r = Inl e | Some c \<Rightarrow> r = Inr c)"
    and "\<exists>r. loadPrivateKey X p w = (r, tock w) \<and> (case key_at X w p of None \<Rightarrow> \<exists>e. r = Inl e | Some k \<Rightarrow> r = Inr k)"
  using read_file_quiet [OF assms, of p]
  by (auto simp: loadCertificate_def loadPrivateKey_def cert_at_def key_at_def andthen_def wrapping_def content_def run_simps
      split: option.splits node.splits sum.splits)

lemma no_faults_tock [simp]: "no_faults (tock w) = no_faults w"
  by (simp add: no_faults_def fs_simps)

lemma at_tock [simp]: "cert_at X (tock w) p = cert_at X w p" "key_at X (tock w) p = key_at X w p"
  by (simp_all add: cert_at_def key_at_def fs_simps)

text \<open>C31: a certificate is kept exactly when both files parse, belong together and the certificate
  offers everything asked for at the time of the check: organizations as a multiset, alternative
  names and key usages as supersets. Anything else asks for a new pair.\<close>

theorem needs_reconcile_exact:
  assumes "no_faults w"
  shows "\<exists>why w'. NeedsReconcile X certPath keyPath spec w = (Inr (\<not> (\<exists>raw pub key.
      cert_at X w certPath = Some (raw, pub) \<and> key_at X w keyPath = Some key
      \<and> publicKeysMatch X (Some pub) (pub_half X key) \<and> fits spec (cert_of X raw) (secs w (tick w + 2))), why), w')"
proof -
  obtain r where c: "loadCertificate X certPath w = (r, tock w)"
    "case cert_at X w certPath of None \<Rightarrow> \<exists>e. r = Inl e | Some c \<Rightarrow> r = Inr c" using load_quiet(1) [OF assms] by blast
  have "no_faults (tock w)" using assms by simp
  from load_quiet(2) [OF this] obtain s where k: "loadPrivateKey X keyPath (tock w) = (s, tock (tock w))"
    "case key_at X w keyPath of None \<Rightarrow> \<exists>e. s = Inl e | Some k \<Rightarrow> s = Inr k" by fastforce
  show ?thesis
  proof (cases "cert_at X w certPath")
    case None
    with c show ?thesis by (auto simp: NeedsReconcile_def attempt_def run_simps)
  next
    case (Some rp)
    obtain raw pub where rp: "rp = (raw, pub)" by (cases rp)
    show ?thesis
    proof (cases "key_at X w keyPath")
      case None
      with c k Some rp show ?thesis by (auto simp: NeedsReconcile_def attempt_def run_simps)
    next
      case key: (Some key)
      with c k Some rp show ?thesis
        by (auto simp: NeedsReconcile_def attempt_def andthen_def run_simps os_now_def fs_simps
            simp flip: shape_reason_None split: option.splits)
    qed
  qed
qed

section \<open>The signing anchor\<close>

definition pairs_with :: "('k, 'p) x509 \<Rightarrow> 'p \<Rightarrow> string \<times> 'k \<Rightarrow> bool" where
  "pairs_with X key c \<longleftrightarrow> publicKeysMatch X (Some (snd c)) (pub_half X key)"

lemma certs_in_mem: "(raw, pub) \<in> set (certs_in X d) \<longleftrightarrow>
    (\<exists>raw'. (''CERTIFICATE'', raw') \<in> set (pem_blocks (length d) (pki_of X) d) \<and> parse_cert X raw' = Some (raw, pub))"
proof
  assume "(raw, pub) \<in> set (certs_in X d)"
  then show "\<exists>raw'. (''CERTIFICATE'', raw') \<in> set (pem_blocks (length d) (pki_of X) d) \<and> parse_cert X raw' = Some (raw, pub)"
    by (auto simp: certs_in_def List.map_filter_def split: if_splits)
next
  assume "\<exists>raw'. (''CERTIFICATE'', raw') \<in> set (pem_blocks (length d) (pki_of X) d) \<and> parse_cert X raw' = Some (raw, pub)"
  then show "(raw, pub) \<in> set (certs_in X d)"
    by (auto simp: certs_in_def List.map_filter_def intro!: rev_image_eqI)
qed

lemma single_cert:
  assumes "pki_ok (pki_of X)" "parse_cert X raw = Some (raw, pub)"
  shows "certs_in X (pem_enc X (''CERTIFICATE'', raw)) = [(raw, pub)]" "parseCertPEM X (pem_enc X (''CERTIFICATE'', raw)) = Inr (raw, pub)"
proof -
  let ?d = "pem_enc X (''CERTIFICATE'', raw)"
  have ne: "?d \<noteq> []" using assms(1) by (auto simp: pki_ok_def)
  then have "pem_blocks (length ?d) (pki_of X) ?d = [(''CERTIFICATE'', raw)]"
    using pem_blocks_concat [OF assms(1), of "[(''CERTIFICATE'', raw)]" "length ?d"] by (cases ?d) auto
  then show "certs_in X ?d = [(raw, pub)]" using assms(2) by (simp add: certs_in_def map_filter_simps)
  have "pem_dec X (?d @ []) = Some ((''CERTIFICATE'', raw), [])"
    using assms(1) by (auto simp: pki_ok_def simp del: append_Nil2)
  then show "parseCertPEM X ?d = Inr (raw, pub)" using assms(2) by (simp add: parseCertPEM_def)
qed

lemma parse_raw: "pki_ok (pki_of X) \<Longrightarrow> parse_cert X raw' = Some (raw, pub) \<Longrightarrow> raw = raw'"
  by (auto simp: pki_ok_def)

text \<open>The certificate handed to the signing controller is exactly one certificate of the bundle
  and the partner of the key; there is none exactly when no certificate of the bundle is.\<close>

theorem signing_anchor_single:
  assumes "pki_ok (pki_of X)" "loadPrivateKeyPEM X keyPEM = Inr key"
  shows "case CertMatchingKeyPEM X bundle keyPEM of
      None \<Rightarrow> list_all (\<lambda>c. \<not> pairs_with X key c) (certs_in X bundle)
    | Some out \<Rightarrow> (\<exists>c. certs_in X out = [c] \<and> c \<in> set (certs_in X bundle) \<and> pairs_with X key c)
        \<and> KeyPEMMatchesCertPEM X keyPEM out"
proof -
  let ?P = "\<lambda>(ty, raw). ty = ''CERTIFICATE'' \<and> (case parse_cert X raw of None \<Rightarrow> False
             | Some (_, pub) \<Rightarrow> publicKeysMatch X (Some pub) (pub_half X key))"
  let ?bs = "pem_blocks (length bundle) (pki_of X) bundle"
  have out: "CertMatchingKeyPEM X bundle keyPEM = map_option (\<lambda>(ty, raw). pem_enc X (''CERTIFICATE'', raw)) (find ?P ?bs)"
    using assms(2) by (simp add: CertMatchingKeyPEM_def)
  show ?thesis
  proof (cases "find ?P ?bs")
    case None
    have "\<not> pairs_with X key c" if "c \<in> set (certs_in X bundle)" for c
    proof -
      obtain raw pub where c: "c = (raw, pub)" by (cases c)
      with that obtain raw' where "(''CERTIFICATE'', raw') \<in> set ?bs" "parse_cert X raw' = Some (raw, pub)"
        by (auto simp: certs_in_mem)
      with None c show ?thesis by (auto simp: find_None_iff pairs_with_def)
    qed
    with None show ?thesis by (simp add: out list_all_iff)
  next
    case (Some b)
    obtain ty raw where b: "b = (ty, raw)" by (cases b)
    from Some b have m: "b \<in> set ?bs" "?P (ty, raw)" by (auto simp: find_Some_iff) (metis nth_mem)
    then obtain raw' pub where p: "ty = ''CERTIFICATE''" "parse_cert X raw = Some (raw', pub)" "publicKeysMatch X (Some pub) (pub_half X key)"
      by (auto split: option.splits)
    have r: "raw' = raw" by (rule parse_raw [OF assms(1) p(2)])
    note s = single_cert [OF assms(1), of raw pub]
    have "(raw, pub) \<in> set (certs_in X bundle)" using m(1) b p r by (auto simp: certs_in_mem)
    moreover have "pairs_with X key (raw, pub)" using p(3) by (simp add: pairs_with_def)
    moreover have "KeyPEMMatchesCertPEM X keyPEM (pem_enc X (''CERTIFICATE'', raw))"
      using s(2) p r assms(2) by (simp add: KeyPEMMatchesCertPEM_def)
    ultimately show ?thesis using Some b s(1) p r by (auto simp: out)
  qed
qed

section \<open>Renewal\<close>

lemma load_ok:
  "loadCertificate X p w = (Inr c, w') \<Longrightarrow> cert_at X w p = Some c \<and> w' = tock w"
  "loadPrivateKey X p w = (Inr k, w') \<Longrightarrow> key_at X w p = Some k \<and> w' = tock w"
  by (auto simp: loadCertificate_def loadPrivateKey_def cert_at_def key_at_def andthen_ok_iff wrapping_ok_iff read_file_def
      content_def run_simps split: fault.splits option.splits node.splits sum.splits)

text \<open>x509.CreateCertificate makes the certificate that was asked for.\<close>

definition create_law :: "('k, 'p) x509 \<Rightarrow> bool" where
  "create_law X \<longleftrightarrow> (\<forall>t c parent pub key der. create_cert X t c parent pub key = Some der
     \<longrightarrow> parse_cert X der = Some (der, pub) \<and> cert_of X der = c)"

text \<open>C32: renewing re-dates the cluster's own authority and makes nothing else: it succeeds only for
  an expired certificate with its own key, and the result is one certificate with the same public
  key and subject, valid now.\<close>

theorem renew_only_redates:
  assumes "pki_ok (pki_of X)" "create_law X" "RenewExpiredCA X serial certPath keyPath w = (Inr out, w')"
  shows "\<exists>raw pub key new. cert_at X w certPath = Some (raw, pub) \<and> key_at X w keyPath = Some key
    \<and> ci_not_after (cert_of X raw) \<le> secs w (tick w + 1) \<and> pairs_with X key (raw, pub)
    \<and> certs_in X out = [(new, pub)] \<and> pairs_with X key (new, pub)
    \<and> ci_cn (cert_of X new) = ci_cn (cert_of X raw) \<and> ci_orgs (cert_of X new) = ci_orgs (cert_of X raw) \<and> ci_ca (cert_of X new)
    \<and> fst (CertPEMNeedsRefresh X out (secs w (tick w + 2))) = False"
proof -
  from assms(3) obtain raw pub w1 where c: "loadCertificate X certPath w = (Inr (raw, pub), w1)"
    and r1: "(if os_now w1 < ci_not_after (cert_of X raw)
       then throw (Err (''CA certificate '' @ certPath @ '' is not expired; refusing to renew''))
     else andthen (loadPrivateKey X keyPath) (\<lambda>key. if \<not> publicKeysMatch X (Some pub) (pub_half X key)
       then throw (Err (''key '' @ keyPath @ '' is not the pair of CA certificate '' @ certPath @ ''; refusing to renew''))
     else if \<not> can_sign X key then throw (Err (''key '' @ keyPath @ '' cannot sign''))
     else andthen (asks os_now) (\<lambda>now. andthen (asks tick) (\<lambda>t.
       case create_cert X t \<lparr>ci_not_before = now - 300, ci_not_after = now + 10 * 365 * 86400, ci_cn = ci_cn (cert_of X raw),
           ci_orgs = ci_orgs (cert_of X raw), ci_dns = [], ci_ips = [],
           ci_usage = ci_usage (cert_of X raw) OR usage_cert_sign OR usage_digital_signature,
           ci_ext = [], ci_serial = serial, ci_ca = True\<rparr> None pub key of
         None \<Rightarrow> throw (Err ''renew CA certificate'')
       | Some der \<Rightarrow> ret (pem_enc X (''CERTIFICATE'', der)))))) w1 = (Inr out, w')"
    unfolding RenewExpiredCA_def by (auto simp: andthen_ok_iff run_simps Let_def split: prod.splits)
  from load_ok(1) [OF c] have c': "cert_at X w certPath = Some (raw, pub)" "w1 = tock w" by auto
  from r1 have ex: "\<not> os_now w1 < ci_not_after (cert_of X raw)" by (auto simp: run_simps split: if_splits)
  with r1 obtain key w2 where k: "loadPrivateKey X keyPath w1 = (Inr key, w2)"
    and r2: "(if \<not> publicKeysMatch X (Some pub) (pub_half X key)
       then throw (Err (''key '' @ keyPath @ '' is not the pair of CA certificate '' @ certPath @ ''; refusing to renew''))
     else if \<not> can_sign X key then throw (Err (''key '' @ keyPath @ '' cannot sign''))
     else andthen (asks os_now) (\<lambda>now. andthen (asks tick) (\<lambda>t.
       case create_cert X t \<lparr>ci_not_before = now - 300, ci_not_after = now + 10 * 365 * 86400, ci_cn = ci_cn (cert_of X raw),
           ci_orgs = ci_orgs (cert_of X raw), ci_dns = [], ci_ips = [],
           ci_usage = ci_usage (cert_of X raw) OR usage_cert_sign OR usage_digital_signature,
           ci_ext = [], ci_serial = serial, ci_ca = True\<rparr> None pub key of
         None \<Rightarrow> throw (Err ''renew CA certificate'')
       | Some der \<Rightarrow> ret (pem_enc X (''CERTIFICATE'', der))))) w2 = (Inr out, w')"
    by (auto simp: andthen_ok_iff)
  from load_ok(2) [OF k] c' have k': "key_at X w keyPath = Some key" "w2 = tock (tock w)" by auto
  from r2 have m: "publicKeysMatch X (Some pub) (pub_half X key)" by (auto simp: run_simps split: if_splits)
  let ?now = "secs w (tick w + 2)"
  let ?t = "\<lparr>ci_not_before = ?now - 300, ci_not_after = ?now + 10 * 365 * 86400, ci_cn = ci_cn (cert_of X raw),
           ci_orgs = ci_orgs (cert_of X raw), ci_dns = [], ci_ips = [],
           ci_usage = ci_usage (cert_of X raw) OR usage_cert_sign OR usage_digital_signature,
           ci_ext = [], ci_serial = serial, ci_ca = True\<rparr>"
  from r2 m k' obtain t der where d: "create_cert X t ?t None pub key = Some der" "out = pem_enc X (''CERTIFICATE'', der)"
    by (auto simp: andthen_ok_iff run_simps os_now_def fs_simps split: if_splits option.splits)
  then have p: "parse_cert X der = Some (der, pub)" "cert_of X der = ?t" using assms(2) unfolding create_law_def by blast+
  note s = single_cert [OF assms(1) p(1)]
  have "fst (CertPEMNeedsRefresh X out ?now) = False" using s(2) p d by (simp add: CertPEMNeedsRefresh_def)
  moreover have "ci_not_after (cert_of X raw) \<le> secs w (tick w + 1)" using ex c' by (simp add: os_now_def fs_simps)
  ultimately show ?thesis using c' k' m s(1) d(2) p(2) by (auto simp: pairs_with_def)
qed

section \<open>Sanitizing\<close>

lemma parsed_blocks:
  "(\<And>r raw p. f r = Some (raw, p) \<Longrightarrow> raw = r) \<Longrightarrow>
   map fst (List.map_filter (\<lambda>(ty, raw). if ty \<noteq> c then None else f raw) bs) = filter (\<lambda>raw. f raw \<noteq> None) (map snd (filter (\<lambda>(ty, _). ty = c) bs))"
proof (induction bs)
  case (Cons b bs)
  obtain ty raw where "b = (ty, raw)" by (cases b)
  with Cons show ?case by (cases "ty = c"; cases "f raw") (auto simp: map_filter_simps)
qed (simp add: map_filter_simps)

lemma sanitize_again:
  assumes "pki_ok (pki_of X)"
  shows "SanitizeTrustBundle X (fst (SanitizeTrustBundle X d)) = (fst (SanitizeTrustBundle X d), 0)"
    and "map fst (certs_in X (fst (SanitizeTrustBundle X d))) = filter (\<lambda>raw. ci_serial (cert_of X raw) \<ge> 0) (map fst (certs_in X d))"
proof -
  let ?raws = "map snd (filter (\<lambda>(ty, _). ty = ''CERTIFICATE'') (pem_blocks (length d) (pki_of X) d))"
  let ?good = "\<lambda>raw. \<not> (parse_cert X raw = None \<or> ci_serial (cert_of X raw) < 0)"
  let ?out = "concat (map (\<lambda>raw. pem_enc X (''CERTIFICATE'', raw)) (filter ?good ?raws))"
  have out: "fst (SanitizeTrustBundle X d) = ?out" by (simp add: SanitizeTrustBundle_def Let_def)
  have len: "length (filter ?good ?raws) \<le> length ?out"
  proof -
    have "pem_enc X (''CERTIFICATE'', raw) \<noteq> []" for raw using assms by (auto simp: pki_ok_def)
    then show ?thesis by (intro concat_length) simp
  qed
  have blocks: "pem_blocks (length ?out) (pki_of X) ?out = map (Pair ''CERTIFICATE'') (filter ?good ?raws)"
    using pem_blocks_concat [OF assms, of "map (Pair ''CERTIFICATE'') (filter ?good ?raws)" "length ?out"] len
    by (auto simp: comp_def list_all_iff)
  have again: "map snd (filter (\<lambda>(ty, _). ty = ''CERTIFICATE'') (map (Pair ''CERTIFICATE'') xs)) = xs" for xs :: "string list"
    by (induction xs) auto
  show "SanitizeTrustBundle X (fst (SanitizeTrustBundle X d)) = (fst (SanitizeTrustBundle X d), 0)"
    unfolding out unfolding SanitizeTrustBundle_def Let_def blocks again by (auto simp: filter_empty_conv)
  have all: "map fst (certs_in X d') = filter (\<lambda>raw. parse_cert X raw \<noteq> None)
      (map snd (filter (\<lambda>(ty, _). ty = ''CERTIFICATE'') (pem_blocks (length d') (pki_of X) d')))" for d'
    unfolding certs_in_def by (rule parsed_blocks) (rule parse_raw [OF assms])
  have "map fst (certs_in X ?out) = filter ?good ?raws"
    unfolding all blocks again filter_filter by (rule filter_cong) auto
  then show "map fst (certs_in X (fst (SanitizeTrustBundle X d))) = filter (\<lambda>raw. ci_serial (cert_of X raw) \<ge> 0) (map fst (certs_in X d))"
    unfolding out all [of d] by (simp only: filter_filter) (rule filter_cong, simp_all add: not_less conj_commute)
qed

section \<open>A concrete instance of the packages\<close>

text \<open>The bytes of a certificate are its name and its public key around a colon, the name ends in
  a slash and the key that signed it; private and public keys are the same text. One template can
  be signed, as ''new:k1''.\<close>

definition toy_info :: "string \<Rightarrow> cert_info" where
  "toy_info raw = \<lparr>ci_not_before = (if raw = ''new:k1'' then - 280 else 0),
     ci_not_after = (if raw = ''new:k1'' then 20 + 10 * 365 * 86400 else if has_prefix raw ''old'' then 5 else 100000),
     ci_cn = ''magnum'', ci_orgs = [''b'', ''a''], ci_dns = (if raw = ''new:k1'' then [] else [''n1'', ''n2'']),
     ci_ips = [], ci_usage = (if raw = ''new:k1'' then 37 else 5), ci_ext = (if raw = ''new:k1'' then [] else [1, 2]),
     ci_serial = (if has_prefix raw ''neg'' then - 1 else 1), ci_ca = True\<rparr>"

definition toy_x509 :: "(string, string) x509" where
  "toy_x509 = \<lparr>pem_dec = toy_dec, pem_enc = toy_enc, parse_pkcs1 = (\<lambda>_. None), parse_pkix = Some,
     parse_cert = (\<lambda>raw. map_option (\<lambda>(n, k). (raw, k)) (cut_at (CHR '':'') raw)), marshal_key = Some,
     rsa_key = (\<lambda>n e. nat_str n @ '','' @ nat_str e), ec_key = (\<lambda>_ p. Some p), sha256 = (\<lambda>s. s),
     cert_of = toy_info, priv_pkcs1 = Some, priv_pkcs8 = Some, priv_ec = Some, pub_half = Some, can_sign = (\<lambda>_. True),
     sig_from = (\<lambda>leaf ca. False), sig_bare = (\<lambda>leaf ca. case (cut_at (CHR ''/'') leaf, cut_at (CHR '':'') leaf, cut_at (CHR '':'') ca) of
        (Some (_, by), Some (n, _), Some (_, k)) \<Rightarrow> has_suffix n (''/'' @ k) | _ \<Rightarrow> False),
     create_cert = (\<lambda>t c parent pub key. if c = toy_info ''new:k1'' \<and> parent = None \<and> pub = ''k1'' then Some ''new:k1'' else None)\<rparr>"

lemma toy_x509_ok: "pki_ok (pki_of toy_x509)" "create_law toy_x509"
proof -
  show "pki_ok (pki_of toy_x509)"
    using toy_dec_enc by (auto simp: pki_ok_def toy_x509_def toy_enc_def pki.truncate_def) (simp add: toy_dec_def)
  have "cut_at (CHR '':'') ''new:k1'' = Some (''new'', ''k1'')" by code_simp
  then show "create_law toy_x509" by (auto simp: create_law_def toy_x509_def)
qed

definition toy_cert :: "string \<Rightarrow> string" where
  "toy_cert raw = toy_enc (''CERTIFICATE'', raw)"

definition toy_priv :: "string \<Rightarrow> string" where
  "toy_priv k = toy_enc (''RSA PRIVATE KEY'', k)"

definition cert_os :: os where
  "cert_os = calm_os\<lparr>files := [(''/c'', DirN 493 0 0), (''/c/ca.crt'', FileN (toy_cert ''old:k1'') 292 0 0),
     (''/c/ca.key'', FileN (toy_priv ''k1'') 256 0 0), (''/c/l.crt'', FileN (toy_cert ''l/k1:k2'') 292 0 0),
     (''/c/l.key'', FileN (toy_priv ''k2'') 256 0 0)]\<rparr>"

definition toy_want :: Spec where
  "toy_want = \<lparr>CommonName = ''magnum'', Organizations = [''a'', ''b''], DNSNames = [''n2''], IPAddresses = [], KeyUsage = 4, ExtKeyUsage = [2]\<rparr>"

lemma needs_reconcile_exact_witness:
  "fst (NeedsReconcile toy_x509 ''/c/l.crt'' ''/c/l.key'' toy_want cert_os) = Inr (False, [])
   \<and> (\<exists>why w'. NeedsReconcile toy_x509 ''/c/l.crt'' ''/c/ca.key'' toy_want cert_os = (Inr (True, why), w'))"
proof -
  have n: "no_faults cert_os" by (simp add: no_faults_def cert_os_def calm_os_def)
  have "fst (NeedsReconcile toy_x509 ''/c/l.crt'' ''/c/l.key'' toy_want cert_os) = Inr (False, [])" by code_simp
  moreover have "cert_at toy_x509 cert_os ''/c/l.crt'' = Some (''l/k1:k2'', ''k2'')"
    "key_at toy_x509 cert_os ''/c/ca.key'' = Some ''k1''" by code_simp+
  moreover have "\<not> publicKeysMatch toy_x509 (Some ''k2'') (pub_half toy_x509 ''k1'')" by code_simp
  ultimately show ?thesis using needs_reconcile_exact [OF n, of toy_x509 "''/c/l.crt''" "''/c/ca.key''" toy_want] by auto
qed

lemma signing_anchor_single_witness:
  "KeyPEMMatchesCertPEM toy_x509 (toy_priv ''k1'') (the (CertMatchingKeyPEM toy_x509 (toy_cert ''ca:k2'' @ toy_cert ''old:k1'') (toy_priv ''k1'')))"
proof -
  have k: "loadPrivateKeyPEM toy_x509 (toy_priv ''k1'') = Inr ''k1''" by code_simp
  have "CertMatchingKeyPEM toy_x509 (toy_cert ''ca:k2'' @ toy_cert ''old:k1'') (toy_priv ''k1'') = Some (toy_cert ''old:k1'')" by code_simp
  with signing_anchor_single [OF toy_x509_ok(1) k, of "toy_cert ''ca:k2'' @ toy_cert ''old:k1''"] show ?thesis by simp
qed

lemma renew_only_redates_witness:
  "\<exists>new. certs_in toy_x509 (toy_cert ''new:k1'') = [(new, ''k1'')]
     \<and> fst (CertPEMNeedsRefresh toy_x509 (toy_cert ''new:k1'') (secs cert_os (tick cert_os + 2))) = False"
proof -
  obtain w' where run: "RenewExpiredCA toy_x509 1 ''/c/ca.crt'' ''/c/ca.key'' cert_os = (Inr (toy_cert ''new:k1''), w')"
  proof -
    have "fst (RenewExpiredCA toy_x509 1 ''/c/ca.crt'' ''/c/ca.key'' cert_os) = Inr (toy_cert ''new:k1'')" by code_simp
    then show thesis using that by (metis prod.collapse)
  qed
  have "cert_at toy_x509 cert_os ''/c/ca.crt'' = Some (''old:k1'', ''k1'')" by code_simp
  with renew_only_redates [OF toy_x509_ok run] show ?thesis by auto
qed

end
