(* ===== verification/Phases.thy ===== *)
theory Phases
  imports Config HostOps
begin

text \<open>
  What a run consists of: internal/moduleapi (requests, results, the restart tracker, the retry
  policy), internal/plan (the phases of a node and the limit of a run to one phase) and the
  dependencies that the modules of internal/module declare. Environment variables are an argument.
\<close>

section \<open>Requests and results\<close>

record Result =
  Changes :: "change list"
  Outputs :: "(string \<times> string) list"
  Warnings :: "string list"

definition no_result :: Result where "no_result = \<lparr>Changes = [], Outputs = [], Warnings = []\<rparr>"

record Request =
  rq_apply :: bool
  rq_partial :: bool
  PreviousSuccessfulGeneration :: string
  PreviousKubeTag :: string
  PreviousCARotationID :: string
  Periodic :: bool

definition DisruptiveServiceCycleNeeded :: "Config \<Rightarrow> Request \<Rightarrow> bool" where
  "DisruptiveServiceCycleNeeded cfg req \<longleftrightarrow> PreviousKubeTag req \<noteq> [] \<and> PreviousKubeTag req \<noteq> KubeTag (Shared cfg)"

text \<open>The restart tracker: a map under a mutex, so each call is one step.\<close>

type_synonym restart_tracker = "string \<Rightarrow> string option"

definition NewRestartTracker :: restart_tracker where "NewRestartTracker = (\<lambda>_. None)"
definition RestartTracker_Add :: "string \<Rightarrow> string \<Rightarrow> restart_tracker \<Rightarrow> restart_tracker" where
  "RestartTracker_Add service why rt = rt(service \<mapsto> why)"
definition NeedsRestart :: "string \<Rightarrow> restart_tracker \<Rightarrow> bool" where
  "NeedsRestart service rt \<longleftrightarrow> rt service \<noteq> None"

section \<open>Retries\<close>

record RetryPolicy =
  MaxAttempts :: int
  Delay :: int

definition DefaultRetryPolicy :: "(string \<Rightarrow> string) \<Rightarrow> RetryPolicy" where
  "DefaultRetryPolicy env = (let
     p = \<lparr>MaxAttempts = 2, Delay = 3\<rparr>;
     v = env ''MAGNUM_MODULE_MAX_ATTEMPTS'';
     p = (case atoi v of Some n \<Rightarrow> if v \<noteq> [] \<and> n \<ge> 1 then p\<lparr>MaxAttempts := n\<rparr> else p | None \<Rightarrow> p);
     u = env ''MAGNUM_MODULE_RETRY_DELAY_SECONDS''
   in (case atoi u of Some n \<Rightarrow> if u \<noteq> [] \<and> n \<ge> 0 then p\<lparr>Delay := n\<rparr> else p | None \<Rightarrow> p))"

text \<open>\<open>own\<close> is the policy of a module that implements Retryable.\<close>

definition ResolveRetryPolicy :: "(string \<Rightarrow> string) \<Rightarrow> RetryPolicy option \<Rightarrow> RetryPolicy" where
  "ResolveRetryPolicy env own = (let
     p = (case own of None \<Rightarrow> DefaultRetryPolicy env | Some q \<Rightarrow> q);
     p = (if MaxAttempts p < 1 then p\<lparr>MaxAttempts := 1\<rparr> else p)
   in if Delay p < 0 then p\<lparr>Delay := 0\<rparr> else p)"

definition carotation_RetryPolicy :: RetryPolicy where "carotation_RetryPolicy = \<lparr>MaxAttempts = 1, Delay = 0\<rparr>"
definition storage_RetryPolicy :: RetryPolicy where "storage_RetryPolicy = \<lparr>MaxAttempts = 1, Delay = 0\<rparr>"

text \<open>Run with retries. A run returns its result and its error together; \<open>cancelled\<close> is the context
  of the whole run, which a failing sibling finishes, at the moment it is looked at.\<close>

record phase_run =
  pr_result :: Result
  pr_err :: "err option"

fun retry_loop :: "nat \<Rightarrow> int \<Rightarrow> ('w \<Rightarrow> bool) \<Rightarrow> ('w \<Rightarrow> 'w) \<Rightarrow> ('w \<Rightarrow> phase_run \<times> 'w) \<Rightarrow> 'w \<Rightarrow> phase_run \<times> 'w" where
  "retry_loop 0 delay cancelled pause run w = run w"
| "retry_loop (Suc n) delay cancelled pause run w = (case run w of (r, w1) \<Rightarrow>
     if pr_err r = None then (r, w1)
     else if delay \<le> 0 then (if cancelled w1 then (r, w1) else retry_loop n delay cancelled pause run w1)
     else let w2 = pause w1 in if cancelled w2 then (r, w2) else retry_loop n delay cancelled pause run w2)"

definition runModuleWithRetry :: "RetryPolicy \<Rightarrow> ('w \<Rightarrow> bool) \<Rightarrow> ('w \<Rightarrow> 'w) \<Rightarrow> ('w \<Rightarrow> phase_run \<times> 'w) \<Rightarrow> 'w \<Rightarrow> phase_run \<times> 'w" where
  "runModuleWithRetry policy cancelled pause run w = retry_loop (nat (MaxAttempts policy) - 1) (Delay policy) cancelled pause run w"

section \<open>The plan\<close>

record Phase =
  ID :: string
  Summary :: string
  Disruptive :: bool
  SkipRun :: bool

definition newPhase :: "string \<Rightarrow> string \<Rightarrow> bool \<Rightarrow> Phase" where
  "newPhase pid smry disr = \<lparr>ID = pid, Summary = smry, Disruptive = disr, SkipRun = False\<rparr>"

definition masterPhases :: "Phase list" where
  "masterPhases = [newPhase ''prereq-validation'' ''validate desired master input and prerequisites'' False,
    newPhase ''ca-rotation'' ''rotate cluster CA material if rotation ID changed'' True,
    newPhase ''container-runtime'' ''reconcile the container runtime to desired state'' True,
    newPhase ''client-tools'' ''reconcile kubernetes client binaries'' False,
    newPhase ''master-certificates'' ''reconcile master certificate material'' True,
    newPhase ''cert-api-manager'' ''reconcile certificate API manager bootstrap'' True,
    newPhase ''etcd'' ''reconcile etcd service, membership, and config'' True,
    newPhase ''kube-os-config'' ''reconcile kubernetes OS-level config files'' False,
    newPhase ''admin-kubeconfig'' ''reconcile admin kubeconfig and exported access files'' False,
    newPhase ''stop-services'' ''drain node before disruptive changes (upgrade/resize only)'' True,
    newPhase ''kube-master-config'' ''reconcile control-plane config and units'' True,
    newPhase ''storage'' ''reconcile container storage configuration'' True,
    newPhase ''proxy-env'' ''reconcile environment proxy settings'' False,
    newPhase ''services'' ''reconcile master services to desired state'' True,
    newPhase ''start-services'' ''uncordon node after disruptive changes (upgrade/resize only)'' True,
    newPhase ''heat-container-agent'' ''reconcile the Heat container agent service'' False,
    newPhase ''health'' ''verify master health after reconciliation'' False,
    newPhase ''cluster-rbac'' ''reconcile RBAC roles, secrets, and pod security for cluster'' False,
    newPhase ''cluster-flannel'' ''reconcile flannel CNI via Helm'' False,
    newPhase ''cluster-cleanup-deprecated'' ''clean up deprecated pre-Helm cluster addon resources'' False,
    newPhase ''cluster-coredns'' ''reconcile CoreDNS via Helm'' False,
    newPhase ''cluster-occm'' ''reconcile OpenStack Cloud Controller Manager via Helm'' False,
    newPhase ''cluster-cinder-csi'' ''reconcile Cinder CSI driver via Helm'' False,
    newPhase ''cluster-manila-csi'' ''reconcile Manila CSI driver via Helm'' False,
    newPhase ''cluster-metrics-server'' ''reconcile metrics server via Helm'' False,
    newPhase ''cluster-dashboard'' ''reconcile Kubernetes Dashboard via Helm'' False,
    newPhase ''cluster-auto-healer'' ''reconcile node problem detector and auto-healer'' False,
    newPhase ''cluster-autoscaler'' ''reconcile cluster autoscaler via Helm'' False,
    newPhase ''cluster-gpu-operator'' ''reconcile NVIDIA GPU Operator via Helm'' False,
    newPhase ''cluster-health'' ''verify cluster pods are healthy, restart crashlooping pods'' False,
    newPhase ''zincati'' ''reconcile OS auto-upgrade (Zincati) settings'' False]"

definition workerPhases :: "Phase list" where
  "workerPhases = [newPhase ''prereq-validation'' ''validate desired worker input and prerequisites'' False,
    newPhase ''ca-rotation'' ''rotate cluster CA material if rotation ID changed'' True,
    newPhase ''container-runtime'' ''reconcile the container runtime to desired state'' True,
    newPhase ''client-tools'' ''reconcile kubernetes client binaries'' False,
    newPhase ''kube-os-config'' ''reconcile kubernetes OS-level config files'' False,
    newPhase ''worker-certificates'' ''reconcile worker certificate material'' True,
    newPhase ''registry'' ''reconcile container registry integration'' False,
    newPhase ''admin-kubeconfig'' ''reconcile admin kubeconfig and exported access files'' False,
    newPhase ''stop-services'' ''drain node before disruptive changes (upgrade/resize only)'' True,
    newPhase ''kube-worker-config'' ''reconcile kubelet and kube-proxy config and units'' True,
    newPhase ''storage'' ''reconcile container storage configuration'' True,
    newPhase ''proxy-env'' ''reconcile environment proxy settings'' False,
    newPhase ''services'' ''reconcile worker services to desired state'' True,
    newPhase ''start-services'' ''uncordon node after disruptive changes (upgrade/resize only)'' True,
    newPhase ''heat-container-agent'' ''reconcile the Heat container agent service'' False,
    newPhase ''health'' ''verify worker health after reconciliation'' False,
    newPhase ''zincati'' ''reconcile OS auto-upgrade (Zincati) settings'' False]"

record Plan =
  pl_role :: string
  pl_operation :: string
  Phases :: "Phase list"

definition Build :: "Config \<Rightarrow> Plan" where
  "Build cfg = \<lparr>pl_role = Role cfg, pl_operation = Operation cfg, Phases =
     (if Role cfg = RoleMaster then masterPhases else if Role cfg = RoleWorker then workerPhases
      else [newPhase ''prereq-validation'' ''validate desired node input and prerequisites'' False,
            newPhase ''health'' ''verify node role detection and input normalization'' False])\<rparr>"

definition PhaseIDs :: "Plan \<Rightarrow> string list" where "PhaseIDs p = map ID (Phases p)"

definition LimitRunToPhase :: "string \<Rightarrow> Plan \<Rightarrow> Plan \<times> bool" where
  "LimitRunToPhase pid p = (p\<lparr>Phases := map (\<lambda>ph. ph\<lparr>SkipRun := (ID ph \<noteq> pid)\<rparr>) (Phases p)\<rparr>, \<exists>ph \<in> set (Phases p). ID ph = pid)"

text \<open>The loop of RunTarget: what was found so far, and whether a phase was skipped.\<close>

fun target_loop :: "string \<Rightarrow> bool \<Rightarrow> Phase list \<Rightarrow> string" where
  "target_loop target skipped [] = (if skipped then target else [])"
| "target_loop target skipped (ph # phs) = (if SkipRun ph then target_loop target True phs
     else if target \<noteq> [] then [] else target_loop (ID ph) skipped phs)"

definition RunTarget :: "Plan \<Rightarrow> string" where "RunTarget p = target_loop [] False (Phases p)"

section \<open>The modules and what they depend on\<close>

definition prereqvalidation_deps :: "string list" where "prereqvalidation_deps = []"

definition containerruntime_deps :: "string list" where "containerruntime_deps = [''ca-rotation'']"

definition clienttools_deps :: "string list" where "clienttools_deps = [''ca-rotation'']"

definition mastercerts_deps :: "string list" where "mastercerts_deps = [''ca-rotation'']"

definition workercerts_deps :: "string list" where "workercerts_deps = [''ca-rotation'']"

definition certapimanager_deps :: "string list" where "certapimanager_deps = [''master-certificates'']"

definition etcdconfig_deps :: "string list" where "etcdconfig_deps = [''master-certificates'']"

definition kubeosconfig_deps :: "string list" where "kubeosconfig_deps = [''ca-rotation'']"

definition adminkubeconfig_deps :: "string list" where "adminkubeconfig_deps = [''master-certificates'', ''worker-certificates'']"

definition kubemasterconfig_deps :: "string list" where "kubemasterconfig_deps = [''master-certificates'', ''cert-api-manager'', ''kube-os-config'', ''client-tools'', ''container-runtime'', ''stop-services'']"

definition kubeworkerconfig_deps :: "string list" where "kubeworkerconfig_deps = [''worker-certificates'', ''kube-os-config'', ''client-tools'', ''container-runtime'', ''stop-services'']"

definition dockerregistry_deps :: "string list" where "dockerregistry_deps = [''container-runtime'']"

definition storage_deps :: "string list" where "storage_deps = [''container-runtime'', ''stop-services'']"

definition services_deps :: "string list" where "services_deps = [''kube-master-config'', ''kube-worker-config'', ''proxy-env'', ''etcd'']"

definition stopservices_deps :: "string list" where "stopservices_deps = [''admin-kubeconfig'', ''client-tools'']"

definition startservices_deps :: "string list" where "startservices_deps = [''services'']"

definition heatcontaineragent_deps :: "string list" where "heatcontaineragent_deps = [''start-services'']"

definition proxy_deps :: "string list" where "proxy_deps = [''storage'']"

definition health_deps :: "string list" where "health_deps = [''heat-container-agent'', ''proxy-env'']"

definition carotation_deps :: "string list" where "carotation_deps = [''prereq-validation'']"

definition zincati_deps :: "string list" where "zincati_deps = [''prereq-validation'']"

definition clusterrbac_deps :: "string list" where "clusterrbac_deps = [''health'']"

definition clustercleanupdeprecated_deps :: "string list" where "clustercleanupdeprecated_deps = [''cluster-flannel'']"

definition clusterflannel_deps :: "string list" where "clusterflannel_deps = [''cluster-rbac'']"

definition clustercoredns_deps :: "string list" where "clustercoredns_deps = [''cluster-cleanup-deprecated'']"

definition clusteroccm_deps :: "string list" where "clusteroccm_deps = [''cluster-cleanup-deprecated'']"

definition clustercindercsi_deps :: "string list" where "clustercindercsi_deps = [''cluster-cleanup-deprecated'']"

definition clustermanilacsi_deps :: "string list" where "clustermanilacsi_deps = [''cluster-cleanup-deprecated'']"

definition clustermetricsserver_deps :: "string list" where "clustermetricsserver_deps = [''cluster-cleanup-deprecated'']"

definition clusterdashboard_deps :: "string list" where "clusterdashboard_deps = [''cluster-cleanup-deprecated'', ''cluster-metrics-server'']"

definition clusterautohealer_deps :: "string list" where "clusterautohealer_deps = [''cluster-cleanup-deprecated'']"

definition clusterautoscaler_deps :: "string list" where "clusterautoscaler_deps = [''cluster-cleanup-deprecated'']"

definition clustergpuoperator_deps :: "string list" where "clustergpuoperator_deps = [''cluster-cleanup-deprecated'']"

definition monitoredAddonPhases :: "string list" where
  "monitoredAddonPhases = [''cluster-flannel'', ''cluster-coredns'', ''cluster-occm'', ''cluster-cinder-csi'', ''cluster-manila-csi'', ''cluster-metrics-server'', ''cluster-dashboard'', ''cluster-auto-healer'', ''cluster-autoscaler'']"

definition clusterhealth_deps :: "string list" where "clusterhealth_deps = monitoredAddonPhases"

definition BuildRegistry :: "(string \<times> string list) list" where
  "BuildRegistry = [(''prereq-validation'', prereqvalidation_deps),
    (''container-runtime'', containerruntime_deps),
    (''client-tools'', clienttools_deps),
    (''master-certificates'', mastercerts_deps),
    (''worker-certificates'', workercerts_deps),
    (''cert-api-manager'', certapimanager_deps),
    (''etcd'', etcdconfig_deps),
    (''kube-os-config'', kubeosconfig_deps),
    (''admin-kubeconfig'', adminkubeconfig_deps),
    (''kube-master-config'', kubemasterconfig_deps),
    (''kube-worker-config'', kubeworkerconfig_deps),
    (''registry'', dockerregistry_deps),
    (''storage'', storage_deps),
    (''services'', services_deps),
    (''stop-services'', stopservices_deps),
    (''start-services'', startservices_deps),
    (''heat-container-agent'', heatcontaineragent_deps),
    (''proxy-env'', proxy_deps),
    (''health'', health_deps),
    (''ca-rotation'', carotation_deps),
    (''zincati'', zincati_deps),
    (''cluster-rbac'', clusterrbac_deps),
    (''cluster-cleanup-deprecated'', clustercleanupdeprecated_deps),
    (''cluster-flannel'', clusterflannel_deps),
    (''cluster-coredns'', clustercoredns_deps),
    (''cluster-occm'', clusteroccm_deps),
    (''cluster-cinder-csi'', clustercindercsi_deps),
    (''cluster-manila-csi'', clustermanilacsi_deps),
    (''cluster-metrics-server'', clustermetricsserver_deps),
    (''cluster-dashboard'', clusterdashboard_deps),
    (''cluster-auto-healer'', clusterautohealer_deps),
    (''cluster-autoscaler'', clusterautoscaler_deps),
    (''cluster-gpu-operator'', clustergpuoperator_deps),
    (''cluster-health'', clusterhealth_deps)]"

lemmas deps_defs = monitoredAddonPhases_def prereqvalidation_deps_def containerruntime_deps_def clienttools_deps_def mastercerts_deps_def workercerts_deps_def certapimanager_deps_def etcdconfig_deps_def kubeosconfig_deps_def adminkubeconfig_deps_def kubemasterconfig_deps_def kubeworkerconfig_deps_def dockerregistry_deps_def storage_deps_def services_deps_def stopservices_deps_def startservices_deps_def heatcontaineragent_deps_def proxy_deps_def health_deps_def carotation_deps_def zincati_deps_def clusterrbac_deps_def clustercleanupdeprecated_deps_def clusterflannel_deps_def clustercoredns_deps_def clusteroccm_deps_def clustercindercsi_deps_def clustermanilacsi_deps_def clustermetricsserver_deps_def clusterdashboard_deps_def clusterautohealer_deps_def clusterautoscaler_deps_def clustergpuoperator_deps_def clusterhealth_deps_def

definition MissingPhases :: "(string \<times> string list) list \<Rightarrow> Plan \<Rightarrow> string list" where
  "MissingPhases registry p = filter (\<lambda>i. map_of registry i = None) (PhaseIDs p)"

section \<open>The plan fits the registry\<close>

text \<open>Every dependency that is in the list at all stands before the phase that declares it.\<close>

fun deps_before :: "(string \<Rightarrow> string list option) \<Rightarrow> string list \<Rightarrow> string list \<Rightarrow> bool" where
  "deps_before reg seen [] \<longleftrightarrow> True"
| "deps_before reg seen (p # ps) \<longleftrightarrow> list_all (\<lambda>d. d \<notin> set (p # ps)) (case reg p of None \<Rightarrow> [] | Some ds \<Rightarrow> ds)
     \<and> deps_before reg (p # seen) ps"

lemma registry_at:
  "map_of BuildRegistry ''prereq-validation'' = Some prereqvalidation_deps"
  "map_of BuildRegistry ''container-runtime'' = Some containerruntime_deps"
  "map_of BuildRegistry ''client-tools'' = Some clienttools_deps"
  "map_of BuildRegistry ''master-certificates'' = Some mastercerts_deps"
  "map_of BuildRegistry ''worker-certificates'' = Some workercerts_deps"
  "map_of BuildRegistry ''cert-api-manager'' = Some certapimanager_deps"
  "map_of BuildRegistry ''etcd'' = Some etcdconfig_deps"
  "map_of BuildRegistry ''kube-os-config'' = Some kubeosconfig_deps"
  "map_of BuildRegistry ''admin-kubeconfig'' = Some adminkubeconfig_deps"
  "map_of BuildRegistry ''kube-master-config'' = Some kubemasterconfig_deps"
  "map_of BuildRegistry ''kube-worker-config'' = Some kubeworkerconfig_deps"
  "map_of BuildRegistry ''registry'' = Some dockerregistry_deps"
  "map_of BuildRegistry ''storage'' = Some storage_deps"
  "map_of BuildRegistry ''services'' = Some services_deps"
  "map_of BuildRegistry ''stop-services'' = Some stopservices_deps"
  "map_of BuildRegistry ''start-services'' = Some startservices_deps"
  "map_of BuildRegistry ''heat-container-agent'' = Some heatcontaineragent_deps"
  "map_of BuildRegistry ''proxy-env'' = Some proxy_deps"
  "map_of BuildRegistry ''health'' = Some health_deps"
  "map_of BuildRegistry ''ca-rotation'' = Some carotation_deps"
  "map_of BuildRegistry ''zincati'' = Some zincati_deps"
  "map_of BuildRegistry ''cluster-rbac'' = Some clusterrbac_deps"
  "map_of BuildRegistry ''cluster-cleanup-deprecated'' = Some clustercleanupdeprecated_deps"
  "map_of BuildRegistry ''cluster-flannel'' = Some clusterflannel_deps"
  "map_of BuildRegistry ''cluster-coredns'' = Some clustercoredns_deps"
  "map_of BuildRegistry ''cluster-occm'' = Some clusteroccm_deps"
  "map_of BuildRegistry ''cluster-cinder-csi'' = Some clustercindercsi_deps"
  "map_of BuildRegistry ''cluster-manila-csi'' = Some clustermanilacsi_deps"
  "map_of BuildRegistry ''cluster-metrics-server'' = Some clustermetricsserver_deps"
  "map_of BuildRegistry ''cluster-dashboard'' = Some clusterdashboard_deps"
  "map_of BuildRegistry ''cluster-auto-healer'' = Some clusterautohealer_deps"
  "map_of BuildRegistry ''cluster-autoscaler'' = Some clusterautoscaler_deps"
  "map_of BuildRegistry ''cluster-gpu-operator'' = Some clustergpuoperator_deps"
  "map_of BuildRegistry ''cluster-health'' = Some clusterhealth_deps"
  by (simp_all add: BuildRegistry_def)

lemma registry_ordered:
  "deps_before (map_of BuildRegistry) [] (map ID masterPhases)"
  "deps_before (map_of BuildRegistry) [] (map ID workerPhases)"
  "deps_before (map_of BuildRegistry) [] [''prereq-validation'', ''health'']"
  by (simp_all add: masterPhases_def workerPhases_def newPhase_def registry_at deps_defs)

lemma registry_complete:
  "filter (\<lambda>i. map_of BuildRegistry i = None) (map ID masterPhases) = []"
  "filter (\<lambda>i. map_of BuildRegistry i = None) (map ID workerPhases) = []"
  "filter (\<lambda>i. map_of BuildRegistry i = None) [''prereq-validation'', ''health''] = []"
  by (simp_all add: masterPhases_def workerPhases_def newPhase_def registry_at)

lemma plans_distinct: "distinct (map ID masterPhases)" "distinct (map ID workerPhases)"
  by (simp_all add: masterPhases_def workerPhases_def newPhase_def)

lemma plans_ordered:
  "deps_before (map_of BuildRegistry) [] (PhaseIDs (Build cfg))" "distinct (PhaseIDs (Build cfg))" "MissingPhases BuildRegistry (Build cfg) = []"
  using registry_ordered registry_complete plans_distinct
  by (simp_all add: Build_def PhaseIDs_def MissingPhases_def newPhase_def)

lemma registry_distinct: "list_all (\<lambda>(p, ds). distinct ds) BuildRegistry"
  by code_simp

lemma registry_deps_distinct: "map_of BuildRegistry p = Some ds \<Longrightarrow> distinct ds"
  using registry_distinct by (auto simp: list_all_iff dest!: map_of_SomeD)

section \<open>Limiting a run\<close>

lemma target_skipped: "list_all SkipRun phs \<Longrightarrow> target_loop t s phs = (if s \<or> phs \<noteq> [] then t else [])"
  by (induction phs arbitrary: s) auto

text \<open>A limited run keeps every phase, so nothing leaves the stack; it runs the named phase only,
  and when there are other phases RunTarget gives its name back.\<close>

lemma limit_run:
  assumes "distinct (PhaseIDs p)" "pid \<noteq> []" "pid \<in> set (PhaseIDs p)" "1 < length (Phases p)"
  shows "PhaseIDs (fst (LimitRunToPhase pid p)) = PhaseIDs p" "snd (LimitRunToPhase pid p)"
    "map ID (filter (\<lambda>ph. \<not> SkipRun ph) (Phases (fst (LimitRunToPhase pid p)))) = [pid]"
    "RunTarget (fst (LimitRunToPhase pid p)) = pid"
proof -
  let ?lim = "map (\<lambda>ph. ph\<lparr>SkipRun := (ID ph \<noteq> pid)\<rparr>)"
  show "PhaseIDs (fst (LimitRunToPhase pid p)) = PhaseIDs p" by (simp add: PhaseIDs_def LimitRunToPhase_def comp_def)
  show "snd (LimitRunToPhase pid p)" using assms(3) by (auto simp: PhaseIDs_def LimitRunToPhase_def)
  from assms(3) obtain a ph b where abs: "Phases p = a @ ph # b" "ID ph = pid"
    by (auto simp: PhaseIDs_def in_set_conv_decomp)
  have "distinct (map ID a @ ID ph # map ID b)" using assms(1) abs(1) by (simp add: PhaseIDs_def)
  then have "ID ph \<notin> set (map ID a) \<union> set (map ID b)" by simp
  then have no: "\<forall>x \<in> set a \<union> set b. ID x \<noteq> pid" using abs(2) by (metis UnE UnI1 UnI2 image_eqI list.set_map)
  then have e: "filter (\<lambda>x. \<not> SkipRun x) (?lim a) = []" "filter (\<lambda>x. \<not> SkipRun x) (?lim b) = []"
    by (auto simp: filter_empty_conv)
  then show "map ID (filter (\<lambda>ph. \<not> SkipRun ph) (Phases (fst (LimitRunToPhase pid p)))) = [pid]"
    using abs by (simp add: LimitRunToPhase_def)
  have "target_loop t s (?lim a @ ?lim (ph # b)) = target_loop t (s \<or> a \<noteq> []) (?lim (ph # b))" for t s
    using no by (induction a arbitrary: s) auto
  moreover have "list_all SkipRun (?lim b)" using no by (auto simp: list_all_iff)
  moreover have "a \<noteq> [] \<or> b \<noteq> []" using assms(4) abs by auto
  ultimately show "RunTarget (fst (LimitRunToPhase pid p)) = pid"
    using abs by (auto simp: RunTarget_def LimitRunToPhase_def target_skipped)
qed

section \<open>Retries end\<close>

text \<open>The result is the one of the last attempt that was made; with no cancellation a run that
  succeeds within the allowed attempts succeeds.\<close>

fun nth_world :: "nat \<Rightarrow> ('w \<Rightarrow> 'w) \<Rightarrow> ('w \<Rightarrow> phase_run \<times> 'w) \<Rightarrow> 'w \<Rightarrow> 'w" where
  "nth_world 0 pause run w = w"
| "nth_world (Suc n) pause run w = nth_world n pause run (pause (snd (run w)))"

lemma retry_succeeds:
  assumes "0 < delay" "k \<le> n" "\<And>v. \<not> cancelled v"
    and "\<And>i. i < k \<Longrightarrow> pr_err (fst (run (nth_world i pause run w))) \<noteq> None"
    and "pr_err (fst (run (nth_world k pause run w))) = None"
  shows "retry_loop n delay cancelled pause run w = run (nth_world k pause run w)"
  using assms(2,4,5)
proof (induction n arbitrary: k w)
  case (Suc n)
  obtain r w1 where run: "run w = (r, w1)" by (cases "run w")
  show ?case
  proof (cases k)
    case 0
    with Suc.prems run show ?thesis by simp
  next
    case (Suc j)
    have "pr_err r \<noteq> None" using Suc.prems(2) [of 0] Suc run by simp
    moreover have "retry_loop n delay cancelled pause run (pause w1) = run (nth_world j pause run (pause w1))"
    proof (rule Suc.IH)
      show "j \<le> n" using Suc.prems(1) Suc by simp
      show "pr_err (fst (run (nth_world i pause run (pause w1)))) \<noteq> None" if "i < j" for i
        using Suc.prems(2) [of "Suc i"] that Suc run by simp
      show "pr_err (fst (run (nth_world j pause run (pause w1)))) = None" using Suc.prems(3) Suc run by simp
    qed
    moreover have "cancelled = (\<lambda>_. False)" using assms(3) by auto
    ultimately show ?thesis using assms(1) run Suc by (cases "pr_err r") (simp_all add: Let_def)
  qed
qed simp

lemma retry_policy_bounds: "1 \<le> MaxAttempts (ResolveRetryPolicy env own) \<and> 0 \<le> Delay (ResolveRetryPolicy env own)"
  by (auto simp: ResolveRetryPolicy_def Let_def)

end
