(* ===== verification/Scheduler.thy ===== *)
theory Scheduler
  imports Phases VersionMap "HOL-Library.Multiset"
begin

text \<open>
  internal/pulumi/phase_runner.go and program.go: the scheduler that runs the phases of a plan in
  parallel along the dependencies of their modules. The main goroutine is the state \<open>dag\<close>; the
  modules run beside it and may finish in any order with any outcome, which is the relation
  \<open>dag_step\<close>. \<open>'h\<close> is what the handler of a finished phase keeps; the one of the Pulumi program
  is given at the end, with the registration of resources as an argument.
\<close>

section \<open>The graph\<close>

record 'h dag =
  d_ready :: "string list"
  d_running :: "string list"
  d_results :: "(string \<times> phase_run) list"
  d_remaining :: "string \<Rightarrow> int"
  d_stop :: bool
  d_failure :: "err option"
  d_hard :: "err option"
  d_handler :: 'h

definition phase_index :: "string list \<Rightarrow> string \<Rightarrow> nat" where
  "phase_index phases p = length (takeWhile (\<lambda>q. q \<noteq> p) phases)"

definition sortPhaseIDs :: "string list \<Rightarrow> string list \<Rightarrow> string list" where
  "sortPhaseIDs phases ids = sort_key (phase_index phases) ids"

text \<open>A plan lists a phase once. The phases that have a module, and the dependencies that are among them.\<close>

definition dag_tasks :: "(string \<Rightarrow> string list option) \<Rightarrow> string list \<Rightarrow> string list" where
  "dag_tasks reg phases = filter (\<lambda>p. reg p \<noteq> None) phases"

definition task_deps :: "(string \<Rightarrow> string list option) \<Rightarrow> string list \<Rightarrow> string \<Rightarrow> string list" where
  "task_deps reg phases p = (case reg p of None \<Rightarrow> [] | Some ds \<Rightarrow> filter (\<lambda>d. d \<in> set (dag_tasks reg phases)) ds)"

definition dependents :: "(string \<Rightarrow> string list option) \<Rightarrow> string list \<Rightarrow> string \<Rightarrow> string list" where
  "dependents reg phases d = sortPhaseIDs phases
     (concat (map (\<lambda>p. map (\<lambda>_. p) (filter (\<lambda>e. e = d) (task_deps reg phases p))) (dag_tasks reg phases)))"

section \<open>One turn\<close>

text \<open>Starting: the inner loop of the scheduler.\<close>

fun start_ready :: "int \<Rightarrow> bool \<Rightarrow> string list \<Rightarrow> string list \<Rightarrow> string list \<times> string list" where
  "start_ready par stop [] running = ([], running)"
| "start_ready par stop (p # ps) running = (if \<not> stop \<and> int (length running) < par
     then start_ready par stop ps (running @ [p]) else (p # ps, running))"

definition pump :: "int \<Rightarrow> 'h dag \<Rightarrow> 'h dag" where
  "pump par st = (case start_ready par (d_stop st) (d_ready st) (d_running st) of
     (rdy, running) \<Rightarrow> st\<lparr>d_ready := rdy, d_running := running\<rparr>)"

fun release :: "string list \<Rightarrow> 'h dag \<Rightarrow> 'h dag" where
  "release [] st = st"
| "release (q # qs) st = (let n = d_remaining st q - 1; st = st\<lparr>d_remaining := (d_remaining st)(q := n)\<rparr>
     in release qs (if n = 0 then st\<lparr>d_ready := d_ready st @ [q]\<rparr> else st))"

text \<open>What a finished phase changes. The handler may fail, which always stops the run; an error of
  the phase stops it unless partial runs are allowed.\<close>

definition finish ::
  "(string \<Rightarrow> string list option) \<Rightarrow> string list \<Rightarrow> bool \<Rightarrow> (string \<Rightarrow> phase_run \<Rightarrow> 'h \<Rightarrow> err option \<times> 'h)
    \<Rightarrow> string \<Rightarrow> phase_run \<Rightarrow> 'h dag \<Rightarrow> 'h dag" where
  "finish reg phases partial_ok handler p r st = (case handler p r (d_handler st) of (he, h) \<Rightarrow>
     let stops = (he \<noteq> None \<or> (pr_err r \<noteq> None \<and> \<not> partial_ok));
         st1 = st\<lparr>d_running := remove1 p (d_running st), d_results := d_results st @ [(p, r)], d_handler := h,
           d_hard := (if d_hard st = None then he else d_hard st),
           d_failure := (if d_failure st = None then pr_err r else d_failure st),
           d_stop := (d_stop st \<or> stops)\<rparr>
     in if stops then st1
        else let st2 = release (dependents reg phases p) st1 in st2\<lparr>d_ready := sortPhaseIDs phases (d_ready st2)\<rparr>)"

definition dag_init :: "(string \<Rightarrow> string list option) \<Rightarrow> string list \<Rightarrow> 'h \<Rightarrow> 'h dag" where
  "dag_init reg phases h = \<lparr>
     d_ready = sortPhaseIDs phases (filter (\<lambda>p. task_deps reg phases p = []) (dag_tasks reg phases)),
     d_running = [], d_results = [], d_remaining = (\<lambda>p. int (length (task_deps reg phases p))),
     d_stop = False, d_failure = None, d_hard = None, d_handler = h\<rparr>"

inductive dag_step ::
  "(string \<Rightarrow> string list option) \<Rightarrow> string list \<Rightarrow> bool \<Rightarrow> (string \<Rightarrow> phase_run \<Rightarrow> 'h \<Rightarrow> err option \<times> 'h) \<Rightarrow> int
    \<Rightarrow> 'h dag \<Rightarrow> 'h dag \<Rightarrow> bool"
  for reg phases partial_ok handler par where
  finished: "p \<in> set (d_running st) \<Longrightarrow> dag_step reg phases partial_ok handler par st
     (pump par (finish reg phases partial_ok handler p r st))"

inductive_cases dag_stepE: "dag_step reg phases partial_ok handler par st st'"

inductive dag_reach ::
  "(string \<Rightarrow> string list option) \<Rightarrow> string list \<Rightarrow> bool \<Rightarrow> (string \<Rightarrow> phase_run \<Rightarrow> 'h \<Rightarrow> err option \<times> 'h) \<Rightarrow> int
    \<Rightarrow> 'h \<Rightarrow> nat \<Rightarrow> 'h dag \<Rightarrow> bool"
  for reg phases partial_ok handler par h where
  start: "dag_reach reg phases partial_ok handler par h 0 (pump par (dag_init reg phases h))"
| step: "dag_reach reg phases partial_ok handler par h n st \<Longrightarrow> dag_step reg phases partial_ok handler par st st'
    \<Longrightarrow> dag_reach reg phases partial_ok handler par h (Suc n) st'"

text \<open>What the run returns once nothing runs any more.\<close>

definition dag_error :: "(string \<Rightarrow> string list option) \<Rightarrow> string list \<Rightarrow> bool \<Rightarrow> 'h dag \<Rightarrow> err option" where
  "dag_error reg phases partial_ok st = (if d_hard st \<noteq> None then d_hard st
     else if d_failure st \<noteq> None then (if partial_ok then None else d_failure st)
     else if length (d_results st) \<noteq> length (dag_tasks reg phases)
     then Some (Err ''phase dependency graph could not be completed'') else None)"

text \<open>The loop as the code runs it, for an order in which the running phases finish and their
  outcomes; \<open>None\<close> is a run that has not returned after \<open>fuel\<close> phases.\<close>

fun dag_loop ::
  "nat \<Rightarrow> (string \<Rightarrow> string list option) \<Rightarrow> string list \<Rightarrow> bool \<Rightarrow> (string \<Rightarrow> phase_run \<Rightarrow> 'h \<Rightarrow> err option \<times> 'h) \<Rightarrow> int
    \<Rightarrow> ('h dag \<Rightarrow> nat) \<Rightarrow> (string \<Rightarrow> 'h dag \<Rightarrow> phase_run) \<Rightarrow> 'h dag \<Rightarrow> 'h dag option" where
  "dag_loop fuel reg phases partial_ok handler par pick outcome st =
     (if d_running st = [] then Some st else case fuel of 0 \<Rightarrow> None
      | Suc n \<Rightarrow> let p = d_running st ! (pick st mod length (d_running st)) in
          dag_loop n reg phases partial_ok handler par pick outcome
            (pump par (finish reg phases partial_ok handler p (outcome p st) st)))"

declare dag_loop.simps [simp del]

definition runPhaseDAG ::
  "nat \<Rightarrow> (string \<Rightarrow> string list option) \<Rightarrow> string list \<Rightarrow> bool \<Rightarrow> (string \<Rightarrow> phase_run \<Rightarrow> 'h \<Rightarrow> err option \<times> 'h) \<Rightarrow> int \<Rightarrow> int
    \<Rightarrow> ('h dag \<Rightarrow> nat) \<Rightarrow> (string \<Rightarrow> 'h dag \<Rightarrow> phase_run) \<Rightarrow> 'h \<Rightarrow> ((string \<times> phase_run) list \<times> err option \<times> 'h) option" where
  "runPhaseDAG fuel reg phases partial_ok handler auto parallelism pick outcome h =
     (let par = (if parallelism < 1 then auto else parallelism) in
      map_option (\<lambda>st. (d_results st, dag_error reg phases partial_ok st, d_handler st))
        (dag_loop fuel reg phases partial_ok handler par pick outcome (pump par (dag_init reg phases h))))"

section \<open>The handler of the program\<close>

record accumulator =
  ac_phaseChanges :: "string list"
  ac_changes :: "change list"
  ac_outputs :: "(string \<times> string) list"
  ac_warnings :: "string list"
  ac_failedPhase :: string
  ac_failedErr :: "err option"

definition Reset :: "accumulator \<Rightarrow> accumulator" where
  "Reset a = \<lparr>ac_phaseChanges = [], ac_changes = [], ac_outputs = [], ac_warnings = [], ac_failedPhase = [], ac_failedErr = None\<rparr>"

definition RecordPhase :: "string \<Rightarrow> Result \<Rightarrow> accumulator \<Rightarrow> accumulator" where
  "RecordPhase p r a = (let
     a = (if Changes r \<noteq> [] then a\<lparr>ac_phaseChanges := ac_phaseChanges a @ [p], ac_changes := ac_changes a @ Changes r\<rparr> else a);
     a = a\<lparr>ac_warnings := ac_warnings a @ Warnings r\<rparr>
   in a\<lparr>ac_outputs := fold (\<lambda>(k, v). AList.update (p @ ''.'' @ k) v) (Outputs r) (ac_outputs a)\<rparr>)"

definition RecordFailure :: "string \<Rightarrow> err \<Rightarrow> accumulator \<Rightarrow> accumulator" where
  "RecordFailure p e a = (if ac_failedErr a = None then a\<lparr>ac_failedPhase := p, ac_failedErr := Some e\<rparr> else a)"

definition RecordWarnings :: "string list \<Rightarrow> accumulator \<Rightarrow> accumulator" where
  "RecordWarnings ws a = (if ws = [] then a else a\<lparr>ac_warnings := ac_warnings a @ ws\<rparr>)"

definition HasFailure :: "accumulator \<Rightarrow> bool" where
  "HasFailure a \<longleftrightarrow> ac_failedErr a \<noteq> None"

record program_state =
  ps_acc :: accumulator
  ps_resources :: "string list"
  ps_executed :: "string \<Rightarrow> bool"

text \<open>\<open>skip\<close> are the phases a limited run does not run, \<open>register p deps\<close> registers a component
  that depends on the resources \<open>deps\<close>.\<close>

definition phase_done ::
  "(string \<Rightarrow> string list option) \<Rightarrow> bool \<Rightarrow> (string \<Rightarrow> bool) \<Rightarrow> (string \<Rightarrow> string list \<Rightarrow> err option) \<Rightarrow>
     string \<Rightarrow> phase_run \<Rightarrow> program_state \<Rightarrow> err option \<times> program_state" where
  "phase_done reg partial_ok skip register p r s = (let
     deps = filter (\<lambda>d. d \<in> set (ps_resources s)) (case reg p of None \<Rightarrow> [] | Some ds \<Rightarrow> ds);
     reg_err = register p deps;
     add = (\<lambda>s. if reg_err = None then s\<lparr>ps_resources := ps_resources s @ [p]\<rparr> else s)
   in case pr_err r of
     Some e \<Rightarrow> (if partial_ok then None else Some e,
       add (s\<lparr>ps_acc := RecordWarnings (Warnings (pr_result r)) (RecordFailure p e (ps_acc s))\<rparr>))
   | None \<Rightarrow> (let s = (if skip p then s else s\<lparr>ps_acc := RecordPhase p (pr_result r) (ps_acc s)\<rparr>) in
       case reg_err of Some e \<Rightarrow> (Some e, s)
       | None \<Rightarrow> (None, (add s)\<lparr>ps_executed := (ps_executed s)(p := \<not> skip p)\<rparr>)))"

text \<open>BuildProgram: the registered and executed phases of one execution. A skipped phase returns an
  empty result at once.\<close>

definition program_outcome :: "(string \<Rightarrow> bool) \<Rightarrow> (string \<Rightarrow> program_state dag \<Rightarrow> phase_run) \<Rightarrow> string \<Rightarrow> program_state dag \<Rightarrow> phase_run" where
  "program_outcome skip outcome p st = (if skip p then \<lparr>pr_result = no_result, pr_err = None\<rparr> else outcome p st)"

definition BuildProgram ::
  "nat \<Rightarrow> Phase list \<Rightarrow> bool \<Rightarrow> (string \<Rightarrow> string list \<Rightarrow> err option) \<Rightarrow> int \<Rightarrow> int \<Rightarrow> (program_state dag \<Rightarrow> nat)
    \<Rightarrow> (string \<Rightarrow> program_state dag \<Rightarrow> phase_run) \<Rightarrow> accumulator \<Rightarrow> (err option \<times> string list \<times> string list \<times> accumulator) option" where
  "BuildProgram fuel phs partial_ok register auto parallelism pick outcome acc = (let
     skip = (\<lambda>p. \<exists>ph \<in> set phs. ID ph = p \<and> SkipRun ph);
     reg = map_of BuildRegistry;
     missing = filter (\<lambda>p. reg p = None) (map ID phs)
   in case runPhaseDAG fuel reg (map ID phs) partial_ok (phase_done reg partial_ok skip register) auto parallelism pick
        (program_outcome skip outcome) \<lparr>ps_acc = Reset acc, ps_resources = [], ps_executed = (\<lambda>_. False)\<rparr> of
      None \<Rightarrow> None
    | Some (_, e, s) \<Rightarrow> Some (e, filter (ps_executed s) (map ID phs), missing, ps_acc s))"

section \<open>The loops of a turn\<close>

lemma start_ready_split:
  "\<exists>k. start_ready par stop rdy run = (drop k rdy, run @ take k rdy) \<and> (stop \<longrightarrow> k = 0)
     \<and> int (length (run @ take k rdy)) \<le> max par (int (length run))
     \<and> (drop k rdy = [] \<or> stop \<or> par \<le> int (length (run @ take k rdy)))"
proof (induction rdy arbitrary: run)
  case (Cons p ps)
  show ?case
  proof (cases "\<not> stop \<and> int (length run) < par")
    case True
    obtain k where k: "start_ready par stop ps (run @ [p]) = (drop k ps, (run @ [p]) @ take k ps)" "stop \<longrightarrow> k = 0"
      "int (length ((run @ [p]) @ take k ps)) \<le> max par (int (length (run @ [p])))"
      "drop k ps = [] \<or> stop \<or> par \<le> int (length ((run @ [p]) @ take k ps))" using Cons by blast
    have "start_ready par stop (p # ps) run = (drop (Suc k) (p # ps), run @ take (Suc k) (p # ps))" using True k(1) by simp
    with k True show ?thesis by (intro exI [of _ "Suc k"]) auto
  next
    case False
    then show ?thesis by (intro exI [of _ 0]) auto
  qed
qed simp

lemma pump_split:
  obtains k where "d_ready (pump par st) = drop k (d_ready st)" "d_running (pump par st) = d_running st @ take k (d_ready st)"
    "d_stop st \<longrightarrow> k = 0" "int (length (d_running (pump par st))) \<le> max par (int (length (d_running st)))"
    "d_ready (pump par st) = [] \<or> d_stop st \<or> par \<le> int (length (d_running (pump par st)))"
    "pump par st = st\<lparr>d_ready := d_ready (pump par st), d_running := d_running (pump par st)\<rparr>"
proof -
  obtain k where k: "start_ready par (d_stop st) (d_ready st) (d_running st) = (drop k (d_ready st), d_running st @ take k (d_ready st))"
    "d_stop st \<longrightarrow> k = 0" "int (length (d_running st @ take k (d_ready st))) \<le> max par (int (length (d_running st)))"
    "drop k (d_ready st) = [] \<or> d_stop st \<or> par \<le> int (length (d_running st @ take k (d_ready st)))"
    using start_ready_split by blast
  show thesis by (rule that [of k]) (use k in \<open>simp_all add: pump_def\<close>)
qed

lemma pump_fields [simp]:
  "d_results (pump par st) = d_results st" "d_remaining (pump par st) = d_remaining st" "d_stop (pump par st) = d_stop st"
  "d_failure (pump par st) = d_failure st" "d_hard (pump par st) = d_hard st" "d_handler (pump par st) = d_handler st"
  by (simp_all add: pump_def split: prod.splits)

lemma release_eff:
  "distinct qs \<Longrightarrow> release qs st = st\<lparr>d_remaining := (\<lambda>q. if q \<in> set qs then d_remaining st q - 1 else d_remaining st q),
     d_ready := d_ready st @ filter (\<lambda>q. d_remaining st q = 1) qs\<rparr>"
proof (induction qs arbitrary: st)
  case (Cons q qs)
  have f: "filter (\<lambda>x. x \<noteq> q \<longrightarrow> d_remaining st x = 1) qs = filter (\<lambda>x. d_remaining st x = 1) qs"
    "filter (\<lambda>x. (x = q \<longrightarrow> d_remaining st q = 2) \<and> (x \<noteq> q \<longrightarrow> d_remaining st x = 1)) qs = filter (\<lambda>x. d_remaining st x = 1) qs"
    using Cons.prems by (auto intro!: filter_cong)
  show ?case using Cons.prems Cons.IH
    by (auto simp: Let_def fun_eq_iff f intro!: dag.equality filter_cong)
qed simp

lemma release_fields [simp]:
  "d_results (release qs st) = d_results st" "d_running (release qs st) = d_running st" "d_stop (release qs st) = d_stop st"
  "d_hard (release qs st) = d_hard st" "d_failure (release qs st) = d_failure st" "d_handler (release qs st) = d_handler st"
  by (induction qs arbitrary: st) (simp_all add: Let_def)

lemma finish_results [simp]: "d_results (finish reg phases partial_ok handler p r st) = d_results st @ [(p, r)]"
  by (simp add: finish_def Let_def split: prod.splits)

section \<open>The invariant\<close>

definition dag_wf :: "(string \<Rightarrow> string list option) \<Rightarrow> string list \<Rightarrow> bool" where
  "dag_wf reg phases \<longleftrightarrow> distinct phases \<and> (\<forall>p ds. reg p = Some ds \<longrightarrow> distinct ds)"

lemma task_deps_sub: "set (task_deps reg phases p) \<subseteq> set (dag_tasks reg phases)"
  by (auto simp: task_deps_def split: option.splits)

lemma dependents_set:
  assumes "dag_wf reg phases"
  shows "distinct (dependents reg phases d)" "set (dependents reg phases d) = {p \<in> set (dag_tasks reg phases). d \<in> set (task_deps reg phases p)}"
proof -
  let ?l = "concat (map (\<lambda>p. map (\<lambda>_. p) (filter (\<lambda>e. e = d) (task_deps reg phases p))) (dag_tasks reg phases))"
  have one: "filter (\<lambda>e. e = d) xs = (if d \<in> set xs then [d] else [])" if "distinct xs" for xs using that by (induction xs) auto
  have dist: "distinct (task_deps reg phases p)" for p using assms by (auto simp: task_deps_def dag_wf_def split: option.splits)
  have "concat (map (\<lambda>p. map (\<lambda>_. p) (filter (\<lambda>e. e = d) (task_deps reg phases p))) ps) = filter (\<lambda>p. d \<in> set (task_deps reg phases p)) ps" for ps
    by (induction ps) (auto simp: one [OF dist])
  then have l: "?l = filter (\<lambda>p. d \<in> set (task_deps reg phases p)) (dag_tasks reg phases)" by blast
  have "distinct (dag_tasks reg phases)" using assms by (simp add: dag_tasks_def dag_wf_def)
  then show "distinct (dependents reg phases d)" unfolding dependents_def sortPhaseIDs_def l by simp
  show "set (dependents reg phases d) = {p \<in> set (dag_tasks reg phases). d \<in> set (task_deps reg phases p)}"
    unfolding dependents_def sortPhaseIDs_def l by auto
qed

text \<open>\<open>R\<close> are the finished phases that have released their dependents.\<close>

definition dag_inv :: "(string \<Rightarrow> string list option) \<Rightarrow> string list \<Rightarrow> bool \<Rightarrow> int \<Rightarrow> 'h dag \<Rightarrow> string set \<Rightarrow> bool" where
  "dag_inv reg phases partial_ok par st R \<longleftrightarrow>
     (let ran = map fst (d_results st); seen = d_ready st @ d_running st @ ran in
       R \<subseteq> set ran \<and> (\<not> d_stop st \<longrightarrow> R = set ran)
     \<and> (\<forall>p \<in> set (dag_tasks reg phases). d_remaining st p = int (card (set (task_deps reg phases p) - R)))
     \<and> distinct seen \<and> set seen = {p \<in> set (dag_tasks reg phases). set (task_deps reg phases p) \<subseteq> R}
     \<and> (\<forall>p r. (p, r) \<in> set (d_results st) \<longrightarrow> p \<in> R \<longrightarrow> partial_ok \<or> pr_err r = None)
     \<and> int (length (d_running st)) \<le> max par 0
     \<and> (\<forall>i < length ran. set (task_deps reg phases (ran ! i)) \<subseteq> set (take i ran))
     \<and> (d_stop st \<longleftrightarrow> d_hard st \<noteq> None \<or> (d_failure st \<noteq> None \<and> \<not> partial_ok)))"

definition pumped :: "int \<Rightarrow> 'h dag \<Rightarrow> bool" where
  "pumped par st \<longleftrightarrow> d_ready st = [] \<or> d_stop st \<or> par \<le> int (length (d_running st))"

lemma pumped_pump: "pumped par (pump par st)"
  by (rule pump_split [of par st]) (simp add: pumped_def)

lemma dag_inv_pump:
  assumes "dag_inv reg phases partial_ok par st R"
  shows "dag_inv reg phases partial_ok par (pump par st) R"
proof (rule pump_split [of par st])
  fix k
  assume k: "d_ready (pump par st) = drop k (d_ready st)" "d_running (pump par st) = d_running st @ take k (d_ready st)"
    "int (length (d_running (pump par st))) \<le> max par (int (length (d_running st)))"
  have m: "mset (d_ready (pump par st) @ d_running (pump par st) @ map fst (d_results st)) = mset (d_ready st @ d_running st @ map fst (d_results st))"
  proof -
    have "mset (take k (d_ready st)) + mset (drop k (d_ready st)) = mset (d_ready st)" by (metis append_take_drop_id mset_append)
    then show ?thesis unfolding k(1,2) by (simp add: ac_simps)
  qed
  then have "set (d_ready (pump par st) @ d_running (pump par st) @ map fst (d_results st)) = set (d_ready st @ d_running st @ map fst (d_results st))"
    "distinct (d_ready (pump par st) @ d_running (pump par st) @ map fst (d_results st)) = distinct (d_ready st @ d_running st @ map fst (d_results st))"
    by (metis mset_eq_setD, metis mset_eq_imp_distinct_iff)
  moreover have "int (length (d_running (pump par st))) \<le> max par 0"
    using assms k(3) unfolding dag_inv_def Let_def by (simp add: max_def split: if_splits)
  ultimately show ?thesis using assms unfolding dag_inv_def Let_def by simp
qed

lemma dag_inv_init:
  assumes "dag_wf reg phases"
  shows "dag_inv reg phases partial_ok par (dag_init reg phases h) {}"
proof -
  have "distinct (dag_tasks reg phases)" using assms by (simp add: dag_tasks_def dag_wf_def)
  moreover have "distinct (task_deps reg phases p)" for p using assms by (auto simp: task_deps_def dag_wf_def split: option.splits)
  ultimately show ?thesis by (auto simp: dag_inv_def dag_init_def sortPhaseIDs_def distinct_card)
qed

lemma dag_inv_finish:
  assumes wf: "dag_wf reg phases" and inv: "dag_inv reg phases partial_ok par st R" and p: "p \<in> set (d_running st)"
  shows "\<exists>R'. dag_inv reg phases partial_ok par (finish reg phases partial_ok handler p r st) R'"
proof -
  obtain he h where h: "handler p r (d_handler st) = (he, h)" by (cases "handler p r (d_handler st)")
  let ?stops = "he \<noteq> None \<or> (pr_err r \<noteq> None \<and> \<not> partial_ok)"
  let ?ran = "map fst (d_results st)"
  define st1 where "st1 = st\<lparr>d_running := remove1 p (d_running st), d_results := d_results st @ [(p, r)], d_handler := h,
           d_hard := (if d_hard st = None then he else d_hard st),
           d_failure := (if d_failure st = None then pr_err r else d_failure st),
           d_stop := (d_stop st \<or> ?stops)\<rparr>"
  have fin: "finish reg phases partial_ok handler p r st = (if ?stops then st1
        else (release (dependents reg phases p) st1)\<lparr>d_ready := sortPhaseIDs phases (d_ready (release (dependents reg phases p) st1))\<rparr>)"
    unfolding finish_def h prod.case Let_def st1_def by (rule refl)
  from inv have I: "R \<subseteq> set ?ran" "\<not> d_stop st \<Longrightarrow> R = set ?ran"
     "\<And>q. q \<in> set (dag_tasks reg phases) \<Longrightarrow> d_remaining st q = int (card (set (task_deps reg phases q) - R))"
     "distinct (d_ready st @ d_running st @ ?ran)"
     "set (d_ready st @ d_running st @ ?ran) = {q \<in> set (dag_tasks reg phases). set (task_deps reg phases q) \<subseteq> R}"
     "\<And>q s. (q, s) \<in> set (d_results st) \<Longrightarrow> q \<in> R \<Longrightarrow> partial_ok \<or> pr_err s = None"
     "int (length (d_running st)) \<le> max par 0"
     "\<And>i. i < length ?ran \<Longrightarrow> set (task_deps reg phases (?ran ! i)) \<subseteq> set (take i ?ran)"
     "d_stop st \<longleftrightarrow> d_hard st \<noteq> None \<or> (d_failure st \<noteq> None \<and> \<not> partial_ok)"
    using inv unfolding dag_inv_def Let_def by (simp_all only: simp_thms)
  have p': "p \<notin> set (d_ready st)" "p \<notin> set ?ran" "p \<in> set (dag_tasks reg phases)" "set (task_deps reg phases p) \<subseteq> R"
    using p I(4,5) by (auto simp: distinct_append)
  have "set (remove1 p (d_running st)) = set (d_running st) - {p}" using I(4) by (simp add: set_remove1_eq)
  then have run1: "set (d_ready st1 @ d_running st1 @ map fst (d_results st1)) = set (d_ready st @ d_running st @ ?ran)"
    "distinct (d_ready st1 @ d_running st1 @ map fst (d_results st1))"
    using p I(4) p' by (auto simp: st1_def distinct_remove1)
  have order: "set (task_deps reg phases (map fst (d_results st1) ! i)) \<subseteq> set (take i (map fst (d_results st1)))"
    if "i < length (map fst (d_results st1))" for i
    using that I(1,8) p'(4) by (cases "i < length ?ran") (auto simp: st1_def nth_append take_append dest: subsetD)
  have len: "int (length (d_running st1)) \<le> max par 0"
  proof -
    have "length (remove1 p (d_running st)) \<le> length (d_running st)" by (simp add: length_remove1)
    then show ?thesis using I(7) by (simp add: st1_def)
  qed
  have stop: "d_stop st1 \<longleftrightarrow> d_hard st1 \<noteq> None \<or> (d_failure st1 \<noteq> None \<and> \<not> partial_ok)"
    using I(9) by (auto simp: st1_def)
  have R: "R \<subseteq> set (map fst (d_results st1))" using I(1) by (auto simp: st1_def)
  show ?thesis
  proof (cases ?stops)
    case True
    have rem: "\<forall>q \<in> set (dag_tasks reg phases). d_remaining st1 q = int (card (set (task_deps reg phases q) - R))"
      using I(3) by (simp add: st1_def)
    have res: "\<forall>q s. (q, s) \<in> set (d_results st1) \<longrightarrow> q \<in> R \<longrightarrow> partial_ok \<or> pr_err s = None"
      using I(6,1) p'(2) by (auto simp: st1_def)
    have ds: "d_stop st1" using True by (simp add: st1_def)
    have "dag_inv reg phases partial_ok par st1 R"
      unfolding dag_inv_def Let_def using R ds rem run1 I(5) res len order stop by simp
    then show ?thesis using True fin by auto
  next
    case False
    let ?qs = "dependents reg phases p"
    let ?st2 = "release ?qs st1"
    note qs = dependents_set [OF wf, of p]
    note st2 = release_eff [OF qs(1), of st1]
    let ?new = "filter (\<lambda>q. d_remaining st q = 1) ?qs"
    have rem1: "d_remaining st1 = d_remaining st" "d_ready st1 = d_ready st" by (simp_all add: st1_def)
    have drop1: "card (set (task_deps reg phases q) - insert p R) + 1 = card (set (task_deps reg phases q) - R)"
      if "p \<in> set (task_deps reg phases q)" for q
    proof -
      have "p \<notin> R" using p'(2) I(1) by auto
      with that have "set (task_deps reg phases q) - R = insert p (set (task_deps reg phases q) - insert p R)" by auto
      then show ?thesis by (metis Diff_iff List.finite_set card_insert_disjoint finite_Diff insertI1 Suc_eq_plus1)
    qed
    have rem: "d_remaining ?st2 q = int (card (set (task_deps reg phases q) - insert p R))" if q: "q \<in> set (dag_tasks reg phases)" for q
    proof (cases "p \<in> set (task_deps reg phases q)")
      case True
      with q qs(2) have "q \<in> set ?qs" by simp
      then show ?thesis using I(3) [OF q] drop1 [OF True] by (simp add: st2 rem1)
    next
      case False
      then have "set (task_deps reg phases q) - insert p R = set (task_deps reg phases q) - R" by auto
      moreover have "q \<notin> set ?qs" using False qs(2) by simp
      ultimately show ?thesis using I(3) [OF q] by (simp add: st2 rem1)
    qed
    have new: "set ?new = {q \<in> set (dag_tasks reg phases). set (task_deps reg phases q) \<subseteq> insert p R \<and> \<not> set (task_deps reg phases q) \<subseteq> R}"
    proof -
      have "d_remaining st q = 1 \<longleftrightarrow> set (task_deps reg phases q) \<subseteq> insert p R"
        if "q \<in> set (dag_tasks reg phases)" "p \<in> set (task_deps reg phases q)" for q
      proof -
        have "d_remaining st q = 1 \<longleftrightarrow> card (set (task_deps reg phases q) - insert p R) = 0"
          using I(3) [OF that(1)] drop1 [OF that(2)] by linarith
        then show ?thesis by auto
      qed
      moreover have "p \<notin> R" using p'(2) I(1) by auto
      ultimately show ?thesis using qs(2) by auto
    qed
    have seen: "set (d_ready ?st2 @ d_running ?st2 @ map fst (d_results ?st2)) = {q \<in> set (dag_tasks reg phases). set (task_deps reg phases q) \<subseteq> insert p R}"
      using new run1(1) I(5) by (auto simp: st2 rem1)
    have "set ?new \<inter> set (d_ready st1 @ d_running st1 @ map fst (d_results st1)) = {}" unfolding run1(1) using new I(5) by auto
    moreover have "distinct ?new" using qs(1) by simp
    moreover have "d_ready ?st2 = d_ready st1 @ ?new" by (simp add: st2 rem1)
    moreover have "distinct ((A @ N) @ B)" if "distinct (A @ B)" "distinct N" "set N \<inter> set (A @ B) = {}" for A N B :: "string list"
      using that by auto
    ultimately have dist: "distinct (d_ready ?st2 @ d_running ?st2 @ map fst (d_results ?st2))"
      using run1(2) by (simp only: release_fields)
    have "(p, s) \<notin> set (d_results st)" for s using p'(2) by force
    then have res: "\<forall>q s. (q, s) \<in> set (d_results ?st2) \<longrightarrow> q \<in> insert p R \<longrightarrow> partial_ok \<or> pr_err s = None"
      using I(6) False by (auto simp: st2 st1_def)
    have ok: "\<not> d_stop ?st2 \<longrightarrow> insert p R = set (map fst (d_results ?st2))" using I(2) False by (auto simp: st2 st1_def)
    have sub: "insert p R \<subseteq> set (map fst (d_results ?st2))" using I(1) by (auto simp: st2 st1_def)
    have same: "d_running ?st2 = d_running st1" "d_results ?st2 = d_results st1" "d_stop ?st2 = d_stop st1" "d_hard ?st2 = d_hard st1"
      "d_failure ?st2 = d_failure st1" by (simp_all add: st2)
    have i2: "dag_inv reg phases partial_ok par ?st2 (insert p R)"
      unfolding dag_inv_def Let_def using sub ok rem dist seen res len order stop by (simp add: same)
    have "dag_inv reg phases partial_ok par (?st2\<lparr>d_ready := sortPhaseIDs phases (d_ready ?st2)\<rparr>) (insert p R)"
      using i2 unfolding dag_inv_def Let_def sortPhaseIDs_def by (simp add: distinct_append)
    then show ?thesis using False fin by auto
  qed
qed

lemma dag_reach_inv:
  assumes "dag_reach reg phases partial_ok handler par h n st" "dag_wf reg phases"
  shows "(\<exists>R. dag_inv reg phases partial_ok par st R) \<and> pumped par st \<and> length (d_results st) = n"
  using assms(1)
proof induction
  case start
  have "d_results (dag_init reg phases h) = []" by (simp add: dag_init_def)
  then show ?case using dag_inv_pump [OF dag_inv_init [OF assms(2)]] pumped_pump by fastforce
next
  case (step n st st')
  from step.hyps(2) obtain p r where s: "p \<in> set (d_running st)" "st' = pump par (finish reg phases partial_ok handler p r st)"
    by (rule dag_stepE)
  have "length (d_results (finish reg phases partial_ok handler p r st)) = Suc (length (d_results st))"
    by simp
  with s step.IH dag_inv_finish [OF assms(2) _ s(1)] dag_inv_pump pumped_pump show ?case by (metis pump_fields(1))
qed

section \<open>What a run guarantees\<close>

text \<open>C9: at every moment of a run, whatever order the modules finish in and whatever they return,
  no more phases run than the bound allows, none is started twice, and a phase runs or has run
  only after every phase it depends on had finished, without an error unless partial runs
  are allowed.\<close>

theorem dag_safe:
  assumes "dag_reach reg phases partial_ok handler par h n st" "dag_wf reg phases"
  shows "int (length (d_running st)) \<le> max par 0
   \<and> distinct (d_running st @ map fst (d_results st))
   \<and> list_all (\<lambda>p. list_all (\<lambda>d. \<exists>r. (d, r) \<in> set (d_results st) \<and> (partial_ok \<or> pr_err r = None)) (task_deps reg phases p))
       (d_running st @ map fst (d_results st))"
proof -
  obtain R where "dag_inv reg phases partial_ok par st R" using dag_reach_inv [OF assms] by blast
  then have I: "R \<subseteq> set (map fst (d_results st))" "distinct (d_ready st @ d_running st @ map fst (d_results st))"
    "set (d_ready st @ d_running st @ map fst (d_results st)) = {q \<in> set (dag_tasks reg phases). set (task_deps reg phases q) \<subseteq> R}"
    "\<forall>q s. (q, s) \<in> set (d_results st) \<longrightarrow> q \<in> R \<longrightarrow> partial_ok \<or> pr_err s = None" "int (length (d_running st)) \<le> max par 0"
    unfolding dag_inv_def Let_def by - (elim conjE, assumption)+
  have "\<exists>r. (d, r) \<in> set (d_results st) \<and> (partial_ok \<or> pr_err r = None)"
    if "p \<in> set (d_running st @ map fst (d_results st))" "d \<in> set (task_deps reg phases p)" for p d
  proof -
    have "d \<in> R" using I(3) that by auto
    with I(1) obtain r where "(d, r) \<in> set (d_results st)" by auto
    with I(4) \<open>d \<in> R\<close> show ?thesis by blast
  qed
  then show ?thesis using I(2,5) by (auto simp: list_all_iff)
qed

text \<open>After a failure that stops the run no phase is started any more.\<close>

lemma stopped_starts_nothing:
  assumes "dag_step reg phases partial_ok handler par st st'" "d_stop st'"
  shows "set (d_running st') \<subseteq> set (d_running st)"
  using assms(1)
proof (rule dag_stepE)
  fix p r assume s: "st' = pump par (finish reg phases partial_ok handler p r st)"
  then have "d_stop (finish reg phases partial_ok handler p r st)" using assms(2) by simp
  then have "d_running st' = d_running (finish reg phases partial_ok handler p r st)"
    unfolding s by (rule_tac pump_split [of par "finish reg phases partial_ok handler p r st"]) simp
  also have "\<dots> = remove1 p (d_running st)" by (simp add: finish_def Let_def split: prod.splits)
  finally show ?thesis by (simp add: set_remove1_subset)
qed

lemma dag_reach_bound:
  assumes "dag_reach reg phases partial_ok handler par h n st" "dag_wf reg phases"
  shows "n + length (d_running st) \<le> length (dag_tasks reg phases)"
proof -
  obtain R where "dag_inv reg phases partial_ok par st R" "length (d_results st) = n" using dag_reach_inv [OF assms] by blast
  then have I: "distinct (d_ready st @ d_running st @ map fst (d_results st))"
    "set (d_ready st @ d_running st @ map fst (d_results st)) \<subseteq> set (dag_tasks reg phases)" "length (map fst (d_results st)) = n"
    unfolding dag_inv_def Let_def by auto
  have "length (d_ready st @ d_running st @ map fst (d_results st)) \<le> card (set (dag_tasks reg phases))"
    using I(1,2) by (metis List.finite_set card_mono distinct_card)
  also have "\<dots> \<le> length (dag_tasks reg phases)" by (rule card_length)
  finally show ?thesis using I(3) by simp
qed

lemma dag_loop_reach:
  assumes "dag_reach reg phases partial_ok handler par h n st" "dag_wf reg phases" "length (dag_tasks reg phases) \<le> n + fuel"
  shows "\<exists>m st'. dag_loop fuel reg phases partial_ok handler par pick outcome st = Some st'
    \<and> dag_reach reg phases partial_ok handler par h m st' \<and> d_running st' = []"
  using assms(1,3)
proof (induction fuel arbitrary: n st)
  case 0
  then have "length (d_running st) = 0" using dag_reach_bound [OF 0(1) assms(2)] by linarith
  then show ?case using 0 by (subst dag_loop.simps) auto
next
  case (Suc fuel)
  show ?case
  proof (cases "d_running st = []")
    case True
    then show ?thesis using Suc.prems by (subst dag_loop.simps) auto
  next
    case False
    let ?p = "d_running st ! (pick st mod length (d_running st))"
    let ?st' = "pump par (finish reg phases partial_ok handler ?p (outcome ?p st) st)"
    have "?p \<in> set (d_running st)" using False by simp
    then have "dag_reach reg phases partial_ok handler par h (Suc n) ?st'"
      by (rule dag_reach.step [OF Suc.prems(1) dag_step.finished])
    from Suc.IH [OF this] Suc.prems(2) False show ?thesis by (subst dag_loop.simps) (simp add: Let_def)
  qed
qed

lemma tasks_before:
  assumes "deps_before reg seen phases" "p \<in> set phases" "distinct phases" "d \<in> set (task_deps reg phases' p)" "d \<in> set phases"
  shows "\<exists>a b. phases = a @ p # b \<and> d \<in> set a"
proof -
  from assms(2) obtain a b where ab: "phases = a @ p # b" by (meson split_list)
  have "list_all (\<lambda>d. d \<notin> set (p # b)) (case reg p of None \<Rightarrow> [] | Some ds \<Rightarrow> ds)"
    using assms(1) unfolding ab by (induction a arbitrary: seen) auto
  then have "d \<notin> set (p # b)" using assms(4) by (auto simp: task_deps_def list_all_iff split: option.splits)
  then show ?thesis using ab assms(5) by auto
qed

text \<open>When the list of phases respects the dependencies, a run that was not stopped runs them all.\<close>

lemma dag_all_run:
  assumes "dag_reach reg phases partial_ok handler par h n st" "dag_wf reg phases" "deps_before reg [] phases"
    and "d_running st = []" "0 < par" "\<not> d_stop st"
  shows "set (map fst (d_results st)) = set (dag_tasks reg phases)"
proof -
  obtain R where inv: "dag_inv reg phases partial_ok par st R" and pm: "pumped par st" using dag_reach_inv [OF assms(1,2)] by blast
  have rdy: "d_ready st = []" using pm assms(4-6) by (simp add: pumped_def)
  from inv have R: "R = set (map fst (d_results st))"
    and seen: "set (d_ready st @ d_running st @ map fst (d_results st)) = {q \<in> set (dag_tasks reg phases). set (task_deps reg phases q) \<subseteq> R}"
    unfolding dag_inv_def Let_def using assms(6) by (simp_all only: simp_thms)
  have eq: "R = {q \<in> set (dag_tasks reg phases). set (task_deps reg phases q) \<subseteq> R}" using seen rdy assms(4) R by simp
  have "p \<in> R" if "phases = a @ p # b" "p \<in> set (dag_tasks reg phases)" for a p b
    using that
  proof (induction "length a" arbitrary: a p b rule: less_induct)
    case less
    have "d \<in> R" if d: "d \<in> set (task_deps reg phases p)" for d
    proof -
      have dt: "d \<in> set (dag_tasks reg phases)" using d task_deps_sub by fast
      then have "d \<in> set phases" by (auto simp: dag_tasks_def)
      with tasks_before [OF assms(3) _ _ d] less.prems assms(2) obtain a' b' where ab: "phases = a' @ p # b'" "d \<in> set a'"
        by (auto simp: dag_wf_def)
      then obtain u v where uv: "a' = u @ d # v" by (meson split_list)
      have "distinct phases" using assms(2) by (simp add: dag_wf_def)
      then have "a' = a" using ab(1) less.prems(1) by (auto simp: append_eq_append_conv2 Cons_eq_append_conv append_eq_Cons_conv)
      with less.hyps [of u d "v @ p # b'"] uv ab dt show ?thesis by simp
    qed
    then show ?case using eq less.prems(2) by blast
  qed
  then show ?thesis using R eq by (metis (no_types, lifting) dag_tasks_def filter_is_subset mem_Collect_eq split_list subset_antisym subset_iff)
qed

lemma build_wf: "dag_wf (map_of BuildRegistry) (PhaseIDs (Build cfg))"
  unfolding dag_wf_def using plans_ordered(2) [of cfg] registry_deps_distinct by blast

lemma build_tasks: "dag_tasks (map_of BuildRegistry) (PhaseIDs (Build cfg)) = PhaseIDs (Build cfg)"
  using plans_ordered(3) [of cfg] by (auto simp: dag_tasks_def MissingPhases_def filter_empty_conv filter_id_conv)

text \<open>C10: the plan of every node runs to its end. Whatever the modules return, in whatever order they
  finish and whatever the handler does, the scheduler returns once as many phases as the plan has
  have finished, every phase ran at most once and after its dependencies, and a run that returns
  without an error has run every phase of the plan.\<close>

theorem plan_completes:
  assumes "length (PhaseIDs (Build cfg)) \<le> fuel" "0 < auto"
  shows "\<exists>results e h'. runPhaseDAG fuel (map_of BuildRegistry) (PhaseIDs (Build cfg)) partial_ok handler auto parallelism pick outcome h
      = Some (results, e, h')
    \<and> distinct (map fst results) \<and> set (map fst results) \<subseteq> set (PhaseIDs (Build cfg))
    \<and> (\<forall>i < length results. set (task_deps (map_of BuildRegistry) (PhaseIDs (Build cfg)) (fst (results ! i))) \<subseteq> set (map fst (take i results)))
    \<and> (e = None \<longrightarrow> set (map fst results) = set (PhaseIDs (Build cfg)))"
proof -
  let ?reg = "map_of BuildRegistry" and ?ph = "PhaseIDs (Build cfg)" and ?par = "if parallelism < 1 then auto else parallelism"
  note wf = build_wf [of cfg]
  obtain m st where st: "dag_loop fuel ?reg ?ph partial_ok handler ?par pick outcome (pump ?par (dag_init ?reg ?ph h)) = Some st"
    "dag_reach ?reg ?ph partial_ok handler ?par h m st" "d_running st = []"
    using dag_loop_reach [OF dag_reach.start wf, of 0] assms(1) build_tasks by (metis add_0 dag_loop_reach dag_reach.start wf)
  obtain R where "dag_inv ?reg ?ph partial_ok ?par st R" using dag_reach_inv [OF st(2) wf] by blast
  then have I: "distinct (d_ready st @ d_running st @ map fst (d_results st))"
    "set (d_ready st @ d_running st @ map fst (d_results st)) = {p \<in> set (dag_tasks ?reg ?ph). set (task_deps ?reg ?ph p) \<subseteq> R}"
    "\<forall>i < length (map fst (d_results st)). set (task_deps ?reg ?ph (map fst (d_results st) ! i)) \<subseteq> set (take i (map fst (d_results st)))"
    "d_stop st \<longleftrightarrow> d_hard st \<noteq> None \<or> (d_failure st \<noteq> None \<and> \<not> partial_ok)"
    unfolding dag_inv_def Let_def by - (elim conjE, assumption)+
  have "set (map fst (d_results st)) = set ?ph" if "dag_error ?reg ?ph partial_ok st = None"
  proof -
    have "\<not> d_stop st" using that I(4) by (auto simp: dag_error_def split: if_splits)
    moreover have "0 < ?par" using assms(2) by simp
    ultimately show ?thesis
      using dag_all_run [OF st(2) wf plans_ordered(1) st(3)] build_tasks by metis
  qed
  moreover have "set (map fst (d_results st)) \<subseteq> set ?ph" using I(2) build_tasks by auto
  ultimately show ?thesis using st(1) I(1,3) by (auto simp: runPhaseDAG_def Let_def take_map)
qed

section \<open>Runs to look at\<close>

definition quiet_run :: phase_run where
  "quiet_run = \<lparr>pr_result = no_result, pr_err = None\<rparr>"

definition toy_reg :: "string \<Rightarrow> string list option" where
  "toy_reg = map_of [(''a'', []), (''b'', [''a'']), (''c'', [''a'']), (''d'', [''b'', ''c''])]"

lemma toy_wf: "dag_wf toy_reg [''a'', ''b'', ''c'', ''d'']"
  by (auto simp: dag_wf_def toy_reg_def split: if_splits)

lemma dag_safe_witness:
  "\<exists>st. dag_reach toy_reg [''a'', ''b'', ''c'', ''d''] False (\<lambda>_ _ h. (None, h)) 2 () 1 st \<and> d_running st = [''b'', ''c'']
     \<and> int (length (d_running st)) \<le> 2"
proof -
  let ?ph = "[''a'', ''b'', ''c'', ''d'']" and ?h = "\<lambda>_ _ h. (None, h)"
  let ?s0 = "pump 2 (dag_init toy_reg ?ph ())"
  let ?s1 = "pump 2 (finish toy_reg ?ph False ?h ''a'' quiet_run ?s0)"
  have "d_running ?s0 = [''a'']" "d_running ?s1 = [''b'', ''c'']" by code_simp+
  moreover from this(1) have r: "dag_reach toy_reg ?ph False ?h 2 () (Suc 0) ?s1"
    by (intro dag_reach.step [OF dag_reach.start] dag_step.finished) simp
  ultimately show ?thesis using dag_safe [OF r toy_wf] by auto
qed

lemma plan_completes_witness:
  "\<exists>results e h'. runPhaseDAG 40 (map_of BuildRegistry) (PhaseIDs (Build (config_of_raw [] [] [(''NODEGROUP_ROLE'', ''worker'')])))
      False (\<lambda>_ _ h. (None, h)) 4 0 (\<lambda>_. 0) (\<lambda>_ _. quiet_run) () = Some (results, e, h') \<and> distinct (map fst results)"
proof -
  have "length masterPhases \<le> 40" "length workerPhases \<le> 40" by code_simp+
  then have "length (PhaseIDs (Build (config_of_raw [] [] [(''NODEGROUP_ROLE'', ''worker'')]))) \<le> 40"
    by (simp add: PhaseIDs_def Build_def)
  from plan_completes [OF this, of 4 False "\<lambda>_ _ h. (None, h)" 0 "\<lambda>_. 0" "\<lambda>_ _. quiet_run" "()", OF zero_less_numeral]
  show ?thesis by (elim exE conjE) (intro exI conjI)
qed

end
