(* ===== verification/Magnum.thy ===== *)
theory Magnum
  imports Certs Config
begin

text \<open>
  internal/magnum: the client of the certificate API (client.go) and signing with the authority on
  the disk (localsign.go). \<open>net\<close> is the wire: the answer to a request sent at a tick, or none.
  Key generation and the making of signing requests and certificates are the record \<open>signer\<close>,
  again functions of the tick. The goroutines that sign in parallel all run to their end; they are
  one sequence here, and the error returned is the first in that order. An IP address is its text, and
  the URLs of the requests are well formed.
\<close>

section \<open>The wire\<close>

record http_req =
  hq_method :: string
  hq_url :: string
  hq_token :: string
  hq_body :: string

record http_resp =
  hr_status :: nat
  hr_token :: string
  hr_body :: string

type_synonym wire = "nat \<Rightarrow> http_req \<Rightarrow> http_resp option"

record Client =
  cl_auth :: string
  cl_magnum :: string
  cl_user :: string
  cl_password :: string
  cl_trust :: string
  cl_uuid :: string
  cl_verify :: bool

definition NewClient :: "string \<Rightarrow> string \<Rightarrow> string \<Rightarrow> string \<Rightarrow> string \<Rightarrow> string \<Rightarrow> bool \<Rightarrow> Client" where
  "NewClient authURL magnumURL uid pwd trustID uuid verify = \<lparr>cl_auth = authURL, cl_magnum = magnumURL, cl_user = uid,
     cl_password = pwd, cl_trust = trustID, cl_uuid = uuid, cl_verify = verify\<rparr>"

section \<open>Retries\<close>

definition retryAttempts :: nat where "retryAttempts = 5"

definition retryableStatus :: "nat \<Rightarrow> bool" where
  "retryableStatus code \<longleftrightarrow> code = 429 \<or> code \<ge> 500"

text \<open>An attempt fails with an error and whether it may be repeated; every repetition waits.\<close>

type_synonym ('w, 'a) trial = "'w \<Rightarrow> ((err \<times> bool) + 'a) \<times> 'w"

fun retry_from :: "nat \<Rightarrow> bool \<Rightarrow> string \<Rightarrow> ('z os_scheme, 'a) trial \<Rightarrow> err \<Rightarrow> ('z os_scheme, 'a) io" where
  "retry_from 0 first label fn last_err w = (Inl (Wrap (label @ '': after '' @ nat_str retryAttempts @ '' attempts'') last_err), w)"
| "retry_from (Suc n) first label fn last_err w = (case fn (if first then w else snd (sleep w)) of
     (Inr x, w') \<Rightarrow> (Inr x, w')
   | (Inl (e, again), w') \<Rightarrow> if again then retry_from n False label fn e w' else (Inl e, w'))"

definition retry :: "string \<Rightarrow> ('z os_scheme, 'a) trial \<Rightarrow> ('z os_scheme, 'a) io" where
  "retry label fn = retry_from retryAttempts True label fn (Err [])"

definition ask :: "wire \<Rightarrow> string \<Rightarrow> http_req \<Rightarrow> (http_resp \<Rightarrow> (err \<times> bool) + 'a) \<Rightarrow> ('z os_scheme, 'a) trial" where
  "ask net label req f w = (case net (tick w) req of None \<Rightarrow> (Inl (Wrap label IOErr, True), tock w)
     | Some resp \<Rightarrow> (if hr_status resp < 200 \<or> hr_status resp \<ge> 300
         then Inl (Err (label @ '': status '' @ nat_str (hr_status resp) @ '': '' @ hr_body resp), retryableStatus (hr_status resp))
         else f resp, tock w))"

section \<open>Requests\<close>

definition token_body :: "Client \<Rightarrow> string" where
  "token_body c = (let line = (\<lambda>n s. NL @ replicate n (CHR 0x09) @ s) in
     ''{'' @ line 2 ([CHR 0x22] @ ''auth'' @ [CHR 0x22] @ '': {'')
     @ line 3 ([CHR 0x22] @ ''identity'' @ [CHR 0x22] @ '': {'')
     @ line 4 ([CHR 0x22] @ ''methods'' @ [CHR 0x22] @ '': ['' @ [CHR 0x22] @ ''password'' @ [CHR 0x22] @ ''],'')
     @ line 4 ([CHR 0x22] @ ''password'' @ [CHR 0x22] @ '': {'')
     @ line 5 ([CHR 0x22] @ ''user'' @ [CHR 0x22] @ '': {'')
     @ line 6 ([CHR 0x22] @ ''id'' @ [CHR 0x22] @ '': '' @ go_quote (cl_user c) @ '','')
     @ line 6 ([CHR 0x22] @ ''password'' @ [CHR 0x22] @ '': '' @ go_quote (cl_password c))
     @ line 5 ''}'' @ line 4 ''}'' @ line 3 ''},''
     @ line 3 ([CHR 0x22] @ ''scope'' @ [CHR 0x22] @ '': {'')
     @ line 4 ([CHR 0x22] @ ''OS-TRUST:trust'' @ [CHR 0x22] @ '': {'')
     @ line 5 ([CHR 0x22] @ ''id'' @ [CHR 0x22] @ '': '' @ go_quote (cl_trust c))
     @ line 4 ''}'' @ line 3 ''}'' @ line 2 ''}'' @ line 1 ''}'')"

definition GetToken :: "wire \<Rightarrow> Client \<Rightarrow> ('z os_scheme, string) io" where
  "GetToken net c = retry ''keystone auth'' (ask net ''keystone auth''
     \<lparr>hq_method = ''POST'', hq_url = trim_right (cl_auth c) ''/'' @ ''/auth/tokens'', hq_token = [], hq_body = token_body c\<rparr>
     (\<lambda>resp. if hr_token resp = [] then Inl (Err ''keystone auth: no X-Subject-Token in response'', False) else Inr (hr_token resp)))"

definition pem_field :: "string \<Rightarrow> http_resp \<Rightarrow> (err \<times> bool) + string" where
  "pem_field label resp = (case members_of (parse_json (hr_body resp)) of None \<Rightarrow> Inl (Err (label @ '': decode''), False)
     | Some m \<Rightarrow> (case dec_str ''pem'' m of None \<Rightarrow> Inl (Err (label @ '': decode''), False) | Some p \<Rightarrow> Inr p))"

definition FetchCACert :: "wire \<Rightarrow> Client \<Rightarrow> string \<Rightarrow> ('z os_scheme, string) io" where
  "FetchCACert net c token = retry ''fetch CA cert'' (ask net ''fetch CA cert''
     \<lparr>hq_method = ''GET'', hq_url = trim_right (cl_magnum c) ''/'' @ ''/certificates/'' @ cl_uuid c, hq_token = token, hq_body = []\<rparr>
     (pem_field ''fetch CA cert''))"

definition SignCSR :: "wire \<Rightarrow> Client \<Rightarrow> string \<Rightarrow> string \<Rightarrow> ('z os_scheme, string) io" where
  "SignCSR net c token csrPEM = retry ''sign CSR'' (ask net ''sign CSR''
     \<lparr>hq_method = ''POST'', hq_url = trim_right (cl_magnum c) ''/'' @ ''/certificates'', hq_token = token,
       hq_body = ''{'' @ [CHR 0x22] @ ''cluster_uuid'' @ [CHR 0x22] @ '': '' @ go_quote (cl_uuid c) @ '', ''
         @ [CHR 0x22] @ ''csr'' @ [CHR 0x22] @ '': '' @ go_quote csrPEM @ ''}''\<rparr>
     (pem_field ''sign CSR''))"

section \<open>Extensions of a signing request\<close>

record CertSpec =
  cs_name :: string
  cs_cn :: string
  cs_org :: string
  SANIPs :: "string list"
  SANDNSs :: "string list"
  cs_usage :: "64 word"
  cs_ext :: "nat list"

record SignedCert =
  sc_spec :: CertSpec
  KeyPEM :: string
  CertPEM :: string

definition oidExtensionKeyUsage :: "nat list" where "oidExtensionKeyUsage = [2, 5, 29, 15]"
definition oidExtensionExtendedKeyUsage :: "nat list" where "oidExtensionExtendedKeyUsage = [2, 5, 29, 37]"

text \<open>The constants of crypto/x509: ExtKeyUsageAny is 0, and so on in their order.\<close>

definition extKeyUsageOID :: "nat \<Rightarrow> nat list option" where
  "extKeyUsageOID u = map_of [(0, [2, 5, 29, 37, 0]), (1, [1, 3, 6, 1, 5, 5, 7, 3, 1]), (2, [1, 3, 6, 1, 5, 5, 7, 3, 2]),
     (3, [1, 3, 6, 1, 5, 5, 7, 3, 3]), (4, [1, 3, 6, 1, 5, 5, 7, 3, 4]), (5, [1, 3, 6, 1, 5, 5, 7, 3, 5]),
     (6, [1, 3, 6, 1, 5, 5, 7, 3, 6]), (7, [1, 3, 6, 1, 5, 5, 7, 3, 7]), (8, [1, 3, 6, 1, 5, 5, 7, 3, 8]),
     (9, [1, 3, 6, 1, 5, 5, 7, 3, 9]), (10, [1, 3, 6, 1, 4, 1, 311, 10, 3, 3]), (11, [2, 16, 840, 1, 113730, 4, 1]),
     (12, [1, 3, 6, 1, 4, 1, 311, 2, 1, 22]), (13, [1, 3, 6, 1, 4, 1, 311, 61, 1, 1])] u"

text \<open>asn1.Marshal of a bit string of at most nine bits: tag, length, unused bits, bytes.\<close>

definition marshal_bits :: "nat \<Rightarrow> 8 word list \<Rightarrow> 8 word list" where
  "marshal_bits len bytes = [3, word_of_nat (length bytes + 1), word_of_nat ((8 - len mod 8) mod 8)] @ bytes"

definition bit_length :: "64 word \<Rightarrow> nat" where
  "bit_length usage = fold (\<lambda>b n. if bit usage b then b + 1 else n) [0..<9] 0"

definition marshalKeyUsage :: "64 word \<Rightarrow> nat list \<times> bool \<times> 8 word list" where
  "marshalKeyUsage usage = (let n = bit_length usage in
     if n = 0 then (oidExtensionKeyUsage, True, [3, 1, 0])
     else (oidExtensionKeyUsage, True, marshal_bits n (fold (\<lambda>b bytes. if \<not> bit usage b then bytes
         else bytes[b div 8 := bytes ! (b div 8) OR push_bit (7 - b mod 8) 1]) [0..<n] (replicate ((n + 7) div 8) 0))))"

text \<open>The identifiers of the extended usages; their DER text is made by asn1.\<close>

definition marshalExtendedKeyUsage :: "nat list \<Rightarrow> (nat list list, string) sum" where
  "marshalExtendedKeyUsage us = (case find (\<lambda>u. extKeyUsageOID u = None) us of
     Some u \<Rightarrow> Inr (''unsupported extended key usage '' @ nat_str u) | None \<Rightarrow> Inl (map (\<lambda>u. the (extKeyUsageOID u)) us))"

record csr_template =
  ct_cn :: string
  ct_orgs :: "string list"
  ct_country :: string
  ct_province :: string
  ct_locality :: string
  ct_unit :: string
  ct_ips :: "string list"
  ct_dns :: "string list"
  ct_ext_usage :: "nat list list option"
  ct_usage :: "(nat list \<times> bool \<times> 8 word list) option"

record ('k, 'p) signer =
  gen_key :: "nat \<Rightarrow> (string \<times> 'k \<times> 'p) option"
  make_csr :: "nat \<Rightarrow> csr_template \<Rightarrow> 'p \<Rightarrow> string option"

definition GenerateKeyAndCSR :: "('k, 'p) x509 \<Rightarrow> ('k, 'p) signer \<Rightarrow> CertSpec \<Rightarrow> ('z os_scheme, string \<times> string) io" where
  "GenerateKeyAndCSR X S spec w = (case gen_key S (tick w) of None \<Rightarrow> (Inl (Err ''generate key''), tock w)
     | Some (der, _, key) \<Rightarrow>
       (case (if cs_ext spec = [] then Inl None else case marshalExtendedKeyUsage (cs_ext spec) of Inl x \<Rightarrow> Inl (Some x) | Inr e \<Rightarrow> Inr e) of
          Inr e \<Rightarrow> (Inl (Wrap ''marshal extended key usage'' (Err e)), tock w)
        | Inl ext \<Rightarrow> (case make_csr S (tick w)
            \<lparr>ct_cn = cs_cn spec, ct_orgs = (if cs_org spec = [] then [] else [cs_org spec]), ct_country = ''US'', ct_province = ''TX'',
              ct_locality = ''Austin'', ct_unit = ''OpenStack/Magnum'', ct_ips = filter is_ip (SANIPs spec), ct_dns = SANDNSs spec,
              ct_ext_usage = ext, ct_usage = (if cs_usage spec = 0 then None else Some (marshalKeyUsage (cs_usage spec)))\<rparr> key of
              None \<Rightarrow> (Inl (Err ''create CSR''), tock w)
            | Some csr \<Rightarrow> (Inr (pem_enc X (''RSA PRIVATE KEY'', der), pem_enc X (''CERTIFICATE REQUEST'', csr)), tock w))))"

definition sign_one :: "('k, 'p) x509 \<Rightarrow> ('k, 'p) signer \<Rightarrow> wire \<Rightarrow> Client \<Rightarrow> string \<Rightarrow> CertSpec \<Rightarrow> ('z os_scheme, SignedCert) io" where
  "sign_one X S net c token spec =
     andthen (wrapping (''generate '' @ cs_name spec @ '' key/CSR'') (GenerateKeyAndCSR X S spec)) (\<lambda>(keyPEM, csrPEM).
     andthen (wrapping (''sign '' @ cs_name spec @ '' CSR'') (SignCSR net c token csrPEM)) (\<lambda>certPEM.
     ret \<lparr>sc_spec = spec, KeyPEM = keyPEM, CertPEM = certPEM\<rparr>))"

text \<open>All of them run; a failure of any is the failure of the whole.\<close>

fun gather_all :: "('x \<Rightarrow> ('w, 'y) io) \<Rightarrow> 'x list \<Rightarrow> ('w, 'y list) io" where
  "gather_all f [] = ret []"
| "gather_all f (x # xs) = attempt (f x) (\<lambda>r. attempt (gather_all f xs) (\<lambda>rs. case r of
     Inl e \<Rightarrow> throw e | Inr y \<Rightarrow> (case rs of Inl e \<Rightarrow> throw e | Inr ys \<Rightarrow> ret (y # ys))))"

definition GenerateAndSignCerts ::
  "('k, 'p) x509 \<Rightarrow> ('k, 'p) signer \<Rightarrow> wire \<Rightarrow> Client option \<Rightarrow> string \<Rightarrow> CertSpec list \<Rightarrow> ('z os_scheme, SignedCert list) io" where
  "GenerateAndSignCerts X S net client token specs = (if specs = [] then ret []
     else case client of None \<Rightarrow> throw (Err ''generate/sign certificates: nil Magnum client'')
       | Some c \<Rightarrow> gather_all (sign_one X S net c token) specs)"

section \<open>Signing locally\<close>

definition localLeafValidity :: int where "localLeafValidity = 5 * 365 * 86400"

definition loadPEMCertificate :: "('k, 'p) x509 \<Rightarrow> string \<Rightarrow> ('z os_scheme, string \<times> 'k) io" where
  "loadPEMCertificate X path = andthen (read_file path) (\<lambda>d. case pem_dec X d of None \<Rightarrow> throw (Err ''no CERTIFICATE PEM block'')
     | Some ((ty, raw), _) \<Rightarrow> if ty \<noteq> ''CERTIFICATE'' then throw (Err ''no CERTIFICATE PEM block'')
         else (case parse_cert X raw of None \<Rightarrow> throw (Err ''parse certificate'') | Some c \<Rightarrow> ret c))"

definition loadPEMSigner :: "('k, 'p) x509 \<Rightarrow> string \<Rightarrow> ('z os_scheme, 'p) io" where
  "loadPEMSigner X path = andthen (read_file path) (\<lambda>d. case pem_dec X d of None \<Rightarrow> throw (Err ''no PEM block'')
     | Some ((_, b), _) \<Rightarrow> (case priv_pkcs1 X b of Some k \<Rightarrow> ret k
       | None \<Rightarrow> (case priv_ec X b of Some k \<Rightarrow> ret k
         | None \<Rightarrow> (case priv_pkcs8 X b of None \<Rightarrow> throw (Err ''unsupported private key format'')
             | Some k \<Rightarrow> if can_sign X k then ret k else throw (Err ''private key type cannot sign'')))))"

text \<open>\<open>serial t\<close> is the random number of 128 bits drawn at tick \<open>t\<close>.\<close>

definition signSpecLocally ::
  "('k, 'p) x509 \<Rightarrow> ('k, 'p) signer \<Rightarrow> (nat \<Rightarrow> int) \<Rightarrow> string \<times> 'k \<Rightarrow> 'p \<Rightarrow> CertSpec \<Rightarrow> ('z os_scheme, SignedCert) io" where
  "signSpecLocally X S serial caCert caKey spec w = (case gen_key S (tick w) of None \<Rightarrow> (Inl (Err ''generate key''), tock w)
     | Some (der, pub, _) \<Rightarrow> (let now = os_now w in
       case create_cert X (tick w) \<lparr>ci_not_before = now - 300, ci_not_after = now + localLeafValidity, ci_cn = cs_cn spec,
           ci_orgs = (if cs_org spec = [] then [] else [cs_org spec]), ci_dns = SANDNSs spec, ci_ips = filter is_ip (SANIPs spec),
           ci_usage = (if cs_usage spec = 0 then usage_digital_signature OR usage_key_encipherment else cs_usage spec),
           ci_ext = cs_ext spec, ci_serial = serial (tick w), ci_ca = False\<rparr> (Some (fst caCert)) pub caKey of
         None \<Rightarrow> (Inl (Err ''sign certificate''), tock w)
       | Some crt \<Rightarrow> (Inr \<lparr>sc_spec = spec, KeyPEM = pem_enc X (''RSA PRIVATE KEY'', der), CertPEM = pem_enc X (''CERTIFICATE'', crt)\<rparr>, tock w)))"

definition GenerateLocalSignedCerts ::
  "('k, 'p) x509 \<Rightarrow> ('k, 'p) signer \<Rightarrow> (nat \<Rightarrow> int) \<Rightarrow> string \<Rightarrow> string \<Rightarrow> CertSpec list \<Rightarrow> ('z os_scheme, SignedCert list) io" where
  "GenerateLocalSignedCerts X S serial caCertPath caKeyPath specs = (if specs = [] then ret []
     else andthen (wrapping (''local sign: load CA certificate '' @ caCertPath) (loadPEMCertificate X caCertPath)) (\<lambda>caCert.
       andthen (wrapping (''local sign: load CA key '' @ caKeyPath) (loadPEMSigner X caKeyPath)) (\<lambda>caKey.
       gather_all (\<lambda>spec. wrapping (''local sign '' @ cs_name spec) (signSpecLocally X S serial caCert caKey spec)) specs)))"

section \<open>Retrying\<close>

text \<open>The outcome of the attempt made at a tick.\<close>

definition ask_at :: "wire \<Rightarrow> string \<Rightarrow> http_req \<Rightarrow> (http_resp \<Rightarrow> (err \<times> bool) + 'a) \<Rightarrow> nat \<Rightarrow> (err \<times> bool) + 'a" where
  "ask_at net label req f t = (case net t req of None \<Rightarrow> Inl (Wrap label IOErr, True)
     | Some resp \<Rightarrow> if hr_status resp < 200 \<or> hr_status resp \<ge> 300
         then Inl (Err (label @ '': status '' @ nat_str (hr_status resp) @ '': '' @ hr_body resp), retryableStatus (hr_status resp))
         else f resp)"

lemma ask_alt: "ask net label req f w = (ask_at net label req f (tick w), tock w)"
  by (simp add: ask_def ask_at_def split: option.splits)

text \<open>What a list of outcomes amounts to: the first success or final failure counts, and when all
  may be repeated, the last one.\<close>

fun settle :: "string \<Rightarrow> err \<Rightarrow> ((err \<times> bool) + 'a) list \<Rightarrow> 'a result" where
  "settle label last_err [] = Inl (Wrap (label @ '': after '' @ nat_str retryAttempts @ '' attempts'') last_err)"
| "settle label last_err (Inr x # os) = Inr x"
| "settle label last_err (Inl (e, again) # os) = (if again then settle label e os else Inl e)"

lemma map_upt_Suc: "map f [0..<Suc n] = f 0 # map (\<lambda>i. f (Suc i)) [0..<n]"
  unfolding upt_conv_Cons [OF zero_less_Suc] map_Suc_upt [symmetric] by simp

lemma retry_from_ask:
  "fst (retry_from n first label (ask net name req f) e w) =
   settle label e (map (\<lambda>i. ask_at net name req f (tick w + 2 * i + (if first then 0 else 1))) [0..<n])"
proof (induction n arbitrary: first e w)
  case (Suc n)
  let ?w = "if first then w else snd (sleep w)"
  let ?at = "\<lambda>i. ask_at net name req f (tick w + 2 * i + (if first then 0 else 1))"
  have tick: "tick ?w = tick w + (if first then 0 else 1)" by (simp add: sleep_def fs_simps)
  then have run: "ask net name req f ?w = (?at 0, tock ?w)" by (simp add: ask_alt)
  have "(\<lambda>i. ask_at net name req f (tick (tock ?w) + 2 * i + 1)) = (\<lambda>i. ?at (Suc i))" using tick by (simp add: fs_simps ac_simps)
  with Suc.IH [of False _ "tock ?w"]
  have IH: "fst (retry_from n False label (ask net name req f) e' (tock ?w)) = settle label e' (map (\<lambda>i. ?at (Suc i)) [0..<n])" for e'
    by simp
  show ?case unfolding map_upt_Suc retry_from.simps run using IH
    by (cases "?at 0") (auto split: prod.splits)
qed simp

lemma settle_bound: "length os \<le> k \<Longrightarrow> (\<And>i. i < length os \<Longrightarrow> \<exists>e. os ! i = Inl (e, True)) \<Longrightarrow> \<exists>e. settle label e0 os = Inl (Wrap (label @ '': after '' @ nat_str retryAttempts @ '' attempts'') e)"
proof (induction os arbitrary: e0 k)
  case (Cons x os)
  obtain e where "x = Inl (e, True)" using Cons.prems(2) [of 0] by auto
  moreover have "\<exists>e. os ! i = Inl (e, True)" if "i < length os" for i using Cons.prems(2) [of "Suc i"] that by simp
  ultimately show ?case using Cons.IH [of k e] Cons.prems(1) by simp
qed simp


section \<open>Key usage bits\<close>

text \<open>The encoding is the documented one: the bits in their order from the top of each byte.\<close>

definition usage_bit :: "8 word list \<Rightarrow> nat \<Rightarrow> bool" where
  "usage_bit bytes b \<longleftrightarrow> b div 8 < length bytes \<and> bit (bytes ! (b div 8)) (7 - b mod 8)"

definition set_usage :: "nat \<Rightarrow> 8 word list \<Rightarrow> 8 word list" where
  "set_usage b bytes = bytes[b div 8 := bytes ! (b div 8) OR push_bit (7 - b mod 8) 1]"

lemma usage_bit_set:
  assumes "b div 8 < length bytes"
  shows "usage_bit (set_usage b bytes) c \<longleftrightarrow> usage_bit bytes c \<or> c = b"
proof (cases "c div 8 = b div 8")
  case True
  have "7 - c mod 8 = 7 - b mod 8 \<longleftrightarrow> c mod 8 = b mod 8" 
  proof -
    have "c mod 8 < 8" "b mod 8 < 8" by simp_all
    then show ?thesis by arith
  qed
  moreover have "c mod 8 = b mod 8 \<longleftrightarrow> c = b" using True by (metis mult_div_mod_eq)
  moreover have "bit (push_bit (7 - b mod 8) (1 :: 8 word)) (7 - c mod 8) \<longleftrightarrow> 7 - c mod 8 = 7 - b mod 8"
    by (auto simp: bit_exp_iff possible_bit_word less_imp_diff_less)
  ultimately show ?thesis using assms True by (auto simp: usage_bit_def set_usage_def bit_or_iff)
next
  case False
  then show ?thesis by (auto simp: usage_bit_def set_usage_def)
qed

lemma length_set_usage [simp]: "length (set_usage b bytes) = length bytes"
  by (simp add: set_usage_def)

lemma usage_bits_fold:
  "list_all (\<lambda>b. b div 8 < length bytes) bs \<Longrightarrow>
   usage_bit (fold (\<lambda>b bytes. if \<not> bit usage b then bytes else set_usage b bytes) bs bytes) c
     \<longleftrightarrow> usage_bit bytes c \<or> (c \<in> set bs \<and> bit usage c)"
  by (induction bs arbitrary: bytes) (auto simp: usage_bit_set)

lemma usage_length_fold: "length (fold (\<lambda>b bytes. if \<not> bit usage b then bytes else set_usage b bytes) bs bytes) = length bytes"
  by (induction bs arbitrary: bytes) auto

lemma bit_length_fold:
  "let n = fold (\<lambda>b n. if bit usage b then b + 1 else n) [0..<k] 0 in n \<le> k \<and> (\<forall>b < k. bit usage b \<longrightarrow> b < n) \<and> (0 < n \<longrightarrow> bit usage (n - 1))"
  by (induction k) (auto simp: Let_def less_Suc_eq)

lemma usage_bit_zero: "\<not> usage_bit (replicate m 0) c"
  by (simp add: usage_bit_def)

text \<open>The key usage extension says exactly what was asked for: the bits that a reader of the DER
  text finds are the usages, and the text is a bit string with its length and its unused bits.\<close>

theorem key_usage_encoded:
  "let (oid, critical, der) = marshalKeyUsage usage; n = bit_length usage in
     oid = [2, 5, 29, 15] \<and> critical \<and> {b. usage_bit (drop 3 der) b} = {b. b < 9 \<and> bit usage b}
     \<and> take 3 der = [3, word_of_nat (1 + (n + 7) div 8), word_of_nat ((8 - n mod 8) mod 8)] \<and> length der = 3 + (n + 7) div 8"
proof -
  let ?n = "bit_length usage"
  have n: "?n \<le> 9" "\<And>b. b < 9 \<Longrightarrow> bit usage b \<Longrightarrow> b < ?n"
    unfolding bit_length_def using bit_length_fold [of usage 9, unfolded Let_def] by blast+
  show ?thesis
  proof (cases "?n = 0")
    case True
    then have "{b. b < 9 \<and> bit usage b} = {}" using n(2) by force
    then show ?thesis using True by (simp add: marshalKeyUsage_def Let_def oidExtensionKeyUsage_def usage_bit_def)
  next
    case False
    let ?z = "replicate ((?n + 7) div 8) (0 :: 8 word)"
    let ?bytes = "fold (\<lambda>b bytes. if \<not> bit usage b then bytes else set_usage b bytes) [0..<?n] ?z"
    have der: "marshalKeyUsage usage = (oidExtensionKeyUsage, True, marshal_bits ?n ?bytes)"
      using False unfolding marshalKeyUsage_def Let_def set_usage_def by simp
    have "list_all (\<lambda>b. b div 8 < length ?z) [0..<?n]" by (auto simp: list_all_iff)
    from usage_bits_fold [OF this, of usage] have "usage_bit ?bytes c \<longleftrightarrow> c < ?n \<and> bit usage c" for c
      by (simp add: usage_bit_zero)
    then have "{b. usage_bit ?bytes b} = {b. b < 9 \<and> bit usage b}" using n by fastforce
    then show ?thesis using usage_length_fold [of usage "[0..<?n]" ?z]
      by (simp add: der marshal_bits_def oidExtensionKeyUsage_def Let_def)
  qed
qed

end
