(* ===== verification/Runs.thy ===== *)
theory Runs
  imports Prelude
begin

text \<open>
  Computations that may not return: \<open>None\<close> is a run that has not returned within the fuel given to
  its unbounded loops. The combinators are those of Prelude. \<open>stays P m\<close> says that whenever \<open>m\<close>
  returns, with a result or an error, it has kept \<open>P\<close>. Nothing here carries a manifest entry.
\<close>

type_synonym ('w, 'a) run = "'w \<Rightarrow> ('a result \<times> 'w) option"

definition now :: "('w, 'a) io \<Rightarrow> ('w, 'a) run" where
  "now m w = Some (m w)"

definition rthen :: "('w, 'a) run \<Rightarrow> ('a \<Rightarrow> ('w, 'b) run) \<Rightarrow> ('w, 'b) run" where
  "rthen m f w = (case m w of None \<Rightarrow> None | Some (Inl e, w') \<Rightarrow> Some (Inl e, w') | Some (Inr x, w') \<Rightarrow> f x w')"

definition rattempt :: "('w, 'a) run \<Rightarrow> ('a result \<Rightarrow> ('w, 'b) run) \<Rightarrow> ('w, 'b) run" where
  "rattempt m f w = (case m w of None \<Rightarrow> None | Some (r, w') \<Rightarrow> f r w')"

definition rwrapping :: "string \<Rightarrow> ('w, 'a) run \<Rightarrow> ('w, 'a) run" where
  "rwrapping msg m w = (case m w of None \<Rightarrow> None | Some (Inl e, w') \<Rightarrow> Some (Inl (Wrap msg e), w') | Some (Inr x, w') \<Rightarrow> Some (Inr x, w'))"

fun rfor_each :: "'x list \<Rightarrow> ('x \<Rightarrow> ('w, unit) run) \<Rightarrow> ('w, unit) run" where
  "rfor_each [] f = now (ret ())"
| "rfor_each (x # xs) f = rthen (f x) (\<lambda>_. rfor_each xs f)"

lemma rthen_cases:
  assumes "rthen m f w = Some (r, w'')"
  obtains (fail) e where "m w = Some (Inl e, w'')" "r = Inl e"
    | (ok) x w' where "m w = Some (Inr x, w')" "f x w' = Some (r, w'')"
  using assms by (auto simp: rthen_def split: option.splits prod.splits sum.splits)

lemma rattempt_cases:
  assumes "rattempt m f w = Some (r, w'')"
  obtains x w' where "m w = Some (x, w')" "f x w' = Some (r, w'')"
  using assms by (auto simp: rattempt_def split: option.splits)

lemma now_iff [simp]: "now m w = Some (r, w') \<longleftrightarrow> m w = (r, w')"
  by (simp add: now_def)

lemma rthen_now: "rthen (now m) f w = (case m w of (Inl e, w') \<Rightarrow> Some (Inl e, w') | (Inr x, w') \<Rightarrow> f x w')"
  by (simp add: rthen_def now_def)

section \<open>What runs keep\<close>

definition stays :: "('w \<Rightarrow> bool) \<Rightarrow> ('w, 'a) run \<Rightarrow> bool" where
  "stays P m \<longleftrightarrow> (\<forall>w r w'. P w \<longrightarrow> m w = Some (r, w') \<longrightarrow> P w')"

named_theorems stays_intro \<open>rules that decompose a preservation goal along a run\<close>

lemma staysD: "stays P m \<Longrightarrow> P w \<Longrightarrow> m w = Some (r, w') \<Longrightarrow> P w'"
  by (auto simp: stays_def)

lemma stays_now [stays_intro]: "keeps P m \<Longrightarrow> stays P (now m)"
  by (auto simp: stays_def dest: keepsD')

lemma stays_rthen [stays_intro]: "stays P m \<Longrightarrow> (\<And>x. stays P (f x)) \<Longrightarrow> stays P (rthen m f)"
  unfolding stays_def by (blast elim: rthen_cases)

lemma stays_rattempt [stays_intro]: "stays P m \<Longrightarrow> (\<And>x. stays P (f x)) \<Longrightarrow> stays P (rattempt m f)"
  unfolding stays_def by (blast elim: rattempt_cases)

lemma stays_rwrapping [stays_intro]: "stays P m \<Longrightarrow> stays P (rwrapping msg m)"
  by (auto simp: stays_def rwrapping_def split: option.splits prod.splits sum.splits)

lemma stays_rfor_each [stays_intro]: "(\<And>x. x \<in> set xs \<Longrightarrow> stays P (f x)) \<Longrightarrow> stays P (rfor_each xs f)"
proof (induction xs)
  case Nil
  show ?case by (auto intro!: stays_intro keeps_intro)
next
  case (Cons x xs)
  show ?case unfolding rfor_each.simps by (intro stays_rthen) (use Cons in auto)
qed

lemma stays_if [stays_intro]: "(b \<Longrightarrow> stays P m) \<Longrightarrow> (\<not> b \<Longrightarrow> stays P n) \<Longrightarrow> stays P (if b then m else n)"
  by simp

lemma stays_let [stays_intro]: "stays P (f x) \<Longrightarrow> stays P (let y = x in f y)"
  by simp

lemma stays_case_sum [stays_intro]:
  "(\<And>e. x = Inl e \<Longrightarrow> stays P (f e)) \<Longrightarrow> (\<And>y. x = Inr y \<Longrightarrow> stays P (g y)) \<Longrightarrow>
   stays P (case x of Inl e \<Rightarrow> f e | Inr y \<Rightarrow> g y)"
  by (cases x) auto

lemma stays_case_option [stays_intro]:
  "(x = None \<Longrightarrow> stays P m) \<Longrightarrow> (\<And>y. x = Some y \<Longrightarrow> stays P (g y)) \<Longrightarrow>
   stays P (case x of None \<Rightarrow> m | Some y \<Rightarrow> g y)"
  by (cases x) auto

lemma stays_case_prod [stays_intro]:
  "(\<And>a b. x = (a, b) \<Longrightarrow> stays P (f a b)) \<Longrightarrow> stays P (case x of (a, b) \<Rightarrow> f a b)"
  by (cases x) auto

end
