(* ===== verification/HostFrame.thy ===== *)
theory HostFrame
  imports HostRes Runs
begin

text \<open>
  What the operations of the executor and the resources leave alone: a regular file that exists
  at another path stays as it is, whether the operation succeeds or fails. Temporary files are
  made at free names, so they take nobody's place. The facts are stated with \<open>keeps\<close>, whose rules
  then decompose any module along its code. It also has the ways in which modules wait: polls, and
  the wait for a unit as a run.
\<close>

definition holds :: "string \<Rightarrow> node \<Rightarrow> 'z os_scheme \<Rightarrow> bool" where
  "holds q n w \<longleftrightarrow> regular w q = Some n"

named_theorems spare_intro \<open>rules that show a file is left alone\<close>

lemma holds_content: "holds q n w \<Longrightarrow> content w q = Some (ncontent n)"
  by (simp add: holds_def content_regular)

lemma content_holds: "content w q = Some c \<Longrightarrow> \<exists>m u g. holds q (FileN c m u g) w"
  by (auto simp: holds_def dest: content_fget)

lemma spare_confined: "confined P m \<Longrightarrow> q \<notin> P \<Longrightarrow> keeps (holds q n) m"
  by (simp add: confined_keeps holds_def [abs_def])

lemma spare_sleep [spare_intro]: "keeps (holds q n) sleep"
  by (auto intro!: keepsI simp: sleep_def holds_def)

lemma spare_calls [spare_intro]:
  "keeps (holds q n) (read_file p)" "keeps (holds q n) (stat p)" "keeps (holds q n) (read_dir p)"
  "keeps (holds q n) sync_fd" "keeps (holds q n) now_text" "keeps (holds q n) (run_cmd argv)"
  "keeps (holds q n) (mkdir_all p m)"
  by (rule spare_confined [of "{}"], (rule confined_intro | simp)+)+

lemma spare_writes [spare_intro]:
  "q \<noteq> p \<Longrightarrow> keeps (holds q n) (write_file p c m)" "q \<noteq> p \<Longrightarrow> keeps (holds q n) (chmod p m)"
  "q \<noteq> p \<Longrightarrow> keeps (holds q n) (chown p u g)" "q \<noteq> p \<Longrightarrow> keeps (holds q n) (remove p)"
  by (rule spare_confined [of "{p}"], (rule confined_intro | simp)+)+

lemma spare_rename [spare_intro]: "q \<noteq> p \<Longrightarrow> q \<noteq> p' \<Longrightarrow> keeps (holds q n) (rename p p')"
  by (rule spare_confined [of "{p, p'}"], (rule confined_intro | simp)+)

lemma spare_remove_all [spare_intro]:
  "q \<noteq> p \<Longrightarrow> \<not> has_prefix q (p @ ''/'') \<Longrightarrow> keeps (holds q n) (remove_all p)"
proof (rule keepsI)
  fix w :: "'a os_scheme"
  assume a: "q \<noteq> p" "\<not> has_prefix q (p @ ''/'')" "holds q n w"
  have "map_of (filter (\<lambda>(r, _). P r) xs) q = (if P q then map_of xs q else None)" for P and xs :: "(string \<times> node) list"
    by (induction xs) auto
  from this [of "\<lambda>r. r \<noteq> p \<and> \<not> has_prefix r (p @ ''/'')" "files w"] a
  show "holds q n (snd (remove_all p w))"
    by (auto simp: remove_all_def holds_def regular_def fget_def tock_def split: option.splits)
qed

lemma spare_atomic: "(\<And>w. atomic_outcome p d m w (op w)) \<Longrightarrow> q \<noteq> p \<Longrightarrow> keeps (holds q n) op"
proof (rule keepsI)
  fix w :: "'a os_scheme"
  assume a: "\<And>w :: 'a os_scheme. atomic_outcome p d m w (op w)" "q \<noteq> p" "holds q n w"
  obtain r w' where "op w = (r, w')" by (cases "op w")
  with a(1) [of w] a(2,3) show "holds q n (snd (op w))" by (auto simp: atomic_outcome_def holds_def)
qed

lemma spare_atomic_writes [spare_intro]:
  "q \<noteq> p \<Longrightarrow> keeps (holds q n) (writeFileAtomic p d m)" "q \<noteq> p \<Longrightarrow> keeps (holds q n) (WriteFile p d m)"
  by (auto intro: spare_atomic writeFileAtomic_outcome WriteFile_outcome)

lemma spare_applyFunc [spare_intro]: "keeps (holds q n) m \<Longrightarrow> keeps (holds q n) (applyFunc ap ch m)"
  unfolding applyFunc_def by (intro keeps_intro)

lemma keeps_case_node [keeps_intro]:
  "(\<And>c m u g. x = FileN c m u g \<Longrightarrow> keeps P (f c m u g)) \<Longrightarrow> (\<And>m u g. x = DirN m u g \<Longrightarrow> keeps P (h m u g)) \<Longrightarrow>
   keeps P (case x of FileN c m u g \<Rightarrow> f c m u g | DirN m u g \<Rightarrow> h m u g)"
  by (cases x) auto

lemma spare_Ensure [spare_intro]:
  "q \<noteq> p \<Longrightarrow> keeps (holds q n) (EnsureDir ap p m)"
  "q \<noteq> p \<Longrightarrow> keeps (holds q n) (EnsureFile ap p d m)"
  "q \<noteq> p \<Longrightarrow> keeps (holds q n) (EnsureAbsent ap p)"
  "q \<noteq> p \<Longrightarrow> keeps (holds q n) (EnsureLine ap p l m)"
  "q \<noteq> p \<Longrightarrow> keeps (holds q n) (UpsertExport ap p var val m)"
  unfolding EnsureDir_def EnsureFile_def EnsureAbsent_def EnsureLine_def UpsertExport_def
  by (intro keeps_intro spare_intro; simp)+

lemma spare_commands [spare_intro]:
  "keeps (holds q n) (Run ap name args)" "keeps (holds q n) (RunCapture name args)" "keeps (holds q n) (Systemctl ap name args)"
  unfolding Run_def RunCapture_def Systemctl_def Run_def RunCapture_def by (intro keeps_intro spare_intro)+

lemma spare_queries [spare_intro]:
  "keeps (holds q n) (SystemctlIsActive u)" "keeps (holds q n) (SystemctlExists u)" "keeps (holds q n) (SystemctlIsEnabled u)"
  "keeps (holds q n) (SystemctlIsMasked u)"
  unfolding SystemctlIsActive_def SystemctlExists_def SystemctlIsEnabled_def SystemctlIsMasked_def
  by (intro keeps_intro spare_intro)+

lemma spare_ownership [spare_intro]: "keeps (holds q n) (OwnershipSpec_Apply ap s)"
  unfolding OwnershipSpec_Apply_def resolveIDs_def needsApply_def id_field_def
  by (intro keeps_intro spare_intro) (auto intro!: keepsI keeps_intro spare_intro simp: walk_mismatch_def holds_def run_simps)

lemma spare_resources [spare_intro]:
  "q \<noteq> f_path s \<Longrightarrow> keeps (holds q n) (FileSpec_Apply ap s)"
  "q \<noteq> d_path t \<Longrightarrow> keeps (holds q n) (DirectorySpec_Apply ap t)"
  unfolding FileSpec_Apply_def DirectorySpec_Apply_def by (intro keeps_intro spare_intro; simp)+

text \<open>Applying a file leaves exactly its content.\<close>

lemma FileSpec_content: "FileSpec_Apply True s w = (Inr r, w') \<Longrightarrow> \<not> f_absent s \<Longrightarrow> content w' (f_path s) = Some (f_content s)"
  using FileSpec_applied [of s w r w'] by (auto simp: FileSpec_done_def content_def)

section \<open>Waiting\<close>

text \<open>A poll pauses after every failed probe, the last included.\<close>

fun poll :: "nat \<Rightarrow> ('z os_scheme, bool) io \<Rightarrow> ('z os_scheme, bool) io" where
  "poll 0 check = ret False"
| "poll (Suc n) check = andthen check (\<lambda>ok. if ok then ret True else andthen sleep (\<lambda>_. poll n check))"

definition succeeds :: "('w, 'a) io \<Rightarrow> ('w, bool) io" where
  "succeeds m = attempt m (\<lambda>r. ret (case r of Inl _ \<Rightarrow> False | Inr _ \<Rightarrow> True))"

definition ignoring :: "('w, 'a) io \<Rightarrow> ('w, unit) io" where
  "ignoring m = attempt m (\<lambda>_. ret ())"

definition until_active :: "nat \<Rightarrow> string \<Rightarrow> int \<Rightarrow> int \<Rightarrow> ('z os_scheme, bool) run" where
  "until_active fuel svc timeout interval w = (case WaitForSystemctlActive fuel svc timeout interval w of
     None \<Rightarrow> None | Some (b, w') \<Rightarrow> Some (Inr b, w'))"

lemma spare_ignoring [spare_intro]: "keeps (holds q n) m \<Longrightarrow> keeps (holds q n) (ignoring m)"
  unfolding ignoring_def by (intro keeps_intro)

lemma spare_succeeds [spare_intro]: "keeps (holds q n) m \<Longrightarrow> keeps (holds q n) (succeeds m)"
  unfolding succeeds_def by (intro keeps_intro)

lemma spare_poll [spare_intro]: "keeps (holds q n) c \<Longrightarrow> keeps (holds q n) (poll k c)"
  by (induction k) (auto intro!: keeps_intro spare_intro)

lemma active_loop_keeps: "keeps (holds q n) c \<Longrightarrow> active_loop k c dl sf since w = Some (b, w') \<Longrightarrow> holds q n w \<Longrightarrow> holds q n w'"
proof (induction k arbitrary: since w)
  case (Suc k)
  obtain r w1 where c: "c w = (r, w1)" by (cases "c w")
  have h: "holds q n w1" using keepsD' [OF Suc.prems(1,3) c] .
  then have "holds q n (snd (sleep w1))" by (simp add: sleep_def holds_def)
  with Suc.IH [OF Suc.prems(1)] Suc.prems(2) c h show ?case by (auto simp: Let_def split: if_splits)
qed simp

lemma stays_until_active [stays_intro]: "stays (holds q n) (until_active fuel svc t i)"
  unfolding stays_def until_active_def WaitForSystemctlActive_def waitForActiveState_def Let_def
  by (auto split: option.splits dest: active_loop_keeps [OF spare_queries(1)])

end
