(* ===== verification/AdminConf.thy ===== *)
theory AdminConf
  imports HostFrame Certs Base64 Phases
begin

text \<open>
  The kubeconfigs of a node (internal/module/admin-kubeconfig, internal/module/kubecommon/
  kubeconfig.go) and the certificate of the signing controller (kubecommon/signingca.go).
  Registration with the engine is left out. The main result is a round trip with
  \<open>CAFromKubeconfig\<close> of Certs: the master's admin.conf carries the trust bundle on the disk.
\<close>

definition unlines :: "string list \<Rightarrow> string" where
  "unlines ls = concat (map (\<lambda>l. l @ NL) ls)"

section \<open>kubeconfig.go\<close>

definition BuildKubeconfig :: "string \<Rightarrow> string \<Rightarrow> string \<Rightarrow> string \<Rightarrow> string \<Rightarrow> string" where
  "BuildKubeconfig user certFile keyFile caFile server = unlines
     [''apiVersion: v1'', ''clusters:'', ''- cluster:'', ''    certificate-authority: '' @ caFile, ''    server: '' @ server,
      ''  name: kubernetes'', ''contexts:'', ''- context:'', ''    cluster: kubernetes'', ''    user: '' @ user, ''  name: default'',
      ''current-context: default'', ''kind: Config'', ''preferences: {}'', ''users:'', ''- name: '' @ user, ''  user:'',
      ''    as-user-extra: {}'', ''    client-certificate: '' @ certFile, ''    client-key: '' @ keyFile]"

definition BuildInsecureKubeconfig :: "string \<Rightarrow> string \<Rightarrow> string" where
  "BuildInsecureKubeconfig user server = unlines
     [''apiVersion: v1'', ''clusters:'', ''- cluster:'', ''    server: '' @ server,
      ''  name: kubernetes'', ''contexts:'', ''- context:'', ''    cluster: kubernetes'', ''    user: '' @ user, ''  name: default'',
      ''current-context: default'', ''kind: Config'', ''preferences: {}'', ''users:'', ''- name: '' @ user, ''  user:'',
      ''    as-user-extra: {}'']"

section \<open>The content of admin.conf\<close>

abbreviation (input) certDir :: string where "certDir \<equiv> ''/etc/kubernetes/certs''"

definition readBase64 :: "string \<Rightarrow> ('z os_scheme, string) io" where
  "readBase64 path = andthen (read_file path) (\<lambda>d. ret (b64_std d))"

definition master_conf :: "Config \<Rightarrow> string \<Rightarrow> string \<Rightarrow> string \<Rightarrow> string" where
  "master_conf cfg caData adminCert adminKey =
     (let apiPort = (if KubeAPIPort (Shared cfg) = 0 then 6443 else KubeAPIPort (Shared cfg));
          protocol = (if TLSDisabled (Shared cfg) then ''http'' else ''https'');
          uuid = ClusterUUID (Shared cfg)
      in trim_space (NL @ unlines
       [''apiVersion: v1'', ''clusters:'', ''- cluster:'', ''    certificate-authority-data: '' @ caData,
        ''    server: '' @ protocol @ ''://127.0.0.1:'' @ itoa apiPort, ''  name: '' @ uuid, ''contexts:'', ''- context:'',
        ''    cluster: '' @ uuid, ''    user: admin'', ''  name: default'', ''current-context: default'', ''kind: Config'',
        ''preferences: {}'', ''users:'', ''- name: admin'', ''  user:'', ''    as-user-extra: {}'',
        ''    client-certificate-data: '' @ adminCert, ''    client-key-data: '' @ adminKey]) @ NL)"

definition worker_conf :: "string \<Rightarrow> string \<Rightarrow> string \<Rightarrow> string" where
  "worker_conf server user name = trim_space (NL @ unlines
       [''apiVersion: v1'', ''clusters:'', ''- cluster:'', ''    certificate-authority: '' @ certDir @ ''/ca.crt'',
        ''    server: '' @ server, ''  name: kubernetes'', ''contexts:'', ''- context:'', ''    cluster: kubernetes'',
        ''    user: '' @ user, ''  name: default'', ''current-context: default'', ''kind: Config'', ''preferences: {}'',
        ''users:'', ''- name: '' @ user, ''  user:'', ''    as-user-extra: {}'',
        ''    client-certificate: '' @ certDir @ ''/'' @ name @ ''.crt'', ''    client-key: '' @ certDir @ ''/'' @ name @ ''.key'']) @ NL"

definition BuildContent :: "Config \<Rightarrow> ('z os_scheme, string) io" where
  "BuildContent cfg = (if Role cfg = RoleMaster then
       andthen (readBase64 (certDir @ ''/ca.crt'')) (\<lambda>caData.
       andthen (readBase64 (certDir @ ''/admin.crt'')) (\<lambda>adminCert.
       andthen (readBase64 (certDir @ ''/admin.key'')) (\<lambda>adminKey.
       ret (master_conf cfg caData adminCert adminKey))))
     else case Worker cfg of None \<Rightarrow> throw (Err ''worker kubeconfig requested without worker configuration'')
       | Some wk \<Rightarrow>
         andthen (wrapping ''required worker certificate not found'' (stat (certDir @ ''/kubelet.crt''))) (\<lambda>_.
         andthen (wrapping ''required worker key not found'' (stat (certDir @ ''/kubelet.key''))) (\<lambda>_.
         let protocol = (if TLSDisabled (Shared cfg) then ''http'' else ''https'') in
         ret (worker_conf (protocol @ ''://'' @ KubeMasterIP wk @ '':'' @ itoa (KubeAPIPort (Shared cfg)))
           (''system:node:'' @ InstanceName (Shared cfg)) ''kubelet''))))"

definition BuildNodeManagerContent :: "Config \<Rightarrow> ('z os_scheme, string option) io" where
  "BuildNodeManagerContent cfg = (case Worker cfg of None \<Rightarrow> ret None | Some wk \<Rightarrow>
     if Role cfg = RoleMaster \<or> TLSDisabled (Shared cfg) then ret None
     else attempt (stat (certDir @ ''/node-manager.crt'')) (\<lambda>r. case r of Inl _ \<Rightarrow> ret None | Inr _ \<Rightarrow>
          attempt (stat (certDir @ ''/node-manager.key'')) (\<lambda>r. case r of Inl _ \<Rightarrow> ret None | Inr _ \<Rightarrow>
          ret (Some (worker_conf (''https://'' @ KubeMasterIP wk @ '':'' @ itoa (KubeAPIPort (Shared cfg)))
            (''magnum:node-manager:'' @ InstanceName (Shared cfg)) ''node-manager'')))))"

section \<open>The module\<close>

definition put_file :: "bool \<Rightarrow> string \<Rightarrow> string \<Rightarrow> nat \<Rightarrow> ('z os_scheme, change list) io" where
  "put_file ap path c mode = andthen (FileSpec_Apply ap \<lparr>f_path = path, f_content = c, f_mode = mode, f_absent = False\<rparr>)
     (\<lambda>r. ret (ar_changes r))"

definition put_dir :: "bool \<Rightarrow> string \<Rightarrow> ('z os_scheme, change list) io" where
  "put_dir ap path = andthen (DirectorySpec_Apply ap \<lparr>d_path = path, d_mode = o755\<rparr>) (\<lambda>r. ret (ar_changes r))"

definition user_config :: "bool \<Rightarrow> string \<Rightarrow> string \<Rightarrow> ('z os_scheme, change list) io" where
  "user_config ap c user = (let home = ''/home/'' @ user; kube = home @ ''/.kube'' in
     attempt (stat home) (\<lambda>r. case r of Inl _ \<Rightarrow> ret [] | Inr _ \<Rightarrow>
       andthen (put_dir ap kube) (\<lambda>c1.
       andthen (put_file ap (kube @ ''/config'') c o600) (\<lambda>c2.
       attempt (Run ap ''chown'' [''-R'', user @ '':'' @ user, kube]) (\<lambda>_. ret (c1 @ c2))))))"

definition write_configs :: "bool \<Rightarrow> ('z os_scheme, string option) io \<Rightarrow> string \<Rightarrow> ('z os_scheme, Result) io" where
  "write_configs ap manager c =
     andthen (put_dir ap ''/etc/kubernetes'') (\<lambda>c1.
     andthen (put_dir ap ''/root/.kube'') (\<lambda>c2.
     andthen (put_file ap ''/etc/kubernetes/admin.conf'' c o600) (\<lambda>c3.
     andthen (put_file ap ''/root/.kube/config'' c o600) (\<lambda>c4.
     andthen (user_config ap c ''core'') (\<lambda>c5.
     andthen (user_config ap c ''ubuntu'') (\<lambda>c6.
     andthen (ExportSpec_Apply ap \<lparr>e_path = ''/etc/bashrc'', e_var = ''KUBECONFIG'', e_value = ''/etc/kubernetes/admin.conf'', e_mode = o644\<rparr>) (\<lambda>c7.
     andthen manager (\<lambda>nm.
     andthen (case nm of None \<Rightarrow> ret [] | Some d \<Rightarrow> put_file ap ''/etc/kubernetes/node-manager.conf'' d o600) (\<lambda>c8.
     ret \<lparr>Changes = c1 @ c2 @ c3 @ c4 @ c5 @ c6 @ ar_changes c7 @ c8,
       Outputs = [(''targetPath'', ''/etc/kubernetes/admin.conf''), (''homeCopy'', ''/root/.kube/config''), (''content'', c)],
       Warnings = []\<rparr>)))))))))"

definition AdminKubeconfig_Run :: "Config \<Rightarrow> bool \<Rightarrow> ('z os_scheme, Result) io" where
  "AdminKubeconfig_Run cfg ap = andthen (BuildContent cfg) (write_configs ap (BuildNodeManagerContent cfg))"

definition AdminKubeconfig_Destroy :: "('z os_scheme, unit) io" where
  "AdminKubeconfig_Destroy =
     andthen (ignoring (remove ''/etc/kubernetes/admin.conf'')) (\<lambda>_.
     andthen (ignoring (remove ''/etc/kubernetes/node-manager.conf'')) (\<lambda>_.
     andthen (ignoring (remove ''/root/.kube/config'')) (\<lambda>_.
     for_each [''core'', ''ubuntu''] (\<lambda>user. ignoring (remove_all (''/home/'' @ user @ ''/.kube''))))))"

section \<open>signingca.go\<close>

definition SigningCACertPath :: string where "SigningCACertPath = ''/etc/kubernetes/certs/ca-signing.crt''"

definition firstCertPEM :: "('k, 'p) x509 \<Rightarrow> string \<Rightarrow> string" where
  "firstCertPEM X bundle = fst (CapCertBundle (pki_of X) bundle 1)"

text \<open>The changes with the warning; an error comes with the warning too.\<close>

definition EnsureSigningCA :: "('k, 'p) x509 \<Rightarrow> bool \<Rightarrow> string \<Rightarrow> string \<Rightarrow> ('z os_scheme, (change list + err) \<times> string) io" where
  "EnsureSigningCA X ap caBundlePath caKeyPath = attempt (read_file caBundlePath) (\<lambda>r. case r of Inl _ \<Rightarrow> ret (Inl [], []) | Inr bundle \<Rightarrow>
     attempt (read_file caKeyPath) (\<lambda>r. case r of Inl _ \<Rightarrow> ret (Inl [], []) | Inr key \<Rightarrow>
       let (signing, warning) = (case CertMatchingKeyPEM X bundle key of Some s \<Rightarrow> (s, [])
             | None \<Rightarrow> (firstCertPEM X bundle, ''no certificate in '' @ caBundlePath @ '' pairs with '' @ caKeyPath
                 @ ''; kube-controller-manager will not be able to sign CSRs until the CA pair is repaired''))
       in if signing = [] then ret (Inl [], warning)
       else attempt (FileSpec_Apply ap \<lparr>f_path = SigningCACertPath, f_content = signing, f_mode = o444, f_absent = False\<rparr>) (\<lambda>r. case r of
         Inl e \<Rightarrow> ret (Inr e, warning)
       | Inr result \<Rightarrow> attempt (OwnershipSpec_Apply ap \<lparr>o_path = SigningCACertPath, o_owner = ''kube'', o_group = ''kube_etcd'',
             o_recursive = False, o_skip = False\<rparr>) (\<lambda>r. case r of
           Inl e \<Rightarrow> ret (Inr e, warning)
         | Inr owned \<Rightarrow> ret (Inl (ar_changes result @ ar_changes owned), warning)))))"

section \<open>The authority survives the text\<close>

lemma trim_space_tail:
  assumes "p \<noteq> []" "\<not> is_space (hd p)" "\<not> is_space (last p)"
  shows "\<exists>t. trim_space (NL @ p @ NL @ rest) = p @ t \<and> (t = [] \<or> (\<exists>u. t = NL @ u))"
proof -
  have l: "dropWhile is_space (NL @ p @ NL @ rest) = p @ NL @ rest" using assms(1,2) by (cases p) auto
  obtain c r where p: "rev p = c # r" "\<not> is_space c" using assms(1,3) by (cases "rev p") (auto simp: hd_rev [symmetric])
  show ?thesis
  proof (cases "list_all is_space (rev rest)")
    case True
    then have "dropWhile is_space (rev rest @ NL @ rev p) = rev p" using p by (induction "rev rest") (auto simp: dropWhile_append list_all_iff)
    then show ?thesis using l by (simp add: trim_space_def)
  next
    case False
    then have "dropWhile is_space (rev rest @ NL @ rev p) = dropWhile is_space (rev rest) @ NL @ rev p"
      by (auto simp: dropWhile_append list_all_iff)
    then show ?thesis using l by (simp add: trim_space_def)
  qed
qed

lemma split_on_hd: "c \<notin> set a \<Longrightarrow> t = [] \<or> (\<exists>u. t = [c] @ u) \<Longrightarrow> \<exists>ls. split_on c (a @ t) = a # ls"
  by (auto simp: split_on_none split_on_append)

definition authority_line :: "string \<Rightarrow> string" where
  "authority_line ca = ''    '' @ authority_key @ '' '' @ b64_std ca"

lemma trim_authority: "b64_std ca \<noteq> [] \<Longrightarrow> trim_space (authority_line ca) = authority_key @ '' '' @ b64_std ca"
proof -
  assume ne: "b64_std ca \<noteq> []"
  have l: "dropWhile is_space (authority_line ca) = authority_key @ '' '' @ b64_std ca"
    by (simp add: authority_line_def authority_key_def is_space_def)
  obtain c r where rev: "rev (b64_std ca) = c # r" using ne by (cases "rev (b64_std ca)") auto
  then have "c \<in> set (b64_std ca)" by (metis list.set_intros(1) set_rev)
  then have "\<not> is_space c" using std_line [of ca] by (auto simp: list_all_iff)
  with l rev show ?thesis by (simp add: trim_space_def)
qed

lemma master_conf_authority:
  assumes "ca \<noteq> []"
  shows "authority_in path (master_conf cfg (b64_std ca) adminCert adminKey) = Inr ca"
proof -
  have ne: "b64_std ca \<noteq> []"
  proof
    have "b64_std [] = []" by (simp add: b64_std_def bytes_of_def)
    moreover assume "b64_std ca = []"
    ultimately show False using assms b64_std_roundtrip [of ca] b64_std_roundtrip [of "[]"] by simp
  qed
  let ?p = "''apiVersion: v1'' @ NL @ ''clusters:'' @ NL @ ''- cluster:'' @ NL @ authority_line ca"
  let ?tl = "unlines (drop 4 [''apiVersion: v1'', ''clusters:'', ''- cluster:'', '''',
        ''    server: '' @ (if TLSDisabled (Shared cfg) then ''http'' else ''https'') @ ''://127.0.0.1:''
          @ itoa (if KubeAPIPort (Shared cfg) = 0 then 6443 else KubeAPIPort (Shared cfg)), ''  name: '' @ ClusterUUID (Shared cfg), ''contexts:'', ''- context:'',
        ''    cluster: '' @ ClusterUUID (Shared cfg), ''    user: admin'', ''  name: default'', ''current-context: default'', ''kind: Config'',
        ''preferences: {}'', ''users:'', ''- name: admin'', ''  user:'', ''    as-user-extra: {}'',
        ''    client-certificate-data: '' @ adminCert, ''    client-key-data: '' @ adminKey])"
  have conf: "master_conf cfg (b64_std ca) adminCert adminKey = trim_space (NL @ ?p @ NL @ ?tl) @ NL"
    by (simp add: master_conf_def unlines_def authority_line_def authority_key_def Let_def)
  have last: "\<not> is_space (last ?p)"
  proof -
    have "last ?p = last (b64_std ca)" using ne by (simp add: authority_line_def)
    then show ?thesis using ne std_line [of ca] by (auto simp: list_all_iff)
  qed
  obtain t where t: "trim_space (NL @ ?p @ NL @ ?tl) = ?p @ t" "t = [] \<or> (\<exists>u. t = NL @ u)"
    using trim_space_tail [of ?p ?tl] last by (auto simp: is_space_def)
  have nl: "CHR 0x0A \<notin> set (authority_line ca)"
    using std_line [of ca] by (auto simp: authority_line_def authority_key_def list_all_iff)
  obtain ls where ls: "split_on (CHR 0x0A) (authority_line ca @ t @ NL) = authority_line ca # ls"
    using split_on_hd [OF nl, of "t @ NL"] t(2) by auto
  have "split_on (CHR 0x0A) (master_conf cfg (b64_std ca) adminCert adminKey)
      = [''apiVersion: v1'', ''clusters:'', ''- cluster:'', authority_line ca] @ ls"
    unfolding conf t(1) using ls split_on_append [of "CHR 0x0A" "''apiVersion: v1''"] split_on_append [of "CHR 0x0A" "''clusters:''"]
      split_on_append [of "CHR 0x0A" "''- cluster:''"] by simp
  moreover have "trim_space (trim_prefix (authority_key @ '' '' @ b64_std ca) authority_key) = b64_std ca"
    using ne std_line [of ca] trim_space_word [of "b64_std ca"] by (auto simp: trim_prefix_def str_simps word_str_def trim_space_def)
  moreover have "\<not> has_prefix (trim_space ''apiVersion: v1'') authority_key" by code_simp
  moreover have "\<not> has_prefix (trim_space ''clusters:'') authority_key" by code_simp
  moreover have "\<not> has_prefix (trim_space ''- cluster:'') authority_key" by code_simp
  moreover have "has_prefix (authority_key @ '' '' @ b64_std ca) authority_key" by (simp add: has_prefix_iff)
  ultimately show ?thesis
    using trim_authority [OF ne] ne b64_std_roundtrip [of ca] unfolding authority_in_def by simp
qed

section \<open>The module as a whole\<close>

lemma spare_module [spare_intro]:
  "q \<noteq> p \<Longrightarrow> keeps (holds q n) (put_file ap p c m)" "q \<noteq> p \<Longrightarrow> keeps (holds q n) (put_dir ap p)"
  "q \<noteq> e_path s \<Longrightarrow> keeps (holds q n) (ExportSpec_Apply ap s)"
  "keeps (holds q n) (readBase64 p)"
  unfolding put_file_def put_dir_def ExportSpec_Apply_def readBase64_def by (intro keeps_intro spare_intro; simp)+

lemma spare_user_config [spare_intro]:
  "\<not> has_prefix q ''/home/'' \<Longrightarrow> keeps (holds q n) (user_config ap c user)"
  unfolding user_config_def Let_def by (intro keeps_intro spare_intro) (auto simp: has_prefix_def)

lemma spare_BuildContent [spare_intro]:
  "keeps (holds q n) (BuildContent cfg)" "keeps (holds q n) (BuildNodeManagerContent cfg)"
  unfolding BuildContent_def BuildNodeManagerContent_def Let_def by (intro keeps_intro spare_intro)+

lemma put_file_written: "put_file True p c m w = (Inr r, w') \<Longrightarrow> \<exists>n. holds p n w' \<and> ncontent n = c"
  using FileSpec_content [of "\<lparr>f_path = p, f_content = c, f_mode = m, f_absent = False\<rparr>" w]
  by (auto simp: put_file_def andthen_ok_iff run_simps dest!: content_holds) (metis node.sel(1))

lemma master_content:
  "BuildContent cfg w = (Inr c, w') \<Longrightarrow> Role cfg = RoleMaster \<Longrightarrow> content w (certDir @ ''/ca.crt'') = Some ca \<Longrightarrow>
   \<exists>adminCert adminKey. c = master_conf cfg (b64_std ca) adminCert adminKey"
  by (auto simp: BuildContent_def readBase64_def andthen_ok_iff run_simps read_file_ok content_def)

lemma stage: "andthen m f w = (Inr r, w') \<Longrightarrow> (\<And>x w1. m w = (Inr x, w1) \<Longrightarrow> f x w1 = (Inr r, w') \<Longrightarrow> P) \<Longrightarrow> P"
  by (auto simp: andthen_ok_iff)

lemma put_then: "andthen (put_file True p c m) f w = (Inr r, w') \<Longrightarrow> (\<And>x n. keeps (holds p n) (f x)) \<Longrightarrow> content w' p = Some c"
  by (erule stage, drule put_file_written) (auto dest: keepsD' holds_content)

lemma write_configs_written:
  assumes "write_configs True m c w = (Inr res, w')" and m: "\<And>q n. keeps (holds q n) m"
  shows "content w' ''/etc/kubernetes/admin.conf'' = Some c" "content w' ''/root/.kube/config'' = Some c"
proof -
  show "content w' ''/etc/kubernetes/admin.conf'' = Some c"
    using assms unfolding write_configs_def
    by - (erule stage, erule stage, erule put_then, intro m keeps_intro spare_intro; simp add: has_prefix_def)
  show "content w' ''/root/.kube/config'' = Some c"
    using assms unfolding write_configs_def
    by - (erule stage, erule stage, erule stage, erule put_then, intro m keeps_intro spare_intro; simp add: has_prefix_def)
qed

lemma spare_write_configs [spare_intro]:
  "q \<notin> {''/etc/kubernetes'', ''/root/.kube'', ''/etc/kubernetes/admin.conf'', ''/root/.kube/config'', ''/etc/bashrc'', ''/etc/kubernetes/node-manager.conf''} \<Longrightarrow>
   \<not> has_prefix q ''/home/'' \<Longrightarrow> keeps (holds q n) m \<Longrightarrow> keeps (holds q n) (write_configs ap m c)"
  unfolding write_configs_def by (intro keeps_intro spare_intro) simp_all

text \<open>C34: after the module has run on a master, admin.conf and root's copy carry exactly the trust
  bundle of the node, so the authority recovered from the kubeconfig is ca.crt byte for byte; the
  bundle itself is untouched.\<close>

theorem admin_conf_roundtrip:
  assumes run: "AdminKubeconfig_Run cfg True w = (Inr res, w')" and master: "Role cfg = RoleMaster"
    and ca: "content w (certDir @ ''/ca.crt'') = Some ca" "ca \<noteq> []"
  shows "\<exists>c. content w' ''/etc/kubernetes/admin.conf'' = Some c \<and> content w' ''/root/.kube/config'' = Some c
    \<and> authority_in path c = Inr ca \<and> content w' (certDir @ ''/ca.crt'') = Some ca"
proof -
  obtain n where n: "holds (certDir @ ''/ca.crt'') n w" "ncontent n = ca" using content_holds [OF ca(1)] by force
  have "keeps (holds (certDir @ ''/ca.crt'') n) (AdminKubeconfig_Run cfg True)"
    unfolding AdminKubeconfig_Run_def by (intro keeps_intro spare_intro) (simp_all add: has_prefix_def)
  from holds_content [OF keepsD' [OF this n(1) run]] n(2) have kept: "content w' (certDir @ ''/ca.crt'') = Some ca" by simp
  from run [unfolded AdminKubeconfig_Run_def] obtain c w1 where c: "BuildContent cfg w = (Inr c, w1)"
    "write_configs True (BuildNodeManagerContent cfg) c w1 = (Inr res, w')" by (auto simp only: andthen_ok_iff)
  from master_content [OF c(1) master ca(1)] master_conf_authority [OF ca(2)] have "authority_in path c = Inr ca" by auto
  with write_configs_written [OF c(2) spare_BuildContent(2)] kept show ?thesis by blast
qed

definition conf_os :: os where
  "conf_os = calm_os\<lparr>files := [(''/etc'', DirN 493 0 0), (''/etc/kubernetes'', DirN 493 0 0), (''/etc/kubernetes/certs'', DirN 493 0 0),
     (''/root'', DirN 493 0 0), (''/etc/kubernetes/certs/ca.crt'', FileN ''CA'' 292 0 0), (''/etc/kubernetes/certs/admin.crt'', FileN ''c'' 292 0 0),
     (''/etc/kubernetes/certs/admin.key'', FileN ''k'' 256 0 0)]\<rparr>"

definition conf_cfg :: Config where
  "conf_cfg = config_of_raw [] [] [(''NODEGROUP_ROLE'', ''master'')]"

definition run_ok :: "'a result \<times> 'w \<Rightarrow> bool" where
  "run_ok rw \<longleftrightarrow> (case fst rw of Inl _ \<Rightarrow> False | Inr _ \<Rightarrow> True)"

lemma run_okD: "run_ok (m w) \<Longrightarrow> \<exists>x w'. m w = (Inr x, w')"
  by (cases "m w") (auto simp: run_ok_def split: sum.splits)

theorem admin_conf_roundtrip_witness:
  "\<exists>c. content (snd (AdminKubeconfig_Run conf_cfg True conf_os)) ''/etc/kubernetes/admin.conf'' = Some c \<and> authority_in ''x'' c = Inr ''CA''"
proof -
  have "master_name (role_text [(''NODEGROUP_ROLE'', ''master'')])" by code_simp
  then have role: "Role conf_cfg = RoleMaster"
    using config_fields [of "[]" "[]" "[(''NODEGROUP_ROLE'', ''master'')]"] by (simp add: Role_def conf_cfg_def)
  then have nm: "BuildNodeManagerContent conf_cfg = ret None" by (simp add: BuildNodeManagerContent_def split: option.splits)
  have "read_file (certDir @ ''/ca.crt'') conf_os = (Inr ''CA'', tock conf_os)" "read_file (certDir @ ''/admin.crt'') (tock conf_os) = (Inr ''c'', tock (tock conf_os))"
    "read_file (certDir @ ''/admin.key'') (tock (tock conf_os)) = (Inr ''k'', tock (tock (tock conf_os)))"
    by (simp_all add: read_file_def fget_def tock_def conf_os_def calm_os_def)
  then have c: "BuildContent conf_cfg conf_os = (Inr (master_conf conf_cfg (b64_std ''CA'') (b64_std ''c'') (b64_std ''k'')), tock (tock (tock conf_os)))"
    using role by (simp add: BuildContent_def readBase64_def andthen_def run_simps)
  have "run_ok (write_configs True (ret None) d (tock (tock (tock conf_os))))" for d by code_simp
  then obtain res w' where "AdminKubeconfig_Run conf_cfg True conf_os = (Inr res, w')"
    unfolding AdminKubeconfig_Run_def andthen_Inr [where m = "BuildContent conf_cfg", OF c] nm by (meson run_okD)
  moreover have "content conf_os (certDir @ ''/ca.crt'') = Some ''CA''" by (simp add: content_def fget_def conf_os_def)
  ultimately show ?thesis using admin_conf_roundtrip [of conf_cfg conf_os res w' "''CA''" "''x''"] role by auto
qed

lemma sum_not_Inl: "(\<forall>a. x \<noteq> Inl a) \<longleftrightarrow> (\<exists>b. x = Inr b)"
  by (cases x) auto

text \<open>With the key's partner anywhere in the bundle, the file given to the signing controller
  holds exactly one certificate, that partner, without a warning, and the bundle is untouched.\<close>

theorem signing_ca_installed:
  assumes "pki_ok (pki_of X)" "no_faults w" "content w caPath = Some bundle" "content w keyPath = Some keyPEM"
    and "caPath \<noteq> SigningCACertPath" "loadPrivateKeyPEM X keyPEM = Inr key"
    and "c \<in> set (certs_in X bundle)" "pairs_with X key c"
    and run: "EnsureSigningCA X True caPath keyPath w = (Inr (Inl cs, warning), w')"
  shows "\<exists>s c'. content w' SigningCACertPath = Some s \<and> certs_in X s = [c'] \<and> c' \<in> set (certs_in X bundle)
    \<and> pairs_with X key c' \<and> warning = [] \<and> content w' caPath = Some bundle"
proof -
  obtain s c' where s: "CertMatchingKeyPEM X bundle keyPEM = Some s" "certs_in X s = [c']" "c' \<in> set (certs_in X bundle)" "pairs_with X key c'"
    using signing_anchor_single [OF assms(1,6), of "bundle"] assms(7,8) by (fastforce simp: list_all_iff split: option.splits)
  have "s \<noteq> []" using s(2) by (auto simp: certs_in_def)
  moreover have "read_file caPath w = (Inr bundle, tock w)" "read_file keyPath (tock w) = (Inr keyPEM, tock (tock w))"
    using assms(2-4) by (auto simp: read_file_def content_def fs_simps split: option.splits node.splits)
  ultimately obtain r w1 r2 where w1: "FileSpec_Apply True \<lparr>f_path = SigningCACertPath, f_content = s, f_mode = o444, f_absent = False\<rparr> (tock (tock w)) = (Inr r, w1)"
    and w2: "OwnershipSpec_Apply True \<lparr>o_path = SigningCACertPath, o_owner = ''kube'', o_group = ''kube_etcd'', o_recursive = False, o_skip = False\<rparr> w1 = (Inr r2, w')"
    and "warning = []"
    using run s(1) by (auto simp: EnsureSigningCA_def attempt_iff run_simps sum_not_Inl split: sum.splits)
  obtain n where "holds SigningCACertPath n w1" "ncontent n = s" using FileSpec_content [OF w1] by (auto dest!: content_holds)
  with keepsD' [OF spare_ownership _ w2] have 1: "content w' SigningCACertPath = Some s" by (auto dest: holds_content)
  obtain n where n: "holds caPath n (tock (tock w))" "ncontent n = bundle" using content_holds [OF assms(3)] by (auto simp: holds_def)
  from keepsD' [OF spare_resources(1) n(1) w1] assms(5) have "holds caPath n w1" by simp
  with keepsD' [OF spare_ownership _ w2] n(2) have "content w' caPath = Some bundle" by (auto dest: holds_content)
  with 1 s \<open>warning = []\<close> show ?thesis by blast
qed

definition signing_os :: os where
  "signing_os = calm_os\<lparr>files := [(''/etc'', DirN 493 0 0), (''/etc/kubernetes'', DirN 493 0 0), (''/etc/kubernetes/certs'', DirN 493 0 0),
     (''/c'', DirN 493 0 0), (''/c/ca.crt'', FileN (toy_cert ''new:k2'' @ toy_cert ''old:k1'') 292 0 0), (''/c/ca.key'', FileN (toy_priv ''k1'') 256 0 0)],
     cmd_result := (\<lambda>_ argv. (True, if argv = [''getent'', ''passwd'', ''kube''] then ''kube:x:5:6'' else ''g:x:7''))\<rparr>"

theorem signing_ca_installed_witness:
  "\<exists>s. content (snd (EnsureSigningCA toy_x509 True ''/c/ca.crt'' ''/c/ca.key'' signing_os)) SigningCACertPath = Some s \<and> length (certs_in toy_x509 s) = 1"
proof -
  let ?m = "EnsureSigningCA toy_x509 True ''/c/ca.crt'' ''/c/ca.key''"
  have "case fst (?m signing_os) of Inr (Inl _, _) \<Rightarrow> True | _ \<Rightarrow> False" by code_simp
  then obtain cs warning w' where run: "?m signing_os = (Inr (Inl cs, warning), w')"
    by (cases "?m signing_os") (auto split: sum.splits)
  have "no_faults signing_os" by (simp add: no_faults_def signing_os_def calm_os_def)
  moreover have "content signing_os ''/c/ca.crt'' = Some (toy_cert ''new:k2'' @ toy_cert ''old:k1'')" "content signing_os ''/c/ca.key'' = Some (toy_priv ''k1'')"
    "''/c/ca.crt'' \<noteq> SigningCACertPath" "loadPrivateKeyPEM toy_x509 (toy_priv ''k1'') = Inr ''k1''" by code_simp+
  moreover have "(''old:k1'', ''k1'') \<in> set (certs_in toy_x509 (toy_cert ''new:k2'' @ toy_cert ''old:k1''))" "pairs_with toy_x509 ''k1'' (''old:k1'', ''k1'')" by code_simp+
  ultimately show ?thesis using signing_ca_installed [OF toy_x509_ok(1) _ _ _ _ _ _ _ run] run by fastforce
qed

end
