(* ===== verification/IpText.thy ===== *)
theory IpText
  imports Config
begin

text \<open>
  The part of the Go package net that the certificate modules use: net.ParseCIDR on text and the
  first service address derived from it (\<open>computeServiceIP\<close>, which ca-rotation/module.go and
  master-certs/module.go have in the same words). An IPv6 address is its eight groups; one in the
  range ::ffff:0:0/96 is an IPv4 address to To4.
\<close>

section \<open>Addresses\<close>

definition ip4_bytes :: "string \<Rightarrow> nat list option" where
  "ip4_bytes s = (if is_ip4 s then Some (map digits_val (split_on (CHR ''.'') s)) else None)"

definition hex_group :: "string \<Rightarrow> nat" where
  "hex_group s = foldl (\<lambda>n c. 16 * n + (case hex_val c of None \<Rightarrow> 0 | Some d \<Rightarrow> d)) 0 s"

definition ip6_part :: "bool \<Rightarrow> string \<Rightarrow> nat list option" where
  "ip6_part v4 s = (if s = [] then Some [] else let gs = split_on (CHR '':'') s in
     if list_all ip6_group gs then Some (map hex_group gs)
     else if v4 \<and> list_all ip6_group (butlast gs) then (case ip4_bytes (last gs) of
         Some [a, b, c, d] \<Rightarrow> Some (map hex_group (butlast gs) @ [256 * a + b, 256 * c + d]) | _ \<Rightarrow> None)
     else None)"

definition ip6_words :: "string \<Rightarrow> nat list option" where
  "ip6_words s = (case cut_double [] s of
     None \<Rightarrow> (case ip6_part True s of None \<Rightarrow> None | Some gs \<Rightarrow> if length gs = 8 then Some gs else None)
   | Some (l, r) \<Rightarrow> (case (ip6_part False l, ip6_part True r) of
        (Some a, Some b) \<Rightarrow> if cut_double [] r = None \<and> length a + length b \<le> 7
            then Some (a @ replicate (8 - length a - length b) 0 @ b) else None
      | _ \<Rightarrow> None))"

text \<open>The address of a network and whether it is written as IPv4.\<close>

definition parse_addr :: "string \<Rightarrow> (nat list \<times> bool) option" where
  "parse_addr s = (case ip4_bytes s of Some bs \<Rightarrow> Some (bs, True)
     | None \<Rightarrow> map_option (\<lambda>gs. (concat (map (\<lambda>g. [g div 256, g mod 256]) gs), False)) (ip6_words s))"

definition ParseCIDR :: "string \<Rightarrow> nat list option" where
  "ParseCIDR s = (case cut_at (CHR ''/'') s of None \<Rightarrow> None
     | Some (a, m) \<Rightarrow> (case parse_addr a of None \<Rightarrow> None
       | Some (bs, v4) \<Rightarrow> if m \<noteq> [] \<and> list_all is_digit m \<and> digits_val m \<le> (if v4 then 32 else 128) then Some bs else None))"

definition To4 :: "nat list \<Rightarrow> nat list option" where
  "To4 bs = (if length bs = 4 then Some bs
     else if length bs = 16 \<and> take 12 bs = replicate 10 0 @ [255, 255] then Some (drop 12 bs) else None)"

definition ip4_text :: "nat list \<Rightarrow> string" where
  "ip4_text bs = join ''.'' (map nat_str bs)"

text \<open>The last byte is incremented and wraps.\<close>

definition computeServiceIP :: "string \<Rightarrow> string" where
  "computeServiceIP cidr = (case ParseCIDR cidr of None \<Rightarrow> [] | Some bs \<Rightarrow>
     (case To4 bs of None \<Rightarrow> [] | Some v \<Rightarrow> ip4_text (v[3 := (v ! 3 + 1) mod 256])))"

section \<open>Facts\<close>

lemma ip4_bytes_shape: "ip4_bytes s = Some bs \<Longrightarrow> length bs = 4 \<and> list_all (\<lambda>b. b \<le> 255) bs"
  by (auto simp: ip4_bytes_def is_ip4_def ip4_octet_def list_all_iff Let_def split: if_splits)

lemma nat_str_octet: "n \<le> 255 \<Longrightarrow> ip4_octet (nat_str n)"
proof -
  assume n: "n \<le> 255"
  have digits: "nat_str n \<noteq> []" "list_all is_digit (nat_str n)" using nat_str_digits by auto
  have "length (nat_str n) \<le> 3 \<and> (length (nat_str n) > 1 \<longrightarrow> hd (nat_str n) \<noteq> CHR ''0'')"
  proof (cases "n < 100")
    case True
    show ?thesis
    proof (cases "n < 10")
      case False
      then have "n div 10 \<noteq> 0" "n div 10 < 10" using True by auto
      then have "digit_char (n div 10) \<noteq> CHR ''0''" using digit_val_char [of "n div 10"] by (auto simp: digit_val_def)
      with False \<open>n div 10 < 10\<close> show ?thesis by (simp add: nat_str.simps [of n] nat_str.simps [of "n div 10"])
    qed (simp add: nat_str.simps [of n])
  next
    case False
    then have d: "\<not> n < 10" "\<not> n div 10 < 10" "n div 10 div 10 < 10" "n div 10 div 10 \<noteq> 0" using n by auto
    then have "digit_char (n div 10 div 10) \<noteq> CHR ''0''" using digit_val_char [of "n div 10 div 10"] by (auto simp: digit_val_def)
    with d show ?thesis by (simp add: nat_str.simps [of n] nat_str.simps [of "n div 10"] nat_str.simps [of "n div 10 div 10"])
  qed
  with digits n digits_val_nat_str [of n] show ?thesis by (simp add: ip4_octet_def)
qed

lemma octet_no_dot: "CHR ''.'' \<notin> set (nat_str n)"
  using nat_str_digits [of n] by (auto simp: list_all_iff is_digit_def)

lemma ip4_text_parses: "length bs = 4 \<Longrightarrow> list_all (\<lambda>b. b \<le> 255) bs \<Longrightarrow> ip4_bytes (ip4_text bs) = Some bs"
proof -
  assume a: "length bs = 4" "list_all (\<lambda>b. b \<le> 255) bs"
  then have "split_on (CHR ''.'') (ip4_text bs) = map nat_str bs"
    unfolding ip4_text_def by (intro split_join) (auto simp: octet_no_dot)
  with a show ?thesis by (auto simp: ip4_bytes_def is_ip4_def list_all_iff nat_str_octet digits_val_nat_str o_def cong: map_cong)
qed

text \<open>The service address is an IPv4 address with the network's first three bytes and the next
  last byte.\<close>

lemma service_ip_next:
  assumes "ip4_bytes a = Some [b0, b1, b2, b3]" "CHR ''/'' \<notin> set a" "m \<le> 32"
  shows "ip4_bytes (computeServiceIP (a @ ''/'' @ nat_str m)) = Some [b0, b1, b2, (b3 + 1) mod 256]"
proof -
  have "ParseCIDR (a @ ''/'' @ nat_str m) = Some [b0, b1, b2, b3]"
    using assms nat_str_digits [of m] by (simp add: ParseCIDR_def cut_at_append parse_addr_def digits_val_nat_str)
  then have "computeServiceIP (a @ ''/'' @ nat_str m) = ip4_text [b0, b1, b2, (b3 + 1) mod 256]"
    by (simp add: computeServiceIP_def To4_def)
  moreover have "list_all (\<lambda>b. b \<le> 255) [b0, b1, b2, (b3 + 1) mod 256]"
    using ip4_bytes_shape [OF assms(1)] by (auto intro: less_Suc_eq_le [THEN iffD1])
  ultimately show ?thesis using ip4_text_parses [of "[b0, b1, b2, (b3 + 1) mod 256]"] by simp
qed

end
