(* ===== verification/FsTree.thy ===== *)
theory FsTree
  imports HostFrame
begin

text \<open>
  os.Rename of a directory, which the staging of a rotation uses to commit a snapshot at once.
  Nothing here carries a manifest entry.
\<close>

section \<open>Renaming a directory\<close>

text \<open>os.Rename of a directory with all it holds; it refuses a target that is a directory or a file.\<close>

definition moved :: "string \<Rightarrow> string \<Rightarrow> string \<Rightarrow> string" where
  "moved src dst q = (if q = src then dst else dst @ drop (length src) q)"

definition rename_dir :: "string \<Rightarrow> string \<Rightarrow> ('z os_scheme, unit) io" where
  "rename_dir src dst w = (if now_fault w \<noteq> Fine then (Inl IOErr, tock w)
     else case fget w src of Some (DirN _ _ _) \<Rightarrow>
         if fget w dst \<noteq> None then (Inl AlreadyExists, tock w)
         else if \<not> is_dir w (dirname dst) then (Inl NotExist, tock w)
         else (Inr (), tock (w\<lparr>files := map (\<lambda>(q, n). (moved src dst q, n)) (filter (\<lambda>(q, _). in_tree src q) (files w))
                @ filter (\<lambda>(q, _). \<not> in_tree src q \<and> \<not> in_tree dst q) (files w)\<rparr>))
     | Some _ \<Rightarrow> (Inl IOErr, tock w) | None \<Rightarrow> (Inl NotExist, tock w))"

lemma map_of_filter_key: "map_of (filter (\<lambda>(r, _). P r) xs) q = (if P q then map_of xs q else None)"
  by (induction xs) auto

lemma map_of_image:
  "inj_on f {q. P q} \<Longrightarrow> map_of (map (\<lambda>(q, n). (f q, n)) (filter (\<lambda>(q, _). P q) xs)) r
     = (if \<exists>q. P q \<and> r = f q then map_of xs (THE q. P q \<and> r = f q) else None)"
proof (induction xs)
  case (Cons x xs)
  obtain q n where x: "x = (q, n)" by (cases x)
  have the: "(THE p. P p \<and> f q' = f p) = q'" if "P q'" for q' using that Cons.prems by (auto simp: inj_on_def)
  show ?case
  proof (cases "P q \<and> r = f q")
    case True
    then show ?thesis using the [of q] by (auto simp: x)
  next
    case False
    have "map_of (x # xs) (THE p. P p \<and> r = f p) = map_of xs (THE p. P p \<and> r = f p)" if "P p" "r = f p" for p
      using False the [OF that(1)] that x by auto
    then show ?thesis using False Cons by (auto simp: x)
  qed
qed simp

lemma moved_inj: "inj_on (moved src dst) {q. in_tree src q}"
  by (auto simp: inj_on_def moved_def in_tree_def has_prefix_iff prefix_def)

lemma moved_in_tree: "in_tree src q \<Longrightarrow> in_tree dst (moved src dst q)"
  by (auto simp: moved_def in_tree_def has_prefix_iff prefix_def)

lemma in_tree_trans: "in_tree a b \<Longrightarrow> in_tree b c \<Longrightarrow> in_tree a c"
  by (auto simp: in_tree_def has_prefix_iff prefix_def)

text \<open>After the move the target holds what the source held, and everything outside both is as it was.\<close>

lemma rename_dir_ok:
  assumes "rename_dir src dst w = (Inr (), w')" "\<not> in_tree src dst" "\<not> in_tree dst src"
  shows "in_tree src q \<Longrightarrow> fget w' (moved src dst q) = fget w q" "\<not> in_tree src q \<Longrightarrow> \<not> in_tree dst q \<Longrightarrow> fget w' q = fget w q"
    "in_tree src q \<Longrightarrow> fget w' q = None"
proof -
  let ?m = "map (\<lambda>(q, n). (moved src dst q, n)) (filter (\<lambda>(q, _). in_tree src q) (files w))"
  let ?r = "filter (\<lambda>(q, _). \<not> in_tree src q \<and> \<not> in_tree dst q) (files w)"
  from assms(1) have w': "w' = tock (w\<lparr>files := ?m @ ?r\<rparr>)"
    by (auto simp: rename_dir_def split: if_splits option.splits node.splits)
  then have get: "fget w' p = (case map_of ?m p of None \<Rightarrow> map_of ?r p | Some n \<Rightarrow> Some n)" for p
    by (simp add: fget_def tock_def map_add_def split: option.splits)
  have old: "map_of (files w) p = fget w p" for p by (simp add: fget_def)
  have the: "(THE p. in_tree src p \<and> moved src dst q = moved src dst p) = q" if "in_tree src q" for q
    using that moved_inj [of src dst] by (auto simp: inj_on_def)
  have outside: "\<not> in_tree src p" if "in_tree dst p" for p
    using that assms(2,3) by (auto simp: in_tree_def has_prefix_iff prefix_def append_eq_append_conv2 Cons_eq_append_conv append_eq_Cons_conv)
  show "fget w' (moved src dst q) = fget w q" if "in_tree src q"
    using moved_in_tree [OF that, of dst] that
    by (auto simp: get map_of_image [OF moved_inj] the map_of_filter_key [where P = "\<lambda>q. \<not> in_tree src q \<and> \<not> in_tree dst q"] old split: option.splits)
  show "fget w' q = fget w q" if "\<not> in_tree src q" "\<not> in_tree dst q"
    using that moved_in_tree [of src _ dst]
    by (auto simp: get map_of_image [OF moved_inj] map_of_filter_key [where P = "\<lambda>q. \<not> in_tree src q \<and> \<not> in_tree dst q"] old)
  show "fget w' q = None" if "in_tree src q"
    using that moved_in_tree [of src _ dst] outside
    by (auto simp: get map_of_image [OF moved_inj] map_of_filter_key [where P = "\<lambda>q. \<not> in_tree src q \<and> \<not> in_tree dst q"])
qed

lemma rename_dir_fail: "rename_dir src dst w = (Inl e, w') \<Longrightarrow> w' = tock w"
  by (auto simp: rename_dir_def split: if_splits option.splits node.splits)

end
