(* ===== verification/CaFiles.thy ===== *)
theory CaFiles
  imports CaCoord CaState Magnum AdminConf IpText FsTree
begin

text \<open>
  The files of a CA rotation (internal/module/ca-rotation/module.go): staging, the certificates a
  node asks for, and what each phase writes to the live directories. The world of the module is
  the operating system with the coordination API of Kube and what the runner collects. \<open>rot_env\<close>
  holds what is outside the repository or the process: the crypto packages and the wire (Certs,
  Magnum), the metadata service with the node address already looked up in this run, modification
  times, environment variables, whether the API client can be built at a tick, the deadline of the
  run and the fuel of its unbounded waits. Log lines are left out. A file of mode data is a
  directory entry with positive size.
\<close>

section \<open>The world of the module\<close>

record ('k, 'p) rot_env =
  v_x509 :: "('k, 'p) x509"
  v_signer :: "('k, 'p) signer"
  v_net :: wire
  v_meta :: "nat \<Rightarrow> (nat \<times> string) option"
  v_ip :: "string option"
  v_mtime :: "string \<Rightarrow> nat option"
  v_env :: "string \<Rightarrow> string"
  v_client :: "nat \<Rightarrow> bool"
  v_ctx :: run_ctx
  v_fuel :: nat

record node_world = os +
  w_api :: api
  w_changes :: "change list"
  w_warnings :: "string list"

definition add_changes :: "change list \<Rightarrow> (node_world, unit) io" where
  "add_changes cs = modify (\<lambda>w. w\<lparr>w_changes := w_changes w @ cs\<rparr>)"

definition add_warnings :: "string list \<Rightarrow> (node_world, unit) io" where
  "add_warnings ss = modify (\<lambda>w. w\<lparr>w_warnings := w_warnings w @ ss\<rparr>)"

record runner =
  rn_cfg :: Config
  rn_id :: string

abbreviation rn_role :: "runner \<Rightarrow> string" where "rn_role r \<equiv> Role (rn_cfg r)"
abbreviation rn_master :: "runner \<Rightarrow> bool" where "rn_master r \<equiv> Role (rn_cfg r) = RoleMaster"
abbreviation rn_node :: "runner \<Rightarrow> string" where "rn_node r \<equiv> InstanceName (Shared (rn_cfg r))"

abbreviation (input) etcdCertDir :: string where "etcdCertDir \<equiv> ''/etc/etcd/certs''"
abbreviation (input) adminConf :: string where "adminConf \<equiv> ''/etc/kubernetes/admin.conf''"
abbreviation (input) rootKube :: string where "rootKube \<equiv> ''/root/.kube/config''"
abbreviation (input) etcdctlPath :: string where "etcdctlPath \<equiv> ''/usr/local/bin/etcdctl''"

section \<open>Small helpers\<close>

text \<open>atomicWrite: an unreadable file counts as different; failures remove the temporary file.\<close>

definition atomicWrite :: "string \<Rightarrow> string \<Rightarrow> nat \<Rightarrow> ('z os_scheme, change option) io" where
  "atomicWrite path c mode = attempt (read_file path) (\<lambda>r. if r = Inr c then ret None
     else let tmp = path @ ''.carot.tmp'' in
       andthen (mkdir_all (dirname path) o755) (\<lambda>_.
       andthen (write_file tmp c mode) (\<lambda>_.
       attempt (chmod tmp mode) (\<lambda>r. case r of Inl e \<Rightarrow> attempt (remove tmp) (\<lambda>_. throw e) | Inr _ \<Rightarrow>
       attempt (rename tmp path) (\<lambda>r. case r of Inl e \<Rightarrow> attempt (remove tmp) (\<lambda>_. throw e) | Inr _ \<Rightarrow>
       ret (Some (mk_change ActionReplace path (''rotate '' @ basename path))))))))"

definition copyIfPresent :: "string \<Rightarrow> string \<Rightarrow> ('z os_scheme, unit) io" where
  "copyIfPresent src dst = attempt (read_file src) (\<lambda>r. case r of
       Inl e \<Rightarrow> if is_not_exist e then ret () else throw (Wrap (''ca-rotation: snapshot '' @ src) e)
     | Inr d \<Rightarrow> write_file dst d o440)"

definition ended :: "string \<Rightarrow> string" where
  "ended s = trim_right s NL @ NL"

definition concatPEM :: "string \<Rightarrow> string \<Rightarrow> ('z os_scheme, string) io" where
  "concatPEM first second = andthen (wrapping (''ca-rotation: read '' @ first) (read_file first)) (\<lambda>a.
     andthen (attempt (read_file second) (\<lambda>r. case r of Inr d \<Rightarrow> ret d
       | Inl e \<Rightarrow> if \<not> is_not_exist e then throw (Wrap (''ca-rotation: read '' @ second) e) else ret [])) (\<lambda>b.
     ret (ended a @ (if b \<noteq> [] then ended b else []))))"

definition nonEmpty :: "string \<Rightarrow> ('z os_scheme, bool) io" where
  "nonEmpty path = attempt (stat path) (\<lambda>r. ret (case r of Inl _ \<Rightarrow> False
     | Inr (FileN c _ _ _) \<Rightarrow> c \<noteq> [] | Inr (DirN _ _ _) \<Rightarrow> True))"

fun all_nonempty :: "string list \<Rightarrow> ('z os_scheme, bool) io" where
  "all_nonempty [] = ret True"
| "all_nonempty (p # ps) = andthen (nonEmpty p) (\<lambda>b. if b then all_nonempty ps else ret False)"

definition split_sep :: "char \<Rightarrow> bool" where
  "split_sep c \<longleftrightarrow> c = CHR '' '' \<or> c = CHR 0x0A \<or> c = CHR 0x09"

fun split_words :: "string \<Rightarrow> string \<Rightarrow> string list" where
  "split_words acc [] = (if acc = [] then [] else [acc])"
| "split_words acc (c # s) = (if split_sep c then (if acc = [] then [] else [acc]) @ split_words [] s else split_words (acc @ [c]) s)"

definition splitFields :: "string \<Rightarrow> string list" where
  "splitFields s = split_words [] s"

section \<open>Certificates\<close>

definition leafNames :: "string \<Rightarrow> string list" where
  "leafNames role = (if role = RoleMaster then [''server'', ''kubelet'', ''admin'', ''proxy'', ''controller'', ''scheduler'']
     else [''kubelet'', ''proxy''])"

definition leafFiles :: "string \<Rightarrow> string list" where
  "leafFiles role = concat (map (\<lambda>n. [n @ ''.crt'', n @ ''.key'']) (leafNames role))"

definition addIP :: "string \<Rightarrow> string list \<Rightarrow> string list" where
  "addIP ip ips = (if ip = [] \<or> ip \<in> set ips then ips else ips @ [ip])"

text \<open>x509.KeyUsageDigitalSignature with KeyUsageKeyEncipherment; ExtKeyUsageServerAuth is 1 and
  ClientAuth 2.\<close>

definition node_usage :: "64 word" where
  "node_usage = usage_digital_signature OR usage_key_encipherment"

definition master_specs :: "Config \<Rightarrow> string \<Rightarrow> CertSpec list" where
  "master_specs cfg nodeIP = (let
     ips0 = addIP (KubeNodePublicIP (Shared cfg)) (addIP nodeIP []);
     ips1 = (case Master cfg of None \<Rightarrow> ips0
       | Some m \<Rightarrow> addIP (EtcdLBVIP m) (addIP (KubeAPIPrivateAddress m) (addIP (KubeAPIPublicAddress m) ips0)));
     ips2 = addIP ''127.0.0.1'' ips1;
     ips = (if PortalNetworkCIDR (Shared cfg) \<noteq> [] then addIP (computeServiceIP (PortalNetworkCIDR (Shared cfg))) ips2 else ips2);
     dns = [''kubernetes'', ''kubernetes.default'', ''kubernetes.default.svc'', ''kubernetes.default.svc.cluster.local'']
       @ (case Master cfg of None \<Rightarrow> [] | Some m \<Rightarrow> if MasterHostname m \<noteq> [] then [MasterHostname m] else [])
   in [\<lparr>cs_name = ''server'', cs_cn = ''kubernetes'', cs_org = [], SANIPs = ips, SANDNSs = dns, cs_usage = 0, cs_ext = [2, 1]\<rparr>,
       \<lparr>cs_name = ''kubelet'', cs_cn = ''system:node:'' @ InstanceName (Shared cfg), cs_org = ''system:nodes'', SANIPs = ips, SANDNSs = dns,
         cs_usage = node_usage, cs_ext = [2, 1]\<rparr>,
       \<lparr>cs_name = ''admin'', cs_cn = ''admin'', cs_org = ''system:masters'', SANIPs = [], SANDNSs = [], cs_usage = 0, cs_ext = [2]\<rparr>,
       \<lparr>cs_name = ''proxy'', cs_cn = ''system:kube-proxy'', cs_org = ''system:node-proxier'', SANIPs = [], SANDNSs = [], cs_usage = node_usage, cs_ext = [2]\<rparr>,
       \<lparr>cs_name = ''controller'', cs_cn = ''system:kube-controller-manager'', cs_org = ''system:kube-controller-manager'', SANIPs = [], SANDNSs = [],
         cs_usage = node_usage, cs_ext = [2, 1]\<rparr>,
       \<lparr>cs_name = ''scheduler'', cs_cn = ''system:kube-scheduler'', cs_org = ''system:kube-scheduler'', SANIPs = [], SANDNSs = [],
         cs_usage = node_usage, cs_ext = [2, 1]\<rparr>])"

definition worker_specs :: "Config \<Rightarrow> string \<Rightarrow> CertSpec list" where
  "worker_specs cfg nodeIP = [
     \<lparr>cs_name = ''kubelet'', cs_cn = ''system:node:'' @ InstanceName (Shared cfg), cs_org = ''system:nodes'',
       SANIPs = (if nodeIP \<noteq> [] then [nodeIP] else []), SANDNSs = [InstanceName (Shared cfg)], cs_usage = node_usage, cs_ext = [2, 1]\<rparr>,
     \<lparr>cs_name = ''proxy'', cs_cn = ''system:kube-proxy'', cs_org = ''system:node-proxier'', SANIPs = [], SANDNSs = [], cs_usage = node_usage, cs_ext = [2]\<rparr>]"

text \<open>The node address is looked up once in a run: the second call of a worker gets the same.\<close>

definition cert_specs :: "('k, 'p) rot_env \<Rightarrow> Config \<Rightarrow> string \<Rightarrow> ('z os_scheme, CertSpec list) io" where
  "cert_specs env cfg role = andthen (ResolveNodeIP (v_meta env) cfg (v_ip env)) (\<lambda>(ip, _).
     ret (if role \<noteq> RoleMaster then worker_specs cfg ip else master_specs cfg ip))"

section \<open>Staging\<close>

definition saFiles :: "string \<Rightarrow> string list" where
  "saFiles role = (if role = RoleMaster then [''service_account.key'', ''service_account_private.key''] else [])"

definition snapshotOldMaterial :: "string \<Rightarrow> string \<Rightarrow> ('z os_scheme, unit) io" where
  "snapshotOldMaterial rid role = attempt (stat (pjoin (OldDir rid) ''ca.crt'')) (\<lambda>r. case r of Inr _ \<Rightarrow> ret ()
     | Inl _ \<Rightarrow> let tmp = OldDir rid @ ''.partial'' in
       attempt (remove_all tmp) (\<lambda>_.
       andthen (wrapping ''ca-rotation: create old staging'' (mkdir_all tmp o700)) (\<lambda>_.
       andthen (for_each ([''ca.crt''] @ leafFiles role @ saFiles role) (\<lambda>name. copyIfPresent (pjoin certDir name) (pjoin tmp name))) (\<lambda>_.
       attempt (stat (pjoin tmp ''ca.crt'')) (\<lambda>r. case r of
         Inl _ \<Rightarrow> throw (Err ''ca-rotation: live ca.crt missing, cannot snapshot old material'')
       | Inr _ \<Rightarrow> rename_dir tmp (OldDir rid))))))"

definition newMaterialComplete :: "string \<Rightarrow> string \<Rightarrow> CertSpec list \<Rightarrow> ('z os_scheme, bool) io" where
  "newMaterialComplete newDir role specs = all_nonempty (map (pjoin newDir)
     ([''ca.crt''] @ concat (map (\<lambda>s. [cs_name s @ ''.crt'', cs_name s @ ''.key'']) specs) @ saFiles role))"

definition generateNewMaterial :: "('k, 'p) rot_env \<Rightarrow> Config \<Rightarrow> string \<Rightarrow> string \<Rightarrow> ('z os_scheme, unit) io" where
  "generateNewMaterial env cfg rid role = (let newDir = NewDir rid; sh = Shared cfg;
       client = NewClient (AuthURL sh) (MagnumURL sh) (TrusteeUserID sh) (TrusteePassword sh) (TrustID sh) (ClusterUUID sh) (VerifyCA sh) in
     andthen (mkdir_all newDir o700) (\<lambda>_.
     andthen (cert_specs env cfg role) (\<lambda>specs.
     andthen (newMaterialComplete newDir role specs) (\<lambda>complete. if complete then ret () else
     andthen (wrapping ''ca-rotation: keystone auth'' (GetToken (v_net env) client)) (\<lambda>token.
     andthen (wrapping ''ca-rotation: fetch CA'' (FetchCACert (v_net env) client token)) (\<lambda>caPEM.
     andthen (write_file (pjoin newDir ''ca.crt'') caPEM o444) (\<lambda>_.
     andthen (wrapping ''ca-rotation: sign certs'' (GenerateAndSignCerts (v_x509 env) (v_signer env) (v_net env) (Some client) token specs)) (\<lambda>signed.
     andthen (for_each signed (\<lambda>s. andthen (write_file (pjoin newDir (cs_name (sc_spec s) @ ''.key'')) (KeyPEM s) o440)
       (\<lambda>_. write_file (pjoin newDir (cs_name (sc_spec s) @ ''.crt'')) (CertPEM s) o444))) (\<lambda>_.
     if role = RoleMaster then
       andthen (write_file (pjoin newDir ''service_account.key'') (KubeServiceAccountKey sh @ NL) o440)
         (\<lambda>_. write_file (pjoin newDir ''service_account_private.key'') (KubeServiceAccountPrivateKey sh @ NL) o440)
     else ret ())))))))))"

definition maxTrustGenerations :: int where "maxTrustGenerations = 3"

definition buildBundle :: "('k, 'p) rot_env \<Rightarrow> string \<Rightarrow> ('z os_scheme, unit) io" where
  "buildBundle env rid = andthen (mkdir_all (BundleDir rid) o700) (\<lambda>_.
     andthen (concatPEM (pjoin (NewDir rid) ''ca.crt'') (pjoin (OldDir rid) ''ca.crt'')) (\<lambda>both.
     let (capped, dropped) = CapCertBundle (pki_of (v_x509 env)) both maxTrustGenerations in
     write_file (pjoin (BundleDir rid) ''ca.crt'') (if dropped > 0 then capped else both) o444))"

definition ensureStaged :: "('k, 'p) rot_env \<Rightarrow> runner \<Rightarrow> ('z os_scheme, unit) io" where
  "ensureStaged env r = andthen (snapshotOldMaterial (rn_id r) (rn_role r)) (\<lambda>_.
     andthen (generateNewMaterial env (rn_cfg r) (rn_id r) (rn_role r)) (\<lambda>_. buildBundle env (rn_id r)))"

section \<open>Live files\<close>

definition writeLive :: "string \<Rightarrow> string \<Rightarrow> nat \<Rightarrow> (node_world, unit) io" where
  "writeLive path c mode = andthen (wrapping (''ca-rotation: write '' @ path) (atomicWrite path c mode))
     (\<lambda>ch. add_changes (case ch of None \<Rightarrow> [] | Some x \<Rightarrow> [x]))"

definition writeLiveCA :: "runner \<Rightarrow> string \<Rightarrow> (node_world, unit) io" where
  "writeLiveCA r c = andthen (writeLive (certDir @ ''/ca.crt'') c o444) (\<lambda>_.
     if rn_master r then writeLive (etcdCertDir @ ''/ca.crt'') c o444 else ret ())"

definition writeLeaf :: "runner \<Rightarrow> string \<Rightarrow> string \<Rightarrow> nat \<Rightarrow> (node_world, unit) io" where
  "writeLeaf r name c mode = andthen (writeLive (certDir @ ''/'' @ name) c mode) (\<lambda>_.
     if rn_master r then writeLive (etcdCertDir @ ''/'' @ name) c mode else ret ())"

definition capSAVerify :: "('k, 'p) rot_env \<Rightarrow> string \<Rightarrow> ('z os_scheme, string) io" where
  "capSAVerify env verify = (let (capped, dropped) = CapPublicKeyBundle (pki_of (v_x509 env)) verify maxTrustGenerations in
     if dropped = [] \<or> capped = [] then ret verify
     else attempt (RecordRetiredSAKeys dropped) (\<lambda>_. ret capped))"

text \<open>The key of the authority as the parameters give it.\<close>

abbreviation ca_key :: "runner \<Rightarrow> string" where "ca_key r \<equiv> CAKey (Shared (rn_cfg r)) @ NL"

abbreviation read_new :: "runner \<Rightarrow> string \<Rightarrow> string \<Rightarrow> ('z os_scheme, string) io" where
  "read_new r what name \<equiv> wrapping (''ca-rotation: read '' @ what) (read_file (pjoin (NewDir (rn_id r)) name))"

definition writeRotatedCAKey :: "('k, 'p) rot_env \<Rightarrow> runner \<Rightarrow> (node_world, unit) io" where
  "writeRotatedCAKey env r = (if CAKey (Shared (rn_cfg r)) = [] then ret ()
     else andthen (read_new r ''new CA'' ''ca.crt'') (\<lambda>newCA.
       if \<not> KeyPEMMatchesCertPEM (v_x509 env) (ca_key r) newCA then ret ()
       else writeLive (certDir @ ''/ca.key'') (ca_key r) o400))"

definition syncSigningCA :: "('k, 'p) rot_env \<Rightarrow> runner \<Rightarrow> (node_world, unit) io" where
  "syncSigningCA env r = (if \<not> rn_master r \<or> \<not> CertManagerAPI (Shared (rn_cfg r)) then ret ()
     else andthen (EnsureSigningCA (v_x509 env) True (certDir @ ''/ca.crt'') (certDir @ ''/ca.key'')) (\<lambda>(res, warning).
       case res of Inr e \<Rightarrow> throw e | Inl cs \<Rightarrow> andthen (add_changes cs) (\<lambda>_.
         if warning \<noteq> [] then add_warnings [''ca-rotation: '' @ warning] else ret ())))"

definition both_verify :: "runner \<Rightarrow> ('z os_scheme, string) io" where
  "both_verify r = concatPEM (pjoin (NewDir (rn_id r)) ''service_account.key'') (pjoin (OldDir (rn_id r)) ''service_account.key'')"

definition writePrepareFiles :: "('k, 'p) rot_env \<Rightarrow> runner \<Rightarrow> (node_world, unit) io" where
  "writePrepareFiles env r =
     andthen (wrapping ''ca-rotation: read bundle'' (read_file (pjoin (BundleDir (rn_id r)) ''ca.crt''))) (\<lambda>both.
     andthen (writeLiveCA r both) (\<lambda>_.
     andthen (if \<not> rn_master r then ret () else
       andthen (both_verify r) (\<lambda>verify.
       andthen (capSAVerify env verify) (\<lambda>capped.
       andthen (writeLive (certDir @ ''/service_account.key'') capped o440) (\<lambda>_.
       writeRotatedCAKey env r)))) (\<lambda>_.
     syncSigningCA env r)))"

definition writeCutoverFiles :: "('k, 'p) rot_env \<Rightarrow> runner \<Rightarrow> (node_world, unit) io" where
  "writeCutoverFiles env r =
     andthen (for_each (leafNames (rn_role r)) (\<lambda>name. for_each [''.crt'', ''.key''] (\<lambda>ext.
       andthen (read_new r (''new '' @ name @ ext) (name @ ext)) (\<lambda>d.
       writeLeaf r (name @ ext) d (if ext = ''.key'' then o440 else o444))))) (\<lambda>_.
     andthen (if \<not> rn_master r then ret () else
       andthen (read_new r ''new SA signing key'' ''service_account_private.key'') (\<lambda>sign.
       writeLive (certDir @ ''/service_account_private.key'') sign o440)) (\<lambda>_.
     syncSigningCA env r))"

definition recordRetiredSAKeys :: "('k, 'p) rot_env \<Rightarrow> string \<Rightarrow> string \<Rightarrow> ('z os_scheme, unit) io" where
  "recordRetiredSAKeys env livePath replacement = (let P = pki_of (v_x509 env);
       keeping = List.map_filter (PublicKeyID P) (ParsePublicKeyPEMs P replacement) in
     andthen (PublicKeyPEMFile P livePath) (\<lambda>live.
     RecordRetiredSAKeys (filter (\<lambda>i. i \<notin> set keeping) (List.map_filter (PublicKeyID P) live))))"

definition writeFinalizeFiles :: "('k, 'p) rot_env \<Rightarrow> runner \<Rightarrow> (node_world, unit) io" where
  "writeFinalizeFiles env r =
     andthen (read_new r ''new CA'' ''ca.crt'') (\<lambda>newCA.
     andthen (writeLiveCA r newCA) (\<lambda>_.
     andthen (if \<not> rn_master r then ret () else
       andthen (read_new r ''new SA verify key'' ''service_account.key'') (\<lambda>newVerify.
       attempt (recordRetiredSAKeys env (certDir @ ''/service_account.key'') newVerify) (\<lambda>_.
       writeLive (certDir @ ''/service_account.key'') newVerify o440))) (\<lambda>_.
     syncSigningCA env r)))"

text \<open>The hard path refuses a split pair before it writes anything.\<close>

definition writeHardFiles :: "('k, 'p) rot_env \<Rightarrow> runner \<Rightarrow> (node_world, unit) io" where
  "writeHardFiles env r =
     andthen (read_new r ''new CA'' ''ca.crt'') (\<lambda>newCA.
     if rn_master r \<and> CAKey (Shared (rn_cfg r)) \<noteq> [] \<and> \<not> KeyPEMMatchesCertPEM (v_x509 env) (ca_key r) newCA
     then throw (Err ''ca-rotation: hard rotate: CA_KEY does not pair with the new CA cert from Barbican'')
     else andthen (writeLiveCA r newCA) (\<lambda>_.
       andthen (writeCutoverFiles env r) (\<lambda>_.
       andthen (if \<not> rn_master r then ret () else
         andthen (both_verify r) (\<lambda>verify.
         andthen (capSAVerify env verify) (\<lambda>capped.
         andthen (writeLive (certDir @ ''/service_account.key'') capped o440) (\<lambda>_.
         if CAKey (Shared (rn_cfg r)) \<noteq> [] then writeLive (certDir @ ''/ca.key'') (ca_key r) o400 else ret ())))) (\<lambda>_.
       syncSigningCA env r))))"

definition chownCerts :: "('z os_scheme, unit) io" where
  "chownCerts = andthen (wrapping (''ca-rotation: chown '' @ certDir) (Run True ''chown'' [''-R'', ''kube:kube_etcd'', certDir]))
     (\<lambda>_. wrapping (''ca-rotation: chown '' @ etcdCertDir) (Run True ''chown'' [''-R'', ''kube:kube_etcd'', etcdCertDir]))"

definition updateAdminKubeconfig :: "Config \<Rightarrow> ('z os_scheme, change list) io" where
  "updateAdminKubeconfig cfg = andthen (wrapping ''ca-rotation: build admin kubeconfig'' (BuildContent cfg)) (\<lambda>c.
     andthen (EnsureFile True adminConf c o600) (\<lambda>c1.
     andthen (EnsureCopy True adminConf rootKube o600) (\<lambda>c2.
     ret (List.map_filter id [c1, c2]))))"

end
