(* ===== verification/CaProtocol.thy ===== *)
theory CaProtocol
  imports CaFiles Runs
begin

text \<open>
  The driver of a CA rotation (internal/module/ca-rotation/module.go): restarts and health, the
  rollout of workloads, one phase, the coordinated protocol, the hard path and Run. Computations
  with unbounded waits are runs of Runs; their fuel is in \<open>rot_env\<close>. The goroutine that publishes
  heartbeats acts on the ConfigMap between the calls of this run, so it is part of the
  environment of the API. A restart and a chown act outside the files of the model.
\<close>

section \<open>Worlds\<close>

definition on_api :: "(api, 'a) io \<Rightarrow> (node_world, 'a) io" where
  "on_api m w = (case m (w_api w) of (r, a) \<Rightarrow> (r, w\<lparr>w_api := a\<rparr>))"

definition on_api_run :: "(api \<Rightarrow> ('a result \<times> api) option) \<Rightarrow> (node_world, 'a) run" where
  "on_api_run m w = (case m (w_api w) of None \<Rightarrow> None | Some (r, a) \<Rightarrow> Some (r, w\<lparr>w_api := a\<rparr>))"

definition wait_active :: "('k, 'p) rot_env \<Rightarrow> string \<Rightarrow> int \<Rightarrow> int \<Rightarrow> ('z os_scheme, bool) run" where
  "wait_active env svc timeout interval = until_active (v_fuel env) svc timeout interval"

definition build_client :: "('k, 'p) rot_env \<Rightarrow> ('z os_scheme, unit) io" where
  "build_client env w = (if v_client env (tick w) then (Inr (), tock w) else (Inl IOErr, tock w))"

section \<open>Restart and health\<close>

definition rotationServices :: "string \<Rightarrow> string list" where
  "rotationServices role = (if role = RoleMaster then [''etcd'', ''kube-apiserver'', ''kube-controller-manager'', ''kube-scheduler'', ''kubelet'', ''kube-proxy'']
     else [''kubelet'', ''kube-proxy''])"

definition serviceStartTimeout :: "string \<Rightarrow> int" where
  "serviceStartTimeout svc = (if svc = ''etcd'' then 120 else if svc = ''kube-apiserver'' then 90 else 60)"

definition etcdLocalHealthy :: "('z os_scheme, bool) io" where
  "etcdLocalHealthy = succeeds (Run True etcdctlPath [''--endpoints=http://127.0.0.1:2379'', ''--command-timeout=5s'', ''endpoint'', ''health''])"

definition waitForEtcdQuorum :: "('z os_scheme, unit) io" where
  "waitForEtcdQuorum = attempt (stat etcdctlPath) (\<lambda>r. case r of Inl _ \<Rightarrow> ret ()
     | Inr _ \<Rightarrow> andthen (poll 90 etcdLocalHealthy) (\<lambda>ok. if ok then ret ()
         else throw (Err ''ca-rotation: etcd did not reach quorum health after restart'')))"

fun healthz_streak :: "nat \<Rightarrow> nat \<Rightarrow> ('z os_scheme, bool) io" where
  "healthz_streak 0 streak = ret False"
| "healthz_streak (Suc n) streak = andthen (succeeds (Run True ''kubectl'' [''--kubeconfig='' @ adminConf, ''get'', ''--raw=/healthz''])) (\<lambda>ok.
     if ok \<and> streak + 1 \<ge> 3 then ret True
     else andthen sleep (\<lambda>_. healthz_streak n (if ok then streak + 1 else 0)))"

definition waitForHealthy :: "Config \<Rightarrow> ('z os_scheme, unit) io" where
  "waitForHealthy cfg = (if Role cfg \<noteq> RoleMaster then
       andthen (poll 30 (SystemctlIsActive ''kubelet'')) (\<lambda>ok. if ok then ret () else throw (Err ''ca-rotation: kubelet did not become active''))
     else andthen (for_each [''etcd'', ''kube-apiserver'', ''kube-controller-manager'', ''kube-scheduler'', ''kubelet''] (\<lambda>svc.
         andthen (poll 30 (SystemctlIsActive svc)) (\<lambda>ok.
         if \<not> ok then throw (Err (''ca-rotation: service '' @ svc @ '' did not become active''))
         else if svc = ''etcd'' then waitForEtcdQuorum else ret ()))) (\<lambda>_.
       andthen (healthz_streak 90 0) (\<lambda>ok. if ok then ret ()
         else throw (Err ''ca-rotation: API server did not stay healthy for 3 consecutive probes after restart''))))"

definition restart_change :: "string \<Rightarrow> string \<Rightarrow> change" where
  "restart_change svc why = mk_change ActionRestart [] (''restart '' @ svc @ '' ('' @ why @ '')'')"

definition restartAndWait :: "('k, 'p) rot_env \<Rightarrow> runner \<Rightarrow> (node_world, unit) run" where
  "restartAndWait env r =
     rthen (now (wrapping ''ca-rotation: systemctl daemon-reload'' (Run True ''systemctl'' [''daemon-reload'']))) (\<lambda>_.
     rthen (rfor_each (rotationServices (rn_role r)) (\<lambda>svc.
       rthen (now (wrapping (''ca-rotation: restart '' @ svc) (Run True ''systemctl'' [''restart'', svc]))) (\<lambda>_.
       rthen (now (add_changes [restart_change svc ''CA rotation''])) (\<lambda>_.
       rthen (wait_active env svc (serviceStartTimeout svc) 2) (\<lambda>ok. if ok then now (ret ())
         else now (throw (Err (''ca-rotation: service '' @ svc @ '' did not become active after restart''))))))))
     (\<lambda>_. now (waitForHealthy (rn_cfg r))))"

definition restartAndWaitBestEffort :: "('k, 'p) rot_env \<Rightarrow> runner \<Rightarrow> (node_world, unit) run" where
  "restartAndWaitBestEffort env r =
     rthen (now (attempt (Run True ''systemctl'' [''daemon-reload'']) (\<lambda>x. case x of Inr _ \<Rightarrow> ret ()
       | Inl e \<Rightarrow> add_warnings [''hard-rotate: daemon-reload: '' @ err_text e]))) (\<lambda>_.
     rfor_each (rotationServices (rn_role r)) (\<lambda>svc.
       rattempt (now (Run True ''systemctl'' [''restart'', svc])) (\<lambda>x. case x of
         Inl e \<Rightarrow> now (add_warnings [''hard-rotate: restart '' @ svc @ '': '' @ err_text e])
       | Inr _ \<Rightarrow> rthen (now (add_changes [restart_change svc ''hard CA rotation''])) (\<lambda>_.
           rthen (wait_active env svc (serviceStartTimeout svc) 2) (\<lambda>ok. now (if ok then ret ()
             else add_warnings [''hard-rotate: service '' @ svc @ '' did not become active after restart'']))))))"

section \<open>Workloads\<close>

definition hex_bytes :: "string \<Rightarrow> string" where
  "hex_bytes s = concat (map (\<lambda>c. [hex_digit (of_char c div 16), hex_digit (of_char c mod 16)]) s)"

definition caRolloutStamp :: "('k, 'p) rot_env \<Rightarrow> string \<Rightarrow> ('z os_scheme, string) io" where
  "caRolloutStamp env rid = attempt (read_file (pjoin (NewDir rid) ''ca.crt'')) (\<lambda>r. ret (case r of Inl _ \<Rightarrow> rid
     | Inr d \<Rightarrow> if d = [] then rid else ''sha256:'' @ hex_bytes (take 16 (sha256 (v_x509 env) d))))"

definition rollout_patch :: "string \<Rightarrow> string" where
  "rollout_patch stamp = (let q = (\<lambda>s. [CHR 0x22] @ s @ [CHR 0x22]) in
     ''{'' @ q ''spec'' @ '':{'' @ q ''template'' @ '':{'' @ q ''metadata'' @ '':{'' @ q ''annotations'' @ '':{''
     @ q ''magnum.openstack.org/ca-rotation'' @ '':'' @ q stamp @ ''}}}}}'')"

text \<open>Six attempts, each followed by a pause when it fails; the last error is kept.\<close>

fun list_namespaces :: "nat \<Rightarrow> err \<Rightarrow> ('z os_scheme, string) io" where
  "list_namespaces 0 e = throw e"
| "list_namespaces (Suc n) e = attempt (RunCapture ''kubectl'' [''--kubeconfig='' @ adminConf, ''get'', ''namespaces'', ''-o'', ''jsonpath={.items[*].metadata.name}''])
     (\<lambda>r. case r of Inr out \<Rightarrow> ret out | Inl e' \<Rightarrow> andthen sleep (\<lambda>_. list_namespaces n e'))"

fun count_failures :: "'x list \<Rightarrow> ('x \<Rightarrow> ('w, nat) io) \<Rightarrow> ('w, nat) io" where
  "count_failures [] f = ret 0"
| "count_failures (x # xs) f = andthen (f x) (\<lambda>n. andthen (count_failures xs f) (\<lambda>m. ret (n + m)))"

definition patch_namespace :: "string \<Rightarrow> string \<Rightarrow> string \<Rightarrow> ('z os_scheme, nat) io" where
  "patch_namespace kind patch ns = attempt (RunCapture ''kubectl'' [''--kubeconfig='' @ adminConf, ''get'', kind, ''-n'', ns, ''-o'', ''jsonpath={.items[*].metadata.name}''])
     (\<lambda>r. case r of Inl _ \<Rightarrow> ret 0
       | Inr resources \<Rightarrow> count_failures (splitFields resources) (\<lambda>name.
           andthen (succeeds (Run True ''kubectl'' [''--kubeconfig='' @ adminConf, ''patch'', kind, name, ''-n'', ns, ''-p'', patch])) (\<lambda>ok. ret (if ok then 0 else 1))))"

definition patch_kind :: "string \<Rightarrow> string \<Rightarrow> (node_world, unit) io" where
  "patch_kind patch kind = attempt (list_namespaces 6 (Err [])) (\<lambda>r. case r of
       Inl e \<Rightarrow> add_warnings [''failed to list namespaces for '' @ kind @ '' patching: '' @ err_text e]
     | Inr out \<Rightarrow> andthen (count_failures (splitFields out) (patch_namespace kind patch)) (\<lambda>n.
         andthen (if n > 0 then add_warnings [''failed to patch '' @ nat_str n @ '' '' @ kind @ ''(s) during CA rotation rollout''] else ret ()) (\<lambda>_.
         add_changes [mk_change ActionUpdate [] (''patch '' @ kind @ ''s with ca-rotation annotation'')])))"

definition patchWorkloads :: "('k, 'p) rot_env \<Rightarrow> string \<Rightarrow> (node_world, unit) io" where
  "patchWorkloads env rid = andthen (caRolloutStamp env rid) (\<lambda>stamp.
     for_each [''deployment'', ''daemonset''] (patch_kind (rollout_patch stamp)))"

section \<open>One phase\<close>

fun report_attempts :: "nat \<Rightarrow> runner \<Rightarrow> phase \<Rightarrow> err \<Rightarrow> (api, unit) io" where
  "report_attempts 0 r p e = throw (Wrap (''ca-rotation: report '' @ p @ '' status'') e)"
| "report_attempts (Suc n) r p e = attempt (ReportStatus (rn_node r) p (rn_id r)) (\<lambda>x. case x of
     Inr _ \<Rightarrow> ret () | Inl e' \<Rightarrow> andthen nap (\<lambda>_. report_attempts n r p e'))"

definition reportWithRetry :: "runner \<Rightarrow> phase \<Rightarrow> (api, unit) io" where
  "reportWithRetry r p = report_attempts 6 r p (Err [])"

definition base_state :: "runner \<Rightarrow> rot_state" where
  "base_state r = zero_state\<lparr>rs_id := rn_id r, rs_role := rn_role r, rs_instance := rn_node r\<rparr>"

definition with_modes :: "string \<Rightarrow> string \<Rightarrow> string \<Rightarrow> string \<Rightarrow> rot_state \<Rightarrow> rot_state" where
  "with_modes ca leaf verify sign s = s\<lparr>rs_ca_mode := ca, rs_leaf_mode := leaf, rs_sa_verify := verify, rs_sa_sign := sign\<rparr>"

definition stateFor :: "runner \<Rightarrow> phase \<Rightarrow> rot_state" where
  "stateFor r p = (let s = (base_state r)\<lparr>rs_phase := p\<rparr> in
     if p = PhasePrepare then with_modes CAModeBundle LeafModeOld CAModeBundle LeafModeOld s
     else if p = PhaseCutover then with_modes CAModeBundle LeafModeNew CAModeBundle LeafModeNew s
     else if p = PhaseFinalize then with_modes CAModeNew LeafModeNew CAModeNew LeafModeNew s
     else s)"

definition write_phase_files :: "('k, 'p) rot_env \<Rightarrow> runner \<Rightarrow> phase \<Rightarrow> (node_world, unit) io" where
  "write_phase_files env r p = andthen (if p = PhasePrepare then writePrepareFiles env r
       else if p = PhaseCutover then writeCutoverFiles env r
       else if p = PhaseFinalize then writeFinalizeFiles env r
       else throw (Err (''ca-rotation: unknown phase '' @ go_quote p))) (\<lambda>_.
     if \<not> rn_master r then ret () else
       andthen (updateAdminKubeconfig (rn_cfg r)) (\<lambda>cs. andthen (add_changes cs) (\<lambda>_. chownCerts)))"

text \<open>The restart, under the lock of the cluster when this is a master of a coordinated run; the
  lock is released whatever the restart did.\<close>

definition locked_restart :: "('k, 'p) rot_env \<Rightarrow> runner \<Rightarrow> bool \<Rightarrow> (node_world, unit) run" where
  "locked_restart env r coordinated = (if coordinated \<and> rn_master r then
       rthen (on_api_run (AcquireRestartLock (v_fuel env) (v_ctx env) (rn_node r) \<lparr>lo_duration = 0, lo_poll = 0, lo_timeout = 0\<rparr>)) (\<lambda>_.
       rattempt (restartAndWait env r) (\<lambda>x.
       rattempt (now (on_api (releaseLease (rn_node r)))) (\<lambda>_. case x of Inl e \<Rightarrow> now (throw e) | Inr _ \<Rightarrow> now (ret ()))))
     else restartAndWait env r)"

definition runPhase :: "('k, 'p) rot_env \<Rightarrow> runner \<Rightarrow> bool \<Rightarrow> phase \<Rightarrow> (node_world, unit) run" where
  "runPhase env r coordinated p =
     rthen (now (write_phase_files env r p)) (\<lambda>_.
     rthen (locked_restart env r coordinated) (\<lambda>_.
     rthen (if \<not> coordinated then now (ret ()) else rthen (now (build_client env)) (\<lambda>_. now (on_api (reportWithRetry r p)))) (\<lambda>_.
     now (SaveState (stateFor r p)))))"

section \<open>The coordinated protocol\<close>

definition result_of :: "runner \<Rightarrow> (node_world, Result) io" where
  "result_of r = asks (\<lambda>w. \<lparr>Changes = w_changes w, Outputs = [(''caRotationId'', rn_id r), (''role'', rn_role r)], Warnings = w_warnings w\<rparr>)"

definition park :: "runner \<Rightarrow> (node_world, Result) io" where
  "park r = andthen (wrapping ''ca-rotation: persist held state'' (SaveState
      ((with_modes CAModeBundle LeafModeNew CAModeBundle LeafModeNew ((base_state r)\<lparr>rs_phase := PhaseCutover\<rparr>))\<lparr>rs_held := True\<rparr>)))
     (\<lambda>_. result_of r)"

fun owner_loop :: "nat \<Rightarrow> int \<Rightarrow> api \<Rightarrow> (string result \<times> api) option" where
  "owner_loop 0 deadline w = None"
| "owner_loop (Suc n) deadline w = (case RotationOwner w of
     (Inr owner, w') \<Rightarrow> Some (Inr owner, w')
   | (Inl e, w') \<Rightarrow> if time_now w' > deadline then Some (Inl e, w')
       else (case nap w' of (Inl e', w'') \<Rightarrow> Some (Inl e', w'') | (Inr _, w'') \<Rightarrow> owner_loop n deadline w''))"

definition resumeOwner :: "nat \<Rightarrow> api \<Rightarrow> (string result \<times> api) option" where
  "resumeOwner fuel w = owner_loop fuel (time_now w + 300) w"

definition barrier_opts0 :: barrier_options where
  "barrier_opts0 = \<lparr>bo_poll = 0, bo_timeout = 0, bo_stall = 0, bo_abandon = 0\<rparr>"

text \<open>A step answers whether the rotation was parked there; \<open>completed\<close> is the last phase done.\<close>

definition hold_here :: "phase \<Rightarrow> phase \<Rightarrow> (node_world, bool) run" where
  "hold_here completed step w = (if step = PhaseFinalize \<and> \<not> AtLeast completed step
     then (case RotationHoldActive (w_api w) of ((held, _, _), a) \<Rightarrow> Some (Inr held, w\<lparr>w_api := a\<rparr>))
     else Some (Inr False, w))"

definition protocol_step :: "('k, 'p) rot_env \<Rightarrow> runner \<Rightarrow> phase \<Rightarrow> phase \<Rightarrow> (node_world, phase) run" where
  "protocol_step env r completed step =
     rthen (if \<not> AtLeast completed step then rthen (runPhase env r True step) (\<lambda>_. now (ret step)) else now (ret completed)) (\<lambda>completed'.
     rthen (if step \<noteq> PhaseFinalize then on_api_run (Barrier (v_fuel env) (v_ctx env) (rn_id r) step (rn_master r) barrier_opts0) else now (ret ())) (\<lambda>_.
     rthen (if step = PhaseCutover \<and> rn_master r then now (patchWorkloads env (rn_id r)) else now (ret ())) (\<lambda>_.
     now (ret completed'))))"

fun protocol_steps :: "('k, 'p) rot_env \<Rightarrow> runner \<Rightarrow> phase \<Rightarrow> phase list \<Rightarrow> (node_world, Result option) run" where
  "protocol_steps env r completed [] = now (ret None)"
| "protocol_steps env r completed (step # steps) =
     rthen (hold_here completed step) (\<lambda>held. if held then now (andthen (park r) (\<lambda>res. ret (Some res)))
       else rthen (protocol_step env r completed step) (\<lambda>completed'. protocol_steps env r completed' steps))"

definition complete_rotation :: "runner \<Rightarrow> rot_state \<Rightarrow> (node_world, unit) io" where
  "complete_rotation r s =
     andthen (wrapping ''ca-rotation: write completion marker'' (WriteMarker (rn_id r))) (\<lambda>_.
     andthen (ignoring (SaveState s)) (\<lambda>_. ignoring (remove_all (StagingDir (rn_id r)))))"

definition done_state :: "runner \<Rightarrow> string \<Rightarrow> rot_state" where
  "done_state r verify = with_modes CAModeNew LeafModeNew verify LeafModeNew ((base_state r)\<lparr>rs_phase := PhaseDone\<rparr>)"

text \<open>Preparation before the steps: ownership on resume, and on a master the quorum check of a
  fresh rotation and the objects of the coordination. The answer is false when the cluster has
  moved on to another rotation.\<close>

definition claim_rotation :: "('k, 'p) rot_env \<Rightarrow> runner \<Rightarrow> bool \<Rightarrow> phase \<Rightarrow> (node_world, bool) run" where
  "claim_rotation env r resumed completed =
     rthen (if \<not> resumed then now (ret True)
       else rthen (rwrapping ''ca-rotation: verify cluster coordination before resuming'' (on_api_run (resumeOwner (v_fuel env))))
         (\<lambda>owner. if owner = rn_id r then now (ret True)
           else now (andthen (add_warnings [''ca-rotation: not resuming rotationId='' @ rn_id r @ '': cluster coordination is on rotationId=''
               @ go_quote owner @ ''; staged material left in '' @ StagingDir (rn_id r)]) (\<lambda>_. ret False)))) (\<lambda>ours.
     if \<not> ours then now (ret False)
     else if \<not> rn_master r then now (ret True)
     else rthen (if completed = [] then now (wrapping ''ca-rotation: pre-flight etcd quorum check failed; refusing to start rotation'' waitForEtcdQuorum) else now (ret ())) (\<lambda>_.
       rthen (now (on_api (wrapping ''ca-rotation: ensure coordination RBAC'' EnsureNodeReadRBAC))) (\<lambda>_.
       rthen (now (on_api (wrapping ''ca-rotation: ensure rotation state'' (EnsureRotation (rn_id r))))) (\<lambda>_. now (ret True)))))"

definition begin_run :: "('k, 'p) rot_env \<Rightarrow> runner \<Rightarrow> bool \<Rightarrow> (node_world, phase option) run" where
  "begin_run env r resumed =
     rthen (now (LoadState (rn_id r))) (\<lambda>st. let completed = rs_phase st in
     rthen (now (wrapping ''ca-rotation: build coordinator'' (build_client env))) (\<lambda>_.
     rthen (claim_rotation env r resumed completed) (\<lambda>ours.
     if \<not> ours then now (ret None)
     else
       rthen (now (ensureStaged env r)) (\<lambda>_.
       rthen (if Valid completed then now (ignoring (on_api (ReportStatus (rn_node r) completed (rn_id r)))) else now (ret ())) (\<lambda>_.
       now (ret (Some completed)))))))"

definition finish_run :: "('k, 'p) rot_env \<Rightarrow> runner \<Rightarrow> (node_world, Result) run" where
  "finish_run env r = rthen (if rn_master r then now (patchWorkloads env (rn_id r)) else now (ret ())) (\<lambda>_.
     rthen (now (complete_rotation r (done_state r CAModeNew))) (\<lambda>_. now (result_of r)))"

definition coordinated_run :: "('k, 'p) rot_env \<Rightarrow> runner \<Rightarrow> bool \<Rightarrow> (node_world, Result) run" where
  "coordinated_run env r resumed = rthen (begin_run env r resumed) (\<lambda>b. case b of
       None \<Rightarrow> now (asks (\<lambda>w. \<lparr>Changes = [], Outputs = [], Warnings = w_warnings w\<rparr>))
     | Some completed \<Rightarrow> rthen (protocol_steps env r completed [PhasePrepare, PhaseCutover, PhaseFinalize]) (\<lambda>parked. case parked of
         Some res \<Rightarrow> now (ret res)
       | None \<Rightarrow> finish_run env r))"

text \<open>The manual override runs a single phase without coordination.\<close>

definition runProtocol :: "('k, 'p) rot_env \<Rightarrow> runner \<Rightarrow> bool \<Rightarrow> (node_world, Result) run" where
  "runProtocol env r resumed = (let over = trim_space (v_env env ''MAGNUM_CA_ROTATION_PHASE'') in
     if over = [] then coordinated_run env r resumed
     else if \<not> Valid over \<or> over = PhaseDone then now (throw (Err (''ca-rotation: invalid MAGNUM_CA_ROTATION_PHASE='' @ go_quote over)))
     else rthen (now (ensureStaged env r)) (\<lambda>_. rthen (runPhase env r False over) (\<lambda>_. now (result_of r))))"

section \<open>The hard path\<close>

definition truthyEnv :: "string \<Rightarrow> bool" where
  "truthyEnv v \<longleftrightarrow> to_lower (trim_space v) \<in> {''1'', ''true'', ''yes'', ''on''}"

fun collect_reasons :: "'x list \<Rightarrow> ('x \<Rightarrow> ('w, string option) io) \<Rightarrow> ('w, string list) io" where
  "collect_reasons [] f = ret []"
| "collect_reasons (x # xs) f = andthen (f x) (\<lambda>o1. andthen (collect_reasons xs f) (\<lambda>rs.
     ret ((case o1 of None \<Rightarrow> [] | Some s \<Rightarrow> [s]) @ rs)))"

definition leaf_reason :: "('k, 'p) x509 \<Rightarrow> string \<Rightarrow> ('z os_scheme, string option) io" where
  "leaf_reason X name = (let leaf = certDir @ ''/'' @ name @ ''.crt'' in
     andthen (CertFileNeedsRefresh X leaf) (\<lambda>(broken, why). if broken then ret (Some (name @ ''.crt '' @ why))
     else andthen (LeafChainBroken X leaf (certDir @ ''/ca.crt'')) (\<lambda>b.
       ret (if b then Some (name @ ''.crt no longer chains to CA'') else None))))"

definition hardRotateRequested :: "('k, 'p) rot_env \<Rightarrow> Config \<Rightarrow> ('z os_scheme, bool \<times> string) io" where
  "hardRotateRequested env cfg = (if truthyEnv (v_env env ''MAGNUM_CA_ROTATION_HARD'') then ret (True, ''forced by MAGNUM_CA_ROTATION_HARD'')
     else andthen (CertFileNeedsRefresh (v_x509 env) (certDir @ ''/ca.crt'')) (\<lambda>(broken, why).
       andthen (collect_reasons (leafNames (Role cfg)) (leaf_reason (v_x509 env))) (\<lambda>rs.
       let reasons = (if broken then [''ca.crt '' @ why] else []) @ rs in
       ret (if reasons = [] then (False, []) else (True, join ''; '' reasons)))))"

definition hardRotateInProgress :: "string \<Rightarrow> ('z os_scheme, bool) io" where
  "hardRotateInProgress rid = andthen (LoadState rid) (\<lambda>st. ret (rs_id st = rid \<and> rs_hard st \<and> rs_phase st \<noteq> PhaseDone))"

definition runHardRotate :: "('k, 'p) rot_env \<Rightarrow> runner \<Rightarrow> (node_world, Result) run" where
  "runHardRotate env r =
     rthen (now (wrapping ''ca-rotation: record hard-rotation breadcrumb'' (SaveState ((base_state r)\<lparr>rs_hard := True\<rparr>)))) (\<lambda>_.
     rthen (now (ensureStaged env r)) (\<lambda>_.
     rthen (now (writeHardFiles env r)) (\<lambda>_.
     rthen (if \<not> rn_master r then now (ret ()) else
       now (andthen (updateAdminKubeconfig (rn_cfg r)) (\<lambda>cs. andthen (add_changes cs) (\<lambda>_. chownCerts)))) (\<lambda>_.
     rthen (restartAndWaitBestEffort env r) (\<lambda>_.
     rthen (if rn_master r then now (patchWorkloads env (rn_id r)) else now (ret ())) (\<lambda>_.
     rthen (now (complete_rotation r ((done_state r CAModeBundle)\<lparr>rs_hard := True\<rparr>))) (\<lambda>_.
     rthen (now (add_warnings [''performed uncoordinated HARD CA rotation (installed certs were unusable); running pods may need to restart to obtain new-CA credentials''])) (\<lambda>_.
     now (result_of r)))))))))"

section \<open>Which rotation\<close>

definition latestAppliedCARotationID :: "string \<Rightarrow> string \<Rightarrow> ('z os_scheme, string) io" where
  "latestAppliedCARotationID markerPath previous = (let prev = trim_space previous in
     if markerPath = [] then ret prev
     else attempt (read_file markerPath) (\<lambda>r. case r of
         Inl e \<Rightarrow> if is_not_exist e then ret prev else throw e
       | Inr d \<Rightarrow> ret (if trim_space d \<noteq> [] then trim_space d else prev)))"

definition resolveCARotationIDs :: "Config \<Rightarrow> Request \<Rightarrow> string \<Rightarrow> ('z os_scheme, string \<times> string) io" where
  "resolveCARotationIDs cfg req markerPath =
     andthen (wrapping ''ca-rotation: load latest applied rotation id'' (latestAppliedCARotationID markerPath (PreviousCARotationID req)))
       (\<lambda>latest. ret (trim_space (CARotationID (Trigger cfg)), latest))"

fun staged_as_live :: "string \<Rightarrow> string \<Rightarrow> string list \<Rightarrow> ('z os_scheme, string \<times> string) io" where
  "staged_as_live applied live [] = ret ([], [])"
| "staged_as_live applied live (i # is) = (if i = applied then staged_as_live applied live is
     else attempt (read_file (pjoin (BundleDir i) ''ca.crt'')) (\<lambda>r. case r of
         Inr b \<Rightarrow> if b \<noteq> [] \<and> b = live then ret (i, ''the live CA is this rotation's staged dual-CA bundle'')
                  else staged_as_live applied live is
       | Inl _ \<Rightarrow> staged_as_live applied live is))"

definition resumableRotationID :: "('k, 'p) rot_env \<Rightarrow> string \<Rightarrow> ('z os_scheme, string \<times> string) io" where
  "resumableRotationID env applied = attempt (read_file (certDir @ ''/ca.crt'')) (\<lambda>r. case r of Inl _ \<Rightarrow> ret ([], [])
     | Inr live \<Rightarrow>
       let by_bundle = andthen (StagedRotationIDs (v_mtime env)) (staged_as_live applied live) in
       attempt (InProgressRotation applied) (\<lambda>r. case r of
         Inr st \<Rightarrow> if rs_id st = [] then by_bundle
           else attempt (read_file (pjoin (NewDir (rs_id st)) ''ca.crt'')) (\<lambda>r. case r of
             Inr newCA \<Rightarrow> if BundleContainsCertPEM (v_x509 env) live newCA then ret (rs_id st, ''local state records phase '' @ rs_phase st) else by_bundle
           | Inl _ \<Rightarrow> by_bundle)
       | Inl _ \<Rightarrow> by_bundle))"

definition no_rotation :: "(node_world, Result) run" where
  "no_rotation = now (ret no_result)"

definition planned :: "string \<Rightarrow> Result" where
  "planned rid = no_result\<lparr>Changes := [mk_change ActionReplace certDir (''dual-CA rotate certificates (rotation_id='' @ rid @ '')'')]\<rparr>"

text \<open>What Run does once the rotation is known to be owed.\<close>

definition rotate :: "('k, 'p) rot_env \<Rightarrow> Config \<Rightarrow> Request \<Rightarrow> string \<Rightarrow> bool \<Rightarrow> (node_world, Result) run" where
  "rotate env cfg req rid resumed =
     rthen (now (nonEmpty (certDir @ ''/ca.crt''))) (\<lambda>live.
     if \<not> live then rthen (if rq_apply req then now (wrapping ''ca-rotation: mark rotation applied on fresh node'' (WriteMarker rid)) else now (ret ()))
         (\<lambda>_. no_rotation)
     else if \<not> rq_apply req then now (ret (planned rid))
     else if Role cfg = RoleMaster \<and> (KubeServiceAccountKey (Shared cfg) = [] \<or> KubeServiceAccountPrivateKey (Shared cfg) = [])
       then now (throw (Err ''ca-rotation: service account keys must be provided''))
     else rthen (now (hardRotateRequested env cfg)) (\<lambda>(hard, _).
       rthen (if hard then now (ret True) else rattempt (now (hardRotateInProgress rid)) (\<lambda>x. now (ret (x = Inr True)))) (\<lambda>hard'.
       let r = \<lparr>rn_cfg = cfg, rn_id = rid\<rparr> in
       if hard' then runHardRotate env r else runProtocol env r resumed)))"

definition CARotation_Run :: "('k, 'p) rot_env \<Rightarrow> Config \<Rightarrow> Request \<Rightarrow> (node_world, Result) run" where
  "CARotation_Run env cfg req =
     rthen (now (resolveCARotationIDs cfg req MarkerPath)) (\<lambda>(asked, lastApplied).
     rthen (if asked = [] \<and> \<not> TLSDisabled (Shared cfg) then now (resumableRotationID env lastApplied) else now (ret ([], []))) (\<lambda>(owed, _).
     let resumed = (owed \<noteq> []); rid = (if resumed then owed else asked) in
     if rid = [] \<or> TLSDisabled (Shared cfg) then no_rotation
     else if \<not> resumed \<and> \<not> IsPureCARotation cfg then no_rotation
     else rthen (if lastApplied = rid then now (ret True) else now (Finalized rid)) (\<lambda>fin.
       if fin then no_rotation else rotate env cfg req rid resumed)))"

end
