(* ===== verification/CaTrust.thy ===== *)
theory CaTrust
  imports CaProtocol
begin

text \<open>
  What a rotation run does to the trust of a node, whatever calls fail and wherever it is cut off:
  a crash is a plan in which every call fails from some tick on.
\<close>

section \<open>Staging leaves everything else alone\<close>

lemma spare_in_tree:
  "\<not> in_tree d q \<Longrightarrow> in_tree d p \<Longrightarrow> keeps (holds q n) (write_file p c m)"
  "\<not> in_tree d q \<Longrightarrow> in_tree d p \<Longrightarrow> in_tree d p' \<Longrightarrow> keeps (holds q n) (rename p p')"
  by (rule spare_writes spare_rename; metis)+

lemma spare_rename_dir: "\<not> in_tree src q \<Longrightarrow> \<not> in_tree dst q \<Longrightarrow> \<not> in_tree src dst \<Longrightarrow> \<not> in_tree dst src \<Longrightarrow> keeps (holds q n) (rename_dir src dst)"
proof (rule keepsI)
  fix w :: "'a os_scheme"
  assume a: "\<not> in_tree src q" "\<not> in_tree dst q" "\<not> in_tree src dst" "\<not> in_tree dst src" "holds q n w"
  obtain r w' where run: "rename_dir src dst w = (r, w')" by (cases "rename_dir src dst w")
  show "holds q n (snd (rename_dir src dst w))"
  proof (cases r)
    case (Inl e)
    with run rename_dir_fail a(5) show ?thesis by (fastforce simp: holds_def)
  next
    case (Inr x)
    with run rename_dir_ok(2) [of src dst w w' q] a show ?thesis by (simp add: holds_def regular_def)
  qed
qed

lemma in_tree_self [simp]: "in_tree d d"
  by (simp add: in_tree_def)

lemma in_tree_pjoin [simp]: "d \<noteq> [] \<Longrightarrow> in_tree d (pjoin d f)"
  by (simp add: in_tree_def pjoin_def has_prefix_iff)

lemma staging_nonempty [simp]: "StagingDir rid \<noteq> []" "OldDir rid \<noteq> []" "NewDir rid \<noteq> []" "BundleDir rid \<noteq> []"
  by (simp_all add: StagingDir_def OldDir_def NewDir_def BundleDir_def pjoin_def)

lemma staging_trees:
  "in_tree (StagingDir rid) (OldDir rid)" "in_tree (StagingDir rid) (NewDir rid)" "in_tree (StagingDir rid) (BundleDir rid)"
  "in_tree (StagingDir rid) (OldDir rid @ ''.partial'')"
  by (simp_all add: OldDir_def NewDir_def BundleDir_def in_tree_def pjoin_def has_prefix_iff)

lemma staged_file [simp]:
  "in_tree (StagingDir rid) (pjoin (OldDir rid) f)" "in_tree (StagingDir rid) (pjoin (NewDir rid) f)"
  "in_tree (StagingDir rid) (pjoin (BundleDir rid) f)" "in_tree (StagingDir rid) (pjoin (OldDir rid @ ''.partial'') f)"
  using in_tree_trans [OF staging_trees(1) in_tree_pjoin, of rid f] in_tree_trans [OF staging_trees(2) in_tree_pjoin, of rid f]
    in_tree_trans [OF staging_trees(3) in_tree_pjoin, of rid f] in_tree_trans [OF staging_trees(4) in_tree_pjoin, of rid f] by auto

lemma partial_apart: "\<not> in_tree (OldDir rid) (OldDir rid @ ''.partial'')" "\<not> in_tree (OldDir rid @ ''.partial'') (OldDir rid)"
  by (simp_all add: in_tree_def has_prefix_iff prefix_def)

lemma keeps_nonEmpty [spare_intro]: "keeps (holds q n) (nonEmpty p)"
  unfolding nonEmpty_def by (intro keeps_intro spare_intro)

lemma keeps_all_nonempty [spare_intro]: "keeps (holds q n) (all_nonempty ps)"
  by (induction ps) (auto intro!: keeps_intro spare_intro)

lemma spare_copy: "\<not> in_tree d q \<Longrightarrow> in_tree d p \<Longrightarrow> keeps (holds q n) (copyIfPresent s p)"
  unfolding copyIfPresent_def by (intro keeps_intro spare_intro spare_in_tree [of d])

lemma spare_concat [spare_intro]: "keeps (holds q n) (concatPEM a b)"
  unfolding concatPEM_def by (intro keeps_intro spare_intro)

lemma spare_snapshot: "\<not> in_tree (StagingDir rid) q \<Longrightarrow> keeps (holds q n) (snapshotOldMaterial rid role)"
  unfolding snapshotOldMaterial_def Let_def
proof (intro keeps_intro spare_intro)
  assume a: "\<not> in_tree (StagingDir rid) q"
  then have o: "\<not> in_tree (OldDir rid) q" "\<not> in_tree (OldDir rid @ ''.partial'') q"
    using in_tree_trans staging_trees(1,4) by blast+
  then show "q \<noteq> OldDir rid @ ''.partial''" "\<not> has_prefix q ((OldDir rid @ ''.partial'') @ ''/'')"
    by (auto simp: in_tree_def)
  show "keeps (holds q n) (copyIfPresent (pjoin certDir x) (pjoin (OldDir rid @ ''.partial'') x))" for x
    by (rule spare_copy [OF a]) simp
  show "keeps (holds q n) (rename_dir (OldDir rid @ ''.partial'') (OldDir rid))"
    by (rule spare_rename_dir) (use o partial_apart in auto)
qed

lemma frames_gather_all [keeps_intro]: "(\<And>x. keeps P (f x)) \<Longrightarrow> keeps P (gather_all f xs)"
  by (induction xs) (auto intro!: keeps_intro)

lemma spare_trial: "(\<And>w. holds q n w \<Longrightarrow> holds q n (snd (f w))) \<Longrightarrow> keeps (holds q n) (retry_from k first label f e)"
proof (induction k arbitrary: first e)
  case 0
  show ?case by (simp add: keeps_def)
next
  case (Suc k)
  show ?case
  proof (rule keepsI)
    fix w :: "'a os_scheme"
    assume h: "holds q n w"
    let ?w = "if first then w else snd (sleep w)"
    have "holds q n ?w" using h by (simp add: sleep_def holds_def)
    from Suc.prems [OF this] have "holds q n (snd (f ?w))" .
    then show "holds q n (snd (retry_from (Suc k) first label f e w))"
      using Suc.IH [OF Suc.prems] by (cases "f ?w"; cases "fst (f ?w)") (auto simp: keeps_def split: prod.splits)
  qed
qed

lemma spare_retry [spare_intro]: "keeps (holds q n) (retry label (ask net l req f))"
  unfolding retry_def by (rule spare_trial) (simp add: ask_alt holds_def)

lemma spare_client [spare_intro]:
  "keeps (holds q n) (GetToken net c)" "keeps (holds q n) (FetchCACert net c tok)" "keeps (holds q n) (SignCSR net c tok csr)"
  unfolding GetToken_def FetchCACert_def SignCSR_def by (intro spare_intro)+

lemma spare_generate_key [spare_intro]: "keeps (holds q n) (GenerateKeyAndCSR X S spec)"
proof (rule keepsI)
  fix w :: "'a os_scheme"
  have "snd (GenerateKeyAndCSR X S spec w) = tock w"
    unfolding GenerateKeyAndCSR_def by (simp only: snd_conv refl simp_thms split: option.split sum.split prod.split)
  then show "holds q n w \<Longrightarrow> holds q n (snd (GenerateKeyAndCSR X S spec w))" by (simp add: holds_def)
qed

lemma spare_sign [spare_intro]: "keeps (holds q n) (GenerateAndSignCerts X S net c tok specs)"
  unfolding GenerateAndSignCerts_def sign_one_def by (intro keeps_intro spare_intro)

lemma spare_node_ip [spare_intro]: "keeps (holds q n) (ResolveNodeIP meta cfg cache)"
proof -
  have "keeps (holds q n) (fetchMetadataNodeIPOnce meta)"
    by (rule keepsI) (auto simp: fetchMetadataNodeIPOnce_def holds_def Let_def split: option.splits)
  then have "keeps (holds q n) (fetch_attempts k meta)" for k
    by (induction k) (auto intro!: keeps_intro spare_intro)
  then show ?thesis unfolding ResolveNodeIP_def fetchMetadataNodeIP_def by (intro keeps_intro)
qed

lemma spare_generate: "\<not> in_tree (StagingDir rid) q \<Longrightarrow> keeps (holds q n) (generateNewMaterial env cfg rid role)"
  unfolding generateNewMaterial_def Let_def cert_specs_def newMaterialComplete_def
  by (intro keeps_intro spare_intro spare_in_tree [of "StagingDir rid"]) auto

lemma spare_bundle: "\<not> in_tree (StagingDir rid) q \<Longrightarrow> keeps (holds q n) (buildBundle env rid)"
  unfolding buildBundle_def Let_def
  by (intro keeps_intro spare_intro spare_in_tree [of "StagingDir rid"]) auto

lemma spare_staged: "\<not> in_tree (StagingDir (rn_id r)) q \<Longrightarrow> keeps (holds q n) (ensureStaged env r)"
  unfolding ensureStaged_def by (intro keeps_intro spare_snapshot spare_generate spare_bundle)

section \<open>What each write leaves alone\<close>

text \<open>A settled path is not the temporary file of an atomic write.\<close>

definition settled :: "string \<Rightarrow> bool" where
  "settled q \<longleftrightarrow> \<not> has_suffix q ''.carot.tmp''"

lemma settled_tmp: "settled q \<Longrightarrow> q \<noteq> p @ ''.carot.tmp''"
  by (auto simp: settled_def has_suffix_iff suffix_def)

lemma keeps_modify_node [spare_intro]: "keeps (holds q n) (add_changes cs)" "keeps (holds q n) (add_warnings ss)"
  by (auto intro!: keepsI simp: add_changes_def add_warnings_def run_simps holds_def regular_def fget_def)

lemma spare_atomicWrite: "q \<noteq> p \<Longrightarrow> settled q \<Longrightarrow> keeps (holds q n) (atomicWrite p c m)"
  unfolding atomicWrite_def Let_def
  by (intro keeps_intro spare_intro settled_tmp) auto

lemma spare_writeLive: "q \<noteq> p \<Longrightarrow> settled q \<Longrightarrow> keeps (holds q n) (writeLive p c m)"
  unfolding writeLive_def by (intro keeps_intro spare_intro spare_atomicWrite)

lemma spare_retired [spare_intro]: "q \<noteq> RetiredSAKeysPath \<Longrightarrow> keeps (holds q n) (RecordRetiredSAKeys ids)"
  unfolding RecordRetiredSAKeys_def LoadRetiredSAKeys_def Let_def by (intro keeps_intro spare_intro)

lemma spare_capSA [spare_intro]: "q \<noteq> RetiredSAKeysPath \<Longrightarrow> keeps (holds q n) (capSAVerify env v)"
  unfolding capSAVerify_def Let_def by (intro keeps_intro spare_intro)

lemma spare_recordRetired [spare_intro]: "q \<noteq> RetiredSAKeysPath \<Longrightarrow> keeps (holds q n) (recordRetiredSAKeys env p v)"
  unfolding recordRetiredSAKeys_def PublicKeyPEMFile_def Let_def by (intro keeps_intro spare_intro)

lemma spare_EnsureSigningCA [spare_intro]: "q \<noteq> SigningCACertPath \<Longrightarrow> keeps (holds q n) (EnsureSigningCA X ap a b)"
  unfolding EnsureSigningCA_def Let_def by (intro keeps_intro spare_intro) auto

lemma spare_sync [spare_intro]: "q \<noteq> SigningCACertPath \<Longrightarrow> keeps (holds q n) (syncSigningCA env r)"
  unfolding syncSigningCA_def by (intro keeps_intro spare_intro)

lemma spare_EnsureCopy [spare_intro]: "q \<noteq> p \<Longrightarrow> keeps (holds q n) (EnsureCopy ap s p m)"
  unfolding EnsureCopy_def by (intro keeps_intro spare_intro)

lemma spare_admin: "q \<notin> {adminConf, rootKube} \<Longrightarrow> keeps (holds q n) (updateAdminKubeconfig cfg)"
  unfolding updateAdminKubeconfig_def by (intro keeps_intro spare_intro) auto

lemma spare_chown [spare_intro]: "keeps (holds q n) chownCerts"
  unfolding chownCerts_def by (intro keeps_intro spare_intro)

text \<open>The files of each phase on the node.\<close>

definition trust_files :: "string set" where
  "trust_files = {certDir @ ''/ca.crt'', etcdCertDir @ ''/ca.crt''}"

definition anchor_files :: "string set" where
  "anchor_files = trust_files \<union> {certDir @ ''/service_account.key'', certDir @ ''/ca.key'', SigningCACertPath, adminConf, rootKube, RetiredSAKeysPath}"

definition serving_files :: "string set" where
  "serving_files = {certDir @ ''/service_account_private.key''} \<union> {d @ ''/'' @ f | d f. d \<in> {certDir, etcdCertDir} \<and> f \<in> set (leafFiles RoleMaster)}"

lemma leafFiles_master: "f \<in> set (leafFiles role) \<Longrightarrow> f \<in> set (leafFiles RoleMaster)"
  by (auto simp: leafFiles_def leafNames_def split: if_splits)

lemma leafFiles_member: "name \<in> set (leafNames role) \<Longrightarrow> ext \<in> {''.crt'', ''.key''} \<Longrightarrow> name @ ext \<in> set (leafFiles role)"
  by (auto simp: leafFiles_def)

lemma anchor_files_simps:
  "q \<notin> anchor_files \<Longrightarrow> q \<noteq> certDir @ ''/ca.crt'' \<and> q \<noteq> etcdCertDir @ ''/ca.crt'' \<and> q \<noteq> certDir @ ''/service_account.key''
     \<and> q \<noteq> certDir @ ''/ca.key'' \<and> q \<noteq> SigningCACertPath \<and> q \<notin> {adminConf, rootKube} \<and> q \<noteq> RetiredSAKeysPath"
  unfolding anchor_files_def trust_files_def by blast

lemma spare_prepare: "q \<notin> anchor_files \<Longrightarrow> settled q \<Longrightarrow> keeps (holds q n) (writePrepareFiles env r)"
  using anchor_files_simps [of q]
  unfolding writePrepareFiles_def writeLiveCA_def both_verify_def writeRotatedCAKey_def
  by (intro keeps_intro spare_intro spare_writeLive) auto

lemma spare_finalize: "q \<notin> anchor_files \<Longrightarrow> settled q \<Longrightarrow> keeps (holds q n) (writeFinalizeFiles env r)"
  using anchor_files_simps [of q]
  unfolding writeFinalizeFiles_def writeLiveCA_def
  by (intro keeps_intro spare_intro spare_writeLive) auto

lemma spare_cutover: "q \<notin> serving_files \<Longrightarrow> q \<noteq> SigningCACertPath \<Longrightarrow> settled q \<Longrightarrow> keeps (holds q n) (writeCutoverFiles env r)"
  unfolding writeCutoverFiles_def writeLeaf_def
proof (intro keeps_intro spare_intro spare_writeLive)
  fix name ext
  assume q: "q \<notin> serving_files" and n: "name \<in> set (leafNames (rn_role r))" "ext \<in> set [''.crt'', ''.key'']"
  have "d @ ''/'' @ name @ ext \<in> serving_files" if "d \<in> {certDir, etcdCertDir}" for d
  proof -
    have "name @ ext \<in> set (leafFiles RoleMaster)" using leafFiles_master [OF leafFiles_member [OF n(1), of ext]] n(2) by simp
    with that show ?thesis unfolding serving_files_def by blast
  qed
  then show "q \<noteq> certDir @ ''/'' @ name @ ext" "q \<noteq> etcdCertDir @ ''/'' @ name @ ext" using q by blast+
next
  show "q \<notin> serving_files \<Longrightarrow> q \<noteq> certDir @ ''/service_account_private.key''" by (auto simp: serving_files_def)
qed auto

section \<open>Contents that are allowed\<close>

definition allows :: "string \<Rightarrow> string set \<Rightarrow> 'z os_scheme \<Rightarrow> bool" where
  "allows q C w \<longleftrightarrow> (\<exists>c \<in> C. content w q = Some c)"

lemma keeps_allows: "(\<And>n. keeps (holds q n) m) \<Longrightarrow> keeps (allows q C) (m :: ('a os_scheme, 'b) io)"
proof (rule keepsI)
  fix w :: "'a os_scheme"
  assume k: "\<And>n. keeps (holds q n) m" and a: "allows q C w"
  then obtain c mo u g where c: "c \<in> C" "holds q (FileN c mo u g) w" by (auto simp: allows_def dest: content_holds)
  with keepsD [OF k c(2)] show "allows q C (snd (m w))" by (auto simp: allows_def dest: holds_content)
qed

lemma stays_allows: "(\<And>n. stays (holds q n) m) \<Longrightarrow> stays (allows q C) (m :: ('a os_scheme, 'b) run)"
  unfolding stays_def
proof (intro allI impI)
  fix w :: "'a os_scheme" and r w'
  assume k: "\<And>n. \<forall>w r w'. holds q n w \<longrightarrow> m w = Some (r, w') \<longrightarrow> holds q n w'" and a: "allows q C w" and run: "m w = Some (r, w')"
  then obtain c mo u g where c: "c \<in> C" "holds q (FileN c mo u g) w" by (auto simp: allows_def dest: content_holds)
  with k run have "holds q (FileN c mo u g) w'" by blast
  with c(1) show "allows q C w'" by (auto simp: allows_def dest: holds_content)
qed

lemma keeps_conj: "keeps P m \<Longrightarrow> keeps Q m \<Longrightarrow> keeps (\<lambda>w. P w \<and> Q w) m"
  by (simp add: keeps_def)

lemma stays_conj: "stays P m \<Longrightarrow> stays Q m \<Longrightarrow> stays (\<lambda>w. P w \<and> Q w) m"
  unfolding stays_def by blast

lemma keeps_andthen_val: "keeps P m \<Longrightarrow> (\<And>x w w'. P w \<Longrightarrow> m w = (Inr x, w') \<Longrightarrow> ok x) \<Longrightarrow> (\<And>x. ok x \<Longrightarrow> keeps P (f x)) \<Longrightarrow> keeps P (andthen m f)"
proof (rule keepsI)
  fix w
  assume a: "keeps P m" "\<And>x w w'. P w \<Longrightarrow> m w = (Inr x, w') \<Longrightarrow> ok x" "\<And>x. ok x \<Longrightarrow> keeps P (f x)" "P w"
  obtain r w' where m: "m w = (r, w')" by (cases "m w")
  from keepsD' [OF a(1,4) m] have p: "P w'" .
  show "P (snd (andthen m f w))"
  proof (cases r)
    case (Inr x)
    with keepsD [OF a(3) p] a(2) [OF a(4)] m show ?thesis by (simp add: andthen_def)
  qed (use m p in \<open>simp add: andthen_def\<close>)
qed

text \<open>An atomic write leaves the old content or the whole new one.\<close>

lemma chmod_content: "chmod p m w = (r, w') \<Longrightarrow> content w' q = content w q"
  by (auto simp: chmod_def content_def fs_simps split: if_splits option.splits node.splits)

lemma atomicWrite_target:
  assumes "atomicWrite p c m w = (r, w')"
  shows "content w' p = content w p \<or> content w' p = Some c"
proof -
  let ?tmp = "p @ ''.carot.tmp''"
  have ne: "p \<noteq> ?tmp" by simp
  have spare: "content w2 p = content w1 p" if "confined {?tmp} m1" "m1 w1 = (x, w2)" for m1 :: "('a os_scheme, 'b) io" and x w1 w2
    using confinedD_content [OF that, of p] ne by simp
  show ?thesis
  proof (cases "fst (read_file p w) = Inr c")
    case True
    with assms show ?thesis by (auto simp: atomicWrite_def attempt_read_file run_simps fs_simps)
  next
    case False
    have run: "andthen (mkdir_all (dirname p) o755) (\<lambda>_. andthen (write_file ?tmp c m) (\<lambda>_.
       attempt (chmod ?tmp m) (\<lambda>r. case r of Inl e \<Rightarrow> attempt (remove ?tmp) (\<lambda>_. throw e) | Inr _ \<Rightarrow>
       attempt (rename ?tmp p) (\<lambda>r. case r of Inl e \<Rightarrow> attempt (remove ?tmp) (\<lambda>_. throw e) | Inr _ \<Rightarrow>
       ret (Some (mk_change ActionReplace p (''rotate '' @ basename p))))))) (tock w) = (r, w')"
      using assms unfolding atomicWrite_def attempt_read_file Let_def if_not_P [OF False] .
    show ?thesis
      using run
    proof (cases rule: andthen_cases)
      case (fail e)
      from confinedD_content [OF confined_mkdir_all fail(1), of p "{}"] show ?thesis by simp
    next
      case (ok x w1)
      from confinedD_content [OF confined_mkdir_all ok(1), of p "{}"] have c1: "content w1 p = content w p" by simp
      from ok(2) show ?thesis
      proof (cases rule: andthen_cases)
        case (fail e)
        from spare [OF confined_write_file [OF singletonI] fail(1)] c1 show ?thesis by simp
      next
        case (ok y w2)
        have c2: "content w2 p = content w p" "content w2 ?tmp = Some c"
          using spare [OF confined_write_file [OF singletonI] ok(1)] c1 write_file_content ok(1) by auto
        obtain r3 w3 where ch: "chmod ?tmp m w2 = (r3, w3)" by (cases "chmod ?tmp m w2")
        have c3: "content w3 p = content w p" "content w3 ?tmp = Some c" using chmod_content [OF ch] c2 by auto
        obtain r4 w4 where re: "rename ?tmp p w3 = (r4, w4)" by (cases "rename ?tmp p w3")
        have rm: "content w' p = content w5 p" if "w' = snd (remove ?tmp w5)" for w5
          using spare [OF confined_remove [OF singletonI], of w5 "fst (remove ?tmp w5)" w'] that by simp
        show ?thesis
        proof (cases r3)
          case (Inl e)
          with ok(2) ch have "w' = snd (remove ?tmp w3)" by (auto simp: attempt_def run_simps split: prod.splits)
          with rm c3 show ?thesis by simp
        next
          case (Inr x3)
          show ?thesis
          proof (cases r4)
            case (Inl e)
            with Inr ok(2) ch re have "w' = snd (remove ?tmp w4)" by (auto simp: attempt_def run_simps split: prod.splits)
            moreover have "w4 = tock w3" using re Inl by (blast intro: rename_fail)
            ultimately show ?thesis using rm c3 by (simp add: fs_simps)
          next
            case (Inr x4)
            have "w' = w4" using \<open>r3 = Inr x3\<close> Inr ok(2) ch re by (auto simp: attempt_def run_simps)
            moreover obtain n where "fget w3 ?tmp = Some n" "fget w4 p = Some n"
              using re Inr by (auto simp: rename_def fs_simps split: if_splits option.splits node.splits)
            ultimately show ?thesis using c3(2) by (simp add: content_def)
          qed
        qed
      qed
    qed
  qed
qed

lemma allows_writeLive: "c \<in> C \<Longrightarrow> keeps (allows q C) (writeLive q c m)"
proof (rule keepsI)
  fix w :: node_world
  assume a: "c \<in> C" "allows q C w"
  obtain r w1 where "atomicWrite q c m w = (r, w1)" by (cases "atomicWrite q c m w")
  from atomicWrite_target [OF this] this a show "allows q C (snd (writeLive q c m w))"
    by (cases r) (auto simp: writeLive_def andthen_def wrapping_def add_changes_def run_simps allows_def content_def fget_def)
qed

section \<open>Runs and files\<close>

lemma spare_on_api [spare_intro]: "keeps (holds q n) (on_api m)"
  by (rule keepsI) (auto simp: on_api_def holds_def regular_def fget_def split: prod.splits)

lemma stays_on_api_run [stays_intro]: "stays (holds q n) (on_api_run m)"
  by (auto simp: stays_def on_api_run_def holds_def regular_def fget_def split: option.splits prod.splits)

lemma spare_build_client [spare_intro]: "keeps (holds q n) (build_client env)"
  by (rule keepsI) (simp add: build_client_def holds_def)

lemma spare_asks [spare_intro]: "keeps (holds q n) (asks f)"
  by (simp add: keeps_def run_simps)

lemma stays_wait_active [stays_intro]: "stays (holds q n) (wait_active env svc t i)"
  unfolding wait_active_def by (rule stays_until_active)

lemma spare_quorum [spare_intro]: "keeps (holds q n) waitForEtcdQuorum"
  unfolding waitForEtcdQuorum_def etcdLocalHealthy_def by (intro keeps_intro spare_intro)

lemma spare_healthz [spare_intro]: "keeps (holds q n) (healthz_streak k s)"
  by (induction k arbitrary: s) (auto intro!: keeps_intro spare_intro)

lemma spare_waitForHealthy [spare_intro]: "keeps (holds q n) (waitForHealthy cfg)"
  unfolding waitForHealthy_def by (intro keeps_intro spare_intro)

lemma stays_restart [stays_intro]: "stays (holds q n) (restartAndWait env r)" "stays (holds q n) (restartAndWaitBestEffort env r)"
  unfolding restartAndWait_def restartAndWaitBestEffort_def
  by (intro stays_intro keeps_intro spare_intro)+

lemma spare_count [keeps_intro]: "(\<And>x. keeps P (f x)) \<Longrightarrow> keeps P (count_failures xs f)"
  by (induction xs) (auto intro!: keeps_intro)

lemma spare_namespaces [spare_intro]: "keeps (holds q n) (list_namespaces k e)"
  by (induction k arbitrary: e) (auto intro!: keeps_intro spare_intro)

lemma spare_patch [spare_intro]: "keeps (holds q n) (patchWorkloads env rid)"
  unfolding patchWorkloads_def caRolloutStamp_def patch_kind_def patch_namespace_def
  by (intro keeps_intro spare_intro)

lemma stays_locked_restart [stays_intro]: "stays (holds q n) (locked_restart env r c)"
  unfolding locked_restart_def by (intro stays_intro keeps_intro spare_intro)

lemma spare_LoadState [spare_intro]: "keeps (holds q n) (LoadState rid)"
  unfolding LoadState_def by (intro keeps_intro spare_intro)

lemma spare_SaveState: "\<not> in_tree (StagingDir (rs_id s)) q \<Longrightarrow> keeps (holds q n) (SaveState s)"
proof -
  assume a: "\<not> in_tree (StagingDir (rs_id s)) q"
  have "in_tree (StagingDir (rs_id s)) (statePath (rs_id s))" "in_tree (StagingDir (rs_id s)) (statePath (rs_id s) @ ''.tmp'')"
    by (simp_all add: statePath_def in_tree_def pjoin_def has_prefix_iff)
  with a show ?thesis unfolding SaveState_def Let_def
    by (intro keeps_intro spare_intro spare_in_tree [of "StagingDir (rs_id s)"]) auto
qed

text \<open>A live file of the node: under /etc and settled.\<close>

definition live :: "string \<Rightarrow> bool" where
  "live q \<longleftrightarrow> has_prefix q ''/etc/'' \<and> settled q"

lemma live_D: "live q \<Longrightarrow> settled q" "live q \<Longrightarrow> \<not> in_tree (StagingDir rid) q" "live q \<Longrightarrow> q \<noteq> MarkerPath"
  "live q \<Longrightarrow> q \<noteq> finalizedPath" "live q \<Longrightarrow> q \<noteq> finalizedPath @ ''.tmp''" "live q \<Longrightarrow> q \<noteq> RetiredSAKeysPath"
  by (auto simp: live_def has_prefix_iff prefix_def in_tree_def StagingDir_def baseDir_def pjoin_def MarkerPath_def finalizedPath_def
      RetiredSAKeysPath_def)

lemma spare_save_live [spare_intro]: "live q \<Longrightarrow> keeps (holds q n) (SaveState s)"
  by (rule spare_SaveState) (rule live_D)

lemma spare_staged_live [spare_intro]: "live q \<Longrightarrow> keeps (holds q n) (ensureStaged env r)"
  by (rule spare_staged) (rule live_D)

lemma spare_marker [spare_intro]: "live q \<Longrightarrow> keeps (holds q n) (WriteMarker rid)"
  unfolding WriteMarker_def recordFinalized_def readFinalized_def Let_def
  by (intro keeps_intro spare_intro live_D)

lemma spare_complete [spare_intro]: "live q \<Longrightarrow> keeps (holds q n) (complete_rotation r s)"
  unfolding complete_rotation_def
proof (intro keeps_intro spare_intro)
  assume "live q"
  from live_D(2) [OF this, of "rn_id r"] show "q \<noteq> StagingDir (rn_id r)" "\<not> has_prefix q (StagingDir (rn_id r) @ ''/'')"
    by (auto simp: in_tree_def)
qed

lemma spare_park [spare_intro]: "live q \<Longrightarrow> keeps (holds q n) (park r)"
  unfolding park_def result_of_def by (intro keeps_intro spare_intro)

lemma stays_hold [stays_intro]: "stays (holds q n) (hold_here c s)"
  by (auto simp: stays_def hold_here_def holds_def regular_def fget_def split: if_splits prod.splits)

lemma stays_claim [stays_intro]: "stays (holds q n) (claim_rotation env r resumed c)"
  unfolding claim_rotation_def by (intro stays_intro keeps_intro spare_intro)

text \<open>A phase touches what its files are.\<close>

lemma spare_phase_files:
  "p \<noteq> PhaseCutover \<Longrightarrow> settled q \<Longrightarrow> q \<notin> anchor_files \<Longrightarrow> keeps (holds q n) (write_phase_files env r p)"
  "p \<noteq> PhasePrepare \<Longrightarrow> p \<noteq> PhaseFinalize \<Longrightarrow> settled q \<Longrightarrow> q \<notin> serving_files \<union> {SigningCACertPath, adminConf, rootKube}
     \<Longrightarrow> keeps (holds q n) (write_phase_files env r p)"
  unfolding write_phase_files_def
  by (intro keeps_intro spare_intro spare_prepare spare_finalize spare_cutover spare_admin; use anchor_files_simps in blast)+

lemma stays_runPhase: "keeps (holds q n) (SaveState (stateFor r p) :: (node_world, unit) io) \<Longrightarrow> keeps (holds q n) (write_phase_files env r p) \<Longrightarrow> stays (holds q n) (runPhase env r c p)"
  unfolding runPhase_def by (assumption | rule stays_intro keeps_intro spare_intro)+

lemma stays_protocol_step: "keeps (holds q n) (SaveState (stateFor r p) :: (node_world, unit) io) \<Longrightarrow> keeps (holds q n) (write_phase_files env r p) \<Longrightarrow> stays (holds q n) (protocol_step env r c p)"
  unfolding protocol_step_def by (assumption | rule stays_intro stays_runPhase keeps_intro spare_intro)+

section \<open>Runs and the API\<close>

named_theorems api_intro \<open>operations of the system that make no call of the API\<close>

lemma api_fields [simp]: "w_api (tock w) = w_api w" "w_api (fput p n w) = w_api w" "w_api (fdel p w) = w_api w" "w_api (put_content p c m w) = w_api w"
  by (auto simp: tock_def fput_def fdel_def put_content_def split: option.splits node.splits)

lemma api_calls [api_intro]:
  "frames w_api (read_file p)" "frames w_api (stat p)" "frames w_api (write_file p c m)" "frames w_api (chmod p m)"
  "frames w_api (rename p p')" "frames w_api (remove p)" "frames w_api (remove_all p)" "frames w_api (create_temp d pre)"
  "frames w_api sync_fd" "frames w_api sleep" "frames w_api now_text" "frames w_api (rename_dir p p')"
  unfolding frames_def
  by (auto simp: read_file_def stat_def write_file_def chmod_def rename_def remove_def remove_all_def create_temp_def sync_fd_def sleep_def
      now_text_def rename_dir_def Let_def tock_def fput_def fdel_def put_content_def split: fault.splits option.splits node.splits)

lemma api_run_cmd [api_intro]: "frames w_api (run_cmd argv)"
  unfolding frames_def by (auto simp: run_cmd_def Let_def tock_def split: prod.splits)

lemma api_mkdir [api_intro]: "frames w_api (mkdir_all p m)"
proof -
  have "w_api (fold (\<lambda>d v. if is_dir v d then v else fput d (DirN m 0 0) v) ds w) = w_api w" for ds w
    by (induction ds arbitrary: w) auto
  then show ?thesis unfolding frames_def by (auto simp: mkdir_all_def)
qed

lemma api_modify [api_intro]: "frames w_api (add_changes cs)" "frames w_api (add_warnings ss)" "frames w_api (build_client env)"
  by (auto simp: frames_def add_changes_def add_warnings_def run_simps build_client_def)


lemma api_basic [api_intro]: "frames w_api (asks f)" "frames w_api (nonEmpty p)"
  unfolding nonEmpty_def by (auto intro!: frames_intro api_intro)

lemma api_case_node [frames_intro]:
  "(\<And>c m u g. x = FileN c m u g \<Longrightarrow> frames v (f c m u g)) \<Longrightarrow> (\<And>m u g. x = DirN m u g \<Longrightarrow> frames v (h m u g)) \<Longrightarrow>
   frames v (case x of FileN c m u g \<Rightarrow> f c m u g | DirN m u g \<Rightarrow> h m u g)"
  by (cases x) auto

lemma api_walk [api_intro]: "frames w_api (walk_mismatch p u g)"
  by (auto simp: frames_def walk_mismatch_def)

lemma api_phase_files [api_intro]: "frames w_api (write_phase_files env r p)"
proof -
  have live: "frames w_api (writeLive path c m)" for path c m
    unfolding writeLive_def atomicWrite_def Let_def by (intro frames_intro api_intro)
  have atom: "frames w_api (EnsureFile ap path c m)" for ap path c m
    unfolding EnsureFile_def applyFunc_def writeFileAtomic_def sync_dir_def close_after_def Let_def by (intro frames_intro api_intro)
  have cmd: "frames w_api (Run ap name args)" "frames w_api (RunCapture name args)" for ap name args
    unfolding Run_def RunCapture_def by (intro frames_intro api_intro)+
  have own: "frames w_api (OwnershipSpec_Apply ap s)" for ap s
    unfolding OwnershipSpec_Apply_def resolveIDs_def needsApply_def id_field_def Let_def
    by (intro frames_intro api_intro cmd)
  have spec: "frames w_api (FileSpec_Apply ap s)" for ap s
    unfolding FileSpec_Apply_def EnsureAbsent_def applyFunc_def by (intro frames_intro api_intro atom)
  have sync: "frames w_api (syncSigningCA env r)"
    unfolding syncSigningCA_def EnsureSigningCA_def Let_def by (intro frames_intro api_intro own spec)
  have retired: "frames w_api (RecordRetiredSAKeys ids)" for ids
    unfolding RecordRetiredSAKeys_def LoadRetiredSAKeys_def Let_def by (intro frames_intro api_intro)
  have prepare: "frames w_api (writePrepareFiles env r)"
    unfolding writePrepareFiles_def writeLiveCA_def both_verify_def concatPEM_def capSAVerify_def writeRotatedCAKey_def Let_def
    by (intro frames_intro api_intro live sync retired)
  have cutover: "frames w_api (writeCutoverFiles env r)"
    unfolding writeCutoverFiles_def writeLeaf_def by (intro frames_intro api_intro live sync)
  have finalize: "frames w_api (writeFinalizeFiles env r)"
    unfolding writeFinalizeFiles_def writeLiveCA_def recordRetiredSAKeys_def PublicKeyPEMFile_def Let_def
    by (intro frames_intro api_intro live sync retired)
  have admin: "frames w_api (updateAdminKubeconfig cfg)" for cfg
    unfolding updateAdminKubeconfig_def BuildContent_def readBase64_def EnsureCopy_def Let_def
    by (intro frames_intro api_intro atom)
  have own2: "frames w_api chownCerts" unfolding chownCerts_def by (intro frames_intro cmd)
  show ?thesis unfolding write_phase_files_def by (intro frames_intro prepare cutover finalize admin own2 api_intro)
qed

text \<open>\<open>saw rid p\<close>: among the states this node has read or made, one has the desired phase of the
  rotation at \<open>p\<close> or later. It stays so, since the log of the API only grows.\<close>

definition seen_at :: "string \<Rightarrow> phase \<Rightarrow> api \<Rightarrow> bool" where
  "seen_at rid p a \<longleftrightarrow> (\<exists>(k, k') \<in> set (a_log a). AtLeast (desired_of k' rid) p)"

abbreviation saw :: "string \<Rightarrow> phase \<Rightarrow> node_world \<Rightarrow> bool" where
  "saw rid p w \<equiv> seen_at rid p (w_api w)"

lemma seen_later: "seen_at rid PhaseFinalize a \<Longrightarrow> seen_at rid PhaseCutover a"
proof -
  have "Index PhaseCutover \<le> Index PhaseFinalize" by code_simp
  then have "AtLeast d PhaseFinalize \<Longrightarrow> AtLeast d PhaseCutover" for d by (simp add: AtLeast_def)
  then show "seen_at rid PhaseFinalize a \<Longrightarrow> seen_at rid PhaseCutover a" unfolding seen_at_def by blast
qed

lemma seen_call: "keeps (seen_at rid p) (api_call f)"
  by (rule keepsI) (auto simp: api_call_def seen_at_def Let_def kube_simps split: apifault.splits)

named_theorems seen_intro \<open>calls of the API keep what was seen\<close>

lemma seen_calls [seen_intro]:
  "keeps (seen_at rid p) list_nodes" "keeps (seen_at rid p) get_cm" "keeps (seen_at rid p) (create_cm d)"
  "keeps (seen_at rid p) (update_cm c d)" "keeps (seen_at rid p) (patch_cm k v)" "keeps (seen_at rid p) (annotate_node a b v)"
  "keeps (seen_at rid p) get_lease" "keeps (seen_at rid p) (create_lease l)" "keeps (seen_at rid p) (update_lease l)"
  "keeps (seen_at rid p) (get_flag g)" "keeps (seen_at rid p) (create_flag g h)"
  unfolding list_nodes_def get_cm_def create_cm_def update_cm_def patch_cm_def annotate_node_def get_lease_def create_lease_def
    update_lease_def get_flag_def create_flag_def
  by (rule seen_call)+

lemma seen_nap [seen_intro]: "keeps (seen_at rid p) nap"
  by (rule keepsI) (simp add: nap_def seen_at_def kube_simps)

lemma seen_retry [seen_intro]: "keeps P m \<Longrightarrow> keeps P (RetryOnConflict m)"
proof -
  assume m: "keeps P m"
  have "keeps P (retry_steps n m)" for n
  proof (induction n)
    case (Suc n)
    show ?case
    proof (rule keepsI)
      fix w
      assume p: "P w"
      obtain r w1 where r: "m w = (r, w1)" by (cases "m w")
      from keepsD' [OF m p r] have "P w1" .
      with r keepsD [OF Suc] show "P (snd (retry_steps (Suc n) m w))" by (cases r) auto
    qed
  qed (simp add: m)
  then show ?thesis by (simp add: RetryOnConflict_def)
qed

lemma seen_lock_calls [seen_intro]:
  "keeps (seen_at rid p) (tryAcquireLease h d)" "keeps (seen_at rid p) (releaseLease h)" "keeps (seen_at rid p) (ReportStatus nd ph i)"
  unfolding tryAcquireLease_def releaseLease_def ReportStatus_def by (intro keeps_intro seen_intro)+

lemma seen_report [seen_intro]: "keeps (seen_at rid p) (reportWithRetry r ph)"
proof -
  have "keeps (seen_at rid p) (report_attempts n r ph e)" for n e
    by (induction n arbitrary: e) (auto intro!: keeps_intro seen_intro)
  then show ?thesis by (simp add: reportWithRetry_def)
qed

lemma seen_acquire: "AcquireRestartLock fuel ctx h opts a = Some (x, a') \<Longrightarrow> seen_at rid p a \<Longrightarrow> seen_at rid p a'"
proof -
  have "acquire_loop n h o1 dl a = Some (x, a') \<Longrightarrow> seen_at rid p a \<Longrightarrow> seen_at rid p a'" for n o1 dl a
  proof (induction n arbitrary: a)
    case (Suc n)
    obtain r a1 where t: "tryAcquireLease h (lo_duration o1) a = (r, a1)" by (cases "tryAcquireLease h (lo_duration o1) a")
    have s1: "seen_at rid p a1" using keepsD' [OF seen_lock_calls(1) Suc.prems(2) t] .
    obtain r2 a2 where n: "nap a1 = (r2, a2)" by (cases "nap a1")
    have s2: "seen_at rid p a2" using keepsD' [OF seen_nap s1 n] .
    show ?case using Suc t n s1 s2 by (auto split: sum.splits if_splits bool.splits)
  qed simp
  then show "AcquireRestartLock fuel ctx h opts a = Some (x, a') \<Longrightarrow> seen_at rid p a \<Longrightarrow> seen_at rid p a'"
    by (auto simp: AcquireRestartLock_def Let_def)
qed

lemma ReadProgress_seen: "ReadProgress rid a = (Inr (ph, beat), a') \<Longrightarrow> (ak a', ak a') \<in> set (a_log a')"
  by (auto simp: ReadProgress_def attempt_def get_cm_def api_call_def Let_def run_simps kube_simps
      split: apifault.splits option.splits if_splits sum.splits)

lemma barrier_turn_seen:
  "barrier_turn rid p m opts dl st a = (Return (Inr ()), a') \<Longrightarrow> (ak a', ak a') \<in> set (a_log a')"
  by (auto simp: barrier_turn_def Let_def split: sum.splits prod.splits if_splits option.splits dest: ReadProgress_seen)

lemma barrier_seen:
  assumes "Barrier fuel ctx rid p m opts a = Some (Inr (), a')" "Next p \<noteq> PhaseDone"
  shows "seen_at rid (Next p) a'"
proof -
  have "barrier_loop n rid p m o1 dl st a = Some (Inr (), a') \<Longrightarrow> (ak a', ak a') \<in> set (a_log a')" for n o1 dl st a
  proof (induction n arbitrary: st a)
    case (Suc n)
    obtain t a1 where t: "barrier_turn rid p m o1 dl st a = (t, a1)" by (cases "barrier_turn rid p m o1 dl st a")
    show ?case
    proof (cases t)
      case (Return r)
      with Suc.prems t barrier_turn_seen show ?thesis by auto
    next
      case (Poll st2)
      with Suc t show ?thesis by (auto split: prod.splits sum.splits)
    qed (use Suc t in auto)
  qed simp
  then show ?thesis using assms barrier_loop_ok unfolding Barrier_def Let_def seen_at_def by (fastforce split: if_splits)
qed

lemma seen_barrier: "Barrier fuel ctx rid ph m opts a = Some (x, a') \<Longrightarrow> seen_at i p a \<Longrightarrow> seen_at i p a'"
proof -
  assume a: "Barrier fuel ctx rid ph m opts a = Some (x, a')" "seen_at i p a"
  then consider "a' = a" | n o2 dl st where "barrier_loop n rid ph m o2 dl st a = Some (x, a')"
    by (auto simp: Barrier_def Let_def split: if_splits)
  then show ?thesis
  proof cases
    case 2
    from barrier_loop_log [OF 2] a(2) show ?thesis by (auto simp: seen_at_def)
  qed (use a in simp)
qed

section \<open>What was seen stays seen\<close>

lemma saw_frames: "frames w_api m \<Longrightarrow> keeps (saw rid p) m"
  by (auto simp: frames_def keeps_def)

lemma saw_on_api [seen_intro]: "keeps (seen_at rid p) m \<Longrightarrow> keeps (saw rid p) (on_api m)"
  by (auto intro!: keepsI simp: on_api_def split: prod.splits dest: keepsD')

lemma api_run [api_intro]: "frames w_api (Run ap name args)" "frames w_api (RunCapture name args)"
  unfolding Run_def RunCapture_def by (intro frames_intro api_intro)+

lemma api_succeeds [api_intro]: "frames w_api m \<Longrightarrow> frames w_api (succeeds m)"
  unfolding succeeds_def by (intro frames_intro)

lemma api_poll [api_intro]: "frames w_api c \<Longrightarrow> frames w_api (poll k c)"
  by (induction k) (auto intro!: frames_intro api_intro)

lemma api_active [api_intro]: "frames w_api (SystemctlIsActive u)"
  unfolding SystemctlIsActive_def by (intro frames_intro api_intro)

lemma api_quorum [api_intro]: "frames w_api waitForEtcdQuorum"
  unfolding waitForEtcdQuorum_def etcdLocalHealthy_def by (intro frames_intro api_intro)

lemma api_healthz [api_intro]: "frames w_api (healthz_streak k s)"
  by (induction k arbitrary: s) (auto intro!: frames_intro api_intro)

lemma api_healthy [api_intro]: "frames w_api (waitForHealthy cfg)"
  unfolding waitForHealthy_def by (intro frames_intro api_intro)

lemma api_count [frames_intro]: "(\<And>x. frames v (f x)) \<Longrightarrow> frames v (count_failures xs f)"
  by (induction xs) (auto intro!: frames_intro)

lemma api_namespaces [api_intro]: "frames w_api (list_namespaces k e)"
  by (induction k arbitrary: e) (auto intro!: frames_intro api_intro)

lemma api_patch [api_intro]: "frames w_api (patchWorkloads env rid)"
  unfolding patchWorkloads_def caRolloutStamp_def patch_kind_def patch_namespace_def
  by (intro frames_intro api_intro)

lemma api_SaveState [api_intro]: "frames w_api (SaveState s)"
  unfolding SaveState_def Let_def by (intro frames_intro api_intro)

lemma api_complete [api_intro]: "frames w_api (complete_rotation r s)" "frames w_api (park r)"
  unfolding complete_rotation_def WriteMarker_def recordFinalized_def readFinalized_def ignoring_def park_def result_of_def Let_def
  by (intro frames_intro api_intro)+

lemma active_loop_api: "active_loop k (SystemctlIsActive u) dl sf since w = Some (b, w') \<Longrightarrow> w_api w' = w_api w"
proof (induction k arbitrary: since w)
  case (Suc k)
  obtain r w1 where c: "SystemctlIsActive u w = (r, w1)" by (cases "SystemctlIsActive u w")
  from framesD [OF api_active c] have "w_api w1 = w_api w" .
  moreover have "w_api (snd (sleep w1)) = w_api w1" by (simp add: sleep_def)
  ultimately show ?case using Suc.IH Suc.prems c by (auto simp: Let_def split: if_splits)
qed simp

lemma saw_wait_active [seen_intro]: "stays (saw rid p) (wait_active env svc t i)"
  unfolding stays_def wait_active_def until_active_def WaitForSystemctlActive_def waitForActiveState_def Let_def
  by (auto split: option.splits dest!: active_loop_api)

lemma saw_restart [seen_intro]: "stays (saw rid p) (restartAndWait env r)"
  unfolding restartAndWait_def by (intro stays_intro seen_intro saw_frames frames_intro api_intro)

lemma saw_locked_restart [seen_intro]: "stays (saw rid p) (locked_restart env r c)"
proof -
  have "stays (saw rid p) (on_api_run (AcquireRestartLock fuel ctx h opts))" for fuel ctx h opts
    by (auto simp: stays_def on_api_run_def split: option.splits prod.splits dest: seen_acquire)
  then show ?thesis unfolding locked_restart_def
    by (intro stays_intro seen_intro saw_frames frames_intro api_intro) 
qed

lemma saw_runPhase [seen_intro]: "stays (saw rid p) (runPhase env r c ph)"
  unfolding runPhase_def by (intro stays_intro) (intro seen_intro saw_frames api_intro frames_intro)+

lemma saw_barrier [seen_intro]: "stays (saw rid p) (on_api_run (Barrier fuel ctx i ph m opts))"
  by (auto simp: stays_def on_api_run_def split: option.splits prod.splits dest: seen_barrier)

lemma saw_protocol_step [seen_intro]: "stays (saw rid p) (protocol_step env r c step)"
  unfolding protocol_step_def by (intro stays_intro seen_intro saw_frames frames_intro api_intro)

lemma saw_hold [seen_intro]: "stays (saw rid p) (hold_here c s)"
  unfolding stays_def hold_here_def RotationHoldActive_def
  by (auto split: if_splits prod.splits sum.splits option.splits dest: keepsD' [OF seen_calls(1)])

lemma saw_steps [seen_intro]: "stays (saw rid p) (protocol_steps env r c steps)"
  by (induction steps arbitrary: c) (auto intro!: stays_intro seen_intro keeps_intro saw_frames api_intro frames_intro)

section \<open>The gates\<close>

lemma phase_order [simp]:
  "PhasePrepare \<noteq> PhaseFinalize" "PhaseCutover \<noteq> PhaseFinalize" "PhasePrepare \<noteq> PhaseCutover" "PhaseFinalize \<noteq> PhasePrepare"
  "PhaseFinalize \<noteq> PhaseCutover" "PhaseCutover \<noteq> PhasePrepare"
  "Next PhasePrepare = PhaseCutover" "Next PhaseCutover = PhaseFinalize" "PhaseCutover \<noteq> PhaseDone" "PhaseFinalize \<noteq> PhaseDone"
  by code_simp+

lemma stepped:
  assumes "protocol_step env r c step w = Some (Inr c', w')" "step \<noteq> PhaseFinalize" "Next step \<noteq> PhaseDone"
  shows "saw (rn_id r) (Next step) w'"
proof -
  from assms(1) obtain c1 w1 where 1: "rthen (if step \<noteq> PhaseFinalize then on_api_run (Barrier (v_fuel env) (v_ctx env) (rn_id r) step (rn_master r) barrier_opts0) else now (ret ()))
      (\<lambda>_. rthen (if step = PhaseCutover \<and> rn_master r then now (patchWorkloads env (rn_id r)) else now (ret ())) (\<lambda>_. now (ret c1))) w1 = Some (Inr c', w')"
    unfolding protocol_step_def
  proof (cases rule: rthen_cases)
    case (ok c1 w1)
    then show thesis using that by blast
  qed simp
  from 1 obtain w2 where b: "on_api_run (Barrier (v_fuel env) (v_ctx env) (rn_id r) step (rn_master r) barrier_opts0) w1 = Some (Inr (), w2)"
    and rest: "rthen (if step = PhaseCutover \<and> rn_master r then now (patchWorkloads env (rn_id r)) else now (ret ())) (\<lambda>_. now (ret c1)) w2 = Some (Inr c', w')"
  proof (cases rule: rthen_cases)
    case (ok u w2)
    then show thesis using that assms(2) by simp
  qed simp
  from b have "saw (rn_id r) (Next step) w2"
    by (auto simp: on_api_run_def split: option.splits prod.splits dest: barrier_seen [OF _ assms(3)])
  moreover have "stays (saw (rn_id r) (Next step)) (rthen (if step = PhaseCutover \<and> rn_master r then now (patchWorkloads env (rn_id r)) else now (ret ())) (\<lambda>_. now (ret c1)))"
    by (intro stays_intro saw_frames api_intro frames_intro)
  ultimately show ?thesis using rest staysD by fast
qed

text \<open>What a run of the steps keeps: what the prepare step keeps, until the barrier after it has
  been passed; what the first two steps keep, until the barrier after cutover has been passed.\<close>

lemma early_step: "step \<noteq> PhaseFinalize \<Longrightarrow> protocol_steps env r c (step # steps) = rthen (protocol_step env r c step) (\<lambda>c'. protocol_steps env r c' steps)"
  by (rule ext) (simp add: rthen_def hold_here_def)

lemma gate_cutover:
  assumes run: "protocol_steps env r c [PhasePrepare, PhaseCutover, PhaseFinalize] w = Some (x, w')"
    and P: "P w" "\<And>c. stays P (protocol_step env r c PhasePrepare)"
  shows "P w' \<or> saw (rn_id r) PhaseCutover w'"
proof -
  from run have "rthen (protocol_step env r c PhasePrepare) (\<lambda>c'. protocol_steps env r c' [PhaseCutover, PhaseFinalize]) w = Some (x, w')"
    by (simp only: early_step phase_order not_False_eq_True)
  then show ?thesis
  proof (cases rule: rthen_cases)
    case (fail e)
    from staysD [OF P(2,1) fail(1)] show ?thesis by simp
  next
    case (ok c1 w1)
    from stepped [OF ok(1)] have "saw (rn_id r) PhaseCutover w1" by simp
    from staysD [OF saw_steps this ok(2)] show ?thesis by simp
  qed
qed

lemma gate_finalize:
  assumes run: "protocol_steps env r c [PhasePrepare, PhaseCutover, PhaseFinalize] w = Some (x, w')"
    and P: "P w" "\<And>c. stays P (protocol_step env r c PhasePrepare)" "\<And>c. stays P (protocol_step env r c PhaseCutover)"
  shows "P w' \<or> saw (rn_id r) PhaseFinalize w'" "x = Inr None \<Longrightarrow> saw (rn_id r) PhaseFinalize w'"
proof -
  from run have "rthen (protocol_step env r c PhasePrepare) (\<lambda>c'. rthen (protocol_step env r c' PhaseCutover) (\<lambda>c'. protocol_steps env r c' [PhaseFinalize])) w = Some (x, w')"
    by (simp only: early_step phase_order not_False_eq_True)
  then have "(P w' \<and> (\<exists>e. x = Inl e)) \<or> saw (rn_id r) PhaseFinalize w'"
  proof (cases rule: rthen_cases)
    case (fail e)
    from staysD [OF P(2,1) fail(1)] fail show ?thesis by simp
  next
    case (ok c1 w1)
    from staysD [OF P(2,1) ok(1)] have P1: "P w1" .
    from ok(2) show ?thesis
    proof (cases rule: rthen_cases)
      case (fail e)
      from staysD [OF P(3) P1 fail(1)] fail show ?thesis by simp
    next
      case (ok c2 w2)
      from stepped [OF ok(1)] have "saw (rn_id r) PhaseFinalize w2" by simp
      from staysD [OF saw_steps this ok(2)] show ?thesis by simp
    qed
  qed
  then show "P w' \<or> saw (rn_id r) PhaseFinalize w'" "x = Inr None \<Longrightarrow> saw (rn_id r) PhaseFinalize w'" by auto
qed

section \<open>What a run does to the files\<close>

lemma stays_begin: "live q \<Longrightarrow> stays (holds q n) (begin_run env r resumed)"
  unfolding begin_run_def Let_def by (intro stays_intro keeps_intro spare_intro)

lemma stays_asks: "stays P (now (asks f))"
  by (auto simp: stays_def run_simps)

lemma saw_finish: "stays (saw rid p) (finish_run env r)"
  unfolding finish_run_def result_of_def by (intro stays_intro saw_frames api_intro frames_intro)

lemma spare_step:
  "p \<noteq> PhaseCutover \<Longrightarrow> live q \<Longrightarrow> q \<notin> anchor_files \<Longrightarrow> stays (holds q n) (protocol_step env r c p)"
  by (intro stays_protocol_step spare_intro spare_phase_files) (auto simp: live_D)

text \<open>C2: in a coordinated run, whatever calls fail and wherever it is cut off, no live file but
  the trust anchors and kubeconfigs changes (no leaf certificate, no leaf key, no signing key)
  unless the node has seen the cluster at the cutover phase, past the barrier after prepare.\<close>

theorem serving_after_prepare:
  assumes run: "coordinated_run env r resumed w = Some (res, w')"
    and q: "live q" "q \<notin> anchor_files" "holds q n w"
  shows "holds q n w' \<or> saw (rn_id r) PhaseCutover w'"
  using run unfolding coordinated_run_def
proof (cases rule: rthen_cases)
  case (fail e)
  from staysD [OF stays_begin [OF q(1)] q(3) fail(1)] show ?thesis by simp
next
  case (ok b w1)
  from staysD [OF stays_begin [OF q(1)] q(3) ok(1)] have h: "holds q n w1" .
  have st: "stays (holds q n) (protocol_step env r c PhasePrepare)" for c by (rule spare_step) (simp_all add: q)
  show ?thesis
  proof (cases b)
    case None
    with ok(2) h show ?thesis by (auto simp: run_simps)
  next
    case (Some c)
    from ok(2) [unfolded Some option.case] show ?thesis
    proof (cases rule: rthen_cases)
      case (fail e)
      from gate_cutover [OF fail(1) h st] show ?thesis .
    next
      case (ok parked w2)
      from gate_cutover [OF ok(1) h st] have g: "holds q n w2 \<or> saw (rn_id r) PhaseCutover w2" .
      show ?thesis
      proof (cases parked)
        case None
        from gate_finalize(2) [OF ok(1), of "\<lambda>_. True"] None have "saw (rn_id r) PhaseFinalize w2" by (simp add: stays_def)
        then have "saw (rn_id r) PhaseCutover w2" by (rule seen_later)
        from staysD [OF saw_finish this] ok(2) None show ?thesis by auto
      qed (use ok(2) g in \<open>auto simp: run_simps\<close>)
    qed
  qed
qed

text \<open>The same for the trust anchor, where prepare writes the staged bundle.\<close>

abbreviation bundle_file :: "string \<Rightarrow> string" where "bundle_file rid \<equiv> pjoin (BundleDir rid) ''ca.crt''"

definition old_or_both :: "string \<Rightarrow> string \<Rightarrow> string \<Rightarrow> string \<Rightarrow> 'z os_scheme \<Rightarrow> bool" where
  "old_or_both rid q c0 b w \<longleftrightarrow> allows q {c0, b} w \<and> allows (bundle_file rid) {b} w"

lemma bundle_path: "bundle_file rid = ''/var/lib/magnum/ca-rotation/'' @ rid @ ''/bundle/ca.crt''"
  by (simp add: BundleDir_def StagingDir_def baseDir_def pjoin_def)

lemma bundle_last: "last (bundle_file rid) = CHR ''t''"
  by (simp add: pjoin_def)

lemma bundle_settled: "settled (bundle_file rid)"
  using bundle_last [of rid] by (auto simp: settled_def has_suffix_iff suffix_def)

lemma bundle_not_var: "bundle_file rid \<noteq> ''/etc'' @ s"
  by (simp add: bundle_path)

lemma bundle_not_retired: "bundle_file rid \<noteq> RetiredSAKeysPath"
proof
  assume "bundle_file rid = RetiredSAKeysPath"
  then have "last (bundle_file rid) = last RetiredSAKeysPath" by simp
  moreover have "last RetiredSAKeysPath = CHR ''s''" by (simp add: RetiredSAKeysPath_def baseDir_def pjoin_def)
  ultimately show False using bundle_last [of rid] by simp
qed

lemma bundle_no_anchor: "bundle_file rid \<notin> anchor_files"
  using bundle_not_retired [of rid]
  by (auto simp: bundle_path anchor_files_def trust_files_def SigningCACertPath_def)

lemma bundle_not_serving: "bundle_file rid \<notin> serving_files"
  by (auto simp: bundle_path serving_files_def)

lemma SaveState_bundle: "keeps (holds (bundle_file rid) n) (SaveState s)"
proof -
  have ne: "bundle_file rid \<noteq> statePath i" "bundle_file rid \<noteq> statePath i @ ''.tmp''" for i
  proof -
    have "last (statePath i) = CHR ''e'' \<or> last (statePath i) = CHR ''n''" "last (statePath i @ ''.tmp'') = CHR ''p''"
      by (simp_all add: statePath_def pjoin_def)
    with bundle_last [of rid] show "bundle_file rid \<noteq> statePath i" "bundle_file rid \<noteq> statePath i @ ''.tmp''" by auto
  qed
  then show ?thesis unfolding SaveState_def Let_def by (intro keeps_intro spare_intro)
qed

lemma trust_live: "q \<in> trust_files \<Longrightarrow> live q" "q \<in> trust_files \<Longrightarrow> q \<notin> serving_files" "q \<in> trust_files \<Longrightarrow> q \<notin> {adminConf, rootKube}"
  "q \<in> trust_files \<Longrightarrow> q \<noteq> certDir @ ''/service_account.key''" "q \<in> trust_files \<Longrightarrow> q \<noteq> certDir @ ''/ca.key''"
  "q \<in> trust_files \<Longrightarrow> q \<noteq> SigningCACertPath" "q \<in> trust_files \<Longrightarrow> q \<noteq> RetiredSAKeysPath"
proof -
  assume q: "q \<in> trust_files"
  then show "live q" by (auto simp: trust_files_def live_def settled_def has_prefix_def has_suffix_iff suffix_def)
  show "q \<notin> serving_files" using q by (auto simp: trust_files_def serving_files_def leafFiles_def leafNames_def)
qed (auto simp: trust_files_def SigningCACertPath_def RetiredSAKeysPath_def baseDir_def pjoin_def)

lemma keeps_both: "(\<And>n. keeps (holds q n) m) \<Longrightarrow> (\<And>n. keeps (holds (bundle_file rid) n) m) \<Longrightarrow> keeps (old_or_both rid q c0 b) m"
  unfolding old_or_both_def [abs_def] by (intro keeps_conj keeps_allows)

lemma stays_both: "(\<And>n. stays (holds q n) m) \<Longrightarrow> (\<And>n. stays (holds (bundle_file rid) n) m) \<Longrightarrow> stays (old_or_both rid q c0 b) m"
  unfolding old_or_both_def [abs_def] by (intro stays_conj stays_allows)

lemma both_writeLive: "q \<noteq> bundle_file rid \<Longrightarrow> keeps (old_or_both rid q c0 b) (writeLive q b m)"
  unfolding old_or_both_def [abs_def]
  by (intro keeps_conj allows_writeLive keeps_allows [OF spare_writeLive] bundle_settled) auto

lemma both_writeLiveCA:
  assumes q: "q \<in> trust_files"
  shows "keeps (old_or_both rid q c0 b) (writeLiveCA r b)"
proof -
  have "keeps (old_or_both rid q c0 b) (writeLive p b m)" if "p \<in> trust_files" for p m
  proof (cases "p = q")
    case True
    have "q \<noteq> bundle_file rid" using q bundle_no_anchor [of rid] by (auto simp: anchor_files_def)
    from both_writeLive [OF this] True show ?thesis by simp
  next
    case False
    have "bundle_file rid \<noteq> p" using that bundle_no_anchor [of rid] by (auto simp: anchor_files_def)
    with False show ?thesis
      by (intro keeps_both spare_writeLive bundle_settled live_D(1) [OF trust_live(1) [OF q]]) auto
  qed
  then show ?thesis unfolding writeLiveCA_def by (intro keeps_intro) (auto simp: trust_files_def)
qed

lemma both_prepare:
  assumes q: "q \<in> trust_files"
  shows "keeps (old_or_both (rn_id r) q c0 b) (writePrepareFiles env r)"
  unfolding writePrepareFiles_def
proof (rule keeps_andthen_val [where ok = "\<lambda>x. x = b"])
  show "keeps (old_or_both (rn_id r) q c0 b) (wrapping ''ca-rotation: read bundle'' (read_file (bundle_file (rn_id r))))"
    by (intro keeps_both keeps_intro spare_intro)
next
  fix x w w'
  assume "old_or_both (rn_id r) q c0 b w" "wrapping ''ca-rotation: read bundle'' (read_file (bundle_file (rn_id r))) w = (Inr x, w')"
  then show "x = b" by (auto simp: old_or_both_def allows_def wrapping_def read_file_ok split: prod.splits sum.splits)
next
  fix x assume x: "x = b"
  show "keeps (old_or_both (rn_id r) q c0 b) (andthen (writeLiveCA r x) (\<lambda>_.
     andthen (if \<not> rn_master r then ret () else
       andthen (both_verify r) (\<lambda>verify. andthen (capSAVerify env verify) (\<lambda>capped.
       andthen (writeLive (certDir @ ''/service_account.key'') capped o440) (\<lambda>_. writeRotatedCAKey env r)))) (\<lambda>_.
     syncSigningCA env r)))"
    unfolding x
  proof (rule keeps_andthen [OF both_writeLiveCA [OF q]], rule keeps_both)
    fix n
    note b = anchor_files_simps [OF bundle_no_anchor, of "rn_id r"]
    show "keeps (holds q n) (andthen (if \<not> rn_master r then ret () else
       andthen (both_verify r) (\<lambda>verify. andthen (capSAVerify env verify) (\<lambda>capped.
       andthen (writeLive (certDir @ ''/service_account.key'') capped o440) (\<lambda>_. writeRotatedCAKey env r)))) (\<lambda>_.
     syncSigningCA env r))"
      unfolding both_verify_def writeRotatedCAKey_def
      by (intro keeps_intro spare_intro spare_writeLive trust_live [OF q] live_D(1) [OF trust_live(1) [OF q]])
    show "keeps (holds (bundle_file (rn_id r)) n) (andthen (if \<not> rn_master r then ret () else
       andthen (both_verify r) (\<lambda>verify. andthen (capSAVerify env verify) (\<lambda>capped.
       andthen (writeLive (certDir @ ''/service_account.key'') capped o440) (\<lambda>_. writeRotatedCAKey env r)))) (\<lambda>_.
     syncSigningCA env r))"
      unfolding both_verify_def writeRotatedCAKey_def
      by (intro keeps_intro spare_intro spare_writeLive bundle_settled) (use b in auto)
  qed
qed

text \<open>The steps up to the barrier after cutover keep that.\<close>

lemma both_write:
  assumes q: "q \<in> trust_files" and p: "p = PhasePrepare \<or> p = PhaseCutover"
  shows "keeps (old_or_both (rn_id r) q c0 b) (write_phase_files env r p)"
proof (cases "p = PhasePrepare")
  case True
  have "keeps (old_or_both (rn_id r) q c0 b) (if \<not> rn_master r then ret () else
       andthen (updateAdminKubeconfig (rn_cfg r)) (\<lambda>cs. andthen (add_changes cs) (\<lambda>_. chownCerts)))"
    by (intro keeps_both keeps_intro spare_intro spare_admin trust_live [OF q]) (use anchor_files_simps [OF bundle_no_anchor, of "rn_id r"] in auto)
  then show ?thesis unfolding write_phase_files_def True
    by (simp only: if_True refl) (rule keeps_andthen [OF both_prepare [OF q]])
next
  case False
  with p have "p \<noteq> PhasePrepare" "p \<noteq> PhaseFinalize" by auto
  then show ?thesis
    by (intro keeps_both spare_phase_files(2))
      (use q trust_live [OF q] live_D(1) [OF trust_live(1) [OF q]] bundle_settled bundle_not_serving anchor_files_simps [OF bundle_no_anchor, of "rn_id r"] in auto)
qed

lemma stays_trust: "q \<in> trust_files \<Longrightarrow> (\<And>x n. x = bundle_file rid \<or> live x \<Longrightarrow> stays (holds x n) m) \<Longrightarrow> stays (old_or_both rid q c0 b) m"
  by (rule stays_both) (auto dest: trust_live(1))

lemma save_trust: "x = bundle_file rid \<or> live x \<Longrightarrow> keeps (holds x n) (SaveState s)"
  using SaveState_bundle spare_save_live by blast

lemma both_run:
  assumes q: "q \<in> trust_files" and p: "p = PhasePrepare \<or> p = PhaseCutover"
  shows "stays (old_or_both (rn_id r) q c0 b) (runPhase env r True p)"
  unfolding runPhase_def
proof (rule stays_rthen [OF stays_now [OF both_write [OF q p]]], rule stays_trust [OF q])
  fix x n
  assume x: "x = bundle_file (rn_id r) \<or> live x"
  show "stays (holds x n) (rthen (locked_restart env r True) (\<lambda>_. rthen (if \<not> True then now (ret ())
     else rthen (now (build_client env)) (\<lambda>_. now (on_api (reportWithRetry r p)))) (\<lambda>_. now (SaveState (stateFor r p)))))"
    by (rule stays_intro keeps_intro save_trust [OF x] spare_on_api spare_build_client)+
qed

lemma both_step:
  assumes q: "q \<in> trust_files" and p: "p = PhasePrepare \<or> p = PhaseCutover"
  shows "stays (old_or_both (rn_id r) q c0 b) (protocol_step env r c p)"
proof -
  have "stays (old_or_both (rn_id r) q c0 b) (rthen (if p \<noteq> PhaseFinalize then on_api_run (Barrier (v_fuel env) (v_ctx env) (rn_id r) p (rn_master r) barrier_opts0) else now (ret ())) (\<lambda>_.
     rthen (if p = PhaseCutover \<and> rn_master r then now (patchWorkloads env (rn_id r)) else now (ret ())) (\<lambda>_. now (ret c'))))" for c'
    by (rule stays_trust [OF q]) (intro stays_intro keeps_intro spare_patch)
  moreover have "stays (old_or_both (rn_id r) q c0 b) (if \<not> AtLeast c p then rthen (runPhase env r True p) (\<lambda>_. now (ret p)) else now (ret c))"
    by (intro stays_intro keeps_intro both_run [OF q p])
  ultimately show ?thesis unfolding protocol_step_def by (rule stays_rthen [rotated])
qed

text \<open>Once the run has begun, the bundle of the rotation is there.\<close>

lemma buildBundle_file: "buildBundle env rid w = (Inr x, w') \<Longrightarrow> \<exists>b. content w' (bundle_file rid) = Some b"
  unfolding buildBundle_def
  by (auto simp: andthen_def Let_def split: prod.splits sum.splits dest: write_file_content)

lemma ensureStaged_file: "ensureStaged env r w = (Inr x, w') \<Longrightarrow> \<exists>b. content w' (bundle_file (rn_id r)) = Some b"
  unfolding ensureStaged_def by (auto simp: andthen_def split: prod.splits sum.splits dest: buildBundle_file)

lemma ignored_content: "ignoring (on_api m) w = (x, w') \<Longrightarrow> content w' q = content w q"
  by (auto simp: ignoring_def attempt_def on_api_def run_simps content_def fget_def split: prod.splits)

lemma begin_run_file:
  assumes "begin_run env r resumed w = Some (Inr (Some c), w')"
  shows "\<exists>b. content w' (bundle_file (rn_id r)) = Some b"
  using assms unfolding begin_run_def
  by (auto simp: Let_def run_simps elim!: rthen_cases split: if_splits dest!: ensureStaged_file) (metis ignored_content)


section \<open>A node that cannot reach the API\<close>

definition trust_world :: node_world where
  "trust_world = os.extend (calm_os\<lparr>files := [(''/etc'', DirN 493 0 0), (''/etc/kubernetes'', DirN 493 0 0), (certDir, DirN 493 0 0),
     (certDir @ ''/ca.crt'', FileN ''CA'' 292 0 0), (certDir @ ''/kubelet.crt'', FileN ''leaf'' 292 0 0)]\<rparr>)
     \<lparr>w_api = quiet_api demo_kube, w_changes = [], w_warnings = []\<rparr>"

definition cut_env :: "(string, string) rot_env" where
  "cut_env = \<lparr>v_x509 = toy_x509, v_signer = \<lparr>gen_key = (\<lambda>_. None), make_csr = (\<lambda>_ _ _. None)\<rparr>, v_net = (\<lambda>_ _. None), v_meta = (\<lambda>_. None),
     v_ip = None, v_mtime = (\<lambda>_. None), v_env = (\<lambda>_. []), v_client = (\<lambda>_. False), v_ctx = \<lparr>ctx_deadline = None\<rparr>, v_fuel = 9\<rparr>"

abbreviation cut_off :: "(Result result \<times> node_world) option" where
  "cut_off \<equiv> coordinated_run cut_env \<lparr>rn_cfg = conf_cfg, rn_id = ''r9''\<rparr> False trust_world"

lemma cut_run: obtains w' where "cut_off = Some (Inl (Wrap ''ca-rotation: build coordinator'' IOErr), w')"
proof -
  have "fst (LoadState ''r9'' trust_world) = Inr zero_state" by code_simp
  then obtain w1 where "LoadState ''r9'' trust_world = (Inr zero_state, w1)" by (metis prod.collapse)
  then show ?thesis using that
    by (simp add: coordinated_run_def begin_run_def rthen_def now_def build_client_def cut_env_def wrapping_def Let_def)
qed

theorem serving_after_prepare_witness:
  "\<exists>e w'. cut_off = Some (Inl e, w') \<and> (content w' (certDir @ ''/kubelet.crt'') = Some ''leaf'' \<or> saw ''r9'' PhaseCutover w')"
proof -
  let ?n = "FileN ''leaf'' 292 0 0"
  obtain w' where run: "cut_off = Some (Inl (Wrap ''ca-rotation: build coordinator'' IOErr), w')" by (rule cut_run)
  have h: "holds (certDir @ ''/kubelet.crt'') ?n trust_world" by (simp add: holds_def regular_def fget_def trust_world_def os.defs)
  have l: "live (certDir @ ''/kubelet.crt'')" "certDir @ ''/kubelet.crt'' \<notin> anchor_files"
    by (auto simp: live_def settled_def has_prefix_def has_suffix_iff suffix_def anchor_files_def trust_files_def SigningCACertPath_def
        RetiredSAKeysPath_def baseDir_def pjoin_def)
  from serving_after_prepare [OF run l h] have "holds (certDir @ ''/kubelet.crt'') ?n w' \<or> saw ''r9'' PhaseCutover w'" by simp
  then have "content w' (certDir @ ''/kubelet.crt'') = Some ''leaf'' \<or> saw ''r9'' PhaseCutover w'" using holds_content by fastforce
  with run show ?thesis by blast
qed


end
