(* ===== verification/EtcdText.thy ===== *)
theory EtcdText
  imports IpText Phases Json Certs
begin

text \<open>
  The pure part of internal/module/etcd-config (module.go and day2.go): image tags and which of
  them a unit file may be rendered with, the rows of \<open>etcdctl member list\<close>, which row is this node,
  which endpoint can promote it, what an error of etcdctl means, the configuration file, and the
  day-2 thresholds. A URL is split as net/url does it; a URL with a percent sign, which would need
  decoding, has no host here. The fragmentation ratio is compared as a fraction, which agrees with
  the 64-bit floats of the code for databases below 2^51 bytes. Host names are folded as ASCII.
\<close>

section \<open>Image tags\<close>

definition etcdImageTags :: version_map where
  "etcdImageTags = [(''1.35'', ''3.6.10-0'')]"

definition etcdTag :: "Config \<Rightarrow> string" where
  "etcdTag cfg = LookupByKubeVersion etcdImageTags (KubeTag (Shared cfg))"

text \<open>The expression etcd:(v?[0-9]+\.[0-9]+\.[0-9][^"\s]*), leftmost match.\<close>

definition tag_char :: "char \<Rightarrow> bool" where
  "tag_char c \<longleftrightarrow> c \<noteq> CHR 0x22 \<and> (of_char c :: nat) \<notin> {9, 10, 12, 13, 32}"

definition tag_here :: "string \<Rightarrow> string option" where
  "tag_here s = (let t = trim_prefix s ''v''; a = takeWhile is_digit t; r = dropWhile is_digit t;
       b = takeWhile is_digit (tl r); u = dropWhile is_digit (tl r) in
     if a \<noteq> [] \<and> has_prefix r ''.'' \<and> b \<noteq> [] \<and> has_prefix u ''.'' \<and> (case tl u of [] \<Rightarrow> False | c # _ \<Rightarrow> is_digit c)
     then Some ((if has_prefix s ''v'' then ''v'' else []) @ a @ ''.'' @ b @ ''.'' @ takeWhile tag_char (tl u)) else None)"

fun find_tag :: "string \<Rightarrow> string" where
  "find_tag [] = []"
| "find_tag (c # s) = (if has_prefix (c # s) ''etcd:'' then (case tag_here (drop 5 (c # s)) of Some t \<Rightarrow> t | None \<Rightarrow> find_tag s)
     else find_tag s)"

abbreviation (input) etcdUnitPath :: string where "etcdUnitPath \<equiv> ''/etc/systemd/system/etcd.service''"
abbreviation (input) etcdConfPath :: string where "etcdConfPath \<equiv> ''/etc/etcd/etcd.conf.yaml''"
abbreviation (input) etcdCerts :: string where "etcdCerts \<equiv> ''/etc/etcd/certs''"

definition currentEtcdUnitTag :: "('z os_scheme, string) io" where
  "currentEtcdUnitTag = attempt (read_file etcdUnitPath) (\<lambda>r. ret (case r of Inl _ \<Rightarrow> [] | Inr d \<Rightarrow> find_tag d))"

definition etcdTagMajorMinor :: "string \<Rightarrow> (int \<times> int) option" where
  "etcdTagMajorMinor tag = (case split_on (CHR ''.'') (trim_prefix (trim_space tag) ''v'') of
     a # b # _ \<Rightarrow> (case (atoi a, atoi b) of (Some major, Some minor) \<Rightarrow> Some (major, minor) | _ \<Rightarrow> None)
   | _ \<Rightarrow> None)"

text \<open>Which tag to render when \<open>current\<close> is installed and \<open>desired\<close> is wanted, and whether the
  step is refused. The difference of the minors is a 64-bit int.\<close>

definition render_tag :: "string \<Rightarrow> string \<Rightarrow> string \<times> bool" where
  "render_tag current desired = (if current = [] \<or> current = desired then (desired, False)
     else case (etcdTagMajorMinor current, etcdTagMajorMinor desired) of
       (Some (cMaj, cMin), Some (dMaj, dMin)) \<Rightarrow>
         if cMaj > dMaj \<or> (cMaj = dMaj \<and> cMin > dMin) then (current, False)
         else if dMaj \<noteq> cMaj \<or> sint (word_of_int (dMin - cMin) :: 64 word) \<ge> 2 then (current, True)
         else (desired, False)
     | _ \<Rightarrow> (desired, False))"

definition resolveEtcdRenderTag :: "Config \<Rightarrow> ('z os_scheme, string \<times> bool) io" where
  "resolveEtcdRenderTag cfg = andthen currentEtcdUnitTag (\<lambda>current. ret (render_tag current (etcdTag cfg)))"

definition last_index :: "char \<Rightarrow> string \<Rightarrow> nat option" where
  "last_index c s = (if c \<in> set s then Some (length s - 1 - length (takeWhile (\<lambda>x. x \<noteq> c) (rev s))) else None)"

definition desiredEtcdctlVersion :: "Config \<Rightarrow> string" where
  "desiredEtcdctlVersion cfg = (let v = trim_prefix (etcdTag cfg) ''v'' in
     case last_index (CHR ''-'') v of Some i \<Rightarrow> if i > 0 then take i v else v | None \<Rightarrow> v)"

section \<open>URLs\<close>

definition scheme_char :: "char \<Rightarrow> bool" where
  "scheme_char c \<longleftrightarrow> is_alnum c \<or> c \<in> set ''+-.''"

text \<open>The text after the scheme, if the URL starts well.\<close>

definition after_scheme :: "string \<Rightarrow> (bool \<times> string) option" where
  "after_scheme s = (let a = takeWhile scheme_char s; r = dropWhile scheme_char s in
     if a = [] then (if has_prefix s '':'' then None else Some (False, s))
     else if is_digit (hd a) \<or> hd a \<in> set ''+-.'' then Some (False, s)
     else if has_prefix r '':'' then Some (True, tl r) else Some (False, s))"

definition userinfo_char :: "char \<Rightarrow> bool" where
  "userinfo_char c \<longleftrightarrow> is_alnum c \<or> c \<in> set ''-._:~!$&()*+,;=%@'' \<or> c = CHR 0x27"

definition valid_port :: "string \<Rightarrow> bool" where
  "valid_port p \<longleftrightarrow> p = [] \<or> (hd p = CHR '':'' \<and> list_all is_digit (tl p))"

text \<open>Characters that net/url refuses in a host.\<close>

definition host_char :: "char \<Rightarrow> bool" where
  "host_char c \<longleftrightarrow> is_alnum c \<or> (of_char c :: nat) \<ge> 128 \<or> c \<in> set ''-_.~!$&()*+,;=:[]<>'' \<or> c = CHR 0x27 \<or> c = CHR 0x22"

definition parse_host :: "string \<Rightarrow> string option" where
  "parse_host h = (let port = (if has_prefix h ''['' then (case last_index (CHR '']'') h of None \<Rightarrow> None | Some i \<Rightarrow> Some (drop (i + 1) h))
         else (case last_index (CHR '':'') h of None \<Rightarrow> Some [] | Some i \<Rightarrow> Some (drop i h))) in
     case port of None \<Rightarrow> None | Some p \<Rightarrow> if valid_port p \<and> list_all host_char h then Some h else None)"

text \<open>url.Parse(s).Host when the parse succeeds.\<close>

definition url_host :: "string \<Rightarrow> string option" where
  "url_host s = (if list_ex (\<lambda>c. (of_char c :: nat) < 32 \<or> c = CHR 0x7F \<or> c = CHR ''%'') s then None
     else let u = takeWhile (\<lambda>c. c \<noteq> CHR ''#'') s in
       case after_scheme u of None \<Rightarrow> None | Some (schemed, rest0) \<Rightarrow>
         let rest = takeWhile (\<lambda>c. c \<noteq> CHR ''?'') rest0 in
         if has_prefix rest ''//'' \<and> (schemed \<or> \<not> has_prefix rest ''///'') then
           (let auth = takeWhile (\<lambda>c. c \<noteq> CHR ''/'') (drop 2 rest) in
            case last_index (CHR ''@'') auth of None \<Rightarrow> parse_host auth
            | Some i \<Rightarrow> if list_all userinfo_char (take i auth) then parse_host (drop (i + 1) auth) else None)
         else Some [])"

text \<open>u.Hostname().\<close>

definition hostname :: "string \<Rightarrow> string" where
  "hostname h = (let h' = (case last_index (CHR '':'') h of Some i \<Rightarrow> if valid_port (drop i h) then take i h else h | None \<Rightarrow> h) in
     if has_prefix h' ''['' \<and> has_suffix h' '']'' then butlast (tl h') else h')"

definition peerURLHostEquals :: "string \<Rightarrow> string \<Rightarrow> bool" where
  "peerURLHostEquals rawURL host = (case url_host (trim_space rawURL) of None \<Rightarrow> False | Some h \<Rightarrow> h \<noteq> [] \<and> hostname h = host)"

definition is_loopback :: "nat list \<Rightarrow> bool" where
  "is_loopback bs = (case To4 bs of Some v \<Rightarrow> hd v = 127 | None \<Rightarrow> bs = replicate 15 0 @ [1])"

definition is_unspecified :: "nat list \<Rightarrow> bool" where
  "is_unspecified bs = (case To4 bs of Some v \<Rightarrow> v = replicate 4 0 | None \<Rightarrow> bs = replicate 16 0)"

definition isLoopbackURL :: "string \<Rightarrow> bool" where
  "isLoopbackURL raw = (let host = (case url_host raw of Some h \<Rightarrow> if h \<noteq> [] then hostname h else raw | None \<Rightarrow> raw) in
     if to_lower host = ''localhost'' then True
     else case parse_addr host of None \<Rightarrow> False | Some (bs, _) \<Rightarrow> is_loopback bs \<or> is_unspecified bs)"

section \<open>Members\<close>

record etcdMember =
  em_id :: string
  em_name :: string
  em_peer :: string
  em_client :: string
  em_started :: bool
  em_learner :: bool

text \<open>strings.Split at a longer separator; \<open>skip\<close> counts its characters still to drop.\<close>

fun split_text :: "nat \<Rightarrow> string \<Rightarrow> string \<Rightarrow> string \<Rightarrow> string list" where
  "split_text skip sep acc [] = [acc]"
| "split_text (Suc n) sep acc (c # s) = split_text n sep acc s"
| "split_text 0 sep acc (c # s) = (if has_prefix (c # s) sep then acc # split_text (length sep - 1) sep [] s
     else split_text 0 sep (acc @ [c]) s)"

definition member_fields :: "string \<Rightarrow> string list" where
  "member_fields line = (let fs = split_text 0 '', '' [] line in if length fs < 4 then split_on (CHR '','') line else fs)"

definition member_of_line :: "string \<Rightarrow> etcdMember option" where
  "member_of_line line = (let fs = member_fields line; field = (\<lambda>i. trim_space (fs ! i)) in
     if length fs < 4 then None
     else Some \<lparr>em_id = field 0, em_name = field 2, em_peer = field 3,
       em_client = (if length fs \<ge> 5 then field 4 else []),
       em_started = (field 1 = ''started''), em_learner = (length fs \<ge> 6 \<and> field 5 = ''true'')\<rparr>)"

definition parseMemberList :: "string \<Rightarrow> etcdMember list" where
  "parseMemberList out = List.map_filter member_of_line (split_on (CHR 0x0A) (trim_space out))"

definition memberMatchesSelf :: "etcdMember \<Rightarrow> string \<Rightarrow> string \<Rightarrow> bool" where
  "memberMatchesSelf m instance nodeIP \<longleftrightarrow> (instance \<noteq> [] \<and> em_name m = instance)
     \<or> (nodeIP \<noteq> [] \<and> peerURLHostEquals (em_peer m) nodeIP)"

definition selectSelf :: "etcdMember list \<Rightarrow> string \<Rightarrow> string \<Rightarrow> etcdMember option" where
  "selectSelf ms instance myPeer = find (\<lambda>m. em_name m = instance \<and> em_peer m = myPeer) ms"

definition selectSelfByPeer :: "etcdMember list \<Rightarrow> string \<Rightarrow> etcdMember option" where
  "selectSelfByPeer ms myPeer = find (\<lambda>m. em_peer m = myPeer) ms"

definition firstRoutableClientURL :: "string \<Rightarrow> string" where
  "firstRoutableClientURL raw = (case find (\<lambda>c. c \<noteq> [] \<and> \<not> isLoopbackURL c) (map trim_space (split_on (CHR '','') raw)) of
     None \<Rightarrow> [] | Some c \<Rightarrow> c)"

fun voterClientEndpoint :: "etcdMember list \<Rightarrow> string \<Rightarrow> string" where
  "voterClientEndpoint [] selfID = []"
| "voterClientEndpoint (m # ms) selfID =
     (if em_id m = selfID \<or> em_learner m \<or> \<not> em_started m \<or> em_client m = [] then voterClientEndpoint ms selfID
      else let u = firstRoutableClientURL (em_client m) in if u \<noteq> [] then u else voterClientEndpoint ms selfID)"

fun replace_first :: "string \<Rightarrow> string \<Rightarrow> string \<Rightarrow> string" where
  "replace_first [] old new = []"
| "replace_first (c # s) old new = (if has_prefix (c # s) old then new @ drop (length old) (c # s) else c # replace_first s old new)"

definition memberClientEndpoint :: "string \<Rightarrow> string" where
  "memberClientEndpoint peerURL = (if peerURL = [] then [] else replace_first peerURL '':2380'' '':2379'')"

fun after_text :: "string \<Rightarrow> string \<Rightarrow> string option" where
  "after_text [] sub = (if sub = [] then Some [] else None)"
| "after_text (c # s) sub = (if has_prefix (c # s) sub then Some (drop (length sub) (c # s)) else after_text s sub)"

definition extractMasterIndex :: "string \<Rightarrow> int" where
  "extractMasterIndex line = (case after_text line ''master-'' of None \<Rightarrow> -1
     | Some rest \<Rightarrow> let num = takeWhile is_digit rest in
         if num = [] then -1 else case atoi num of None \<Rightarrow> -1 | Some n \<Rightarrow> n)"

definition votingMemberCount :: "etcdMember list \<Rightarrow> nat" where
  "votingMemberCount ms = length (filter (\<lambda>m. em_started m \<and> \<not> em_learner m) ms)"

text \<open>\<open>name=peerURL,...\<close> of the members that have started.\<close>

definition initial_cluster_of :: "etcdMember list \<Rightarrow> string" where
  "initial_cluster_of ms = join '','' (map (\<lambda>m. em_name m @ ''='' @ em_peer m) (filter (\<lambda>m. em_name m \<noteq> [] \<and> em_peer m \<noteq> []) ms))"

definition initial_cluster_line :: "string \<Rightarrow> string option" where
  "initial_cluster_line line = (let t = trim_space line in
     if has_prefix t ''ETCD_INITIAL_CLUSTER='' then Some (trim_cut (trim_prefix t ''ETCD_INITIAL_CLUSTER='') [CHR 0x22]) else None)"

definition extractInitialCluster :: "string \<Rightarrow> string" where
  "extractInitialCluster out = (case List.map_filter initial_cluster_line (split_on (CHR 0x0A) out) of [] \<Rightarrow> [] | v # _ \<Rightarrow> v)"

section \<open>Errors of etcdctl\<close>

definition isTransientMemberAddErr :: "err \<Rightarrow> bool" where
  "isTransientMemberAddErr e = (let msg = to_lower (err_text e) in list_ex (contains msg)
     [''not enough started members'', ''unhealthy cluster'', ''request timed out'', ''context deadline exceeded'', ''leader changed'',
      ''no leader'', ''connection refused'', ''too many requests'', ''rpc error'', ''too many learner members in cluster''])"

definition isAlreadyMemberErr :: "err \<Rightarrow> bool" where
  "isAlreadyMemberErr e = (let msg = to_lower (err_text e) in
     contains msg ''peer urls already exists'' \<or> contains msg ''member already exists'')"

datatype promoteErrClass = promoteRetry | promoteAlreadyVoter | promoteFatal

definition classifyPromoteErr :: "err \<Rightarrow> promoteErrClass" where
  "classifyPromoteErr e = (let msg = to_lower (err_text e) in
     if contains msg ''in sync with leader'' then promoteRetry
     else if contains msg ''rpc not supported for learner'' then promoteRetry
     else if contains msg ''can only promote a learner member'' then promoteAlreadyVoter
     else if contains msg ''member not found'' then promoteAlreadyVoter
     else if isTransientMemberAddErr e then promoteRetry
     else promoteFatal)"

section \<open>Arguments and configuration\<close>

definition etcdctlArgsWithTimeout :: "string \<Rightarrow> string \<Rightarrow> bool \<Rightarrow> string \<Rightarrow> string list" where
  "etcdctlArgsWithTimeout endpoint dir tlsDisabled timeout =
     [''--endpoints='' @ endpoint, ''--command-timeout='' @ (if timeout = [] then ''5s'' else timeout)]
     @ (if tlsDisabled then [] else [''--cacert='' @ dir @ ''/ca.crt'', ''--cert='' @ dir @ ''/server.crt'', ''--key='' @ dir @ ''/server.key''])"

definition etcdctlArgs :: "string \<Rightarrow> string \<Rightarrow> bool \<Rightarrow> string list" where
  "etcdctlArgs endpoint dir tlsDisabled = etcdctlArgsWithTimeout endpoint dir tlsDisabled ''5s''"

definition memberAddArgs :: "string list \<Rightarrow> string \<Rightarrow> string \<Rightarrow> bool \<Rightarrow> string list" where
  "memberAddArgs args instance peerURL learner = args @ [''member'', ''add'', instance, ''--peer-urls='' @ peerURL]
     @ (if learner then [''--learner''] else [])"

definition etcdClusterToken :: "Config \<Rightarrow> string" where
  "etcdClusterToken cfg = (if ClusterUUID (Shared cfg) \<noteq> [] then ''etcd-'' @ ClusterUUID (Shared cfg) else ''magnum-etcd-cluster'')"

definition skipMembershipReconcile :: "Config \<Rightarrow> bool" where
  "skipMembershipReconcile cfg \<longleftrightarrow> Operation cfg = OperationCARotate"

definition peer_url :: "string \<Rightarrow> string \<Rightarrow> string" where
  "peer_url protocol ip = protocol @ ''://'' @ ip @ '':2380''"

definition client_url :: "string \<Rightarrow> string \<Rightarrow> string" where
  "client_url protocol ip = protocol @ ''://'' @ ip @ '':2379''"

definition staticInitialClusterMembers :: "Config \<Rightarrow> MasterConfig \<Rightarrow> string \<Rightarrow> string \<Rightarrow> string option" where
  "staticInitialClusterMembers cfg m nodeIP protocol = (if trim_space (InitialCluster m) \<noteq> [] then Some (trim_space (InitialCluster m))
     else if IsFirstMaster cfg then Some (InstanceName (Shared cfg) @ ''='' @ peer_url protocol nodeIP) else None)"

definition needsSeedWait :: "Config \<Rightarrow> bool \<Rightarrow> bool \<Rightarrow> bool \<Rightarrow> bool" where
  "needsSeedWait cfg lbOK localOK isMember = (case Master cfg of None \<Rightarrow> False
     | Some m \<Rightarrow> \<not> lbOK \<and> \<not> localOK \<and> \<not> isMember \<and> \<not> IsFirstMaster cfg \<and> trim_space (InitialCluster m) = [])"

definition dq :: "string \<Rightarrow> string" where "dq s = [CHR 0x22] @ s @ [CHR 0x22]"

definition unlines :: "string list \<Rightarrow> string" where "unlines ls = concat (map (\<lambda>l. l @ NL) ls)"

definition tls_lines :: "string list" where
  "tls_lines = [''  cert-file: '' @ dq (etcdCerts @ ''/server.crt''), ''  key-file: '' @ dq (etcdCerts @ ''/server.key''),
     ''  client-cert-auth: true'', ''  trusted-ca-file: '' @ dq (etcdCerts @ ''/ca.crt'')]"

definition buildConfig :: "Config \<Rightarrow> string \<Rightarrow> string \<Rightarrow> string \<Rightarrow> string \<Rightarrow> string" where
  "buildConfig cfg nodeIP protocol mode initialCluster = unlines (
     [''name: '' @ dq (InstanceName (Shared cfg)),
      ''data-dir: '' @ dq ''/var/lib/etcd/default.etcd'',
      ''listen-metrics-urls: '' @ dq (''http://'' @ nodeIP @ '':2378''),
      ''listen-client-urls: '' @ dq (client_url protocol nodeIP @ '',http://127.0.0.1:2379''),
      ''listen-peer-urls: '' @ dq (peer_url protocol nodeIP),
      ''advertise-client-urls: '' @ dq (client_url protocol nodeIP),
      ''initial-advertise-peer-urls: '' @ dq (peer_url protocol nodeIP),
      ''initial-cluster: '' @ dq initialCluster]
     @ (if mode = ''new-static'' then [''initial-cluster-state: '' @ dq ''new'', ''initial-cluster-token: '' @ dq (etcdClusterToken cfg)]
        else [''initial-cluster-state: '' @ dq ''existing''])
     @ [''heartbeat-interval: 1000'', ''election-timeout: 15000'', ''auto-compaction-mode: periodic'',
        ''auto-compaction-retention: '' @ dq ''24h'']
     @ (if TLSDisabled (Shared cfg) then [] else [''client-transport-security:''] @ tls_lines @ [''peer-transport-security:''] @ tls_lines))"

definition PodmanResetExecStartPre :: "string \<Rightarrow> string \<Rightarrow> string" where
  "PodmanResetExecStartPre podman name = ''ExecStartPre=-'' @ podman @ '' rm -f '' @ name @ NL @ ''ExecStartPre=-'' @ podman @ '' rm --storage '' @ name"

definition etcd_service :: "Config \<Rightarrow> string \<Rightarrow> string" where
  "etcd_service cfg tag = (let bs = [CHR 0x5C]; image = (if ContainerInfraPrefix (Shared cfg) = [] then ''registry.k8s.io/'' else ContainerInfraPrefix (Shared cfg)) @ ''etcd'' in unlines
     [''[Unit]'', ''Description=Etcd server'', ''After=network-online.target'', ''Wants=network-online.target'', [],
      ''[Service]'', ''EnvironmentFile=/etc/sysconfig/heat-params'', ''ExecStartPre=mkdir -p /var/lib/etcd'',
      PodmanResetExecStartPre ''/bin/podman'' ''etcd'',
      ''ExecStart=/bin/podman run '' @ bs, ''    --name etcd '' @ bs,
      ''    --volume /etc/pki/ca-trust/extracted/pem:/etc/ssl/certs:ro,z '' @ bs,
      ''    --volume /etc/etcd:/etc/etcd:ro,z '' @ bs, ''    --volume /var/lib/etcd:/var/lib/etcd:rshared,z '' @ bs, ''    --net=host '' @ bs,
      ''    '' @ image @ '':'' @ tag @ '' '' @ bs, ''    /usr/local/bin/etcd '' @ bs, ''    --config-file /etc/etcd/etcd.conf.yaml'',
      ''ExecStop=/bin/podman stop etcd'', ''TimeoutStartSec=10min'', ''IOSchedulingClass=best-effort'', ''IOSchedulingPriority=0'',
      ''Restart=always'', ''RestartSec=10'', [], ''[Install]'', ''WantedBy=multi-user.target''])"

definition buildEtcdService :: "Config \<Rightarrow> ('z os_scheme, string) io" where
  "buildEtcdService cfg = andthen (resolveEtcdRenderTag cfg) (\<lambda>(tag, _). ret (etcd_service cfg tag))"

section \<open>Day-2 thresholds\<close>

definition defragMinDBBytes :: int where "defragMinDBBytes = 128 * 1024 * 1024"

definition parseAlarms :: "string \<Rightarrow> bool \<times> bool" where
  "parseAlarms out = (let low = to_lower out in (contains low ''nospace'', contains low ''corrupt''))"

definition num_of :: "(string \<times> json) list \<Rightarrow> string \<Rightarrow> int option" where
  "num_of kvs k = (case map_of (rev kvs) k of Some (JInt i) \<Rightarrow> if - (2 ^ 63) \<le> i \<and> i < 2 ^ 63 then Some i else None
     | Some JNull \<Rightarrow> Some 0 | _ \<Rightarrow> None)"

definition firstNumber :: "(string \<times> json) list \<Rightarrow> string list \<Rightarrow> int option" where
  "firstNumber kvs ks = (case List.map_filter (num_of kvs) ks of [] \<Rightarrow> None | n # _ \<Rightarrow> Some n)"

text \<open>The status of a row, when the row decodes.\<close>

definition row_status :: "json \<Rightarrow> (string \<times> json) list option" where
  "row_status j = (case j of JNull \<Rightarrow> Some [] | JObj kvs \<Rightarrow> (case jfield ''Status'' kvs of
       None \<Rightarrow> Some [] | Some JNull \<Rightarrow> Some [] | Some (JObj s) \<Rightarrow> Some s | _ \<Rightarrow> None) | _ \<Rightarrow> None)"

definition parseEndpointStatus :: "string \<Rightarrow> (int \<times> int) option" where
  "parseEndpointStatus out = (case parse_json out of Some (JArr rows) \<Rightarrow> (case those (map row_status rows) of
       Some (s # _) \<Rightarrow> (case (firstNumber s [''dbSize'', ''DbSize'', ''db_size''], firstNumber s [''dbSizeInUse'', ''DbSizeInUse'', ''db_size_in_use'']) of
           (Some sz, Some used) \<Rightarrow> Some (sz, used) | _ \<Rightarrow> None)
     | _ \<Rightarrow> None) | _ \<Rightarrow> None)"

text \<open>The free space is a 64-bit int; the threshold is 45 percent of the size.\<close>

definition needsDefrag :: "int \<Rightarrow> int \<Rightarrow> int \<Rightarrow> bool" where
  "needsDefrag dbSize inUse minBytes = (if dbSize < minBytes \<or> dbSize \<le> 0 then False
     else let free = sint (word_of_int (dbSize - inUse) :: 64 word) in free > 0 \<and> 20 * free \<ge> 9 * dbSize)"

end
