(* ===== verification/EtcdOps.thy ===== *)
theory EtcdOps
  imports EtcdText HostFrame
begin

text \<open>
  The operations of internal/module/etcd-config on the host: calls of etcdctl with their retries,
  joining and leaving a cluster, promotion of a learner, eviction of a member that is gone, the
  volume, the tools and the service, and the day-2 maintenance. When a command fails, the second
  component of its outcome is what the error says after the command, exit status and stderr.
  \<open>ap\<close> is the Apply flag; a \<open>site\<close> is the node as these functions take it. Waits for the unit are
  runs with the fuel of \<open>etcd_env\<close>; a sort of members with equal index keeps their order.
\<close>

section \<open>etcdctl\<close>

record etcd_env =
  en_meta :: "nat \<Rightarrow> (nat \<times> string) option"
  en_ip :: "string option"
  en_sha :: "string \<Rightarrow> string"
  en_http :: "nat \<Rightarrow> string \<Rightarrow> (nat \<times> string \<times> bool) option"
  en_fuel :: nat

record site =
  st_cfg :: Config
  st_ip :: string
  st_proto :: string
  st_lb :: string

abbreviation st_name :: "site \<Rightarrow> string" where "st_name s \<equiv> InstanceName (Shared (st_cfg s))"
abbreviation st_tls :: "site \<Rightarrow> bool" where "st_tls s \<equiv> TLSDisabled (Shared (st_cfg s))"
abbreviation st_peer :: "site \<Rightarrow> string" where "st_peer s \<equiv> peer_url (st_proto s) (st_ip s)"
abbreviation st_local :: "site \<Rightarrow> string" where "st_local s \<equiv> client_url (st_proto s) (st_ip s)"

abbreviation (input) etcdctlBin :: string where "etcdctlBin \<equiv> ''/usr/local/bin/etcdctl''"
abbreviation (input) etcdData :: string where "etcdData \<equiv> ''/var/lib/etcd/default.etcd''"
abbreviation (input) etcdWal :: string where "etcdWal \<equiv> ''/var/lib/etcd/default.etcd/member/wal''"

definition ctl_args :: "site \<Rightarrow> string \<Rightarrow> string list" where
  "ctl_args s endpoint = etcdctlArgs endpoint etcdCerts (st_tls s)"

definition etcdctl :: "string list \<Rightarrow> ('z os_scheme, string) io" where
  "etcdctl args w = (let argv = etcdctlBin # args; w' = tock (w\<lparr>cmd_trace := cmd_trace w @ [argv]\<rparr>) in
     case cmd_result w (tick w) argv of (ok, out) \<Rightarrow>
       (if ok then Inr (trim_space out) else Inl (Err (etcdctlBin @ '' '' @ join '' '' args @ '': '' @ out)), w'))"

fun ctl_attempts :: "nat \<Rightarrow> bool \<Rightarrow> string list \<Rightarrow> err \<Rightarrow> ('z os_scheme, string) io" where
  "ctl_attempts 0 ap args e = throw e"
| "ctl_attempts (Suc n) ap args e = attempt (etcdctl args) (\<lambda>r. case r of Inr out \<Rightarrow> ret out
     | Inl e' \<Rightarrow> if 0 < n \<and> ap then andthen sleep (\<lambda>_. ctl_attempts n ap args e') else ctl_attempts n ap args e')"

definition runEtcdctl :: "bool \<Rightarrow> string list \<Rightarrow> ('z os_scheme, string) io" where
  "runEtcdctl ap args = ctl_attempts 3 ap args (Err [])"

definition etcdHealthyOnce :: "site \<Rightarrow> string \<Rightarrow> string \<Rightarrow> ('z os_scheme, bool) io" where
  "etcdHealthyOnce s endpoint timeout = succeeds (etcdctl (etcdctlArgsWithTimeout endpoint etcdCerts (st_tls s) timeout @ [''endpoint'', ''health'']))"

definition etcdHealthy :: "site \<Rightarrow> string \<Rightarrow> ('z os_scheme, bool) io" where
  "etcdHealthy s endpoint = etcdHealthyOnce s endpoint ''5s''"

definition member_list :: "bool \<Rightarrow> site \<Rightarrow> string \<Rightarrow> ('z os_scheme, etcdMember list) io" where
  "member_list ap s endpoint = andthen (runEtcdctl ap (ctl_args s endpoint @ [''member'', ''list''])) (\<lambda>out. ret (parseMemberList out))"

section \<open>Membership\<close>

text \<open>The answer, and whether the cluster could be asked.\<close>

definition queryMembership :: "bool \<Rightarrow> site \<Rightarrow> ('z os_scheme, bool \<times> bool) io" where
  "queryMembership ap s = attempt (member_list ap s (st_lb s)) (\<lambda>r. ret (case r of Inl _ \<Rightarrow> (False, False)
     | Inr ms \<Rightarrow> (list_ex (\<lambda>m. memberMatchesSelf m (st_name s) (st_ip s)) ms, True)))"

definition checkMembership :: "bool \<Rightarrow> site \<Rightarrow> ('z os_scheme, bool) io" where
  "checkMembership ap s = andthen (queryMembership ap s) (\<lambda>(isMember, _). ret isMember)"

definition remove_member :: "bool \<Rightarrow> site \<Rightarrow> etcdMember \<Rightarrow> ('z os_scheme, unit) io" where
  "remove_member ap s m = attempt (runEtcdctl ap (ctl_args s (st_lb s) @ [''member'', ''remove'', em_id m])) (\<lambda>_. ret ())"

definition removeStaleSelfMembers :: "bool \<Rightarrow> site \<Rightarrow> ('z os_scheme, unit) io" where
  "removeStaleSelfMembers ap s = attempt (member_list ap s (st_lb s)) (\<lambda>r. case r of Inl _ \<Rightarrow> ret ()
     | Inr ms \<Rightarrow> for_each (filter (\<lambda>m. em_name m = st_name s \<and> em_peer m \<noteq> st_peer s) ms) (remove_member ap s))"

definition currentInitialCluster :: "bool \<Rightarrow> site \<Rightarrow> ('z os_scheme, string) io" where
  "currentInitialCluster ap s = attempt (member_list ap s (st_lb s)) (\<lambda>r. ret (case r of Inl _ \<Rightarrow> [] | Inr ms \<Rightarrow> initial_cluster_of ms))"

definition listMembersPreferLB :: "bool \<Rightarrow> site \<Rightarrow> ('z os_scheme, etcdMember list) io" where
  "listMembersPreferLB ap s = attempt (member_list ap s (st_lb s)) (\<lambda>r. case r of Inr ms \<Rightarrow> ret ms | Inl _ \<Rightarrow> member_list ap s (st_local s))"

fun add_attempts :: "nat \<Rightarrow> bool \<Rightarrow> string list \<Rightarrow> string \<Rightarrow> err \<Rightarrow> ('z os_scheme, string) io" where
  "add_attempts 0 ap args instance e = throw (Wrap (''member add for '' @ instance @ '' did not succeed after 12 attempts'') e)"
| "add_attempts (Suc n) ap args instance e = attempt (etcdctl args) (\<lambda>r. case r of Inr out \<Rightarrow> ret out
     | Inl e' \<Rightarrow> if isAlreadyMemberErr e' then ret []
         else if \<not> isTransientMemberAddErr e' then throw e'
         else if \<not> ap then add_attempts 0 ap args instance e'
         else andthen sleep (\<lambda>_. add_attempts n ap args instance e'))"

definition memberAddWithRetry :: "bool \<Rightarrow> string list \<Rightarrow> string \<Rightarrow> string \<Rightarrow> bool \<Rightarrow> ('z os_scheme, string) io" where
  "memberAddWithRetry ap args instance peerURL learner = add_attempts 12 ap (memberAddArgs args instance peerURL learner) instance (Err [])"

definition promoteHealthGate :: "bool \<Rightarrow> site \<Rightarrow> ('z os_scheme, change list) io" where
  "promoteHealthGate ap s = (if \<not> ap then ret [] else andthen (poll 30 (etcdHealthyOnce s (st_local s) ''2s'')) (\<lambda>_. ret []))"

definition promote_args :: "site \<Rightarrow> etcdMember list \<Rightarrow> etcdMember \<Rightarrow> string list" where
  "promote_args s ms self = (let ve = voterClientEndpoint ms (em_id self) in
     ctl_args s (if ve \<noteq> [] then ve else st_lb s) @ [''member'', ''promote'', em_id self])"

text \<open>One turn looks at the members and, when this node is a learner, asks a voter to promote it.\<close>

datatype promote_turn = Promoted | Waiting err | Refused err

definition promote_once :: "bool \<Rightarrow> site \<Rightarrow> ('z os_scheme, promote_turn) io" where
  "promote_once ap s = attempt (listMembersPreferLB ap s) (\<lambda>r. case r of Inl e \<Rightarrow> ret (Waiting e)
     | Inr ms \<Rightarrow> (case selectSelfByPeer ms (st_peer s) of
         None \<Rightarrow> ret (Waiting (Err (''etcd: member '' @ st_name s @ '' ('' @ st_peer s @ '') not yet visible in member list'')))
       | Some self \<Rightarrow> if \<not> em_learner self then ret Promoted
           else attempt (runEtcdctl ap (promote_args s ms self)) (\<lambda>r. ret (case r of Inr _ \<Rightarrow> Promoted
             | Inl e \<Rightarrow> (case classifyPromoteErr e of promoteAlreadyVoter \<Rightarrow> Promoted
                 | promoteFatal \<Rightarrow> Refused (Wrap (''etcd promote learner '' @ st_name s) e) | promoteRetry \<Rightarrow> Waiting e)))))"

fun promote_loop :: "nat \<Rightarrow> bool \<Rightarrow> site \<Rightarrow> err \<Rightarrow> ('z os_scheme, change list) io" where
  "promote_loop 0 ap s e = throw (Wrap (''etcd: learner '' @ st_name s @ '' did not become a promotable voter after 40 attempts'') e)"
| "promote_loop (Suc n) ap s e = andthen (promote_once ap s) (\<lambda>t. case t of
       Promoted \<Rightarrow> promoteHealthGate ap s
     | Refused e' \<Rightarrow> throw e'
     | Waiting e' \<Rightarrow> if \<not> ap then promote_loop 0 ap s e' else andthen sleep (\<lambda>_. promote_loop n ap s e'))"

definition ensurePromoted :: "bool \<Rightarrow> site \<Rightarrow> ('z os_scheme, change list) io" where
  "ensurePromoted ap s = promote_loop 40 ap s (Err [])"

definition selfIsLearnerLocally :: "bool \<Rightarrow> site \<Rightarrow> ('z os_scheme, bool) io" where
  "selfIsLearnerLocally ap s = attempt (member_list ap s (st_local s)) (\<lambda>r. ret (case r of Inl _ \<Rightarrow> False
     | Inr ms \<Rightarrow> (case selectSelfByPeer ms (st_peer s) of None \<Rightarrow> False | Some self \<Rightarrow> em_learner self)))"

section \<open>Eviction\<close>

fun still_down :: "nat \<Rightarrow> ('z os_scheme, bool) io \<Rightarrow> ('z os_scheme, bool) io" where
  "still_down 0 check = ret True"
| "still_down (Suc n) check = andthen check (\<lambda>ok. if ok then ret False
     else if n = 0 then ret True else andthen sleep (\<lambda>_. still_down n check))"

definition evictionUnreachable :: "site \<Rightarrow> string \<Rightarrow> ('z os_scheme, bool) io" where
  "evictionUnreachable s endpoint = still_down 6 (etcdHealthy s endpoint)"

definition evictable :: "site \<Rightarrow> etcdMember list \<Rightarrow> etcdMember list" where
  "evictable s ms = sort_key (\<lambda>m. - extractMasterIndex (em_name m)) (filter (\<lambda>m. em_name m \<noteq> st_name s \<and> \<not> em_learner m) ms)"

fun evict_first :: "bool \<Rightarrow> site \<Rightarrow> etcdMember list \<Rightarrow> ('z os_scheme, unit) io" where
  "evict_first ap s [] = ret ()"
| "evict_first ap s (m # ms) = (let endpoint = memberClientEndpoint (em_peer m) in
     andthen (if endpoint = [] then ret False else evictionUnreachable s endpoint) (\<lambda>gone.
       if gone then remove_member ap s m else evict_first ap s ms))"

definition cleanupExcessMembers :: "bool \<Rightarrow> site \<Rightarrow> MasterConfig \<Rightarrow> ('z os_scheme, unit) io" where
  "cleanupExcessMembers ap s mc = (if \<not> has_suffix (st_name s) ''master-0'' \<or> NumberOfMasters mc = 0 then ret ()
     else attempt (member_list ap s (st_lb s)) (\<lambda>r. case r of Inl _ \<Rightarrow> ret ()
       | Inr ms \<Rightarrow> if int (length ms) \<le> NumberOfMasters mc then ret () else evict_first ap s (evictable s ms)))"

section \<open>The service\<close>

abbreviation (input) etcd_unit :: SystemdServiceSpec where
  "etcd_unit \<equiv> \<lparr>sv_unit = ''etcd'', sv_skip = True, sv_enabled = None, sv_active = None, sv_masked = None, sv_restart = False, sv_reason = [], sv_reload = True\<rparr>"

definition etcd_conf :: "string \<Rightarrow> FileSpec" where
  "etcd_conf c = \<lparr>f_path = etcdConfPath, f_content = c, f_mode = o644, f_absent = False\<rparr>"

definition start_etcd :: "bool \<Rightarrow> ('z os_scheme, apply_result) io" where
  "start_etcd ap = SystemdServiceSpec_Apply ap (etcd_unit\<lparr>sv_active := Some True\<rparr>)"

definition restart_etcd :: "bool \<Rightarrow> string \<Rightarrow> ('z os_scheme, apply_result) io" where
  "restart_etcd ap why = SystemdServiceSpec_Apply ap (etcd_unit\<lparr>sv_restart := True, sv_reason := why\<rparr>)"

text \<open>The changes of the service and whether it was started or restarted.\<close>

definition bring_up :: "bool \<Rightarrow> bool \<Rightarrow> ('z os_scheme, bool \<times> change list) io" where
  "bring_up ap configChanged = (if configChanged
     then andthen (wrapping ''restart etcd'' (restart_etcd ap ''etcd config changed'')) (\<lambda>r. ret (True, ar_changes r))
     else andthen (SystemctlIsActive ''etcd'') (\<lambda>active. if active then ret (False, [])
       else andthen (wrapping ''start etcd'' (start_etcd ap)) (\<lambda>r. ret (True, ar_changes r))))"

definition writeAndStartEtcd :: "etcd_env \<Rightarrow> bool \<Rightarrow> site \<Rightarrow> string \<Rightarrow> bool \<Rightarrow> ('z os_scheme, change list) run" where
  "writeAndStartEtcd env ap s config waitHealth =
     rthen (now (DirectorySpec_Apply ap \<lparr>d_path = ''/etc/etcd'', d_mode = o755\<rparr>)) (\<lambda>d.
     rthen (now (FileSpec_Apply ap (etcd_conf config))) (\<lambda>f.
     rthen (now (bring_up ap (ar_changed f))) (\<lambda>(started, cs).
     let changes = ar_changes d @ ar_changes f @ cs in
     if \<not> (started \<and> ap) then now (ret changes)
     else rthen (until_active (en_fuel env) ''etcd'' 120 2) (\<lambda>active.
       if \<not> active then now (throw (Err ''etcd service did not become active after start''))
       else if \<not> waitHealth then now (ret changes)
       else rthen (now (poll 60 (etcdHealthyOnce s (st_local s) ''2s''))) (\<lambda>healthy.
         if healthy then now (ret changes) else now (throw (Err ''etcd did not become healthy within 5 minutes after start'')))))))"

definition cleanupEtcd :: "bool \<Rightarrow> ('z os_scheme, unit) io" where
  "cleanupEtcd ap = attempt (Run ap ''systemctl'' [''stop'', ''etcd'']) (\<lambda>_.
     attempt (Run ap ''podman'' [''rm'', ''-f'', ''etcd'']) (\<lambda>_. if ap then sleep else ret ()))"

definition clearEtcdData :: "bool \<Rightarrow> ('z os_scheme, unit) io" where
  "clearEtcdData ap = (if \<not> ap then ret () else wrapping ''clear stale etcd data dir'' (remove_all etcdData))"

definition walPresent :: "('z os_scheme, bool) io" where
  "walPresent = attempt (read_dir etcdWal) (\<lambda>r. ret (case r of Inl _ \<Rightarrow> False | Inr es \<Rightarrow> list_ex (\<lambda>(n, _). has_suffix n ''.wal'') es))"

section \<open>Joining\<close>

text \<open>The common end of joining and rejoining; \<open>what\<close> is the word of the messages.\<close>

definition add_and_start :: "etcd_env \<Rightarrow> bool \<Rightarrow> site \<Rightarrow> string \<Rightarrow> ('z os_scheme, change list) run" where
  "add_and_start env ap s what =
     rthen (now (wrapping (what @ '' etcd cluster'') (memberAddWithRetry ap (ctl_args s (st_lb s)) (st_name s) (st_peer s) True))) (\<lambda>addOut.
     rthen (now (if extractInitialCluster addOut \<noteq> [] then ret (extractInitialCluster addOut) else currentInitialCluster ap s)) (\<lambda>ic.
     if ic = [] then now (throw (Err (what @ '' etcd cluster: could not determine initial-cluster after member add'')))
     else rthen (now (clearEtcdData ap)) (\<lambda>_.
       rthen (writeAndStartEtcd env ap s (buildConfig (st_cfg s) (st_ip s) (st_proto s) ''existing'' ic) False) (\<lambda>cs.
       rthen (now (ensurePromoted ap s)) (\<lambda>pc. now (ret (cs @ pc)))))))"

definition joinExistingCluster :: "etcd_env \<Rightarrow> bool \<Rightarrow> site \<Rightarrow> ('z os_scheme, change list) run" where
  "joinExistingCluster env ap s = rthen (now (removeStaleSelfMembers ap s)) (\<lambda>_. add_and_start env ap s ''join'')"

definition rejoinCluster :: "etcd_env \<Rightarrow> bool \<Rightarrow> site \<Rightarrow> ('z os_scheme, change list) run" where
  "rejoinCluster env ap s = rthen (now (attempt (member_list ap s (st_lb s)) (\<lambda>r. case r of Inl _ \<Rightarrow> ret ()
       | Inr ms \<Rightarrow> for_each (filter (\<lambda>m. memberMatchesSelf m (st_name s) (st_ip s)) ms) (remove_member ap s))))
     (\<lambda>_. add_and_start env ap s ''rejoin'')"

text \<open>The answer carries the changes made so far also when it is an error.\<close>

definition promoteStrandedLearner :: "bool \<Rightarrow> site \<Rightarrow> bool \<Rightarrow> change list \<Rightarrow> ('z os_scheme, change list \<times> err option) io" where
  "promoteStrandedLearner ap s lbOK changes = andthen (if lbOK then ret True else selfIsLearnerLocally ap s) (\<lambda>go.
     if \<not> go then ret (changes, None)
     else attempt (ensurePromoted ap s) (\<lambda>r. ret (case r of Inr pc \<Rightarrow> (changes @ pc, None) | Inl e \<Rightarrow> (changes, Some e))))"

fun conf_initial_cluster :: "string list \<Rightarrow> string option" where
  "conf_initial_cluster [] = None"
| "conf_initial_cluster (l # ls) = (if has_prefix (trim_space l) ''initial-cluster:''
     then Some (trim_cut (trim_space (trim_prefix (trim_space l) ''initial-cluster:'')) [CHR 0x22]) else conf_initial_cluster ls)"

definition rebuildConfigIfNeeded :: "bool \<Rightarrow> site \<Rightarrow> ('z os_scheme, unit) io" where
  "rebuildConfigIfNeeded ap s = attempt (read_file etcdConfPath) (\<lambda>r. case r of Inl _ \<Rightarrow> ret ()
     | Inr d \<Rightarrow> if st_tls s \<or> contains d ''client-transport-security'' \<or> \<not> contains d ''initial-cluster:'' then ret ()
       else case conf_initial_cluster (split_on (CHR 0x0A) d) of None \<Rightarrow> ret ()
       | Some ic \<Rightarrow> andthen (wrapping ''rebuild etcd config (existing cluster mode)''
             (FileSpec_Apply ap (etcd_conf (buildConfig (st_cfg s) (st_ip s) (st_proto s) ''existing'' ic)))) (\<lambda>f.
           if ar_changed f then attempt (restart_etcd ap ''rebuilt etcd config'') (\<lambda>_. ret ()) else ret ()))"

definition startWithExistingData :: "etcd_env \<Rightarrow> bool \<Rightarrow> site \<Rightarrow> bool \<Rightarrow> ('z os_scheme, change list \<times> err option) run" where
  "startWithExistingData env ap s lbOK = rattempt (now (stat etcdConfPath)) (\<lambda>r. case r of
     Inl _ \<Rightarrow>
       rthen (now (if lbOK then currentInitialCluster ap s else ret [])) (\<lambda>ic0.
       let ic = (if ic0 \<noteq> [] then ic0 else st_name s @ ''='' @ st_peer s) in
       rattempt (writeAndStartEtcd env ap s (buildConfig (st_cfg s) (st_ip s) (st_proto s) ''existing'' ic) False) (\<lambda>r. case r of
         Inl e \<Rightarrow> now (ret ([], Some e)) | Inr cs \<Rightarrow> now (promoteStrandedLearner ap s lbOK cs)))
   | Inr _ \<Rightarrow>
       rattempt (now (rebuildConfigIfNeeded ap s)) (\<lambda>r. case r of Inl e \<Rightarrow> now (ret ([], Some e)) | Inr _ \<Rightarrow>
       rthen (now (SystemctlIsActive ''etcd'')) (\<lambda>active.
       if active then now (promoteStrandedLearner ap s lbOK [])
       else rattempt (now (start_etcd ap)) (\<lambda>r. case r of
         Inl e \<Rightarrow> now (ret ([], Some (Wrap ''start etcd with existing data'' e)))
       | Inr res \<Rightarrow> rthen (if ap then until_active (en_fuel env) ''etcd'' 120 2 else now (ret True)) (\<lambda>up.
           if \<not> up then now (ret (ar_changes res, Some (Err ''etcd did not become active with existing data'')))
           else now (promoteStrandedLearner ap s lbOK (ar_changes res)))))))"

fun seed_wait :: "nat \<Rightarrow> bool \<Rightarrow> site \<Rightarrow> ('z os_scheme, bool) io" where
  "seed_wait 0 ap s = ret False"
| "seed_wait (Suc n) ap s = andthen (etcdHealthyOnce s (st_lb s) ''5s'') (\<lambda>ok. if ok then ret True
     else andthen (if ap then sleep else ret ()) (\<lambda>_. seed_wait n ap s))"

definition waitForSeedEtcd :: "bool \<Rightarrow> site \<Rightarrow> ('z os_scheme, bool) io" where
  "waitForSeedEtcd ap s = seed_wait 60 ap s"

section \<open>The volume, the unit and the tools\<close>

definition device_entry :: "string \<Rightarrow> (string \<times> bool) list result \<Rightarrow> string option" where
  "device_entry tail r = (case r of Inl _ \<Rightarrow> None | Inr es \<Rightarrow> map_option fst (find (\<lambda>(n, _). has_suffix n tail) es))"

fun find_device :: "nat \<Rightarrow> bool \<Rightarrow> string \<Rightarrow> ('z os_scheme, string) io" where
  "find_device 0 ap tail = ret []"
| "find_device (Suc n) ap tail = attempt (Run ap ''udevadm'' [''trigger'']) (\<lambda>_.
     attempt (read_dir ''/dev/disk/by-id'') (\<lambda>r. case device_entry tail r of
       Some e \<Rightarrow> ret (''/dev/disk/by-id/'' @ e)
     | None \<Rightarrow> andthen (if ap then sleep else ret ()) (\<lambda>_. find_device n ap tail)))"

text \<open>The path of the device, empty when there is none.\<close>

definition findEtcdVolumeDevice :: "bool \<Rightarrow> MasterConfig \<Rightarrow> ('z os_scheme, string) io" where
  "findEtcdVolumeDevice ap mc = (if EtcdVolume mc = [] then ret [] else find_device 60 ap (take 20 (EtcdVolume mc)))"

text \<open>lsblk is the only guard before the format; a failure of it reads as no filesystem.\<close>

definition device_fstype :: "string \<Rightarrow> ('z os_scheme, string) io" where
  "device_fstype dev = attempt (RunCapture ''lsblk'' [''-ndo'', ''FSTYPE'', dev]) (\<lambda>r. ret (case r of Inl _ \<Rightarrow> [] | Inr out \<Rightarrow> trim_space out))"

definition format_volume :: "bool \<Rightarrow> string \<Rightarrow> ('z os_scheme, string \<times> change list) io" where
  "format_volume ap dev = andthen (device_fstype dev) (\<lambda>t. if t \<noteq> [] then ret (t, [])
     else andthen (if ap then wrapping (''format blank etcd volume '' @ dev) (Run ap ''mkfs.xfs'' [dev]) else ret ()) (\<lambda>_.
       ret (''xfs'', [mk_change ActionCreate dev (''format blank '' @ dev @ '' as xfs'')])))"

definition prepareVolume :: "bool \<Rightarrow> MasterConfig \<Rightarrow> ('z os_scheme, change list) io" where
  "prepareVolume ap mc = (if EtcdVolumeSize mc \<le> 0 then ret [] else
     andthen (succeeds (RunCapture ''mountpoint'' [''-q'', ''/var/lib/etcd''])) (\<lambda>mounted.
     if mounted \<or> EtcdVolume mc = [] then ret [] else
     andthen (findEtcdVolumeDevice ap mc) (\<lambda>dev.
     if dev = [] then throw (Err (''etcd volume device for volume '' @ go_quote (EtcdVolume mc) @ '' never appeared in /dev/disk/by-id after 60 attempts'')) else
     andthen (format_volume ap dev) (\<lambda>(fstype, c1).
     andthen (DirectorySpec_Apply ap \<lparr>d_path = ''/var/lib/etcd'', d_mode = o755\<rparr>) (\<lambda>d.
     andthen (LineSpec_Apply ap \<lparr>l_path = ''/etc/fstab'', l_line = dev @ '' /var/lib/etcd '' @ fstype @ '' defaults 0 0'', l_mode = o644\<rparr>) (\<lambda>l.
     andthen (wrapping (''mount etcd volume '' @ dev @ '' at /var/lib/etcd'') (Run ap ''mount'' [''/var/lib/etcd''])) (\<lambda>_.
     attempt (Run ap ''chown'' [''-R'', ''etcd.etcd'', ''/var/lib/etcd'']) (\<lambda>_.
     attempt (Run ap ''chmod'' [''755'', ''/var/lib/etcd'']) (\<lambda>_.
     ret (c1 @ ar_changes d @ (if ar_changed l then ar_changes l else [])
       @ [mk_change ActionUpdate ''/var/lib/etcd'' (''mount '' @ dev @ '' at /var/lib/etcd'')]))))))))))"

definition writeEtcdService :: "bool \<Rightarrow> Config \<Rightarrow> ('z os_scheme, change list) io" where
  "writeEtcdService ap cfg = (if \<not> UsePodman (Shared cfg) then ret [] else
     andthen (buildEtcdService cfg) (\<lambda>c.
     andthen (FileSpec_Apply ap \<lparr>f_path = etcdUnitPath, f_content = c, f_mode = o644, f_absent = False\<rparr>) (\<lambda>f.
     if ar_changed f then andthen (SystemdServiceSpec_Apply ap etcd_unit) (\<lambda>s. ret (ar_changes f @ ar_changes s)) else ret [])))"

definition etcdctlVersionMatches :: "string \<Rightarrow> ('z os_scheme, bool) io" where
  "etcdctlVersionMatches v = attempt (RunCapture etcdctlBin [''version'']) (\<lambda>r. ret (case r of Inl _ \<Rightarrow> False
     | Inr out \<Rightarrow> contains out (''etcdctl version: '' @ v)))"

definition etcdctl_action :: "('z os_scheme, string) io" where
  "etcdctl_action = attempt (stat etcdctlBin) (\<lambda>r. ret (case r of Inl e \<Rightarrow> if is_not_exist e then ActionCreate else ActionReplace | Inr _ \<Rightarrow> ActionReplace))"

definition installEtcdctl :: "etcd_env \<Rightarrow> bool \<Rightarrow> Config \<Rightarrow> ('z os_scheme, change list) io" where
  "installEtcdctl env ap cfg = (let v = desiredEtcdctlVersion cfg; dir = ''/srv/magnum/etcd'';
       url = ''https://github.com/etcd-io/etcd/releases/download/v'' @ v @ ''/etcd-v'' @ v @ ''-linux-amd64.tar.gz'';
       tgz = dir @ ''/etcd-v'' @ v @ ''-linux-amd64.tar.gz''; tmp = dir @ ''/tmp'' in
     if v = [] then ret [] else
     andthen (etcdctlVersionMatches v) (\<lambda>same. if same then ret []
     else if \<not> ap then andthen etcdctl_action (\<lambda>a. ret [mk_change a etcdctlBin (''install etcdctl '' @ v @ '' from '' @ url)])
     else andthen (DirectorySpec_Apply ap \<lparr>d_path = dir, d_mode = o755\<rparr>) (\<lambda>d.
       andthen (wrapping ''download etcdctl'' (DownloadSpec_ApplyWithResult ap (en_sha env) (en_http env) (\<lambda>_. False)
           \<lparr>dn_url = url, dn_path = tgz, dn_mode = o644, dn_retries = 5\<rparr>)) (\<lambda>dl.
       andthen (wrapping ''clean etcdctl tmp dir'' (Run ap ''rm'' [''-rf'', tmp])) (\<lambda>_.
       andthen (wrapping ''create etcdctl tmp dir'' (Run ap ''mkdir'' [''-p'', tmp])) (\<lambda>_.
       andthen (wrapping ''extract etcdctl'' (Run ap ''tar'' [''-C'', tmp, ''-xzf'', tgz])) (\<lambda>_.
       andthen etcdctl_action (\<lambda>a.
       andthen (wrapping ''install etcdctl'' (CopyFileAtomic (tmp @ ''/etcd-v'' @ v @ ''-linux-amd64/etcdctl'') etcdctlBin o755)) (\<lambda>_.
       attempt (Run ap ''rm'' [''-rf'', tmp]) (\<lambda>_.
       ret (ar_changes d @ (case dl_change dl of None \<Rightarrow> [] | Some c \<Rightarrow> [c]) @ [mk_change a etcdctlBin (''install etcdctl '' @ v)])))))))))))"

section \<open>Day-2 maintenance\<close>

definition reconcileEtcdAlarms :: "bool \<Rightarrow> site \<Rightarrow> ('z os_scheme, bool) io" where
  "reconcileEtcdAlarms ap s = attempt (runEtcdctl ap (ctl_args s (st_lb s) @ [''alarm'', ''list''])) (\<lambda>r. ret (case r of
     Inl _ \<Rightarrow> False | Inr out \<Rightarrow> fst (parseAlarms out)))"

fun all_healthy :: "site \<Rightarrow> string list \<Rightarrow> ('z os_scheme, bool) io" where
  "all_healthy s [] = ret True"
| "all_healthy s (e # es) = andthen (etcdHealthy s e) (\<lambda>ok. if ok then all_healthy s es else ret False)"

definition otherVotersHealthy :: "site \<Rightarrow> etcdMember list \<Rightarrow> ('z os_scheme, bool) io" where
  "otherVotersHealthy s ms = all_healthy s (filter (\<lambda>e. e \<noteq> []) (map (\<lambda>m. memberClientEndpoint (em_peer m))
     (filter (\<lambda>m. em_peer m \<noteq> st_peer s \<and> \<not> em_learner m) ms)))"

definition maybeDefragLocal :: "bool \<Rightarrow> site \<Rightarrow> ('z os_scheme, bool) io" where
  "maybeDefragLocal ap s = attempt (runEtcdctl ap (ctl_args s (st_local s) @ [''endpoint'', ''status'', ''-w'', ''json''])) (\<lambda>r. case r of
     Inl _ \<Rightarrow> ret False
   | Inr out \<Rightarrow> (case parseEndpointStatus out of None \<Rightarrow> ret False
     | Some (sz, used) \<Rightarrow> if \<not> needsDefrag sz used defragMinDBBytes then ret False
         else succeeds (runEtcdctl ap (etcdctlArgsWithTimeout (st_local s) etcdCerts (st_tls s) ''60s'' @ [''defrag'']))))"

definition etcdDay2Maintenance :: "bool \<Rightarrow> site \<Rightarrow> Request \<Rightarrow> ('z os_scheme, unit) io" where
  "etcdDay2Maintenance ap s req = (if \<not> Periodic req \<or> \<not> ap then ret ()
     else if PreviousKubeTag req \<noteq> [] \<and> PreviousKubeTag req \<noteq> KubeTag (Shared (st_cfg s)) then ret ()
     else andthen (etcdHealthy s (st_local s)) (\<lambda>up. if \<not> up then ret () else
       attempt (member_list ap s (st_lb s)) (\<lambda>r. case r of Inl _ \<Rightarrow> ret () | Inr ms \<Rightarrow>
         (case selectSelf ms (st_name s) (st_peer s) of None \<Rightarrow> ret () | Some self \<Rightarrow>
          if em_learner self \<or> \<not> em_started self then ret () else
          andthen (reconcileEtcdAlarms ap s) (\<lambda>nospace.
          if votingMemberCount ms < 3 then ret () else
          andthen (otherVotersHealthy s ms) (\<lambda>others. if \<not> others then ret () else
          andthen (maybeDefragLocal ap s) (\<lambda>defragged.
          if nospace \<and> defragged then ignoring (runEtcdctl ap (ctl_args s (st_lb s) @ [''alarm'', ''disarm''])) else ret ())))))))"

end
