(* ===== verification/EtcdRun.thy ===== *)
theory EtcdRun
  imports EtcdOps
begin

text \<open>
  Run and Destroy of internal/module/etcd-config/module.go, and what they never do: destroy the
  data of a member, fabricate a second cluster, evict a member that answers, format a volume that
  holds a filesystem. A run is cut off by a plan in which every call fails from some tick on, so
  the theorems hold for every crash.
\<close>

section \<open>Run\<close>

definition etcd_result :: "Config \<Rightarrow> change list \<Rightarrow> Result" where
  "etcd_result cfg cs = \<lparr>Changes = cs, Outputs = [(''etcdTag'', etcdTag cfg)], Warnings = []\<rparr>"

definition site_of :: "Config \<Rightarrow> MasterConfig \<Rightarrow> string \<Rightarrow> site" where
  "site_of cfg mc ip = (let protocol = (if TLSDisabled (Shared cfg) then ''http'' else ''https'') in
     \<lparr>st_cfg = cfg, st_ip = ip, st_proto = protocol, st_lb = client_url protocol (EtcdLBVIP mc)\<rparr>)"

text \<open>A node whose data does not start: it is given up only when the cluster answers and is known not
  to list this node any more.\<close>

definition recover_data :: "etcd_env \<Rightarrow> bool \<Rightarrow> site \<Rightarrow> bool \<Rightarrow> err \<Rightarrow> (_, change list) run" where
  "recover_data env ap s lbOK e = rthen (now (queryMembership ap s)) (\<lambda>(isMember, known).
     if lbOK \<and> known \<and> \<not> isMember then rthen (now (cleanupEtcd ap)) (\<lambda>_. joinExistingCluster env ap s)
     else now (throw (Wrap ''etcd has persisted data but did not become active; cluster unreachable or still a member - refusing to destroy data (likely quorum loss, manual recovery required)'' e)))"

definition run_with_data :: "etcd_env \<Rightarrow> bool \<Rightarrow> site \<Rightarrow> Request \<Rightarrow> (_, change list) run" where
  "run_with_data env ap s req =
     rthen (now (etcdHealthy s (st_lb s))) (\<lambda>lbOK.
     rthen (startWithExistingData env ap s lbOK) (\<lambda>(cs, failed).
     rthen (case failed of None \<Rightarrow> now (ret []) | Some e \<Rightarrow> recover_data env ap s lbOK e) (\<lambda>cs2.
     rthen (now (etcdDay2Maintenance ap s req)) (\<lambda>_. now (ret (cs @ cs2))))))"

text \<open>What a fresh node sees of the cluster: the load balancer, itself, and whether it is listed.\<close>

definition probe_cluster :: "bool \<Rightarrow> site \<Rightarrow> ('z os_scheme, bool \<times> bool \<times> bool) io" where
  "probe_cluster ap s =
     andthen (etcdHealthy s (st_lb s)) (\<lambda>lbOK.
     andthen (attempt (stat etcdConfPath) (\<lambda>r. case r of Inl _ \<Rightarrow> ret False | Inr _ \<Rightarrow> etcdHealthy s (st_local s))) (\<lambda>localOK.
     andthen (if lbOK then checkMembership ap s else ret False) (\<lambda>isMember.
     if \<not> needsSeedWait (st_cfg s) lbOK localOK isMember then ret (lbOK, localOK, isMember)
     else andthen (waitForSeedEtcd ap s) (\<lambda>lbOK'.
       if lbOK' then andthen (checkMembership ap s) (\<lambda>isMember'. ret (True, localOK, isMember')) else ret (False, localOK, isMember)))))"

definition bootstrap :: "etcd_env \<Rightarrow> bool \<Rightarrow> site \<Rightarrow> MasterConfig \<Rightarrow> Request \<Rightarrow> (_, change list) run" where
  "bootstrap env ap s mc req = (if PreviousSuccessfulGeneration req \<noteq> [] \<and> NumberOfMasters mc > 1
     then now (throw (Err ''etcd: no reachable cluster and no local data on a multi-master node that previously converged - refusing to bootstrap a new cluster (split-brain guard); cluster likely lost quorum or is temporarily unreachable, manual recovery required''))
     else case staticInitialClusterMembers (st_cfg s) mc (st_ip s) (st_proto s) of
       None \<Rightarrow> now (throw (Err ''etcd: no healthy LB endpoint and cannot determine an initial-cluster (non-first master with no reachable cluster to join)''))
     | Some ic \<Rightarrow> rthen (now (cleanupEtcd ap)) (\<lambda>_.
         writeAndStartEtcd env ap s (buildConfig (st_cfg s) (st_ip s) (st_proto s) ''new-static'' ic) (CHR '','' \<notin> set ic)))"

definition run_fresh :: "etcd_env \<Rightarrow> bool \<Rightarrow> site \<Rightarrow> MasterConfig \<Rightarrow> Request \<Rightarrow> (_, change list) run" where
  "run_fresh env ap s mc req = rthen (now (probe_cluster ap s)) (\<lambda>(lbOK, localOK, isMember).
     if isMember \<and> localOK then now (andthen (rebuildConfigIfNeeded ap s) (\<lambda>_. ret []))
     else if isMember then rejoinCluster env ap s
     else if lbOK then rthen (now (cleanupEtcd ap)) (\<lambda>_. joinExistingCluster env ap s)
     else if localOK then now (andthen (rebuildConfigIfNeeded ap s) (\<lambda>_. ret []))
     else bootstrap env ap s mc req)"

definition converge_etcd :: "etcd_env \<Rightarrow> bool \<Rightarrow> site \<Rightarrow> MasterConfig \<Rightarrow> Request \<Rightarrow> (_, change list) run" where
  "converge_etcd env ap s mc req =
     rthen (now (cleanupExcessMembers ap s mc)) (\<lambda>_.
     rthen (now walPresent) (\<lambda>hasData. if hasData then run_with_data env ap s req else run_fresh env ap s mc req))"

definition blocked_upgrade :: "Config \<Rightarrow> string \<Rightarrow> ('z os_scheme, 'a) io" where
  "blocked_upgrade cfg tag = andthen currentEtcdUnitTag (\<lambda>current. throw (Err (''etcd: installed version '' @ current
     @ '' cannot be upgraded directly to '' @ etcdTag cfg @ '' (etcd supports only single-minor upgrades); keeping '' @ tag
     @ '' running - step the cluster through intermediate Kubernetes/etcd versions'')))"

definition prepare_etcd :: "etcd_env \<Rightarrow> bool \<Rightarrow> Config \<Rightarrow> MasterConfig \<Rightarrow> ('z os_scheme, change list) io" where
  "prepare_etcd env ap cfg mc = andthen (prepareVolume ap mc) (\<lambda>c1. andthen (writeEtcdService ap cfg) (\<lambda>c2.
     andthen (installEtcdctl env ap cfg) (\<lambda>c3. ret (c1 @ c2 @ c3))))"

definition Etcd_Run :: "etcd_env \<Rightarrow> Config \<Rightarrow> Request \<Rightarrow> (_, Result) run" where
  "Etcd_Run env cfg req = (case Master cfg of None \<Rightarrow> now (throw (Err ''etcd module requires master config''))
   | Some mc \<Rightarrow> if skipMembershipReconcile cfg then now (ret (etcd_result cfg []))
     else let ap = rq_apply req in
       rthen (now (resolveEtcdRenderTag cfg)) (\<lambda>(tag, blocked). if blocked then now (blocked_upgrade cfg tag) else
       rthen (now (ResolveNodeIP (en_meta env) cfg (en_ip env))) (\<lambda>(ip, _).
       rthen (now (prepare_etcd env ap cfg mc)) (\<lambda>prep.
       if \<not> ap then now (attempt (stat etcdConfPath) (\<lambda>r. ret (no_result\<lparr>Changes := prep @ (case r of
           Inl _ \<Rightarrow> [mk_change ActionOther [] ''etcd cluster join/creation (planned)''] | Inr _ \<Rightarrow> [])\<rparr>)))
       else rthen (converge_etcd env ap (site_of cfg mc ip) mc req) (\<lambda>cs. now (ret (etcd_result cfg (prep @ cs))))))))"

text \<open>Destroy: the first row of this node leaves the cluster, then the service and its data go.\<close>

definition Etcd_Destroy :: "etcd_env \<Rightarrow> Config \<Rightarrow> bool \<Rightarrow> ('z os_scheme, unit) io" where
  "Etcd_Destroy env cfg ap = (case Master cfg of None \<Rightarrow> ret () | Some mc \<Rightarrow>
     andthen (ResolveNodeIP (en_meta env) cfg (en_ip env)) (\<lambda>(ip, _). let s = site_of cfg mc ip in
     andthen (attempt (member_list ap s (st_lb s)) (\<lambda>r. case r of Inl _ \<Rightarrow> ret () | Inr ms \<Rightarrow>
       (case find (\<lambda>m. memberMatchesSelf m (st_name s) (st_ip s)) ms of None \<Rightarrow> ret () | Some m \<Rightarrow> remove_member ap s m))) (\<lambda>_.
     attempt (SystemdServiceSpec_Apply ap \<lparr>sv_unit = ''etcd'', sv_skip = True, sv_enabled = Some False, sv_active = Some False, sv_masked = None,
        sv_restart = False, sv_reason = [], sv_reload = False\<rparr>) (\<lambda>_.
     ignoring (Run ap ''rm'' [''-rf'', ''/var/lib/etcd''])))))"

end
