(* ===== verification/EtcdSafe.thy ===== *)
theory EtcdSafe
  imports EtcdRun
begin

text \<open>
  Safety of the etcd module. \<open>calm w0 q r\<close> says that the file at \<open>q\<close> is \<open>r\<close> (or absent), that the
  commands answer as they did in \<open>w0\<close>, and that time has not gone back: what every step keeps that
  does not write \<open>q\<close>. Evidence for a decision is an answer of a command at some tick since \<open>w0\<close>.
\<close>

section \<open>What the steps keep\<close>

definition hidden :: "string set" where
  "hidden = {q. has_prefix (basename q) ''.''}"

definition calm :: "'z os_scheme \<Rightarrow> string \<Rightarrow> node option \<Rightarrow> 'z os_scheme \<Rightarrow> bool" where
  "calm w0 q r w \<longleftrightarrow> cmd_result w = cmd_result w0 \<and> tick w0 \<le> tick w \<and> regular w q = r"

named_theorems calm_intro \<open>steps that leave a file alone and time going on\<close>

lemma calmI: "confined P m \<Longrightarrow> q \<notin> P \<Longrightarrow> (\<And>w. cmd_result (snd (m w)) = cmd_result w \<and> tick w \<le> tick (snd (m w))) \<Longrightarrow> keeps (calm w0 q r) m"
  unfolding keeps_def calm_def confined_def by (auto intro: order_trans)

lemma put_fields [simp]: "cmd_result (put_content p c m w) = cmd_result w" "tick (put_content p c m w) = tick w"
  by (auto simp: put_content_def fs_simps split: option.splits node.splits)

lemma mkdir_fields: "cmd_result (snd (mkdir_all p m w)) = cmd_result w \<and> tick w \<le> tick (snd (mkdir_all p m w))"
proof -
  have "cmd_result (fold (\<lambda>d v. if is_dir v d then v else fput d (DirN m 0 0) v) ds w) = cmd_result w
     \<and> tick (fold (\<lambda>d v. if is_dir v d then v else fput d (DirN m 0 0) v) ds w) = tick w" for ds and w :: "'a os_scheme"
    by (induction ds arbitrary: w) (auto simp: fs_simps)
  then show ?thesis by (auto simp: mkdir_all_def fs_simps)
qed

lemma prim_fields:
  "cmd_result (snd (read_file p w)) = cmd_result w \<and> tick w \<le> tick (snd (read_file p w))"
  "cmd_result (snd (stat p w)) = cmd_result w \<and> tick w \<le> tick (snd (stat p w))"
  "cmd_result (snd (read_dir p w)) = cmd_result w \<and> tick w \<le> tick (snd (read_dir p w))"
  "cmd_result (snd (sync_fd w)) = cmd_result w \<and> tick w \<le> tick (snd (sync_fd w))"
  "cmd_result (snd (run_cmd argv w)) = cmd_result w \<and> tick w \<le> tick (snd (run_cmd argv w))"
  "cmd_result (snd (sleep w)) = cmd_result w \<and> tick w \<le> tick (snd (sleep w))"
  "cmd_result (snd (write_file p c m w)) = cmd_result w \<and> tick w \<le> tick (snd (write_file p c m w))"
  "cmd_result (snd (chmod p m w)) = cmd_result w \<and> tick w \<le> tick (snd (chmod p m w))"
  "cmd_result (snd (rename p p' w)) = cmd_result w \<and> tick w \<le> tick (snd (rename p p' w))"
  "cmd_result (snd (remove p w)) = cmd_result w \<and> tick w \<le> tick (snd (remove p w))"
  "cmd_result (snd (create_temp d pre w)) = cmd_result w \<and> tick w \<le> tick (snd (create_temp d pre w))"
  "cmd_result (snd (remove_all p w)) = cmd_result w \<and> tick w \<le> tick (snd (remove_all p w))"
  by (auto simp: read_file_def stat_def read_dir_def sync_fd_def run_cmd_def sleep_def write_file_def chmod_def rename_def remove_def
      create_temp_def remove_all_def Let_def fs_simps tock_def split: fault.splits option.splits node.splits prod.splits)

lemma confined_sleep: "confined P sleep"
  by (simp add: confined_def sleep_def fs_simps)

lemma calm_prims [calm_intro]:
  "keeps (calm w0 q r) (read_file p)" "keeps (calm w0 q r) (stat p)" "keeps (calm w0 q r) (read_dir p)"
  "keeps (calm w0 q r) sync_fd" "keeps (calm w0 q r) (run_cmd argv)" "keeps (calm w0 q r) sleep" "keeps (calm w0 q r) (mkdir_all p m)"
  by (rule calmI [of "{}"]; (rule confined_intro confined_sleep prim_fields mkdir_fields | simp))+

lemma calm_writes [calm_intro]:
  "q \<noteq> p \<Longrightarrow> keeps (calm w0 q r) (write_file p c m)" "q \<noteq> p \<Longrightarrow> keeps (calm w0 q r) (chmod p m)" "q \<noteq> p \<Longrightarrow> keeps (calm w0 q r) (remove p)"
  by (auto intro!: calmI [of "{p}"] confined_intro prim_fields)

lemma calm_rename [calm_intro]: "q \<noteq> p \<Longrightarrow> q \<noteq> p' \<Longrightarrow> keeps (calm w0 q r) (rename p p')"
  by (auto intro!: calmI [of "{p, p'}"] confined_intro prim_fields)

lemma remove_all_regular: "\<not> in_tree d q \<Longrightarrow> regular (snd (remove_all d w)) q = regular w q"
proof -
  assume a: "\<not> in_tree d q"
  have "map_of (filter (\<lambda>(r, _). r \<noteq> d \<and> \<not> has_prefix r (d @ ''/'')) xs) q = map_of xs q" for xs :: "(string \<times> node) list"
    using a by (induction xs) (auto simp: in_tree_def)
  then show ?thesis by (auto simp: remove_all_def regular_def fget_def tock_def split: fault.splits)
qed

lemma calm_remove_all [calm_intro]: "\<not> in_tree d q \<Longrightarrow> keeps (calm w0 q r) (remove_all d)"
  by (rule keepsI) (metis calm_def remove_all_regular prim_fields(12) order_trans)

text \<open>A temporary file has a name that starts with a dot.\<close>

lemma temp_hidden: "create_temp (dirname p) (''.'' @ basename p @ ''.tmp-'') w = (Inr t, w') \<Longrightarrow> t \<in> hidden"
proof -
  assume "create_temp (dirname p) (''.'' @ basename p @ ''.tmp-'') w = (Inr t, w')"
  then obtain n where t: "t = dirname p @ ''/'' @ (''.'' @ basename p @ ''.tmp-'') @ nat_str n"
    by (auto simp: create_temp_def Let_def split: if_splits)
  have "CHR ''/'' \<notin> set (''.'' @ basename p @ ''.tmp-'' @ nat_str n)" using basename_no_slash slash_not_digit by auto
  then have "basename (pjoin (dirname p) (''.'' @ basename p @ ''.tmp-'' @ nat_str n)) = ''.'' @ basename p @ ''.tmp-'' @ nat_str n"
    by (rule basename_pjoin [rotated]) simp
  moreover have "t = pjoin (dirname p) (''.'' @ basename p @ ''.tmp-'' @ nat_str n)" by (simp add: t pjoin_def)
  ultimately show ?thesis by (simp add: hidden_def has_prefix_iff)
qed

lemma calm_temp: "q \<notin> hidden \<Longrightarrow> (\<And>t. t \<in> hidden \<Longrightarrow> keeps (calm w0 q r) (f t)) \<Longrightarrow>
   keeps (calm w0 q r) (andthen (create_temp (dirname p) (''.'' @ basename p @ ''.tmp-'')) f)"
proof (rule keepsI)
  fix w
  assume q: "q \<notin> hidden" and f: "\<And>t. t \<in> hidden \<Longrightarrow> keeps (calm w0 q r) (f t)" and c: "calm w0 q r w"
  let ?m = "create_temp (dirname p) (''.'' @ basename p @ ''.tmp-'')"
  obtain x w1 where m: "?m w = (x, w1)" by (cases "?m w")
  show "calm w0 q r (snd (andthen ?m f w))"
  proof (cases x)
    case (Inl e)
    with m have "w1 = tock w" by (auto intro: create_temp_fail)
    with m Inl c show ?thesis by (simp add: andthen_def calm_def fs_simps)
  next
    case (Inr t)
    with m have t: "t \<in> hidden" by (auto intro: temp_hidden)
    with q have "q \<noteq> t" by auto
    with create_temp_ok [of _ _ w t w1] m Inr have "regular w1 q = regular w q" by auto
    with c prim_fields(11) [of "dirname p" "''.'' @ basename p @ ''.tmp-''" w] m have "calm w0 q r w1" by (auto simp: calm_def)
    with keepsD [OF f [OF t]] m Inr show ?thesis by (simp add: andthen_def)
  qed
qed

lemma calm_atomic [calm_intro]: "q \<notin> hidden \<Longrightarrow> q \<noteq> p \<Longrightarrow> keeps (calm w0 q r) (writeFileAtomic p d m)"
  unfolding writeFileAtomic_def sync_dir_def close_after_def
  by (intro keeps_intro calm_temp calm_intro) auto

lemma calm_fields: "cmd_result (tock (w\<lparr>cmd_trace := t\<rparr>)) = cmd_result w" "tick (tock (w\<lparr>cmd_trace := t\<rparr>)) = tick w + 1"
  "regular (tock (w\<lparr>cmd_trace := t\<rparr>)) q = regular w q" "regular (w\<lparr>cmd_trace := t\<rparr>) q = regular w q"
  by (simp_all add: tock_def regular_def fget_def)

lemma calm_etcdctl [calm_intro]: "keeps (calm w0 q r) (etcdctl args)"
  by (rule keepsI) (auto simp: etcdctl_def Let_def calm_def calm_fields split: prod.splits)

lemma calm_attempts [calm_intro]: "keeps (calm w0 q r) (ctl_attempts n ap args e)"
  by (induction n arbitrary: e) (auto intro!: keeps_intro calm_intro)

lemma calm_run [calm_intro]: "keeps (calm w0 q r) (runEtcdctl ap args)"
  unfolding runEtcdctl_def by (rule calm_intro)

lemma calm_succeeds [calm_intro]: "keeps (calm w0 q r) m \<Longrightarrow> keeps (calm w0 q r) (succeeds m)"
  "keeps (calm w0 q r) m \<Longrightarrow> keeps (calm w0 q r) (ignoring m)"
  unfolding succeeds_def ignoring_def by (intro keeps_intro; assumption)+

lemma calm_health [calm_intro]: "keeps (calm w0 q r) (etcdHealthyOnce s e t)" "keeps (calm w0 q r) (etcdHealthy s e)"
  unfolding etcdHealthy_def etcdHealthyOnce_def by (intro calm_intro)+

lemma calm_member_list [calm_intro]: "keeps (calm w0 q r) (member_list ap s e)"
  unfolding member_list_def by (intro keeps_intro calm_intro)

lemma calm_members [calm_intro]:
  "keeps (calm w0 q r) (queryMembership ap s)" "keeps (calm w0 q r) (checkMembership ap s)" "keeps (calm w0 q r) (remove_member ap s m)"
  "keeps (calm w0 q r) (removeStaleSelfMembers ap s)" "keeps (calm w0 q r) (currentInitialCluster ap s)"
  "keeps (calm w0 q r) (listMembersPreferLB ap s)" "keeps (calm w0 q r) (selfIsLearnerLocally ap s)"
  unfolding queryMembership_def checkMembership_def remove_member_def removeStaleSelfMembers_def currentInitialCluster_def
    listMembersPreferLB_def selfIsLearnerLocally_def queryMembership_def remove_member_def
  by (intro keeps_intro calm_intro)+

lemma calm_poll [calm_intro]: "keeps (calm w0 q r) c \<Longrightarrow> keeps (calm w0 q r) (poll n c)"
  by (induction n) (auto intro!: keeps_intro calm_intro)

lemma calm_add [calm_intro]: "keeps (calm w0 q r) (add_attempts n ap args i e)" "keeps (calm w0 q r) (memberAddWithRetry ap args i p l)"
proof -
  show "keeps (calm w0 q r) (add_attempts n ap args i e)" for n args e
    by (induction n arbitrary: e) (auto intro!: keeps_intro calm_intro)
  then show "keeps (calm w0 q r) (memberAddWithRetry ap args i p l)" by (simp add: memberAddWithRetry_def)
qed

lemma calm_promote [calm_intro]: "keeps (calm w0 q r) (ensurePromoted ap s)" "keeps (calm w0 q r) (promoteStrandedLearner ap s lb cs)"
proof -
  have once: "keeps (calm w0 q r) (promote_once ap s)"
    unfolding promote_once_def by (intro keeps_intro calm_intro)
  have gate: "keeps (calm w0 q r) (promoteHealthGate ap s)"
    unfolding promoteHealthGate_def by (intro keeps_intro calm_intro)
  have "keeps (calm w0 q r) (promote_loop n ap s e)" for n e
    by (induction n arbitrary: e) (auto intro!: keeps_intro calm_intro once gate split: promote_turn.split)
  then show 1: "keeps (calm w0 q r) (ensurePromoted ap s)" by (simp add: ensurePromoted_def)
  show "keeps (calm w0 q r) (promoteStrandedLearner ap s lb cs)"
    unfolding promoteStrandedLearner_def by (intro keeps_intro calm_intro 1)
qed

lemma calm_evict [calm_intro]: "keeps (calm w0 q r) (cleanupExcessMembers ap s mc)"
proof -
  have down: "keeps (calm w0 q r) (still_down n c)" if "keeps (calm w0 q r) c" for n c
    using that by (induction n) (auto intro!: keeps_intro calm_intro)
  have "keeps (calm w0 q r) (evict_first ap s ms)" for ms
    by (induction ms) (auto simp: Let_def evictionUnreachable_def intro!: keeps_intro calm_intro down)
  then show ?thesis unfolding cleanupExcessMembers_def by (intro keeps_intro calm_intro)
qed

lemma calm_commands [calm_intro]: "keeps (calm w0 q r) (Run ap name args)" "keeps (calm w0 q r) (RunCapture name args)"
  unfolding Run_def RunCapture_def by (intro keeps_intro calm_intro)+

lemma calm_systemctl [calm_intro]:
  "keeps (calm w0 q r) (SystemctlIsActive u)" "keeps (calm w0 q r) (SystemctlExists u)" "keeps (calm w0 q r) (SystemctlIsEnabled u)"
  "keeps (calm w0 q r) (SystemctlIsMasked u)"
  unfolding SystemctlIsActive_def SystemctlExists_def SystemctlIsEnabled_def SystemctlIsMasked_def
  by (intro keeps_intro calm_intro)+

lemma calm_unit [calm_intro]: "keeps (calm w0 q r) (SystemdServiceSpec_Apply ap spec)"
  unfolding SystemdServiceSpec_Apply_def SystemdServiceSpec_steps_def unit_step_def negated_def Let_def gather.simps
  by (intro keeps_intro calm_intro)

lemma calm_ensure [calm_intro]:
  "q \<noteq> p \<Longrightarrow> keeps (calm w0 q r) (EnsureDir ap p m)"
  "q \<notin> hidden \<Longrightarrow> q \<noteq> p \<Longrightarrow> keeps (calm w0 q r) (EnsureFile ap p d m)"
  unfolding EnsureDir_def EnsureFile_def applyFunc_def by (intro keeps_intro calm_intro; simp)+

lemma calm_specs [calm_intro]:
  "q \<noteq> d_path t \<Longrightarrow> keeps (calm w0 q r) (DirectorySpec_Apply ap t)"
  "q \<notin> hidden \<Longrightarrow> q \<noteq> f_path f \<Longrightarrow> keeps (calm w0 q r) (FileSpec_Apply ap f)"
  unfolding DirectorySpec_Apply_def FileSpec_Apply_def EnsureAbsent_def applyFunc_def
  by (intro keeps_intro calm_intro; simp)+

lemma calm_until [stays_intro]: "stays (calm w0 q r) (until_active fuel svc t i)"
proof -
  have "active_loop n (SystemctlIsActive svc) dl sf since w = Some (b, w') \<Longrightarrow> calm w0 q r w \<Longrightarrow> calm w0 q r w'" for n dl sf since w b w'
  proof (induction n arbitrary: since w)
    case (Suc n)
    obtain x w1 where c: "SystemctlIsActive svc w = (x, w1)" by (cases "SystemctlIsActive svc w")
    have h: "calm w0 q r w1" using keepsD' [OF calm_systemctl(1) Suc.prems(2) c] .
    then have "calm w0 q r (snd (sleep w1))" using keepsD [OF calm_prims(6)] by blast
    with Suc.IH Suc.prems(1) c h show ?case by (auto simp: Let_def split: if_splits)
  qed simp
  then show ?thesis unfolding stays_def until_active_def WaitForSystemctlActive_def waitForActiveState_def Let_def
    by (auto split: option.splits)
qed

lemma calm_stop [calm_intro]: "keeps (calm w0 q r) (cleanupEtcd ap)" "keeps (calm w0 q r) walPresent"
  unfolding cleanupEtcd_def walPresent_def by (intro keeps_intro calm_intro)+

lemma calm_day2 [calm_intro]: "keeps (calm w0 q r) (etcdDay2Maintenance ap s req)"
proof -
  have all: "keeps (calm w0 q r) (all_healthy s es)" for es
    by (induction es) (auto intro!: keeps_intro calm_intro)
  show ?thesis unfolding etcdDay2Maintenance_def reconcileEtcdAlarms_def otherVotersHealthy_def maybeDefragLocal_def
    by (intro keeps_intro calm_intro all)
qed

lemma calm_bring_up [calm_intro]: "keeps (calm w0 q r) (bring_up ap ch)"
  unfolding bring_up_def restart_etcd_def start_etcd_def by (intro keeps_intro calm_intro)

text \<open>Besides the configuration a start touches nothing; a path of interest is not a directory above it.\<close>

definition off_conf :: "string \<Rightarrow> bool" where
  "off_conf q \<longleftrightarrow> q \<notin> hidden \<and> q \<noteq> etcdConfPath \<and> q \<noteq> ''/etc/etcd''"

lemma calm_start: "off_conf q \<Longrightarrow> stays (calm w0 q r) (writeAndStartEtcd env ap s c h)"
  unfolding writeAndStartEtcd_def etcd_conf_def off_conf_def
  by (intro stays_intro keeps_intro calm_intro) auto

lemma calm_rebuild: "off_conf q \<Longrightarrow> keeps (calm w0 q r) (rebuildConfigIfNeeded ap s)"
  unfolding rebuildConfigIfNeeded_def etcd_conf_def restart_etcd_def off_conf_def
  by (intro keeps_intro calm_intro) auto

lemma calm_existing: "off_conf q \<Longrightarrow> stays (calm w0 q r) (startWithExistingData env ap s lb)"
  unfolding startWithExistingData_def start_etcd_def
  by (intro stays_intro keeps_intro calm_intro calm_start calm_rebuild)

section \<open>Evidence\<close>

definition health_cmd :: "site \<Rightarrow> string \<Rightarrow> string list" where
  "health_cmd s e = etcdctlBin # etcdctlArgsWithTimeout e etcdCerts (st_tls s) ''5s'' @ [''endpoint'', ''health'']"

definition list_cmd :: "site \<Rightarrow> string \<Rightarrow> string list" where
  "list_cmd s e = etcdctlBin # ctl_args s e @ [''member'', ''list'']"

text \<open>Since \<open>w\<close> the endpoint has answered a probe; it has listed exactly these members.\<close>

definition answered :: "site \<Rightarrow> string \<Rightarrow> bool \<Rightarrow> 'z os_scheme \<Rightarrow> bool" where
  "answered s e ok w \<longleftrightarrow> (\<exists>t \<ge> tick w. fst (cmd_result w t (health_cmd s e)) = ok)"

definition listed :: "site \<Rightarrow> string \<Rightarrow> etcdMember list \<Rightarrow> 'z os_scheme \<Rightarrow> bool" where
  "listed s e ms w \<longleftrightarrow> (\<exists>t \<ge> tick w. \<exists>out. cmd_result w t (list_cmd s e) = (True, out) \<and> ms = parseMemberList (trim_space out))"

lemma etcdctl_ok: "etcdctl args w = (Inr out, w') \<Longrightarrow> \<exists>o1. cmd_result w (tick w) (etcdctlBin # args) = (True, o1) \<and> out = trim_space o1"
  by (auto simp: etcdctl_def Let_def split: prod.splits if_splits)

lemma probe_answered: "etcdHealthyOnce s e t w = (Inr b, w') \<Longrightarrow>
   fst (cmd_result w (tick w) (etcdctlBin # etcdctlArgsWithTimeout e etcdCerts (st_tls s) t @ [''endpoint'', ''health''])) = b"
  by (auto simp: etcdHealthyOnce_def succeeds_def attempt_def etcdctl_def Let_def run_simps split: prod.splits if_splits)

lemma healthy_answered: "etcdHealthy s e w = (Inr b, w') \<Longrightarrow> answered s e b w"
  using probe_answered [of s e "''5s''" w b w'] by (auto simp: etcdHealthy_def answered_def health_cmd_def)

lemma attempts_ok: "ctl_attempts n ap args e w = (Inr out, w') \<Longrightarrow> \<exists>t \<ge> tick w. \<exists>o1. cmd_result w t (etcdctlBin # args) = (True, o1) \<and> out = trim_space o1"
proof (induction n arbitrary: e w)
  case 0
  then show ?case by (simp add: run_simps)
next
  case (Suc n)
  obtain x w1 where c: "etcdctl args w = (x, w1)" by (cases "etcdctl args w")
  have w1: "cmd_result w1 = cmd_result w" "tick w \<le> tick w1" using c by (auto simp: etcdctl_def Let_def calm_fields fs_simps split: prod.splits)
  show ?case
  proof (cases x)
    case (Inr o1)
    with Suc.prems c etcdctl_ok [of args w o1 w1] show ?thesis by (auto simp: attempt_def run_simps)
  next
    case (Inl e')
    obtain w2 where w2: "ctl_attempts n ap args e' w2 = (Inr out, w')" "cmd_result w2 = cmd_result w" "tick w \<le> tick w2"
    proof (cases "0 < n \<and> ap")
      case True
      with Suc.prems c Inl have "ctl_attempts n ap args e' (snd (sleep w1)) = (Inr out, w')"
        by (auto simp: attempt_def andthen_def sleep_def)
      moreover have "cmd_result (snd (sleep w1)) = cmd_result w" "tick w \<le> tick (snd (sleep w1))" using w1 by (auto simp: sleep_def fs_simps)
      ultimately show ?thesis using that by blast
    next
      case False
      with Suc.prems c Inl w1 that show ?thesis by (auto simp: attempt_def)
    qed
    from Suc.IH [OF w2(1)] obtain t o1 where "t \<ge> tick w2" "cmd_result w2 t (etcdctlBin # args) = (True, o1)" "out = trim_space o1" by blast
    with w2(2,3) show ?thesis by (intro exI [of _ t] conjI exI [of _ o1]) simp_all
  qed
qed

lemma member_list_listed: "member_list ap s e w = (Inr ms, w') \<Longrightarrow> listed s e ms w"
  unfolding member_list_def andthen_ok_iff runEtcdctl_def listed_def list_cmd_def
  by (auto simp: run_simps dest!: attempts_ok)

lemma calm_evidence: "calm w q r w1 \<Longrightarrow> answered s e b w1 \<Longrightarrow> answered s e b w" "calm w q r w1 \<Longrightarrow> listed s e ms w1 \<Longrightarrow> listed s e ms w"
  unfolding calm_def answered_def listed_def by (elim exE conjE; auto intro: order_trans)+

lemma calm_refl [simp]: "calm w q (regular w q) w"
  by (simp add: calm_def)

section \<open>The data of a member\<close>

text \<open>The write-ahead log is there: its directory holds a segment.\<close>

definition wal_there :: "'z os_scheme \<Rightarrow> bool" where
  "wal_there w \<longleftrightarrow> (case fget w etcdWal of Some (DirN _ _ _) \<Rightarrow> True | _ \<Rightarrow> False)
     \<and> list_ex (\<lambda>(n, _). has_suffix n ''.wal'') (entries_of etcdWal (files w))"

lemma walPresent_there: "wal_there w \<Longrightarrow> now_fault w = Fine \<Longrightarrow> walPresent w = (Inr True, tock w)"
  by (auto simp: walPresent_def wal_there_def attempt_def read_dir_def run_simps split: option.splits node.splits)

lemma files_evict: "frames files (cleanupExcessMembers ap s mc)"
proof -
  have ctl: "frames files (etcdctl args)" for args
    by (auto simp: frames_def etcdctl_def Let_def tock_def split: prod.splits)
  have nap: "frames files sleep" by (simp add: frames_def sleep_def tock_def)
  have att: "frames files (ctl_attempts n ap args e)" for n args e
    by (induction n arbitrary: e) (auto intro!: frames_intro ctl nap)
  have health: "frames files (etcdHealthy s e)" for e
    unfolding etcdHealthy_def etcdHealthyOnce_def succeeds_def by (intro frames_intro ctl)
  have down: "frames files (still_down n (etcdHealthy s e))" for n e
    by (induction n) (auto intro!: frames_intro health nap)
  have rm: "frames files (remove_member ap s m)" for m
    unfolding remove_member_def runEtcdctl_def by (intro frames_intro att)
  have "frames files (evict_first ap s ms)" for ms
    by (induction ms) (auto simp: Let_def evictionUnreachable_def intro!: frames_intro down rm)
  then show ?thesis
    unfolding cleanupExcessMembers_def member_list_def runEtcdctl_def by (intro frames_intro att)
qed

lemma wal_there_files: "files w' = files w \<Longrightarrow> wal_there w' \<longleftrightarrow> wal_there w"
  by (simp add: wal_there_def fget_def)

text \<open>The cluster is up and lists every member, and this node is none of them.\<close>

definition orphaned :: "site \<Rightarrow> 'z os_scheme \<Rightarrow> bool" where
  "orphaned s w \<longleftrightarrow> answered s (st_lb s) True w
     \<and> (\<exists>ms. listed s (st_lb s) ms w \<and> list_all (\<lambda>m. \<not> memberMatchesSelf m (st_name s) (st_ip s)) ms)"

lemma queryMembership_known: "queryMembership ap s w = (Inr (False, True), w') \<Longrightarrow>
   \<exists>ms. listed s (st_lb s) ms w \<and> list_all (\<lambda>m. \<not> memberMatchesSelf m (st_name s) (st_ip s)) ms"
  by (auto simp: queryMembership_def attempt_def run_simps list_ex_iff list_all_iff split: prod.splits sum.splits dest!: member_list_listed)

lemma healthy_total: "\<exists>b w'. etcdHealthy s e w = (Inr b, w')"
  by (auto simp: etcdHealthy_def etcdHealthyOnce_def succeeds_def attempt_def run_simps split: prod.splits)

lemma recover_data_safe:
  assumes run: "recover_data env ap s lb e w = Some (res, w')" and c: "calm w0 q r w" and lb: "lb \<Longrightarrow> answered s (st_lb s) True w0"
  shows "calm w0 q r w' \<or> orphaned s w0"
  using run unfolding recover_data_def
proof (cases rule: rthen_cases)
  case (fail e)
  then show ?thesis using keepsD' [OF calm_members(1) c] by simp
next
  case (ok x w1)
  obtain m k where x: "x = (m, k)" by (cases x)
  have c1: "calm w0 q r w1" using keepsD' [OF calm_members(1) c] ok(1) by simp
  show ?thesis
  proof (cases "lb \<and> k \<and> \<not> m")
    case False
    with ok(2) x c1 show ?thesis by (auto simp: run_simps)
  next
    case True
    with ok(1) x obtain ms where ms: "listed s (st_lb s) ms w" "list_all (\<lambda>m. \<not> memberMatchesSelf m (st_name s) (st_ip s)) ms"
      using queryMembership_known by fastforce
    with True lb calm_evidence(2) [OF c ms(1)] show ?thesis by (auto simp: orphaned_def)
  qed
qed

lemma run_with_data_safe:
  assumes run: "run_with_data env ap s req w = Some (res, w')" and q: "off_conf q" and c: "calm w0 q r w"
  shows "calm w0 q r w' \<or> orphaned s w0"
proof -
  obtain lb w1 where h: "etcdHealthy s (st_lb s) w = (Inr lb, w1)" using healthy_total by blast
  have c1: "calm w0 q r w1" using keepsD' [OF calm_health(2) c h] .
  have lb: "answered s (st_lb s) True w0" if lb
    using calm_evidence(1) [OF c healthy_answered [OF h]] that by simp
  from run h have "rthen (startWithExistingData env ap s lb) (\<lambda>(cs, failed).
     rthen (case failed of None \<Rightarrow> now (ret []) | Some e \<Rightarrow> recover_data env ap s lb e) (\<lambda>cs2.
     rthen (now (etcdDay2Maintenance ap s req)) (\<lambda>_. now (ret (cs @ cs2))))) w1 = Some (res, w')"
    by (simp add: run_with_data_def rthen_now)
  then show ?thesis
  proof (cases rule: rthen_cases)
    case (fail e)
    from staysD [OF calm_existing [OF q] c1 fail(1)] show ?thesis by simp
  next
    case (ok x w2)
    obtain cs failed where x: "x = (cs, failed)" by (cases x)
    from staysD [OF calm_existing [OF q] c1 ok(1)] have c2: "calm w0 q r w2" .
    have rec: "calm w0 q r w3 \<or> orphaned s w0" if "(case failed of None \<Rightarrow> now (ret []) | Some e \<Rightarrow> recover_data env ap s lb e) w2 = Some (y, w3)" for y w3
      using that c2 recover_data_safe [OF _ c2 lb] by (cases failed) (auto simp: run_simps)
    have day: "stays (calm w0 q r) (rthen (now (etcdDay2Maintenance ap s req)) (\<lambda>_. now (ret ys)))" for ys :: "change list"
      by (intro stays_intro keeps_intro calm_intro)
    from ok(2) [unfolded x prod.case] show ?thesis
    proof (cases rule: rthen_cases)
      case (fail e)
      from rec [OF fail(1)] show ?thesis .
    next
      case (ok ys w3)
      from rec [OF ok(1)] staysD [OF day _ ok(2)] show ?thesis by auto
    qed
  qed
qed

text \<open>C4: a node that has a write-ahead log keeps it. When the directory of the log can be read, no run
  changes a file of the data directory, whatever fails and wherever it is cut off, unless the
  cluster has answered a probe and has listed its members without this node.\<close>

theorem wal_data_safe:
  assumes run: "converge_etcd env ap s mc req w = Some (res, w')"
    and wal: "wal_there w" "now_fault (snd (cleanupExcessMembers ap s mc w)) = Fine"
    and q: "in_tree etcdData q" "q \<notin> hidden"
  shows "regular w' q = regular w q \<or> orphaned s w"
proof -
  let ?calm = "calm w q (regular w q)"
  have off: "off_conf q" using q by (auto simp: off_conf_def in_tree_def has_prefix_def)
  from run show ?thesis
    unfolding converge_etcd_def
  proof (cases rule: rthen_cases)
    case (fail e)
    then have "cleanupExcessMembers ap s mc w = (Inl e, w')" by simp
    from keepsD' [OF calm_evict calm_refl [of w q] this] show ?thesis by (simp add: calm_def)
  next
    case (ok u w1)
    then have e: "cleanupExcessMembers ap s mc w = (Inr u, w1)" by simp
    have c1: "?calm w1" using keepsD' [OF calm_evict calm_refl [of w q] e] .
    have "wal_there w1" using wal(1) wal_there_files [OF framesD [OF files_evict e]] by simp
    with wal(2) e have "walPresent w1 = (Inr True, tock w1)" by (simp add: walPresent_there)
    with ok(2) have r: "run_with_data env ap s req (tock w1) = Some (res, w')" by (simp add: rthen_now)
    have "?calm (tock w1)" using c1 by (simp add: calm_def fs_simps)
    from run_with_data_safe [OF r off this] show ?thesis by (auto simp: calm_def)
  qed
qed

text \<open>A node with a log and an active etcd, and a cluster that does not answer.\<close>

definition wal_files :: "(string \<times> node) list" where
  "wal_files = [(etcdWal, DirN o755 0 0), (etcdWal @ ''/0.wal'', FileN ''x'' o644 0 0), (etcdConfPath, FileN [] o644 0 0)]"

definition wal_world :: os where
  "wal_world = \<lparr>files = wal_files,
     tick = 0, fault = (\<lambda>_. Fine), clock = (\<lambda>_. []), secs = int, rand = (\<lambda>n. n),
     cmd_result = (\<lambda>_ argv. (argv ! 1 = ''is-active'', ''active'')), cmd_trace = []\<rparr>"

definition wal_env :: etcd_env where "wal_env = \<lparr>en_meta = (\<lambda>_. None), en_ip = None, en_sha = (\<lambda>c. c), en_http = (\<lambda>_ _. None), en_fuel = 3\<rparr>"

definition wal_mc :: MasterConfig where
  "wal_mc = \<lparr>NumberOfMasters = 0, KubeAPIPublicAddress = [], KubeAPIPrivateAddress = [], InitialCluster = [], MasterHostname = [], EtcdLBVIP = ''10.0.0.2'',
     EtcdVolume = [], EtcdVolumeSize = 0\<rparr>"

definition wal_req :: Request where
  "wal_req = \<lparr>rq_apply = True, rq_partial = False, PreviousSuccessfulGeneration = [], PreviousKubeTag = [], PreviousCARotationID = [], Periodic = False\<rparr>"

definition wal_site :: site where "wal_site = site_of (config_of_raw [] [] []) wal_mc ''10.0.0.5''"

definition alike :: "os \<Rightarrow> bool" where
  "alike w \<longleftrightarrow> files w = files wal_world \<and> fault w = fault wal_world \<and> cmd_result w = cmd_result wal_world"

lemma alike_ctl: "alike w \<Longrightarrow> \<exists>e w'. etcdctl (etcdctlArgsWithTimeout ep d t tm @ r) w = (Inl e, w') \<and> alike w'"
  by (auto simp: etcdctl_def wal_world_def etcdctlArgsWithTimeout_def Let_def tock_def alike_def)

lemma alike_tock: "alike w \<Longrightarrow> alike (tock w)"
  by (simp add: alike_def tock_def)

lemma alike_attempts: "alike w \<Longrightarrow> \<exists>e' w'. ctl_attempts n ap (etcdctlArgsWithTimeout ep d t tm @ r) e w = (Inl e', w') \<and> alike w'"
proof (induction n arbitrary: e w)
  case (Suc n)
  from alike_ctl [OF Suc.prems] obtain e1 w1 where 1: "etcdctl (etcdctlArgsWithTimeout ep d t tm @ r) w = (Inl e1, w1)" "alike w1" by blast
  with Suc.IH [OF 1(2)] Suc.IH [OF alike_tock [OF 1(2)]] show ?case
    by (auto simp: attempt_def andthen_def sleep_def)
qed (auto simp: throw_def)

lemma alike_list: "alike w \<Longrightarrow> \<exists>e w'. member_list ap s ep w = (Inl e, w') \<and> alike w'"
proof -
  assume "alike w"
  from alike_attempts [OF this, of 3 ap ep etcdCerts "st_tls s" "''5s''" "[''member'', ''list'']" "Err []"]
  obtain e w' where "ctl_attempts 3 ap (etcdctlArgsWithTimeout ep etcdCerts (st_tls s) ''5s'' @ [''member'', ''list'']) (Err []) w = (Inl e, w')" "alike w'" by blast
  then show ?thesis by (auto simp: member_list_def runEtcdctl_def ctl_args_def etcdctlArgs_def andthen_def)
qed

lemma alike_health: "alike w \<Longrightarrow> \<exists>w'. etcdHealthy s ep w = (Inr False, w') \<and> alike w'"
proof -
  assume "alike w"
  from alike_ctl [OF this, of ep etcdCerts "st_tls s" "''5s''" "[''endpoint'', ''health'']"]
  obtain e w' where "etcdctl (etcdctlArgsWithTimeout ep etcdCerts (st_tls s) ''5s'' @ [''endpoint'', ''health'']) w = (Inl e, w')" "alike w'" by blast
  then show ?thesis by (auto simp: etcdHealthy_def etcdHealthyOnce_def succeeds_def attempt_def ret_def)
qed

lemma active_text: "trim_space ''active'' = ''active''" by code_simp

lemma alike_active: "alike w \<Longrightarrow> \<exists>w'. SystemctlIsActive ''etcd'' w = (Inr True, w') \<and> alike w'"
  by (simp add: SystemctlIsActive_def RunCapture_def attempt_def andthen_def wrapping_def run_cmd_def alike_def wal_world_def ret_def tock_def active_text)

lemma alike_run: "alike w \<Longrightarrow> \<exists>w'. run_with_data env ap s wal_req w = Some (Inr [], w')"
proof -
  assume a: "alike w"
  obtain w1 where 1: "etcdHealthy s (st_lb s) w = (Inr False, w1)" "alike w1" using alike_health [OF a] by blast
  have 2: "stat etcdConfPath w1 = (Inr (FileN [] o644 0 0), tock w1)" "rebuildConfigIfNeeded ap s (tock w1) = (Inr (), tock (tock w1))"
    using 1(2) by (simp_all add: stat_def rebuildConfigIfNeeded_def attempt_def read_file_def alike_def wal_world_def wal_files_def fget_def tock_def ret_def)
  obtain w3 where 3: "SystemctlIsActive ''etcd'' (tock (tock w1)) = (Inr True, w3)" "alike w3"
    using alike_active 1(2) alike_tock by blast
  obtain e w4 where 4: "member_list ap s (st_local s) w3 = (Inl e, w4)" using alike_list [OF 3(2)] by blast
  have "startWithExistingData env ap s False w1 = Some (Inr ([], None), w4)"
    using 2 3 4 by (simp add: startWithExistingData_def rattempt_def now_def rthen_def promoteStrandedLearner_def selfIsLearnerLocally_def andthen_def attempt_def ret_def)
  with 1 show ?thesis
    by (simp add: run_with_data_def rthen_def now_def etcdDay2Maintenance_def wal_req_def ret_def)
qed

lemma wal_starts: "\<exists>w'. converge_etcd env ap s wal_mc wal_req wal_world = Some (Inr [], w')" "now_fault (snd (cleanupExcessMembers ap s wal_mc wal_world)) = Fine" "wal_there wal_world"
proof -
  have e: "cleanupExcessMembers ap s wal_mc wal_world = (Inr (), wal_world)" by (simp add: cleanupExcessMembers_def wal_mc_def ret_def)
  then show "now_fault (snd (cleanupExcessMembers ap s wal_mc wal_world)) = Fine" by (simp add: wal_world_def)
  have "list_ex (\<lambda>(n, _). has_suffix n ''.wal'') (entries_of etcdWal wal_files)" "map_of wal_files etcdWal = Some (DirN o755 0 0)" by code_simp+
  then show t: "wal_there wal_world" by (simp add: wal_world_def wal_there_def fget_def)
  have "walPresent wal_world = (Inr True, tock wal_world)" by (rule walPresent_there [OF t]) (simp add: wal_world_def)
  moreover have "alike (tock wal_world)" by (simp add: alike_def tock_def)
  ultimately show "\<exists>w'. converge_etcd env ap s wal_mc wal_req wal_world = Some (Inr [], w')"
    using alike_run e by (simp add: converge_etcd_def rthen_def now_def)
qed

theorem wal_data_safe_witness: "let s = site_of (config_of_raw [] [] []) wal_mc ''10.0.0.5'' in
    \<exists>w'. converge_etcd wal_env True s wal_mc wal_req wal_world = Some (Inr [], w')
      \<and> (regular w' (etcdWal @ ''/0.wal'') = Some (FileN ''x'' o644 0 0) \<or> orphaned s wal_world)"
proof -
  let ?s = "site_of (config_of_raw [] [] []) wal_mc ''10.0.0.5''"
  obtain w' where r: "converge_etcd wal_env True ?s wal_mc wal_req wal_world = Some (Inr [], w')" using wal_starts(1) by blast
  have q: "in_tree etcdData (etcdWal @ ''/0.wal'')" "etcdWal @ ''/0.wal'' \<notin> hidden" 
    by (simp add: in_tree_def has_prefix_def) (simp add: hidden_def; code_simp)
  have "regular wal_world (etcdWal @ ''/0.wal'') = Some (FileN ''x'' o644 0 0)" by (simp add: wal_world_def wal_files_def regular_def fget_def)
  with wal_data_safe [OF r wal_starts(3,2) q] r show ?thesis by (simp add: Let_def)
qed

end
