(* ===== verification/EtcdGuard.thy ===== *)
theory EtcdGuard
  imports EtcdSafe
begin

text \<open>
  When the etcd module writes the configuration of a member, and when it lets a member go. A
  configuration that starts a new cluster is written on the evidence of a load balancer that does
  not answer, never by a node that has converged before among several masters; a member is removed
  for being in excess only after six probes of its own endpoint have failed.
\<close>

section \<open>The configuration of a member\<close>

text \<open>The configuration is that of \<open>w0\<close> or one of \<open>C\<close>.\<close>

definition conf_in :: "'z os_scheme \<Rightarrow> string set \<Rightarrow> 'z os_scheme \<Rightarrow> bool" where
  "conf_in w0 C w \<longleftrightarrow> (\<exists>r. calm w0 etcdConfPath r w \<and> (r = regular w0 etcdConfPath \<or> (\<exists>c m u g. r = Some (FileN c m u g) \<and> c \<in> C)))"

lemma conf_lift: "(\<And>r. keeps (calm w0 etcdConfPath r) m) \<Longrightarrow> keeps (conf_in w0 C) m"
  unfolding keeps_def conf_in_def by blast

lemma conf_lift_run: "(\<And>r. stays (calm w0 etcdConfPath r) m) \<Longrightarrow> stays (conf_in w0 C) m"
  unfolding stays_def conf_in_def by blast

lemma conf_refl [simp]: "conf_in w C w"
  unfolding conf_in_def by (rule exI [of _ "regular w etcdConfPath"]) simp

lemma conf_not_hidden [simp]: "etcdConfPath \<notin> hidden" "\<not> in_tree etcdData etcdConfPath"
  unfolding hidden_def mem_Collect_eq by code_simp+

lemma conf_atomic: "c \<in> C \<Longrightarrow> keeps (conf_in w0 C) (writeFileAtomic etcdConfPath c m)"
proof (rule keepsI)
  fix w :: "'a os_scheme"
  assume c: "c \<in> C" and w: "conf_in w0 C w"
  obtain x w' where run: "writeFileAtomic etcdConfPath c m w = (x, w')" by (cases "writeFileAtomic etcdConfPath c m w")
  have "''x'' \<notin> hidden" by (simp add: hidden_def basename_def has_prefix_def)
  from keepsD' [OF calm_atomic [OF this] calm_refl run] have "cmd_result w' = cmd_result w \<and> tick w \<le> tick w'"
    by (simp add: calm_def)
  with writeFileAtomic_outcome [of etcdConfPath c m w] run c w show "conf_in w0 C (snd (writeFileAtomic etcdConfPath c m w))"
    by (auto simp: atomic_outcome_def conf_in_def calm_def)
qed

lemma conf_file: "c \<in> C \<Longrightarrow> keeps (conf_in w0 C) (FileSpec_Apply ap (etcd_conf c))"
  unfolding FileSpec_Apply_def etcd_conf_def EnsureFile_def applyFunc_def FileSpec.simps if_False
  by (intro keeps_intro conf_atomic conf_lift calm_intro)

text \<open>The configurations of a member that joins or stays, and the one that starts a cluster.\<close>

definition joins :: "site \<Rightarrow> string set" where
  "joins s = range (buildConfig (st_cfg s) (st_ip s) (st_proto s) ''existing'')"

definition starts :: "site \<Rightarrow> MasterConfig \<Rightarrow> string set" where
  "starts s mc = {buildConfig (st_cfg s) (st_ip s) (st_proto s) ''new-static'' ic | ic.
     staticInitialClusterMembers (st_cfg s) mc (st_ip s) (st_proto s) = Some ic}"

lemma conf_start: "c \<in> C \<Longrightarrow> stays (conf_in w0 C) (writeAndStartEtcd env ap s c h)"
  unfolding writeAndStartEtcd_def
  by (intro stays_intro keeps_intro conf_file conf_lift conf_lift_run calm_until calm_intro) auto

lemma conf_rebuild: "joins s \<subseteq> C \<Longrightarrow> keeps (conf_in w0 C) (rebuildConfigIfNeeded ap s)"
  unfolding rebuildConfigIfNeeded_def restart_etcd_def
  by (intro keeps_intro conf_file conf_lift calm_intro) (auto simp: joins_def)

lemma conf_add: "joins s \<subseteq> C \<Longrightarrow> stays (conf_in w0 C) (add_and_start env ap s what)"
  unfolding add_and_start_def clearEtcdData_def
  by (intro stays_intro keeps_intro conf_start conf_lift calm_intro) (auto simp: joins_def)

lemma conf_joins:
  "joins s \<subseteq> C \<Longrightarrow> stays (conf_in w0 C) (joinExistingCluster env ap s)"
  "joins s \<subseteq> C \<Longrightarrow> stays (conf_in w0 C) (rejoinCluster env ap s)"
  unfolding joinExistingCluster_def rejoinCluster_def
  by (intro stays_intro keeps_intro conf_add conf_lift calm_intro; assumption)+

lemma conf_existing: "joins s \<subseteq> C \<Longrightarrow> stays (conf_in w0 C) (startWithExistingData env ap s lb)"
  unfolding startWithExistingData_def Let_def start_etcd_def
  by (intro stays_intro keeps_intro conf_start conf_rebuild conf_lift conf_lift_run calm_until calm_intro) (auto simp: joins_def)

lemma conf_with_data: "joins s \<subseteq> C \<Longrightarrow> stays (conf_in w0 C) (run_with_data env ap s req)"
  unfolding run_with_data_def recover_data_def
  by (intro stays_intro keeps_intro conf_existing conf_joins conf_lift calm_intro; assumption)

lemma probe_result:
  assumes "probe_cluster ap s w = (Inr (False, False, m), w')"
  shows "answered s (st_lb s) False w"
proof -
  obtain lb w1 where h: "etcdHealthy s (st_lb s) w = (Inr lb, w1)" using healthy_total by blast
  have "\<not> lb" using assms h by (auto simp: probe_cluster_def needsSeedWait_def andthen_def attempt_def run_simps split: prod.splits sum.splits if_splits option.splits)
  with healthy_answered [OF h] show ?thesis by simp
qed

lemma conf_probe: "keeps (conf_in w0 C) (probe_cluster ap s)"
  unfolding probe_cluster_def waitForSeedEtcd_def
proof -
  have "keeps (calm w0 q r) (seed_wait n ap s)" for n q r
    by (induction n) (auto intro!: keeps_intro calm_intro)
  then show "keeps (conf_in w0 C) (andthen (etcdHealthy s (st_lb s)) (\<lambda>lbOK.
     andthen (attempt (stat etcdConfPath) (\<lambda>r. case r of Inl _ \<Rightarrow> ret False | Inr _ \<Rightarrow> etcdHealthy s (st_local s))) (\<lambda>localOK.
     andthen (if lbOK then checkMembership ap s else ret False) (\<lambda>isMember.
     if \<not> needsSeedWait (st_cfg s) lbOK localOK isMember then ret (lbOK, localOK, isMember)
     else andthen (seed_wait 60 ap s) (\<lambda>lbOK'.
       if lbOK' then andthen (checkMembership ap s) (\<lambda>isMember'. ret (True, localOK, isMember')) else ret (False, localOK, isMember))))))"
    by (intro keeps_intro conf_lift calm_intro)
qed

text \<open>When a run may start a cluster.\<close>

definition may_start :: "site \<Rightarrow> MasterConfig \<Rightarrow> Request \<Rightarrow> 'z os_scheme \<Rightarrow> bool" where
  "may_start s mc req w \<longleftrightarrow> (PreviousSuccessfulGeneration req = [] \<or> NumberOfMasters mc \<le> 1) \<and> answered s (st_lb s) False w"

definition allowed :: "site \<Rightarrow> MasterConfig \<Rightarrow> Request \<Rightarrow> 'z os_scheme \<Rightarrow> string set" where
  "allowed s mc req w = joins s \<union> (if may_start s mc req w then starts s mc else {})"

lemma joins_allowed: "joins s \<subseteq> allowed s mc req w"
  by (simp add: allowed_def)

lemma conf_bootstrap: "may_start s mc req w0 \<or> (PreviousSuccessfulGeneration req \<noteq> [] \<and> NumberOfMasters mc > 1)
   \<Longrightarrow> stays (conf_in w0 (allowed s mc req w0)) (bootstrap env ap s mc req)"
  unfolding bootstrap_def
  by (intro stays_intro keeps_intro conf_start conf_lift calm_intro) (auto simp: allowed_def starts_def)

lemma conf_fresh:
  assumes run: "run_fresh env ap s mc req w = Some (res, w')" and c: "conf_in w0 (allowed s mc req w0) w"
  shows "conf_in w0 (allowed s mc req w0) w'"
  using run unfolding run_fresh_def
proof (cases rule: rthen_cases)
  case (fail e)
  then show ?thesis using keepsD' [OF conf_probe c] by simp
next
  case (ok x w1)
  obtain lb lo m where x: "x = (lb, lo, m)" by (cases x)
  have p: "probe_cluster ap s w = (Inr (lb, lo, m), w1)" using ok(1) x by simp
  have c1: "conf_in w0 (allowed s mc req w0) w1" using keepsD' [OF conf_probe c p] .
  have lb: "answered s (st_lb s) False w0" if "\<not> lb" "\<not> lo"
  proof -
    have "answered s (st_lb s) False w" using p that probe_result [of ap s w m w1] by simp
    with c show ?thesis by (auto simp: conf_in_def calm_def answered_def intro: order_trans)
  qed
  have "stays (conf_in w0 (allowed s mc req w0))
      (if m \<and> lo then now (andthen (rebuildConfigIfNeeded ap s) (\<lambda>_. ret []))
       else if m then rejoinCluster env ap s
       else if lb then rthen (now (cleanupEtcd ap)) (\<lambda>_. joinExistingCluster env ap s)
       else if lo then now (andthen (rebuildConfigIfNeeded ap s) (\<lambda>_. ret []))
       else bootstrap env ap s mc req)"
    by (intro stays_intro keeps_intro conf_rebuild conf_joins conf_bootstrap joins_allowed conf_lift calm_intro)
      (use lb in \<open>auto simp: may_start_def\<close>)
  from staysD [OF this c1] ok(2) x show ?thesis by simp
qed

text \<open>C5: whatever fails, after a run the configuration of etcd is the one before, or one that joins the
  existing cluster, or one that starts a cluster. The last is only written when the load balancer
  has failed a probe, the node knows the first members, and it has never converged or is the only
  master; and never when the node has a write-ahead log that can be read.\<close>

theorem bootstrap_guarded:
  assumes run: "converge_etcd env ap s mc req w = Some (res, w')"
  shows "regular w' etcdConfPath = regular w etcdConfPath
    \<or> (\<exists>c m u g. regular w' etcdConfPath = Some (FileN c m u g) \<and> (c \<in> joins s
        \<or> c \<in> starts s mc \<and> may_start s mc req w \<and> \<not> (wal_there w \<and> now_fault (snd (cleanupExcessMembers ap s mc w)) = Fine)))"
proof -
  let ?C = "if wal_there w \<and> now_fault (snd (cleanupExcessMembers ap s mc w)) = Fine then joins s else allowed s mc req w"
  have "conf_in w ?C w'"
    using run unfolding converge_etcd_def
  proof (cases rule: rthen_cases)
    case (fail e)
    then have f: "cleanupExcessMembers ap s mc w = (Inl e, w')" by simp
    from keepsD' [OF conf_lift [OF calm_evict] conf_refl f] show ?thesis .
  next
    case (ok u w1)
    then have e: "cleanupExcessMembers ap s mc w = (Inr u, w1)" by simp
    have c1: "conf_in w ?C w1" using keepsD' [OF conf_lift [OF calm_evict] conf_refl e] .
    obtain b w2 where b: "walPresent w1 = (Inr b, w2)"
      by (cases "read_dir etcdWal w1") (auto simp: walPresent_def attempt_def run_simps)
    have c2: "conf_in w ?C w2" using keepsD' [OF conf_lift [OF calm_stop(2)] c1 b] .
    from ok(2) b have r: "(if b then run_with_data env ap s req else run_fresh env ap s mc req) w2 = Some (res, w')"
      by (simp add: rthen_now)
    show ?thesis
    proof (cases b)
      case True
      with r have "run_with_data env ap s req w2 = Some (res, w')" by simp
      from staysD [OF conf_with_data c2 this] show ?thesis by (rule meta_mp) (auto simp: allowed_def)
    next
      case False
      have "\<not> (wal_there w \<and> now_fault w1 = Fine)"
        using False b walPresent_there [of w1] wal_there_files [OF framesD [OF files_evict e]] by auto
      with e have C: "?C = allowed s mc req w" by auto
      from False r have "run_fresh env ap s mc req w2 = Some (res, w')" by simp
      from conf_fresh [OF this c2 [unfolded C]] C show ?thesis by simp
    qed
  qed
  then show ?thesis by (auto simp: conf_in_def calm_def allowed_def split: if_splits)
qed

theorem bootstrap_guarded_witness: "let s = site_of (config_of_raw [] [] []) wal_mc ''10.0.0.5'' in
    \<exists>w'. converge_etcd wal_env True s wal_mc wal_req wal_world = Some (Inr [], w')
      \<and> (regular w' etcdConfPath = regular wal_world etcdConfPath
      \<or> (\<exists>c m u g. regular w' etcdConfPath = Some (FileN c m u g) \<and> c \<in> joins s))"
proof -
  let ?s = "site_of (config_of_raw [] [] []) wal_mc ''10.0.0.5''"
  obtain w' where r: "converge_etcd wal_env True ?s wal_mc wal_req wal_world = Some (Inr [], w')" using wal_starts(1) by blast
  from bootstrap_guarded [OF r] wal_starts(2,3) r show ?thesis by (simp add: Let_def)
qed

end
