(* ===== verification/EtcdEvict.thy ===== *)
theory EtcdEvict
  imports EtcdGuard
begin

text \<open>
  Eviction of members that are in excess (cleanupExcessMembers of internal/module/etcd-config): the
  commands a run adds to the trace, and the answers of the cluster that justify a removal.
\<close>

section \<open>Eviction\<close>

definition is_removal :: "string list \<Rightarrow> bool" where
  "is_removal argv \<longleftrightarrow> 2 \<le> length argv \<and> argv ! (length argv - 2) = ''remove''"

definition remove_cmd :: "site \<Rightarrow> etcdMember \<Rightarrow> string list" where
  "remove_cmd s m = etcdctlBin # ctl_args s (st_lb s) @ [''member'', ''remove'', em_id m]"

text \<open>Every command that \<open>m\<close> adds to the trace satisfies \<open>P\<close>.\<close>

definition logs :: "(string list \<Rightarrow> bool) \<Rightarrow> ('z os_scheme, 'a) io \<Rightarrow> bool" where
  "logs P m \<longleftrightarrow> (\<forall>w. \<exists>cs. cmd_trace (snd (m w)) = cmd_trace w @ cs \<and> list_all P cs)"

named_theorems logs_intro \<open>commands added to the trace\<close>

lemma logsD_trace: "logs P m \<Longrightarrow> m w = (r, w') \<Longrightarrow> \<exists>cs. cmd_trace w' = cmd_trace w @ cs \<and> list_all P cs"
  unfolding logs_def by (metis snd_conv)

lemma logs_basic [logs_intro]: "logs P (ret x)" "logs P (throw e)" "logs P sleep"
  by (simp_all add: logs_def ret_def throw_def sleep_def tock_def)

lemma logs_andthen [logs_intro]: "logs P m \<Longrightarrow> (\<And>x. logs P (f x)) \<Longrightarrow> logs P (andthen m f)"
  unfolding logs_def
proof
  fix w :: "'a os_scheme"
  assume m: "\<forall>w. \<exists>cs. cmd_trace (snd (m w)) = cmd_trace w @ cs \<and> list_all P cs"
    and f: "\<And>x. \<forall>w. \<exists>cs. cmd_trace (snd (f x w)) = cmd_trace w @ cs \<and> list_all P cs"
  obtain x w1 where r: "m w = (x, w1)" by (cases "m w")
  from m r obtain cs where cs: "cmd_trace w1 = cmd_trace w @ cs" "list_all P cs" by (metis snd_conv)
  show "\<exists>cs. cmd_trace (snd (andthen m f w)) = cmd_trace w @ cs \<and> list_all P cs"
  proof (cases x)
    case (Inl e)
    with r cs show ?thesis by (simp add: andthen_def)
  next
    case (Inr y)
    from f [of y] obtain ds where "cmd_trace (snd (f y w1)) = cmd_trace w1 @ ds" "list_all P ds" by blast
    with r cs Inr show ?thesis by (intro exI [of _ "cs @ ds"]) (simp add: andthen_def)
  qed
qed

lemma logs_attempt [logs_intro]: "logs P m \<Longrightarrow> (\<And>x. logs P (f x)) \<Longrightarrow> logs P (attempt m f)"
  unfolding logs_def attempt_def case_prod_unfold
  by (metis (no_types, lifting) append_assoc list_all_append)

lemma logs_cases [logs_intro]:
  "logs P m \<Longrightarrow> logs P n \<Longrightarrow> logs P (if b then m else n)"
  "(\<And>e. logs P (f e)) \<Longrightarrow> (\<And>y. logs P (g y)) \<Longrightarrow> logs P (case x of Inl e \<Rightarrow> f e | Inr y \<Rightarrow> g y)"
  by (simp_all split: sum.split)

lemma logs_etcdctl: "P (etcdctlBin # args) \<Longrightarrow> logs P (etcdctl args)"
  by (simp add: logs_def etcdctl_def Let_def tock_def split: prod.split)

lemma logs_attempts: "P (etcdctlBin # args) \<Longrightarrow> logs P (ctl_attempts n ap args e)"
  by (induction n arbitrary: e) (auto intro!: logs_intro logs_etcdctl)

lemma is_removal_end: "is_removal (xs @ [a, b, c]) \<longleftrightarrow> b = ''remove''" "is_removal (x # xs @ [b, c]) \<longleftrightarrow> b = ''remove''"
  by (auto simp: is_removal_def nth_append nth_Cons')

abbreviation quiet :: "('z os_scheme, 'a) io \<Rightarrow> bool" where "quiet \<equiv> logs (\<lambda>c. \<not> is_removal c)"

lemma quiet_health: "quiet (etcdHealthy s e)"
  unfolding etcdHealthy_def etcdHealthyOnce_def succeeds_def
  by (intro logs_intro logs_etcdctl) (simp_all add: is_removal_end)

lemma quiet_member_list: "quiet (member_list ap s e)"
  unfolding member_list_def runEtcdctl_def
  by (intro logs_intro logs_attempts) (simp_all add: is_removal_end)

lemma quiet_down: "quiet (still_down n (etcdHealthy s e))"
  by (induction n) (auto intro!: logs_intro quiet_health)

lemma removes_one: "logs (\<lambda>c. c = remove_cmd s m) (remove_member ap s m)"
  unfolding remove_member_def runEtcdctl_def
  by (intro logs_intro logs_attempts) (simp_all add: remove_cmd_def)

text \<open>The ticks from \<open>w\<close> to \<open>w'\<close> at which a probe of the endpoint fails.\<close>

definition failures :: "site \<Rightarrow> string \<Rightarrow> 'z os_scheme \<Rightarrow> 'z os_scheme \<Rightarrow> nat set" where
  "failures s e w w' = {t. tick w \<le> t \<and> t < tick w' \<and> \<not> fst (cmd_result w t (health_cmd s e))}"

lemma failures_finite [simp]: "finite (failures s e w w')"
  unfolding failures_def by (rule finite_subset [of _ "{..< tick w'}"]) auto

lemma health_step: "etcdHealthy s e w = (Inr b, w1) \<Longrightarrow>
   fst (cmd_result w (tick w) (health_cmd s e)) = b \<and> cmd_result w1 = cmd_result w \<and> tick w1 = tick w + 1"
  using probe_answered [of s e "''5s''" w b w1]
  by (auto simp: etcdHealthy_def health_cmd_def etcdHealthyOnce_def succeeds_def attempt_def ret_def etcdctl_def Let_def calm_fields split: prod.splits)

lemma down_failures: "still_down n (etcdHealthy s e) w = (Inr True, w') \<Longrightarrow> n \<le> card (failures s e w w') \<and> cmd_result w' = cmd_result w \<and> tick w \<le> tick w'"
proof (induction n arbitrary: w)
  case 0
  then show ?case by (simp add: run_simps)
next
  case (Suc n)
  obtain b w1 where h: "etcdHealthy s e w = (Inr b, w1)" using healthy_total by blast
  note h1 = health_step [OF h]
  from Suc.prems h have b: "\<not> b" by (auto simp: andthen_def run_simps)
  show ?case
  proof (cases "n = 0")
    case True
    with Suc.prems h b have w': "w' = w1" by (simp add: andthen_def run_simps)
    have "tick w \<in> failures s e w w'" using h1 b w' by (simp add: failures_def)
    then have "0 < card (failures s e w w')" by (metis card_gt_0_iff empty_iff failures_finite)
    with True h1 w' show ?thesis by simp
  next
    case False
    with Suc.prems h b have r: "still_down n (etcdHealthy s e) (snd (sleep w1)) = (Inr True, w')"
      by (simp add: andthen_def sleep_def)
    have "tick (snd (sleep w1)) = tick w + 2" "cmd_result (snd (sleep w1)) = cmd_result w" using h1 by (simp_all add: sleep_def tock_def)
    with Suc.IH [OF r] have IH: "n \<le> card (failures s e (snd (sleep w1)) w')" "cmd_result w' = cmd_result w" "tick w + 2 \<le> tick w'"
      and sub: "insert (tick w) (failures s e (snd (sleep w1)) w') \<subseteq> failures s e w w'"
      and new: "tick w \<notin> failures s e (snd (sleep w1)) w'"
      using h1 b by (auto simp: failures_def)
    from card_mono [OF failures_finite sub] new IH show ?thesis by simp
  qed
qed

lemma up_answered: "still_down n (etcdHealthy s e) w = (Inr False, w') \<Longrightarrow> answered s e True w"
proof (induction n arbitrary: w)
  case (Suc n)
  obtain b w1 where h: "etcdHealthy s e w = (Inr b, w1)" using healthy_total by blast
  show ?case
  proof (cases b)
    case True
    with healthy_answered [OF h] show ?thesis by simp
  next
    case False
    with Suc.prems h have "still_down n (etcdHealthy s e) (snd (sleep w1)) = (Inr False, w')"
      by (auto simp: andthen_def sleep_def run_simps split: if_splits)
    from Suc.IH [OF this] health_step [OF h] obtain t where "tick w + 2 \<le> t" "fst (cmd_result w t (health_cmd s e))"
      by (auto simp: answered_def sleep_def tock_def)
    then show ?thesis unfolding answered_def by (intro exI [of _ t]) simp
  qed
qed (simp add: run_simps)

text \<open>A member that may go: none before it in the order of eviction is down, and it has failed six probes.\<close>

definition spared :: "site \<Rightarrow> 'z os_scheme \<Rightarrow> etcdMember \<Rightarrow> bool" where
  "spared s w m \<longleftrightarrow> memberClientEndpoint (em_peer m) = [] \<or> answered s (memberClientEndpoint (em_peer m)) True w"

definition gone :: "site \<Rightarrow> 'z os_scheme \<Rightarrow> 'z os_scheme \<Rightarrow> etcdMember \<Rightarrow> bool" where
  "gone s w w' m \<longleftrightarrow> memberClientEndpoint (em_peer m) \<noteq> [] \<and> 6 \<le> card (failures s (memberClientEndpoint (em_peer m)) w w')"

lemma later: "cmd_result w1 = cmd_result w \<Longrightarrow> tick w \<le> tick w1 \<Longrightarrow> spared s w1 m \<Longrightarrow> spared s w m"
  "cmd_result w1 = cmd_result w \<Longrightarrow> tick w \<le> tick w1 \<Longrightarrow> tick w2 \<le> tick w' \<Longrightarrow> gone s w1 w2 m \<Longrightarrow> gone s w w' m"
proof -
  assume a: "cmd_result w1 = cmd_result w" "tick w \<le> tick w1"
  show "spared s w1 m \<Longrightarrow> spared s w m" using a by (auto simp: spared_def answered_def intro: order_trans)
  assume b: "tick w2 \<le> tick w'" "gone s w1 w2 m"
  have "failures s (memberClientEndpoint (em_peer m)) w1 w2 \<subseteq> failures s (memberClientEndpoint (em_peer m)) w w'"
    using a b(1) by (auto simp: failures_def)
  from card_mono [OF failures_finite this] b(2) show "gone s w w' m" by (simp add: gone_def)
qed

lemma gone_step: "(if e = [] then ret False else evictionUnreachable s e) w = (r, w1) \<Longrightarrow> e = memberClientEndpoint (em_peer m) \<Longrightarrow>
   \<exists>b. r = Inr b \<and> (b \<longrightarrow> gone s w w1 m) \<and> (\<not> b \<longrightarrow> spared s w m) \<and> cmd_result w1 = cmd_result w \<and> tick w \<le> tick w1
     \<and> (\<exists>cs. cmd_trace w1 = cmd_trace w @ cs \<and> list_all (\<lambda>c. \<not> is_removal c) cs)"
proof (cases "e = []")
  case False
  assume r: "(if e = [] then ret False else evictionUnreachable s e) w = (r, w1)" and e: "e = memberClientEndpoint (em_peer m)"
  from r False have d: "still_down 6 (etcdHealthy s e) w = (r, w1)" by (simp add: evictionUnreachable_def)
  have "\<exists>b. r = Inr b"
  proof -
    have "\<exists>b w1. still_down n (etcdHealthy s e) w = (Inr b, w1)" for n w
    proof (induction n arbitrary: w)
      case (Suc n)
      obtain b w1 where "etcdHealthy s e w = (Inr b, w1)" using healthy_total by blast
      with Suc.IH [of "snd (sleep w1)"] show ?case by (auto simp: andthen_def sleep_def run_simps)
    qed (auto simp: run_simps intro: exI [of _ True])
    with d show ?thesis by (metis Pair_inject)
  qed
  then obtain b where b: "r = Inr b" by blast
  have c: "calm w ''x'' (regular w ''x'') w1"
  proof -
    have "keeps (calm w ''x'' (regular w ''x'')) (still_down n (etcdHealthy s e))" for n
      by (induction n) (auto intro!: keeps_intro calm_intro)
    from keepsD' [OF this calm_refl d] show ?thesis .
  qed
  show ?thesis
    using b c down_failures [of 6 s e w w1] up_answered [of 6 s e w w1] d logsD_trace [OF quiet_down d] False e
    by (cases b) (auto simp: gone_def spared_def calm_def)
next
  case True
  assume "(if e = [] then ret False else evictionUnreachable s e) w = (r, w1)" "e = memberClientEndpoint (em_peer m)"
  with True show ?thesis by (intro exI [of _ False]) (auto simp: run_simps spared_def)
qed

lemma evict_first_safe: "evict_first ap s ms w = (r, w') \<Longrightarrow> \<exists>cs. cmd_trace w' = cmd_trace w @ cs \<and> (filter is_removal cs = []
     \<or> (\<exists>xs m ys. ms = xs @ m # ys \<and> list_all (spared s w) xs \<and> gone s w w' m \<and> set (filter is_removal cs) \<subseteq> {remove_cmd s m}))"
proof (induction ms arbitrary: w)
  case Nil
  then show ?case by (simp add: run_simps)
next
  case (Cons m ms)
  let ?e = "memberClientEndpoint (em_peer m)"
  obtain x w1 where c: "(if ?e = [] then ret False else evictionUnreachable s ?e) w = (x, w1)"
    by (cases "(if ?e = [] then ret False else evictionUnreachable s ?e) w")
  from gone_step [OF c refl] obtain b cs where b: "x = Inr b" "b \<longrightarrow> gone s w w1 m" "\<not> b \<longrightarrow> spared s w m"
      and w1: "cmd_result w1 = cmd_result w" "tick w \<le> tick w1" and cs: "cmd_trace w1 = cmd_trace w @ cs" "list_all (\<lambda>c. \<not> is_removal c) cs"
    by blast
  from cs(2) have cs': "filter is_removal cs = []" by (simp add: list_all_iff)
  show ?case
  proof (cases b)
    case True
    with Cons.prems c b have r: "remove_member ap s m w1 = (r, w')" by (simp add: Let_def andthen_def)
    from logsD_trace [OF removes_one r] obtain ds where ds: "cmd_trace w' = cmd_trace w1 @ ds" "list_all (\<lambda>c. c = remove_cmd s m) ds" by blast
    have "tick w1 \<le> tick w'" using keepsD' [OF calm_members(3) calm_refl [of w1 "''x''"] r] by (simp add: calm_def)
    with True b later(2) [of w w w1 w' s m] have "gone s w w' m" by simp
    moreover have "set (filter is_removal (cs @ ds)) \<subseteq> {remove_cmd s m}" using cs' ds(2) by (auto simp: list_all_iff)
    ultimately show ?thesis using ds(1) cs(1)
      by (intro exI [of _ "cs @ ds"] conjI disjI2 exI [of _ "[]"] exI [of _ m] exI [of _ ms]) simp_all
  next
    case False
    with Cons.prems c b have "evict_first ap s ms w1 = (r, w')" by (simp add: Let_def andthen_def)
    from Cons.IH [OF this] obtain ds where ds: "cmd_trace w' = cmd_trace w1 @ ds"
      and o: "filter is_removal ds = [] \<or> (\<exists>xs m ys. ms = xs @ m # ys \<and> list_all (spared s w1) xs \<and> gone s w1 w' m \<and> set (filter is_removal ds) \<subseteq> {remove_cmd s m})"
      by blast
    from o show ?thesis
    proof
      assume "filter is_removal ds = []"
      with ds cs cs' show ?thesis by (intro exI [of _ "cs @ ds"]) simp
    next
      assume "\<exists>xs m ys. ms = xs @ m # ys \<and> list_all (spared s w1) xs \<and> gone s w1 w' m \<and> set (filter is_removal ds) \<subseteq> {remove_cmd s m}"
      then obtain xs m' ys where m': "ms = xs @ m' # ys" "list_all (spared s w1) xs" "gone s w1 w' m'" "set (filter is_removal ds) \<subseteq> {remove_cmd s m'}" by blast
      from m'(2) False b later(1) [OF w1] have "list_all (spared s w) (m # xs)" by (simp add: list_all_iff)
      moreover from later(2) [OF w1 order_refl m'(3)] have "gone s w w' m'" .
      ultimately show ?thesis using m' ds cs cs'
        by (intro exI [of _ "cs @ ds"] conjI disjI2 exI [of _ "m # xs"] exI [of _ m'] exI [of _ ys]) simp_all
    qed
  qed
qed


end
