(* ===== verification/RunRecord.thy ===== *)
theory RunRecord
  imports CaState Phases HostFrame
begin

text \<open>
  What a run leaves on the disk: the journal of internal/journal, the state of internal/state, the
  result of internal/result, and the two helpers of internal/reconcile that look after Pulumi: the
  recovery of a stale lock and the pruning of its history. Whether a process exists, and what kill
  says of it, is the argument \<open>alive\<close>; the id of this process is \<open>pid\<close>.
\<close>

section \<open>The journal\<close>

record RunState =
  jr_status :: string
  jr_mode :: string
  jr_instance :: string
  jr_role :: string
  jr_operation :: string
  jr_pid :: int
  jr_started :: string
  jr_completed :: string
  jr_summary :: string
  jr_phases :: "string list"

definition zero_run :: RunState where
  "zero_run = \<lparr>jr_status = [], jr_mode = [], jr_instance = [], jr_role = [], jr_operation = [], jr_pid = 0,
     jr_started = [], jr_completed = [], jr_summary = [], jr_phases = []\<rparr>"

definition omit_str :: "string \<Rightarrow> string \<Rightarrow> (string \<times> json) list" where
  "omit_str k v = (if v = [] then [] else [(k, JStr v)])"

definition omit_strs :: "string \<Rightarrow> string list \<Rightarrow> (string \<times> json) list" where
  "omit_strs k vs = (if vs = [] then [] else [(k, JArr (map JStr vs))])"

definition run_json :: "RunState \<Rightarrow> json" where
  "run_json s = JObj ([(''status'', JStr (jr_status s)), (''mode'', JStr (jr_mode s)), (''instance'', JStr (jr_instance s)),
     (''role'', JStr (jr_role s)), (''operation'', JStr (jr_operation s)), (''pid'', JInt (jr_pid s))]
     @ omit_str ''startedAt'' (jr_started s) @ omit_str ''completedAt'' (jr_completed s) @ omit_str ''summary'' (jr_summary s)
     @ omit_strs ''phases'' (jr_phases s))"

definition dec_strs :: "string \<Rightarrow> (string \<times> json) list \<Rightarrow> string list option" where
  "dec_strs k obj = (case jfield k obj of None \<Rightarrow> Some [] | j \<Rightarrow> json_strings j)"

definition dec_int64 :: "string \<Rightarrow> (string \<times> json) list \<Rightarrow> int option" where
  "dec_int64 k obj = (case dec_int k obj of None \<Rightarrow> None | Some i \<Rightarrow> if - (2 ^ 63) \<le> i \<and> i < 2 ^ 63 then Some i else None)"

definition run_of_json :: "json option \<Rightarrow> RunState option" where
  "run_of_json j = (case members_of j of None \<Rightarrow> None | Some m \<Rightarrow>
     (case (dec_str ''status'' m, dec_str ''mode'' m, dec_str ''instance'' m, dec_str ''role'' m, dec_str ''operation'' m) of
        (Some a, Some b, Some c, Some d, Some e) \<Rightarrow>
          (case (dec_int64 ''pid'' m, dec_str ''startedAt'' m, dec_str ''completedAt'' m, dec_str ''summary'' m, dec_strs ''phases'' m) of
             (Some f, Some g, Some h, Some i, Some k) \<Rightarrow> Some \<lparr>jr_status = a, jr_mode = b, jr_instance = c, jr_role = d, jr_operation = e,
                 jr_pid = f, jr_started = g, jr_completed = h, jr_summary = i, jr_phases = k\<rparr>
           | _ \<Rightarrow> None)
      | _ \<Rightarrow> None))"

definition run_bytes :: "RunState \<Rightarrow> string" where
  "run_bytes s = marshal_indent (run_json s) @ NL"

text \<open>The error is ErrCorrupt exactly when the answer is \<open>Inr None\<close>.\<close>

definition Load_run :: "string \<Rightarrow> ('z os_scheme, RunState option) io" where
  "Load_run path = attempt (read_file path) (\<lambda>r. case r of
       Inl e \<Rightarrow> if is_not_exist e then ret (Some zero_run) else throw e
     | Inr data \<Rightarrow> ret (run_of_json (parse_json data)))"

definition Write_run :: "string \<Rightarrow> RunState \<Rightarrow> ('z os_scheme, unit) io" where
  "Write_run path s = WriteFile path (run_bytes s) o600"

definition corrupt_run :: "string \<Rightarrow> RunState" where
  "corrupt_run t = zero_run\<lparr>jr_status := ''interrupted'', jr_summary := ''previous run state file was corrupt; marked interrupted'', jr_completed := t\<rparr>"

definition interrupted_run :: "string \<Rightarrow> RunState \<Rightarrow> RunState" where
  "interrupted_run t s = s\<lparr>jr_status := ''interrupted'', jr_summary := ''previous reconcile run appears interrupted'', jr_completed := t, jr_pid := 0\<rparr>"

definition processExists :: "(int \<Rightarrow> bool) \<Rightarrow> int \<Rightarrow> bool" where
  "processExists alive pid \<longleftrightarrow> pid > 0 \<and> alive pid"

definition RecoverInterrupted :: "(int \<Rightarrow> bool) \<Rightarrow> string \<Rightarrow> ('z os_scheme, RunState \<times> bool) io" where
  "RecoverInterrupted alive path = andthen (Load_run path) (\<lambda>l. case l of
       None \<Rightarrow> andthen now_text (\<lambda>t. andthen (Write_run path (corrupt_run t)) (\<lambda>_. ret (corrupt_run t, True)))
     | Some s \<Rightarrow> if jr_status s \<noteq> ''running'' \<or> jr_pid s \<le> 0 then ret (s, False)
         else if processExists alive (jr_pid s) then ret (s, False)
         else andthen now_text (\<lambda>t. andthen (Write_run path (interrupted_run t s)) (\<lambda>_. ret (interrupted_run t s, True))))"

definition MarkRunning :: "int \<Rightarrow> string \<Rightarrow> string \<Rightarrow> string \<Rightarrow> string \<Rightarrow> string \<Rightarrow> string list \<Rightarrow> ('z os_scheme, unit) io" where
  "MarkRunning pid path mode inst role operation phases = andthen now_text (\<lambda>t.
     Write_run path (zero_run\<lparr>jr_status := ''running'', jr_mode := mode, jr_instance := inst, jr_role := role, jr_operation := operation,
       jr_pid := pid, jr_started := t, jr_phases := phases\<rparr>))"

definition mark_ended :: "string \<Rightarrow> string \<Rightarrow> string \<Rightarrow> string \<Rightarrow> ('z os_scheme, unit) io" where
  "mark_ended status path mode smry = andthen (Load_run path) (\<lambda>l. let s = (case l of None \<Rightarrow> zero_run | Some s \<Rightarrow> s) in
     andthen now_text (\<lambda>t. Write_run path (s\<lparr>jr_status := status, jr_mode := mode, jr_completed := t, jr_summary := smry, jr_pid := 0\<rparr>)))"

definition MarkCompleted :: "string \<Rightarrow> string \<Rightarrow> string \<Rightarrow> ('z os_scheme, unit) io" where
  "MarkCompleted path mode smry = mark_ended ''completed'' path mode smry"

definition MarkFailed :: "string \<Rightarrow> string \<Rightarrow> string \<Rightarrow> ('z os_scheme, unit) io" where
  "MarkFailed path mode smry = mark_ended ''failed'' path mode smry"

section \<open>The state\<close>

record State =
  sf_attempted :: string
  sf_successful :: string
  sf_attempted_version :: string
  sf_successful_version :: string
  sf_kube_tag :: string
  sf_rotation :: string
  sf_role :: string
  sf_operation :: string
  sf_checksum :: string
  sf_project :: string
  sf_stack :: string
  sf_phases :: "string list"
  sf_updated :: string

definition zero_saved :: State where
  "zero_saved = \<lparr>sf_attempted = [], sf_successful = [], sf_attempted_version = [], sf_successful_version = [], sf_kube_tag = [],
     sf_rotation = [], sf_role = [], sf_operation = [], sf_checksum = [], sf_project = [], sf_stack = [], sf_phases = [], sf_updated = []\<rparr>"

definition saved_json :: "State \<Rightarrow> json" where
  "saved_json s = JObj (omit_str ''lastAttemptedGeneration'' (sf_attempted s) @ omit_str ''lastSuccessfulGeneration'' (sf_successful s)
     @ omit_str ''lastAttemptedReconcilerVersion'' (sf_attempted_version s) @ omit_str ''lastSuccessfulReconcilerVersion'' (sf_successful_version s)
     @ omit_str ''lastKubeTag'' (sf_kube_tag s) @ omit_str ''lastCaRotationId'' (sf_rotation s) @ omit_str ''lastRole'' (sf_role s)
     @ omit_str ''lastOperation'' (sf_operation s) @ omit_str ''lastInputChecksum'' (sf_checksum s) @ omit_str ''pulumiProject'' (sf_project s)
     @ omit_str ''pulumiStack'' (sf_stack s) @ omit_strs ''plannedPhases'' (sf_phases s) @ omit_str ''updatedAt'' (sf_updated s))"

definition saved_of_json :: "json option \<Rightarrow> State option" where
  "saved_of_json j = (case members_of j of None \<Rightarrow> None | Some m \<Rightarrow>
     (case (dec_str ''lastAttemptedGeneration'' m, dec_str ''lastSuccessfulGeneration'' m, dec_str ''lastAttemptedReconcilerVersion'' m,
            dec_str ''lastSuccessfulReconcilerVersion'' m, dec_str ''lastKubeTag'' m, dec_str ''lastCaRotationId'' m) of
        (Some a, Some b, Some c, Some d, Some e, Some f) \<Rightarrow>
          (case (dec_str ''lastRole'' m, dec_str ''lastOperation'' m, dec_str ''lastInputChecksum'' m, dec_str ''pulumiProject'' m,
                 dec_str ''pulumiStack'' m, dec_strs ''plannedPhases'' m, dec_str ''updatedAt'' m) of
             (Some g, Some h, Some i, Some k, Some l, Some n, Some p) \<Rightarrow> Some \<lparr>sf_attempted = a, sf_successful = b, sf_attempted_version = c,
                 sf_successful_version = d, sf_kube_tag = e, sf_rotation = f, sf_role = g, sf_operation = h, sf_checksum = i,
                 sf_project = k, sf_stack = l, sf_phases = n, sf_updated = p\<rparr>
           | _ \<Rightarrow> None)
      | _ \<Rightarrow> None))"

definition Load_saved :: "string \<Rightarrow> ('z os_scheme, State) io" where
  "Load_saved path = attempt (read_file path) (\<lambda>r. case r of
       Inl e \<Rightarrow> if is_not_exist e then ret zero_saved else throw e
     | Inr data \<Rightarrow> (case saved_of_json (parse_json data) of None \<Rightarrow> throw (Err ''json'') | Some s \<Rightarrow> ret s))"

definition Write_saved :: "string \<Rightarrow> State \<Rightarrow> ('z os_scheme, unit) io" where
  "Write_saved path s = andthen now_text (\<lambda>t. WriteFile path (marshal_indent (saved_json (s\<lparr>sf_updated := t\<rparr>)) @ NL) o600)"

section \<open>The result\<close>

record RunResult =
  rr_status :: string
  rr_step :: string
  rr_summary :: string
  rr_reason :: string
  rr_changed :: "string list"
  rr_operations :: "change list"
  rr_plan :: string
  rr_pulumi :: string
  rr_warnings :: "string list"
  rr_code :: string
  rr_details :: "(string \<times> string) list"
  rr_deploy_code :: int
  rr_stdout :: string
  rr_stderr :: string

definition zero_result :: RunResult where
  "zero_result = \<lparr>rr_status = [], rr_step = [], rr_summary = [], rr_reason = [], rr_changed = [], rr_operations = [], rr_plan = [],
     rr_pulumi = [], rr_warnings = [], rr_code = [], rr_details = [], rr_deploy_code = 0, rr_stdout = [], rr_stderr = []\<rparr>"

definition renderSignalText :: "RunResult \<Rightarrow> bool \<Rightarrow> string" where
  "renderSignalText r failed = join NL (
     (if rr_summary r \<noteq> [] then [rr_summary r] else [])
     @ (if rr_step r \<noteq> [] then [''step='' @ rr_step r] else [])
     @ (if failed \<and> rr_reason r \<noteq> [] \<and> rr_reason r \<noteq> rr_summary r then [''reason='' @ rr_reason r] else [])
     @ (if rr_code r \<noteq> [] then [''errorCode='' @ rr_code r] else [])
     @ map (\<lambda>x. ''warning='' @ x) (rr_warnings r)
     @ map (\<lambda>(k, v). k @ ''='' @ v) (sort_key fst (rr_details r)))"

definition Normalize :: "RunResult \<Rightarrow> RunResult" where
  "Normalize r0 = (let r = (if rr_reason r0 = [] then r0\<lparr>rr_reason := rr_summary r0\<rparr> else r0) in
     if rr_status r = ''failed'' then
       let r = (if rr_deploy_code r = 0 then r\<lparr>rr_deploy_code := 1\<rparr> else r)
       in (if rr_stderr r = [] then r\<lparr>rr_stderr := renderSignalText r True\<rparr> else r)
     else if rr_stdout r = [] then r\<lparr>rr_stdout := renderSignalText r False\<rparr> else r)"

definition change_json :: "change \<Rightarrow> json" where
  "change_json c = JObj ([(''action'', JStr (ch_action c))] @ omit_str ''path'' (ch_path c) @ [(''summary'', JStr (ch_summary c))])"

definition result_json :: "RunResult \<Rightarrow> json" where
  "result_json r = JObj ([(''status'', JStr (rr_status r)), (''step'', JStr (rr_step r)), (''summary'', JStr (rr_summary r))]
     @ omit_str ''reason'' (rr_reason r) @ omit_strs ''changed'' (rr_changed r)
     @ (if rr_operations r = [] then [] else [(''operations'', JArr (map change_json (rr_operations r)))])
     @ omit_str ''previewPlan'' (rr_plan r) @ omit_str ''pulumiSummary'' (rr_pulumi r) @ omit_strs ''warnings'' (rr_warnings r)
     @ omit_str ''errorCode'' (rr_code r)
     @ (if rr_details r = [] then [] else [(''details'', JObj (map (\<lambda>(k, v). (k, JStr v)) (sort_key fst (rr_details r))))])
     @ [(''deploy_status_code'', JInt (rr_deploy_code r))] @ omit_str ''deploy_stdout'' (rr_stdout r) @ omit_str ''deploy_stderr'' (rr_stderr r))"

definition Write_result :: "string \<Rightarrow> RunResult \<Rightarrow> ('z os_scheme, unit) io" where
  "Write_result path r = write_file path (marshal_indent (result_json (Normalize r)) @ NL) o600"

end
