(* ===== verification/RunControl.thy ===== *)
theory RunControl
  imports RunRecord Scheduler Certs
begin

text \<open>
  The frame of a run: the recovery of a stale Pulumi lock and the pruning of the history of
  internal/reconcile, how a finished program becomes a result and a state, and \<open>run\<close> and \<open>cancel\<close>
  of internal/app. The Pulumi engine is not under src/: a reconcile is an argument of \<open>app_run\<close>
  that answers with its result, state and error and whether the deadline has passed.
\<close>

section \<open>Stale locks\<close>

fun lock_pids :: "string \<Rightarrow> string list" where
  "lock_pids [] = []"
| "lock_pids (c # s) = (if has_prefix (c # s) ''(pid '' then
       (let t = drop 5 (c # s); ds = takeWhile is_digit t in
        if ds \<noteq> [] \<and> has_prefix (dropWhile is_digit t) '')'' then ds # lock_pids s else lock_pids s)
     else lock_pids s)"

definition extractLockOwnerPIDs :: "string \<Rightarrow> int list" where
  "extractLockOwnerPIDs msg = sort (remdups (List.map_filter (\<lambda>ds. case atoi ds of Some i \<Rightarrow> if i > 0 then Some i else None | None \<Rightarrow> None) (lock_pids msg)))"

definition localProcessExists :: "(int \<Rightarrow> bool) \<Rightarrow> int \<Rightarrow> ('z os_scheme, bool) io" where
  "localProcessExists alive pid = (if pid \<le> 0 \<or> \<not> alive pid then ret False
     else attempt (read_file (''/proc/'' @ itoa pid @ ''/comm'')) (\<lambda>r. ret (case r of Inl _ \<Rightarrow> True
       | Inr comm \<Rightarrow> trim_space comm = ''bootstrap'' \<or> has_prefix (trim_space comm) ''pulumi'')))"

fun classify :: "(int \<Rightarrow> bool) \<Rightarrow> int list \<Rightarrow> ('z os_scheme, int list \<times> int list) io" where
  "classify alive [] = ret ([], [])"
| "classify alive (p # ps) = andthen (localProcessExists alive p) (\<lambda>live. andthen (classify alive ps) (\<lambda>(stale, active).
     ret (if live then (stale, p # active) else (p # stale, active))))"

definition classifyLockOwnerPIDs :: "(int \<Rightarrow> bool) \<Rightarrow> string \<Rightarrow> ('z os_scheme, int list \<times> int list) io" where
  "classifyLockOwnerPIDs alive msg = classify alive (extractLockOwnerPIDs msg)"

text \<open>\<open>concurrent\<close> is what Pulumi says of an error; \<open>cancel\<close> is stack.Cancel.\<close>

definition runWithAutoCancel ::
  "(err \<Rightarrow> bool) \<Rightarrow> (int \<Rightarrow> bool) \<Rightarrow> ('z os_scheme, unit) io \<Rightarrow> ('z os_scheme, 'a) io \<Rightarrow> ('z os_scheme, 'a) io" where
  "runWithAutoCancel concurrent alive cancel run = attempt run (\<lambda>r. case r of Inr x \<Rightarrow> ret x
     | Inl e \<Rightarrow> if \<not> concurrent e then throw e
       else andthen (classifyLockOwnerPIDs alive (err_text e)) (\<lambda>(stale, active).
         if active \<noteq> [] \<or> stale = [] then throw e
         else attempt cancel (\<lambda>c. attempt run (\<lambda>r2. case r2 of Inr x \<Rightarrow> ret x
           | Inl e2 \<Rightarrow> (case c of Inr _ \<Rightarrow> throw e2
             | Inl ce \<Rightarrow> throw (Err (''retry after stale lock recovery failed: '' @ err_text e2 @ '' (cancel err: '' @ err_text ce @ '')'')))))))"

section \<open>History\<close>

definition historyKeep :: nat where "historyKeep = 20"

definition version_of :: "string \<times> bool \<Rightarrow> string option" where
  "version_of e = (case e of (name, isdir) \<Rightarrow> let v = takeWhile (\<lambda>c. c \<noteq> CHR ''.'') name in
     if isdir \<or> v = [] \<or> CHR ''.'' \<notin> set name then None else Some v)"

definition versions :: "(string \<times> bool) list \<Rightarrow> string list" where
  "versions es = sort (remdups (List.map_filter version_of es))"

definition stale_files :: "(string \<times> bool) list \<Rightarrow> string list" where
  "stale_files es = concat (map (\<lambda>v. map fst (filter (\<lambda>e. version_of e = Some v) es))
     (take (length (versions es) - historyKeep) (versions es)))"

fun remove_files :: "string \<Rightarrow> string list \<Rightarrow> ('z os_scheme, nat) io" where
  "remove_files dir [] = ret 0"
| "remove_files dir (f # fs) = attempt (remove (pjoin dir f)) (\<lambda>r. andthen (remove_files dir fs) (\<lambda>n.
     ret (case r of Inr _ \<Rightarrow> n + 1 | Inl _ \<Rightarrow> n)))"

definition pruneHistoryDir :: "string \<Rightarrow> ('z os_scheme, nat) io" where
  "pruneHistoryDir dir = attempt (read_dir dir) (\<lambda>r. case r of Inl _ \<Rightarrow> ret 0 | Inr es \<Rightarrow> remove_files dir (stale_files es))"

definition pruneStackHistory :: "string \<Rightarrow> ('z os_scheme, unit) io" where
  "pruneStackHistory stateDir = (if stateDir = [] then ret () else let root = pjoin (pjoin stateDir ''.pulumi'') ''history'' in
     attempt (read_dir root) (\<lambda>r. case r of Inl _ \<Rightarrow> ret ()
       | Inr es \<Rightarrow> for_each (filter snd es) (\<lambda>(d, _). andthen (pruneHistoryDir (pjoin root d)) (\<lambda>_. ret ()))))"

section \<open>From a program to a result\<close>

definition truncateError :: "string \<Rightarrow> nat \<Rightarrow> string" where
  "truncateError msg mx = (let cut = (\<lambda>sep. find (\<lambda>i. has_prefix (drop i msg) sep) [0..<length msg]);
       hit = find (\<lambda>sep. case cut sep of Some i \<Rightarrow> i > 0 | None \<Rightarrow> False) [NL @ ''code:'', NL @ ''stdout:'', NL @ ''stderr:''];
       short = (case hit of None \<Rightarrow> msg | Some sep \<Rightarrow> (case cut sep of Some i \<Rightarrow> take i msg | None \<Rightarrow> msg)) in
     if length short > mx then take mx short @ ''...'' else short)"

definition effectiveCARotationStateID :: "string \<Rightarrow> ('z os_scheme, string) io" where
  "effectiveCARotationStateID previous = andthen ReadMarker (\<lambda>m. ret (if m \<noteq> [] then m else trim_space previous))"

definition attemptedState :: "string \<Rightarrow> Config \<Rightarrow> Request \<Rightarrow> Plan \<Rightarrow> ('z os_scheme, State) io" where
  "attemptedState build cfg req p = andthen (effectiveCARotationStateID (PreviousCARotationID req)) (\<lambda>rid.
     ret (zero_saved\<lparr>sf_attempted := GenerationToken cfg, sf_attempted_version := EffectiveReconcilerVersion build cfg,
       sf_kube_tag := KubeTag (Shared cfg), sf_rotation := rid, sf_role := Role cfg, sf_operation := Operation cfg,
       sf_checksum := InputChecksum cfg, sf_phases := PhaseIDs p\<rparr>))"

definition successfulState :: "string \<Rightarrow> Config \<Rightarrow> Request \<Rightarrow> Plan \<Rightarrow> ('z os_scheme, State) io" where
  "successfulState build cfg req p = andthen (attemptedState build cfg req p) (\<lambda>s.
     ret (s\<lparr>sf_successful := GenerationToken cfg, sf_successful_version := EffectiveReconcilerVersion build cfg\<rparr>))"

definition buildSuccessResult :: "string \<Rightarrow> Config \<Rightarrow> Plan \<Rightarrow> accumulator \<Rightarrow> string list \<Rightarrow> string list \<Rightarrow> RunResult" where
  "buildSuccessResult mode cfg p acc warnings missing = (let preview = (mode = ''preview''); n = nat_str (length (ac_changes acc));
       smry = (if preview then ''planned'' else ''applied'') @ '' '' @ itoa (int (length (Phases p)) - int (length missing)) @ '' implemented phase(s) for ''
         @ Role cfg @ '' '' @ Operation cfg @ '' on '' @ InstanceName (Shared cfg) @ '' ('' @ n @ '' change(s))''
         @ (if missing \<noteq> [] then ''; skipped '' @ nat_str (length missing) @ '' unimplemented phase(s)'' else []) in
     zero_result\<lparr>rr_status := (if preview then ''planned'' else ''succeeded''), rr_step := (if preview then ''preview'' else ''apply''),
       rr_summary := smry, rr_reason := smry, rr_changed := ac_phaseChanges acc, rr_operations := ac_changes acc, rr_warnings := warnings,
       rr_details := [(''mode'', mode), (''role'', Role cfg), (''operation'', Operation cfg), (''inputChecksum'', InputChecksum cfg), (''changeCount'', n)]
         @ (if ac_phaseChanges acc \<noteq> [] then [(''changedPhases'', join '','' (ac_phaseChanges acc))] else [])
         @ (if missing \<noteq> [] then [(''missingPhases'', join '','' missing)] else [])\<rparr>)"

definition buildMissingModulesResult :: "string \<Rightarrow> Config \<Rightarrow> Plan \<Rightarrow> accumulator \<Rightarrow> string list \<Rightarrow> string list \<Rightarrow> RunResult" where
  "buildMissingModulesResult mode cfg p acc warnings missing = (let smry = ''missing module implementations for phase(s): '' @ join '', '' missing in
     zero_result\<lparr>rr_status := ''failed'', rr_step := mode, rr_summary := smry, rr_reason := smry, rr_operations := ac_changes acc, rr_warnings := warnings,
       rr_code := ''module_missing'', rr_details := [(''role'', Role cfg), (''operation'', Operation cfg), (''instance'', InstanceName (Shared cfg)),
         (''missingPhases'', join '','' missing), (''plannedPhases'', join '','' (PhaseIDs p))]\<rparr>)"

definition buildModuleFailureResult :: "Config \<Rightarrow> string \<Rightarrow> err \<Rightarrow> accumulator \<Rightarrow> RunResult" where
  "buildModuleFailureResult cfg phase e acc = (let smry = ''phase '' @ phase @ '' failed: '' @ err_text e in
     zero_result\<lparr>rr_status := ''failed'', rr_step := phase, rr_summary := smry, rr_reason := smry, rr_operations := ac_changes acc,
       rr_warnings := ac_warnings acc, rr_code := ''phase_failed'', rr_details := [(''phase'', phase), (''role'', Role cfg),
         (''operation'', Operation cfg), (''instance'', InstanceName (Shared cfg))]\<rparr>)"

text \<open>A failed engine: the failure of the program, when it has one, comes first.\<close>

definition extractFailureResult :: "string \<Rightarrow> string \<Rightarrow> accumulator \<Rightarrow> string \<Rightarrow> Config \<Rightarrow> Plan \<Rightarrow> Request \<Rightarrow> err
    \<Rightarrow> ('z os_scheme, RunResult \<times> State \<times> err option) io" where
  "extractFailureResult build logFile acc mode cfg p req e = andthen (attemptedState build cfg req p) (\<lambda>s. ret (case ac_failedErr acc of
       Some fe \<Rightarrow> (buildModuleFailureResult cfg (ac_failedPhase acc) fe acc, s, Some fe)
     | None \<Rightarrow> (zero_result\<lparr>rr_status := ''failed'', rr_step := mode, rr_summary := truncateError (err_text e) 500, rr_reason := truncateError (err_text e) 500,
         rr_code := ''pulumi_error'', rr_details := [(''mode'', mode), (''logFile'', logFile)]\<rparr>, s, Some e)))"

text \<open>What follows the engine. \<open>engine\<close> is its error and \<open>acc\<close> what the program has recorded;
  \<open>previewed\<close> is the text of a plan and \<open>counted\<close> the summary of the engine.\<close>

definition settle_run :: "string \<Rightarrow> string \<Rightarrow> string \<Rightarrow> Config \<Rightarrow> Plan \<Rightarrow> Request \<Rightarrow> accumulator \<Rightarrow> err option \<Rightarrow> string \<Rightarrow> string
    \<Rightarrow> ('z os_scheme, RunResult \<times> State \<times> err option) io" where
  "settle_run build logFile mode cfg p req acc engine previewed counted = (case engine of
       Some e \<Rightarrow> extractFailureResult build logFile acc mode cfg p req e
     | None \<Rightarrow> (case ac_failedErr acc of
         Some fe \<Rightarrow> andthen (attemptedState build cfg req p) (\<lambda>s. ret (buildModuleFailureResult cfg (ac_failedPhase acc) fe acc, s, Some fe))
       | None \<Rightarrow> let missing = MissingPhases BuildRegistry p; tolerate = (\<not> rq_apply req \<or> rq_partial req) in
           if missing \<noteq> [] \<and> \<not> tolerate
           then andthen (attemptedState build cfg req p) (\<lambda>s. ret (buildMissingModulesResult mode cfg p acc (ac_warnings acc) missing, s,
                  Some (Err (''missing modules: '' @ join '', '' missing))))
           else let warnings = ac_warnings acc @ (if missing \<noteq> [] then [''skipped unimplemented phase(s): '' @ join '', '' missing] else []);
                  res = buildSuccessResult mode cfg p acc warnings missing;
                  res = (if mode = ''preview'' then res\<lparr>rr_plan := previewed\<rparr> else res) in
                andthen (successfulState build cfg req p) (\<lambda>s. ret (res\<lparr>rr_pulumi := counted\<rparr>, s, None))))"

end
