(* ===== verification/App.thy ===== *)
theory App
  imports RunControl
begin

text \<open>
  internal/app: the run of a reconcile, the cancel command and the directories of internal/paths.
  What is not under src/ or only shows progress is an argument: the reconcile (the Pulumi engine,
  whose settled outcome is \<open>settle_run\<close>), the log file, the stack that \<open>cancel\<close> asks Pulumi for.
  A run answers with the exit code of the process; errors that the code only logs are dropped.
\<close>

section \<open>Paths\<close>

record Paths =
  HeatParamsFile :: string
  ResultFile :: string
  LogFile :: string
  StateFile :: string
  RunStateFile :: string
  StateBackupDir :: string
  PulumiStateDir :: string
  PulumiBackend :: string
  PulumiBackupDir :: string

definition envOrDefault :: "(string \<Rightarrow> string) \<Rightarrow> string \<Rightarrow> string \<Rightarrow> string" where
  "envOrDefault getenv key fallback = (if getenv key \<noteq> [] then getenv key else fallback)"

definition LoadFromEnv :: "(string \<Rightarrow> string) \<Rightarrow> Paths" where
  "LoadFromEnv env = \<lparr>
     HeatParamsFile = envOrDefault env ''MAGNUM_RECONCILE_HEAT_PARAMS_FILE'' ''/etc/sysconfig/heat-params'',
     ResultFile = envOrDefault env ''MAGNUM_RECONCILE_RESULT_FILE'' ''/var/lib/magnum/reconciler-last-run.json'',
     LogFile = envOrDefault env ''MAGNUM_RECONCILE_LOG_FILE'' ''/var/log/magnum-reconcile.log'',
     StateFile = envOrDefault env ''MAGNUM_RECONCILE_STATE_FILE'' ''/var/lib/magnum/reconciler-state.json'',
     RunStateFile = envOrDefault env ''MAGNUM_RECONCILE_RUN_STATE_FILE'' ''/var/lib/magnum/reconciler-run.json'',
     StateBackupDir = envOrDefault env ''MAGNUM_RECONCILE_STATE_BACKUP_DIR'' ''/var/lib/magnum/reconciler-state-backups'',
     PulumiStateDir = envOrDefault env ''MAGNUM_PULUMI_BACKEND_DIR'' ''/var/lib/magnum/pulumi'',
     PulumiBackend = envOrDefault env ''MAGNUM_PULUMI_BACKEND_URL'' ''file:///var/lib/magnum/pulumi'',
     PulumiBackupDir = envOrDefault env ''MAGNUM_PULUMI_BACKUP_DIR'' ''/var/lib/magnum/pulumi-backups''\<rparr>"

definition EnsureDirs :: "Paths \<Rightarrow> ('z os_scheme, unit) io" where
  "EnsureDirs p = for_each [dirname (ResultFile p), dirname (LogFile p), dirname (StateFile p), dirname (RunStateFile p),
     StateBackupDir p, PulumiStateDir p, PulumiBackupDir p] (\<lambda>d. mkdir_all d o755)"

section \<open>A run\<close>

record runFlags =
  fl_partial :: bool
  fl_target :: string
  fl_backend :: string
  fl_heat :: string
  fl_periodic :: bool

text \<open>What a run is given: the paths of the environment, the release of the binary, the checksum of
  the parameters, the processes, the log, and how the deadline prints.\<close>

record 'w app_env =
  ae_paths :: Paths
  ae_build :: string
  ae_sha :: "string \<Rightarrow> string"
  ae_alive :: "int \<Rightarrow> bool"
  ae_pid :: int
  ae_log :: "('w, unit) io"
  ae_timeout :: string

text \<open>The outcome of a reconcile: result, state, error, and whether the deadline has passed.\<close>

type_synonym 'w reconcile = "Config \<Rightarrow> Paths \<Rightarrow> Plan \<Rightarrow> Request \<Rightarrow> 'w \<Rightarrow> (RunResult \<times> State \<times> err option \<times> bool) \<times> 'w"

definition total :: "('w \<Rightarrow> 'a \<times> 'w) \<Rightarrow> ('w, 'a) io" where
  "total m w = (case m w of (x, w') \<Rightarrow> (Inr x, w'))"

definition nodeCACertPath :: string where "nodeCACertPath = ''/etc/kubernetes/certs/ca.crt''"

definition exists_path :: "string \<Rightarrow> ('z os_scheme, bool) io" where
  "exists_path p = attempt (stat p) (\<lambda>r. ret (case r of Inl e \<Rightarrow> \<not> is_not_exist e | Inr _ \<Rightarrow> True))"

definition newNode :: "string \<Rightarrow> string \<Rightarrow> ('z os_scheme, bool) io" where
  "newNode stateFile ca = andthen (exists_path stateFile) (\<lambda>a. if a then ret False else andthen (exists_path ca) (\<lambda>b. ret (\<not> b)))"

definition writeFailure :: "string \<Rightarrow> string \<Rightarrow> string \<Rightarrow> ('z os_scheme, int) io" where
  "writeFailure path step smry = attempt (Write_result path (zero_result\<lparr>rr_status := ''failed'', rr_step := step, rr_summary := smry,
     rr_reason := smry, rr_code := ''bootstrap_error''\<rparr>)) (\<lambda>_. ret 1)"

definition with_applied :: "string \<Rightarrow> Config \<Rightarrow> Config" where
  "with_applied rid cfg = cfg\<lparr>Trigger := (Trigger cfg)\<lparr>AppliedCARotationID := rid\<rparr>\<rparr>"

text \<open>The rotation that counts as applied: that of the state, the one the node has finalized, or on a
  node without a past the one it was created after.\<close>

definition settle_rotation :: "string \<Rightarrow> Paths \<Rightarrow> State \<Rightarrow> Config \<Rightarrow> ('z os_scheme, Config) io" where
  "settle_rotation mode p previous cfg0 = (let rid = CARotationID (Trigger cfg0); cfg1 = with_applied (sf_rotation previous) cfg0 in
     andthen (Finalized rid) (\<lambda>fin. let cfg2 = (if fin then with_applied rid cfg1 else cfg1) in
     if Operation cfg2 \<noteq> OperationCARotate then ret cfg2
     else andthen (newNode (StateFile p) nodeCACertPath) (\<lambda>new.
       if \<not> new then ret cfg2
       else attempt (if mode \<noteq> ''preview'' then WriteMarker rid else ret ()) (\<lambda>_. ret (with_applied rid cfg2)))))"

definition limited_plan :: "string \<Rightarrow> Config \<Rightarrow> string + Plan" where
  "limited_plan target cfg = (if target = [] then Inr (Build cfg) else case LimitRunToPhase target (Build cfg) of
     (p, True) \<Rightarrow> Inr p
   | (_, False) \<Rightarrow> Inl (''unknown --target phase '' @ go_quote target @ ''; valid phases: '' @ join '', '' (PhaseIDs (Build cfg))))"

definition request_of :: "string \<Rightarrow> runFlags \<Rightarrow> State \<Rightarrow> Request" where
  "request_of mode f previous = \<lparr>rq_apply = (mode \<noteq> ''preview''), rq_partial = fl_partial f,
     PreviousSuccessfulGeneration = sf_successful previous, PreviousKubeTag = sf_kube_tag previous,
     PreviousCARotationID = sf_rotation previous, Periodic = fl_periodic f\<rparr>"

definition timed_out :: "string \<Rightarrow> string \<Rightarrow> RunResult \<Rightarrow> err \<Rightarrow> RunResult \<times> err" where
  "timed_out mode timeout r e = (let msg = ''reconcile exceeded timeout '' @ timeout @ '': '' @ err_text e;
       r = (if rr_step r = [] then r\<lparr>rr_step := mode @ ''-timeout''\<rparr> else r);
       r = (if rr_summary r = [] then r\<lparr>rr_summary := msg, rr_reason := msg\<rparr> else r)
     in (if rr_code r = [] then r\<lparr>rr_code := ''timeout''\<rparr> else r, Err msg))"

definition named_failure :: "string \<Rightarrow> RunResult \<Rightarrow> err \<Rightarrow> RunResult" where
  "named_failure mode r e = (let
       r = (if rr_step r = [] then r\<lparr>rr_step := mode\<rparr> else r);
       r = (if rr_summary r = [] then r\<lparr>rr_summary := err_text e, rr_reason := err_text e\<rparr> else r)
     in if rr_status r = [] then r\<lparr>rr_status := ''failed''\<rparr> else r)"

definition finish_failed :: "string \<Rightarrow> string \<Rightarrow> Paths \<Rightarrow> RunResult \<Rightarrow> err \<Rightarrow> bool \<Rightarrow> ('z os_scheme, int) io" where
  "finish_failed mode timeout p r0 e0 late = (case (if late then timed_out mode timeout r0 e0 else (r0, e0)) of (r, e) \<Rightarrow>
     attempt (MarkFailed (RunStateFile p) mode (err_text e)) (\<lambda>_.
     attempt (Write_result (ResultFile p) (Normalize (named_failure mode r e))) (\<lambda>_. ret 1)))"

definition note_warning :: "string \<Rightarrow> unit result \<Rightarrow> RunResult \<Rightarrow> RunResult" where
  "note_warning what x r = (case x of Inl e \<Rightarrow> r\<lparr>rr_warnings := rr_warnings r @ [what @ err_text e]\<rparr> | Inr _ \<Rightarrow> r)"

definition finish_converged :: "string \<Rightarrow> Paths \<Rightarrow> RunResult \<Rightarrow> State \<Rightarrow> ('z os_scheme, int) io" where
  "finish_converged mode p r st = attempt (if mode \<noteq> ''preview'' then Write_saved (StateFile p) st else ret ()) (\<lambda>x.
     let r = note_warning ''failed to persist reconciler state: '' x r in
     attempt (MarkCompleted (RunStateFile p) mode (rr_summary r)) (\<lambda>y.
     let r = note_warning ''failed to persist completion state: '' y r in
     attempt (Write_result (ResultFile p) (Normalize r)) (\<lambda>z. ret (case z of Inl _ \<Rightarrow> 1 | Inr _ \<Rightarrow> 0))))"

definition previous_state :: "string \<Rightarrow> ('z os_scheme, State) io" where
  "previous_state path = attempt (Load_saved path) (\<lambda>r. ret (case r of Inl _ \<Rightarrow> zero_saved | Inr s \<Rightarrow> s))"

definition reconcile_planned :: "'z os_scheme app_env \<Rightarrow> string \<Rightarrow> runFlags \<Rightarrow> 'z os_scheme reconcile \<Rightarrow> Paths \<Rightarrow> State \<Rightarrow> Config \<Rightarrow> Plan
    \<Rightarrow> ('z os_scheme, int) io" where
  "reconcile_planned env mode f rec p previous cfg plan =
     attempt (RecoverInterrupted (ae_alive env) (RunStateFile p)) (\<lambda>x. case x of
       Inl e \<Rightarrow> writeFailure (ResultFile p) ''journal'' (''failed to recover interrupted run state: '' @ err_text e)
     | Inr _ \<Rightarrow> attempt (MarkRunning (ae_pid env) (RunStateFile p) mode (InstanceName (Shared cfg)) (Role cfg) (Operation cfg) (PhaseIDs plan)) (\<lambda>y.
       case y of Inl e \<Rightarrow> writeFailure (ResultFile p) ''journal'' (''failed to record running state: '' @ err_text e)
     | Inr _ \<Rightarrow> andthen (total (rec cfg p plan (request_of mode f previous))) (\<lambda>(r, st, failed, late). case failed of
         Some e \<Rightarrow> finish_failed mode (ae_timeout env) p r e late
       | None \<Rightarrow> finish_converged mode p r st)))"

definition app_run :: "'z os_scheme app_env \<Rightarrow> string \<Rightarrow> runFlags \<Rightarrow> 'z os_scheme reconcile \<Rightarrow> ('z os_scheme, int) io" where
  "app_run env mode f rec = (let p = ae_paths env;
       p = (if fl_backend f \<noteq> [] then p\<lparr>PulumiBackend := fl_backend f\<rparr> else p);
       p = (if fl_heat f \<noteq> [] then p\<lparr>HeatParamsFile := fl_heat f\<rparr> else p) in
     attempt (EnsureDirs p) (\<lambda>d. case d of Inl _ \<Rightarrow> ret 1 | Inr _ \<Rightarrow>
     attempt (ae_log env) (\<lambda>l. case l of Inl e \<Rightarrow> writeFailure (ResultFile p) ''logging'' (''failed to initialize reconciler log: '' @ err_text e)
     | Inr _ \<Rightarrow> attempt (Load (ae_sha env) (HeatParamsFile p)) (\<lambda>c. case c of
       Inl e \<Rightarrow> writeFailure (ResultFile p) ''input'' (''failed to load heat params: '' @ err_text e)
     | Inr cfg0 \<Rightarrow> andthen (previous_state (StateFile p)) (\<lambda>previous. andthen (settle_rotation mode p previous cfg0) (\<lambda>cfg.
       case limited_plan (fl_target f) cfg of Inl msg \<Rightarrow> writeFailure (ResultFile p) ''input'' msg
     | Inr plan \<Rightarrow> reconcile_planned env mode f rec p previous cfg plan))))))"

section \<open>Cancelling\<close>

definition isNoRunningUpdateError :: "err \<Rightarrow> bool" where
  "isNoRunningUpdateError e = (let msg = to_lower (err_text e) in list_ex (contains msg)
     [''no update is currently running'', ''no update in progress'', ''no stack update in progress'', ''no in-progress update''])"

definition resolveCancelStackName :: "string \<Rightarrow> 'z os_scheme app_env \<Rightarrow> Paths \<Rightarrow> ('z os_scheme, string) io" where
  "resolveCancelStackName name env p = (if trim_space name \<noteq> [] then ret (trim_space name)
     else andthen (wrapping (''failed to load heat params from '' @ HeatParamsFile p) (Load (ae_sha env) (HeatParamsFile p))) (\<lambda>c. ret (StackName c)))"

text \<open>\<open>select\<close> finds the stack and \<open>stop\<close> cancels its update.\<close>

definition app_cancel :: "'z os_scheme app_env \<Rightarrow> string \<Rightarrow> string \<Rightarrow> (string \<Rightarrow> ('z os_scheme, 's) io) \<Rightarrow> ('s \<Rightarrow> ('z os_scheme, unit) io)
    \<Rightarrow> ('z os_scheme, int) io" where
  "app_cancel env name heat select stop = (let p = (if heat \<noteq> [] then (ae_paths env)\<lparr>HeatParamsFile := heat\<rparr> else ae_paths env);
       recover = ignoring (RecoverInterrupted (ae_alive env) (RunStateFile p)) in
     attempt (ae_log env) (\<lambda>l. case l of Inl _ \<Rightarrow> ret 1 | Inr _ \<Rightarrow>
     attempt (resolveCancelStackName name env p) (\<lambda>n. case n of Inl _ \<Rightarrow> ret 1 | Inr stack \<Rightarrow>
     attempt (select stack) (\<lambda>s. case s of Inl _ \<Rightarrow> ret 1 | Inr st \<Rightarrow>
     attempt (stop st) (\<lambda>x. case x of
       Inr _ \<Rightarrow> andthen recover (\<lambda>_. ret 0)
     | Inl e \<Rightarrow> if isNoRunningUpdateError e then andthen recover (\<lambda>_. ret 0) else ret 1)))))"

end
