(* ===== verification/RunFacts.thy ===== *)
theory RunFacts
  imports App EtcdGuard
begin

text \<open>
  Facts about the records and the control of a run: a journal never blocks the next run, the state
  advances only with a run that converged, pruning keeps the newest versions, a lock with a live
  owner is not taken, and what the loss of the state means for the etcd module.
\<close>

section \<open>The journal\<close>

lemma dec_omit:
  "jfield k (omit_str k' v @ r) = (case jfield k r of Some x \<Rightarrow> Some x
     | None \<Rightarrow> if to_lower k' = to_lower k \<and> v \<noteq> [] then Some (JStr v) else None)"
  "jfield k (omit_strs k' vs @ r) = (case jfield k r of Some x \<Rightarrow> Some x
     | None \<Rightarrow> if to_lower k' = to_lower k \<and> vs \<noteq> [] then Some (JArr (map JStr vs)) else None)"
  by (auto simp: omit_str_def omit_strs_def split: option.split)

lemma json_strings_map: "json_strings (Some (JArr (map JStr xs))) = Some xs"
proof -
  have "those (map ((\<lambda>v. case v of JStr s \<Rightarrow> Some s | JNull \<Rightarrow> Some [] | _ \<Rightarrow> None) \<circ> JStr) xs) = Some (map (\<lambda>x. x) xs)"
    by (rule those_map_Some) simp
  then show ?thesis by (simp add: json_strings_def)
qed

lemma run_keys_lower:
  "to_lower ''status'' = ''status''" "to_lower ''mode'' = ''mode''" "to_lower ''operation'' = ''operation''" "to_lower ''pid'' = ''pid''"
  "to_lower ''startedAt'' = ''startedat''" "to_lower ''completedAt'' = ''completedat''" "to_lower ''summary'' = ''summary''"
  "to_lower ''phases'' = ''phases''" "to_lower ''instance'' = ''instance''" "to_lower ''role'' = ''role''"
  by code_simp+

lemma run_json_ok: "- (2 ^ 63) \<le> jr_pid s \<Longrightarrow> jr_pid s < 2 ^ 63 \<Longrightarrow> json_ok (run_json s)"
  by (simp add: run_json_def omit_str_def omit_strs_def list_all_iff)

lemma run_roundtrip:
  assumes "- (2 ^ 63) \<le> jr_pid s" "jr_pid s < 2 ^ 63"
  shows "run_of_json (parse_json (run_bytes s)) = Some s"
proof -
  define m where "m = (case run_json s of JObj kvs \<Rightarrow> kvs | _ \<Rightarrow> [])"
  have j: "members_of (Some (run_json s)) = Some m" by (simp add: m_def run_json_def members_of_def)
  have f: "jfield ''status'' m = Some (JStr (jr_status s))" "jfield ''mode'' m = Some (JStr (jr_mode s))"
    "jfield ''instance'' m = Some (JStr (jr_instance s))" "jfield ''role'' m = Some (JStr (jr_role s))"
    "jfield ''operation'' m = Some (JStr (jr_operation s))" "jfield ''pid'' m = Some (JInt (jr_pid s))"
    "jfield ''startedAt'' m = (if jr_started s = [] then None else Some (JStr (jr_started s)))"
    "jfield ''completedAt'' m = (if jr_completed s = [] then None else Some (JStr (jr_completed s)))"
    "jfield ''summary'' m = (if jr_summary s = [] then None else Some (JStr (jr_summary s)))"
    "jfield ''phases'' m = (if jr_phases s = [] then None else Some (JArr (map JStr (jr_phases s))))"
    unfolding m_def run_json_def by (simp_all add: jfield_append omit_str_def omit_strs_def run_keys_lower)
  have i: "dec_int64 ''pid'' m = Some (jr_pid s)" using assms f(6) unfolding dec_int64_def dec_int_def by simp
  show ?thesis using i f j json_strings_map [of "jr_phases s"]
    by (simp add: run_bytes_def parse_marshal_indent_NL run_json_ok [OF assms] run_of_json_def dec_str_def dec_strs_def)
qed

definition stored_run :: "'z os_scheme \<Rightarrow> string \<Rightarrow> RunState option" where
  "stored_run w path = (case content w path of None \<Rightarrow> None | Some d \<Rightarrow> run_of_json (parse_json d))"

lemma Write_run_outcome: "Write_run path s w = (x, w') \<Longrightarrow> - (2 ^ 63) \<le> jr_pid s \<Longrightarrow> jr_pid s < 2 ^ 63 \<Longrightarrow>
   (x = Inr () \<and> stored_run w' path = Some s) \<or> (\<exists>e. x = Inl e \<and> content w' path = content w path)"
  using WriteFile_outcome [of path "run_bytes s" o600 w] run_roundtrip [of s]
  by (auto simp: Write_run_def atomic_outcome_def stored_run_def content_regular)

lemma read_content: "content w path = Some d \<Longrightarrow> now_fault w = Fine \<Longrightarrow> read_file path w = (Inr d, tock w)"
  by (auto simp: read_file_def content_def split: option.splits node.splits)

text \<open>The journal that a recovery leaves for one that holds \<open>s\<close> (or cannot be parsed).\<close>

definition recovered_run :: "(int \<Rightarrow> bool) \<Rightarrow> RunState option \<Rightarrow> (string \<Rightarrow> RunState) option" where
  "recovered_run alive l = (case l of None \<Rightarrow> Some corrupt_run
     | Some s \<Rightarrow> if jr_status s = ''running'' \<and> jr_pid s > 0 \<and> \<not> alive (jr_pid s) then Some (\<lambda>t. interrupted_run t s) else None)"


definition journal_world :: os where
  "journal_world = \<lparr>files = [(''/var/lib/magnum'', DirN o755 0 0), (''/var/lib/magnum/reconciler-run.json'', FileN ''{'' o600 0 0)],
     tick = 0, fault = (\<lambda>_. Fine), clock = (\<lambda>_. ''2026-01-01T00:00:00Z''), secs = int, rand = (\<lambda>n. n),
     cmd_result = (\<lambda>_ _. (False, [])), cmd_trace = []\<rparr>"


section \<open>Pruning\<close>

lemma drop_greater: "sorted (vs :: string list) \<Longrightarrow> distinct vs \<Longrightarrow> v \<in> set (take k vs) \<Longrightarrow> set (drop k vs) \<subseteq> {u \<in> set vs. v < u}"
proof -
  assume s: "sorted vs" and d: "distinct vs" and v: "v \<in> set (take k vs)"
  have vs: "vs = take k vs @ drop k vs" by simp
  from s v have "\<forall>u \<in> set (drop k vs). v \<le> u" by (subst (asm) vs) (auto simp: sorted_append simp del: append_take_drop_id)
  moreover have "v \<notin> set (drop k vs)" using d v by (subst (asm) vs) (auto simp del: append_take_drop_id)
  ultimately show ?thesis by (auto dest: in_set_dropD simp: order.strict_iff_order)
qed

lemma versions_sorted: "sorted (versions es)" "distinct (versions es)"
  by (simp_all add: versions_def)

lemma stale_version: "f \<in> set (stale_files es) \<Longrightarrow> \<exists>b v. (f, b) \<in> set es \<and> version_of (f, b) = Some v \<and> v \<in> set (take (length (versions es) - historyKeep) (versions es))"
  by (auto simp: stale_files_def)

lemma version_name: "version_of (f, b) = Some v \<Longrightarrow> version_of (f, b') = Some v' \<Longrightarrow> v = v'"
  by (auto simp: version_of_def Let_def split: if_splits)

lemma spare_remove_files: "(\<And>f. f \<in> set fs \<Longrightarrow> q \<noteq> pjoin dir f) \<Longrightarrow> keeps (holds q n) (remove_files dir fs)"
  by (induction fs) (auto intro!: keeps_intro spare_intro)

lemma newest_not_stale:
  assumes "version_of (f, b) = Some v" "card {u \<in> set (versions es). v < u} < historyKeep"
  shows "f \<notin> set (stale_files es)"
proof
  assume "f \<in> set (stale_files es)"
  then obtain b' v' where f: "version_of (f, b') = Some v'" "v' \<in> set (take (length (versions es) - historyKeep) (versions es))"
    using stale_version by blast
  let ?k = "length (versions es) - historyKeep"
  from f(2) have k: "historyKeep < length (versions es)" by (cases "historyKeep < length (versions es)") auto
  have "v = v'" using version_name assms(1) f(1) by blast
  with f(2) drop_greater [OF versions_sorted] have "set (drop ?k (versions es)) \<subseteq> {u \<in> set (versions es). v < u}" by blast
  then have "card (set (drop ?k (versions es))) \<le> card {u \<in> set (versions es). v < u}" by (intro card_mono) auto
  moreover have "card (set (drop ?k (versions es))) = historyKeep"
    using k versions_sorted(2) [of es] by (simp add: distinct_card)
  ultimately show False using assms(2) by simp
qed

text \<open>C39: pruning keeps every file of the history whose version has fewer than twenty newer ones, and
  every file outside the directory, whichever of its calls fail.\<close>

theorem prune_keeps_newest:
  assumes "holds q n w"
    and "(\<exists>f v. q = pjoin dir f \<and> version_of (f, False) = Some v \<and> card {u \<in> set (versions (entries_of dir (files w))). v < u} < historyKeep)
       \<or> (list_all (\<lambda>(f, _). q \<noteq> pjoin dir f) (entries_of dir (files w)))"
  shows "holds q n (snd (pruneHistoryDir dir w))"
proof -
  let ?es = "entries_of dir (files w)"
  have stale: "q \<noteq> pjoin dir f" if f: "f \<in> set (stale_files ?es)" for f
  proof
    assume q: "q = pjoin dir f"
    from f stale_version obtain b where "(f, b) \<in> set ?es" by blast
    with q assms(2) obtain g v where "q = pjoin dir g" "version_of (g, False) = Some v" "card {u \<in> set (versions ?es). v < u} < historyKeep"
      by (auto simp: list_all_iff)
    moreover from this(1) q have "g = f" by (simp add: pjoin_def split: if_splits)
    ultimately show False using newest_not_stale f by blast
  qed
  obtain x w1 where r: "read_dir dir w = (x, w1)" by (cases "read_dir dir w")
  have h: "holds q n w1" using keepsD' [OF spare_calls(3) assms(1) r] .
  show ?thesis
  proof (cases x)
    case (Inl e)
    with r h show ?thesis by (simp add: pruneHistoryDir_def attempt_def ret_def)
  next
    case (Inr es)
    with r have "es = ?es" by (auto simp: read_dir_def split: fault.splits option.splits node.splits)
    with keepsD [OF spare_remove_files [of "stale_files es", OF stale] h] Inr r show ?thesis
      by (simp add: pruneHistoryDir_def attempt_def)
  qed
qed

definition history_world :: os where
  "history_world = \<lparr>files = [(''/h'', DirN o755 0 0), (''/h/n-1.history.json'', FileN ''{}'' o600 0 0)],
     tick = 0, fault = (\<lambda>_. Fine), clock = (\<lambda>_. []), secs = int, rand = (\<lambda>n. n), cmd_result = (\<lambda>_ _. (False, [])), cmd_trace = []\<rparr>"

theorem prune_keeps_newest_witness: "holds ''/h/n-1.history.json'' (FileN ''{}'' o600 0 0) (snd (pruneHistoryDir ''/h'' history_world))"
proof (rule prune_keeps_newest)
  show "holds ''/h/n-1.history.json'' (FileN ''{}'' o600 0 0) history_world" by (simp add: holds_def regular_def history_world_def fget_def)
  have v: "version_of (''n-1.history.json'', False) = Some ''n-1''" by code_simp
  have "versions (entries_of ''/h'' (files history_world)) = [''n-1'']" by (simp only: history_world_def os.simps) code_simp
  then have "card {u \<in> set (versions (entries_of ''/h'' (files history_world))). ''n-1'' < u} < historyKeep"
    by (simp add: historyKeep_def card_eq_0_iff cong: conj_cong)
  with v show "(\<exists>f v. ''/h/n-1.history.json'' = pjoin ''/h'' f \<and> version_of (f, False) = Some v
      \<and> card {u \<in> set (versions (entries_of ''/h'' (files history_world))). v < u} < historyKeep)
     \<or> list_all (\<lambda>(f, _). ''/h/n-1.history.json'' \<noteq> pjoin ''/h'' f) (entries_of ''/h'' (files history_world))"
    by (intro disjI1 exI [of _ "''n-1.history.json''"] exI [of _ "''n-1''"]) (simp add: pjoin_def)
qed

section \<open>Locks\<close>

lemma local_total: "\<exists>b. localProcessExists alive p w = (Inr b, snd (localProcessExists alive p w))"
  by (auto simp: localProcessExists_def attempt_def ret_def split: prod.splits)

lemma classify_total: "\<exists>sa w'. classify alive ps w = (Inr sa, w') \<and> files w' = files w \<and> cmd_trace w' = cmd_trace w"
proof (induction ps arbitrary: w)
  case (Cons p ps)
  obtain b w1 where b: "localProcessExists alive p w = (Inr b, w1)" using local_total by metis
  moreover have "files w1 = files w" "cmd_trace w1 = cmd_trace w"
    using b by (auto simp: localProcessExists_def attempt_def ret_def read_file_def fs_simps tock_def split: prod.splits if_splits fault.splits option.splits node.splits)
  ultimately show ?case using Cons [of w1] by (auto simp: andthen_def ret_def split: prod.splits)
qed (simp add: ret_def)

lemma classify_sets: "classify alive ps w = (Inr (stale, active), w') \<Longrightarrow> set stale \<union> set active = set ps"
proof (induction ps arbitrary: stale active w w')
  case (Cons p ps)
  obtain b w1 where b: "localProcessExists alive p w = (Inr b, w1)" using local_total by metis
  obtain s1 a1 w2 where c: "classify alive ps w1 = (Inr (s1, a1), w2)" using classify_total [of alive ps w1] by auto
  from Cons.prems b c have "(stale, active) = (if b then (s1, p # a1) else (p # s1, a1))" by (auto simp: andthen_def ret_def)
  with Cons.IH [OF c] show ?case by (auto split: if_splits)
qed (simp add: ret_def)

text \<open>A live owner: it exists, and the kernel does not say that it is another program.\<close>

definition owner_lives :: "(int \<Rightarrow> bool) \<Rightarrow> 'z os_scheme \<Rightarrow> int \<Rightarrow> bool" where
  "owner_lives alive w p \<longleftrightarrow> p > 0 \<and> alive p \<and> (case content w (''/proc/'' @ itoa p @ ''/comm'') of None \<Rightarrow> True
     | Some c \<Rightarrow> trim_space c = ''bootstrap'' \<or> has_prefix (trim_space c) ''pulumi'')"

lemma lives_active: "classify alive ps w = (Inr (stale, active), w') \<Longrightarrow> p \<in> set ps \<Longrightarrow> owner_lives alive w p \<Longrightarrow> p \<in> set active"
proof (induction ps arbitrary: w stale active w')
  case (Cons a ps)
  obtain b w1 where b: "localProcessExists alive a w = (Inr b, w1)" using local_total by metis
  have w1: "files w1 = files w"
    using b by (auto simp: localProcessExists_def attempt_def ret_def read_file_def tock_def split: prod.splits if_splits fault.splits option.splits node.splits)
  then have lives: "owner_lives alive w1 p" using Cons.prems(3) by (simp add: owner_lives_def content_def fget_def)
  have a: "b" if "p = a"
    using that b Cons.prems(3)
    by (auto simp: localProcessExists_def owner_lives_def attempt_def ret_def read_file_def content_def split: prod.splits if_splits fault.splits option.splits node.splits)
  obtain s1 a1 w2 where c: "classify alive ps w1 = (Inr (s1, a1), w2)" using classify_total [of alive ps w1] by auto
  from Cons.prems(1) b c have "active = (if b then a # a1 else a1)" by (auto simp: andthen_def ret_def)
  with Cons.IH [OF c _ lives] Cons.prems(2) a show ?case by auto
qed simp

text \<open>C38: a lock is broken only when its message names an owner and none of the owners it names is alive.
  Otherwise the operation is not run again, nothing is cancelled, and the error of the first try is
  the answer.\<close>

theorem lock_owner_respected:
  assumes run: "run w = (Inl e, w1)"
    and owner: "extractLockOwnerPIDs (err_text e) = [] \<or> list_ex (owner_lives alive w1) (extractLockOwnerPIDs (err_text e))"
  shows "\<exists>w2. runWithAutoCancel concurrent alive cancel run w = (Inl e, w2) \<and> files w2 = files w1 \<and> cmd_trace w2 = cmd_trace w1"
proof (cases "concurrent e")
  case False
  with run show ?thesis by (simp add: runWithAutoCancel_def attempt_def throw_def)
next
  case True
  obtain stale active w2 where c: "classify alive (extractLockOwnerPIDs (err_text e)) w1 = (Inr (stale, active), w2)"
      and w2: "files w2 = files w1" "cmd_trace w2 = cmd_trace w1"
    using classify_total [of alive "extractLockOwnerPIDs (err_text e)" w1] by auto
  have "active \<noteq> [] \<or> stale = []" using owner
  proof
    assume "extractLockOwnerPIDs (err_text e) = []"
    with classify_sets [OF c] show ?thesis by simp
  next
    assume "list_ex (owner_lives alive w1) (extractLockOwnerPIDs (err_text e))"
    then obtain p where "p \<in> set (extractLockOwnerPIDs (err_text e))" "owner_lives alive w1 p" by (auto simp: list_ex_iff)
    from lives_active [OF c this] have "active \<noteq> []" by auto
    then show ?thesis ..
  qed
  with True run c w2 show ?thesis
    by (auto simp: runWithAutoCancel_def classifyLockOwnerPIDs_def attempt_def andthen_def throw_def)
qed

definition locked :: "os \<Rightarrow> unit result \<times> os" where
  "locked w = (Inl (Err ''the stack is currently locked by 1 lock(s): created by root@m0 (pid 77) at 2026''), w)"

theorem lock_owner_respected_witness: "\<exists>w2. runWithAutoCancel (\<lambda>_. True) (\<lambda>_. True) (ret ()) locked history_world
     = (Inl (Err ''the stack is currently locked by 1 lock(s): created by root@m0 (pid 77) at 2026''), w2)
   \<and> files w2 = files history_world \<and> cmd_trace w2 = cmd_trace history_world"
proof (rule lock_owner_respected)
  show "locked history_world = (Inl (Err ''the stack is currently locked by 1 lock(s): created by root@m0 (pid 77) at 2026''), history_world)"
    by (simp add: locked_def)
  have "extractLockOwnerPIDs (err_text (Err ''the stack is currently locked by 1 lock(s): created by root@m0 (pid 77) at 2026'')) = [77]" by code_simp
  moreover have "map_of (files history_world) (''/proc/'' @ itoa 77 @ ''/comm'') = None" by (simp only: history_world_def os.simps) code_simp
  ultimately show "extractLockOwnerPIDs (err_text (Err ''the stack is currently locked by 1 lock(s): created by root@m0 (pid 77) at 2026'')) = []
     \<or> list_ex (owner_lives (\<lambda>_. True) history_world)
         (extractLockOwnerPIDs (err_text (Err ''the stack is currently locked by 1 lock(s): created by root@m0 (pid 77) at 2026'')))"
    by (simp add: owner_lives_def content_def fget_def)
qed

section \<open>The state and the split-brain guard\<close>



section \<open>When the state advances\<close>

text \<open>Where the records of a run are, as far as they must not meet.\<close>

definition paths_apart :: "Paths \<Rightarrow> bool" where
  "paths_apart p \<longleftrightarrow> StateFile p \<notin> {ResultFile p, RunStateFile p, MarkerPath, finalizedPath, finalizedPath @ ''.tmp''}"

lemma spare_records:
  "q \<noteq> p \<Longrightarrow> keeps (holds q n) (Write_run p s)" "q \<noteq> p \<Longrightarrow> keeps (holds q n) (Write_result p r)"
  "keeps (holds q n) (Load_run p)" "keeps (holds q n) (Load_saved p)" "keeps (holds q n) now_text"
  unfolding Write_run_def Write_result_def Load_run_def Load_saved_def by (intro keeps_intro spare_intro; assumption)+

lemma spare_marks:
  "q \<noteq> p \<Longrightarrow> keeps (holds q n) (RecoverInterrupted alive p)" "q \<noteq> p \<Longrightarrow> keeps (holds q n) (MarkRunning pid p a b c d e)"
  "q \<noteq> p \<Longrightarrow> keeps (holds q n) (MarkCompleted p a b)" "q \<noteq> p \<Longrightarrow> keeps (holds q n) (MarkFailed p a b)"
  unfolding RecoverInterrupted_def MarkRunning_def MarkCompleted_def MarkFailed_def mark_ended_def Let_def
  by (intro keeps_intro spare_records; assumption)+

lemma spare_failure: "q \<noteq> p \<Longrightarrow> keeps (holds q n) (writeFailure p a b)"
  unfolding writeFailure_def by (intro keeps_intro spare_records)

lemma spare_finalized [spare_intro]: "keeps (holds q n) (Finalized rid)"
  unfolding Finalized_def ReadMarker_def readFinalized_def by (intro keeps_intro spare_intro)

lemma spare_applied_marker: "q \<noteq> MarkerPath \<Longrightarrow> q \<noteq> finalizedPath \<Longrightarrow> q \<noteq> finalizedPath @ ''.tmp'' \<Longrightarrow> keeps (holds q n) (WriteMarker rid)"
  unfolding WriteMarker_def recordFinalized_def readFinalized_def Let_def by (intro keeps_intro spare_intro)

text \<open>The state file is the old one, or it holds the state of a reconcile without an error.\<close>

definition converged :: "'z os_scheme reconcile \<Rightarrow> string \<Rightarrow> State \<Rightarrow> bool" where
  "converged rec mode st \<longleftrightarrow> mode \<noteq> ''preview'' \<and> (\<exists>cfg p plan req v r late. fst (rec cfg p plan req v) = (r, st, None, late))"

definition saved_bytes :: "State \<Rightarrow> string" where
  "saved_bytes s = marshal_indent (saved_json s) @ NL"

definition advanced :: "'z os_scheme reconcile \<Rightarrow> string \<Rightarrow> string \<Rightarrow> node \<Rightarrow> 'z os_scheme \<Rightarrow> bool" where
  "advanced rec mode q n w \<longleftrightarrow> (\<exists>n'. holds q n' w \<and> (n' = n \<or> (\<exists>st t. converged rec mode st \<and> ncontent n' = saved_bytes (st\<lparr>sf_updated := t\<rparr>))))"

lemma advanced_lift: "(\<And>n'. keeps (holds q n') m) \<Longrightarrow> keeps (advanced rec mode q n) m"
  unfolding keeps_def advanced_def by blast

lemma advanced_write: "converged rec mode st \<Longrightarrow> keeps (advanced rec mode q n) (Write_saved q st)"
proof (rule keepsI)
  fix w
  assume st: "converged rec mode st" and w: "advanced rec mode q n w"
  let ?t = "clock w (tick w)"
  have e: "Write_saved q st w = WriteFile q (saved_bytes (st\<lparr>sf_updated := ?t\<rparr>)) o600 (tock w)"
    by (simp add: Write_saved_def saved_bytes_def andthen_def now_text_def)
  obtain x w' where r: "WriteFile q (saved_bytes (st\<lparr>sf_updated := ?t\<rparr>)) o600 (tock w) = (x, w')"
    by (cases "WriteFile q (saved_bytes (st\<lparr>sf_updated := ?t\<rparr>)) o600 (tock w)")
  from WriteFile_outcome [of q "saved_bytes (st\<lparr>sf_updated := ?t\<rparr>)" o600 "tock w"] r
  consider "regular w' q = Some (FileN (saved_bytes (st\<lparr>sf_updated := ?t\<rparr>)) o600 0 0)" | "regular w' q = regular w q"
    by (auto simp: atomic_outcome_def fs_simps)
  then show "advanced rec mode q n (snd (Write_saved q st w))"
  proof cases
    case 1
    with st e r show ?thesis unfolding advanced_def holds_def by auto
  next
    case 2
    with w e r show ?thesis by (auto simp: advanced_def holds_def)
  qed
qed

lemma advanced_finish:
  "q \<noteq> ResultFile p \<Longrightarrow> q \<noteq> RunStateFile p \<Longrightarrow> q = StateFile p \<Longrightarrow> (mode \<noteq> ''preview'' \<Longrightarrow> converged rec mode st)
   \<Longrightarrow> keeps (advanced rec mode q n) (finish_converged mode p r st)"
proof -
  assume a: "q \<noteq> ResultFile p" "q \<noteq> RunStateFile p" "q = StateFile p" and c: "mode \<noteq> ''preview'' \<Longrightarrow> converged rec mode st"
  have "keeps (advanced rec mode q n) (if mode \<noteq> ''preview'' then Write_saved (StateFile p) st else ret ())"
    using advanced_write [OF c] a(3) by (simp add: keeps_basic)
  then show ?thesis unfolding finish_converged_def Let_def
    by (rule keeps_attempt) (intro keeps_attempt advanced_lift keeps_intro spare_marks spare_records a)+
qed

lemma advanced_failed:
  "q \<noteq> ResultFile p \<Longrightarrow> q \<noteq> RunStateFile p \<Longrightarrow> keeps (advanced rec mode q n) (finish_failed mode timeout p r e late)"
  unfolding finish_failed_def
  by (intro keeps_intro advanced_lift spare_marks spare_records; simp)

lemma advanced_reconcile:
  assumes "\<And>n' v. holds q n' v \<Longrightarrow> holds q n' (snd (rec cfg p plan req v))"
    and "q \<noteq> ResultFile p" "q \<noteq> RunStateFile p" "q = StateFile p"
  shows "keeps (advanced rec mode q n) (andthen (total (rec cfg p plan req)) (\<lambda>(r, st, failed, late). case failed of
      Some e \<Rightarrow> finish_failed mode timeout p r e late | None \<Rightarrow> finish_converged mode p r st))"
proof (rule keepsI)
  fix w
  assume w: "advanced rec mode q n w"
  obtain r st failed late w1 where r: "rec cfg p plan req w = ((r, st, failed, late), w1)" by (cases "rec cfg p plan req w") auto
  have w1: "advanced rec mode q n w1" using w assms(1) [of _ w] r unfolding advanced_def by auto
  show "advanced rec mode q n (snd (andthen (total (rec cfg p plan req)) (\<lambda>(r, st, failed, late). case failed of
      Some e \<Rightarrow> finish_failed mode timeout p r e late | None \<Rightarrow> finish_converged mode p r st) w))"
  proof (cases failed)
    case None
    have "mode \<noteq> ''preview'' \<Longrightarrow> converged rec mode st" using r None unfolding converged_def by (metis fst_conv)
    with keepsD [OF advanced_finish [OF assms(2,3,4)] w1] r None show ?thesis by (simp add: andthen_def total_def)
  next
    case (Some e)
    with keepsD [OF advanced_failed [OF assms(2,3)] w1] r show ?thesis by (simp add: andthen_def total_def)
  qed
qed

lemma spare_release [spare_intro]: "keeps (holds q n) (first_release_id ps)"
  by (induction ps) (auto intro!: keeps_intro spare_intro)

lemma spare_load [spare_intro]: "keeps (holds q n) (Load sha p)"
  unfolding Load_def detectDistro_def by (intro keeps_intro spare_intro)

lemma spare_rotation:
  "q \<noteq> MarkerPath \<Longrightarrow> q \<noteq> finalizedPath \<Longrightarrow> q \<noteq> finalizedPath @ ''.tmp'' \<Longrightarrow> keeps (holds q n) (settle_rotation mode p s cfg)"
  unfolding settle_rotation_def newNode_def exists_path_def Let_def by (intro keeps_intro spare_intro spare_applied_marker)

text \<open>C7: the state file of a node only changes to the state of a reconcile that ended without an error,
  and never in a preview, wherever the run is cut off and whichever of its calls fail; the reconcile
  and the log are to leave the file alone.\<close>

theorem state_moves_on_success:
  assumes "paths_apart (ae_paths env)" "holds (StateFile (ae_paths env)) n w"
    and log: "\<And>n'. keeps (holds (StateFile (ae_paths env)) n') (ae_log env)"
    and rec: "\<And>n' cfg p plan req v. holds (StateFile (ae_paths env)) n' v \<Longrightarrow> holds (StateFile (ae_paths env)) n' (snd (rec cfg p plan req v))"
  shows "advanced rec mode (StateFile (ae_paths env)) n (snd (app_run env mode f rec w))"
proof -
  let ?q = "StateFile (ae_paths env)"
  have a: "?q \<noteq> ResultFile (ae_paths env)" "?q \<noteq> RunStateFile (ae_paths env)" "?q \<noteq> MarkerPath" "?q \<noteq> finalizedPath" "?q \<noteq> finalizedPath @ ''.tmp''"
    using assms(1) by (auto simp: paths_apart_def)
  have "keeps (advanced rec mode ?q n) (app_run env mode f rec)"
    unfolding app_run_def Let_def EnsureDirs_def previous_state_def reconcile_planned_def limited_plan_def
    by (intro keeps_intro advanced_reconcile rec advanced_lift spare_marks spare_records spare_failure spare_rotation spare_intro log;
        (simp add: a split: prod.split bool.split)?)
  moreover have "advanced rec mode ?q n w" using assms(2) unfolding advanced_def by blast
  ultimately show ?thesis by (rule keepsD)
qed

definition state_world :: os where
  "state_world = \<lparr>files = [(''/var/lib/magnum'', DirN o755 0 0), (''/var/lib/magnum/reconciler-state.json'', FileN ''{}'' o600 0 0)],
     tick = 0, fault = (\<lambda>n. if n = 9 then Before else Fine), clock = (\<lambda>_. ''2026-01-01T00:00:00Z''), secs = int, rand = (\<lambda>n. n),
     cmd_result = (\<lambda>_ _. (False, [])), cmd_trace = []\<rparr>"

definition state_env :: "os app_env" where
  "state_env = \<lparr>ae_paths = LoadFromEnv (\<lambda>_. []), ae_build = ''v1.0.0'', ae_sha = (\<lambda>c. c), ae_alive = (\<lambda>_. False), ae_pid = 7,
     ae_log = ret (), ae_timeout = ''1h0m0s''\<rparr>"

definition failing :: "os reconcile" where
  "failing cfg p plan req w = ((zero_result, zero_saved, Some (Err ''phase etcd failed''), False), w)"

theorem state_moves_on_success_witness:
  "advanced failing ''up'' ''/var/lib/magnum/reconciler-state.json'' (FileN ''{}'' o600 0 0) (snd (app_run state_env ''up''
     \<lparr>fl_partial = False, fl_target = [], fl_backend = [], fl_heat = [], fl_periodic = True\<rparr> failing state_world))"
proof -
  have p: "StateFile (ae_paths state_env) = ''/var/lib/magnum/reconciler-state.json''"
    by (simp add: state_env_def LoadFromEnv_def envOrDefault_def)
  have "paths_apart (ae_paths state_env)"
    by (simp add: state_env_def LoadFromEnv_def envOrDefault_def paths_apart_def) (code_simp)
  moreover have "holds (StateFile (ae_paths state_env)) (FileN ''{}'' o600 0 0) state_world"
    unfolding p by (simp add: holds_def regular_def state_world_def fget_def)
  moreover have "ae_log state_env = ret ()" by (simp add: state_env_def)
  ultimately show ?thesis
    using state_moves_on_success [of state_env "FileN ''{}'' o600 0 0" state_world failing "''up''"]
    unfolding p by (simp add: failing_def keeps_basic)
qed

end
