(* ===== verification/Spec2Isabelle.thy ===== *)
theory Spec2Isabelle
  imports CaState CaCoord TrustBundle HostOps HostRes Config SaKeys Certs Scheduler CaTrust EtcdEvict EtcdFacts RunFacts
begin

text \<open>
  Verification development for magnum-bootstrap, the program that turns a virtual machine into a
  node of a Kubernetes cluster and keeps it one. This is a shallow embedding of the Go code under
  src/internal: functions are HOL functions of the same name, structs are records, and code that
  acts on the machine is a state transformer.

  The program and its parts. A run (\<open>app_run\<close>: internal/app) reads the parameters of the node,
  recovers the journal of an earlier run, builds a plan of phases, and gives it to a reconcile. The
  phases run in parallel as far as their dependencies allow; each is a module that brings one aspect
  of the host to its desired state and reports what it changed. Two modules act on the whole
  cluster: ca-rotation replaces the certificate authority through phases agreed in a ConfigMap, and
  etcd joins, leaves and repairs the cluster of the data store. A run ends by writing its result,
  its journal and, when nothing failed, its state, which the next run starts from.

  Conventions.
    \<^item> \<open>Prelude\<close> has errors as values (\<open>err\<close>, \<open>result\<close>), the sequencing of Go code (\<open>andthen\<close> is
      "if err != nil, return err", \<open>attempt\<close> looks at the error, \<open>deferring\<close> is defer), strings and
      the conversions of strconv, and the two predicates the proofs rest on: \<open>keeps P m\<close> (whatever
      \<open>m\<close> does, it keeps \<open>P\<close>) and \<open>frames v m\<close>, with one rule for each construct, so that a
      preservation proof follows the program text. \<open>Runs\<close> has the same for code that may not return.
    \<^item> \<open>Fs\<close> is the machine: a record \<open>os\<close> with a file tree, a clock, the answers of commands and their
      trace, and a plan of faults. At every tick a call can fail before it acts, after, or in the
      middle of a write; a plan in which everything fails from some tick on is a crash. A theorem
      over all worlds is therefore a theorem over all failures and crashes. Calls made one after
      another by goroutines are one sequence.
    \<^item> \<open>Json\<close>, \<open>Base64\<close>, \<open>GoText\<close>, \<open>TimeText\<close>, \<open>IpText\<close> are the library functions the code calls on
      texts: encoding/json with its round trip, base64, the quoting of strconv, RFC 3339, net/netip.
      Text is a list of bytes; letters beyond ASCII are not folded and not trimmed. In messages a
      long dash of the source is a hyphen.

  Which theory models what.
    \<^item> internal/carotation: \<open>CaPhase\<close> (phase.go), \<open>CaState\<close> (state.go: marker, history, state file,
      registry of retired keys), \<open>Kube\<close> (the API server as the client sees it, with conflicts and
      other clients between any two calls) and \<open>CaCoord\<close> (coord.go: participants, barrier, lease,
      hold).
    \<^item> internal/module/ca-rotation: \<open>FsTree\<close> and \<open>CaFiles\<close> (staging and the files of each phase),
      \<open>CaProtocol\<close> (restarts, health, the protocol, the hard path, Run), \<open>CaTrust\<close> (its theorems).
    \<^item> internal/certutil and internal/magnum: \<open>TrustBundle\<close> (pubkeys.go), \<open>Certs\<close> (certutil.go),
      \<open>Magnum\<close> (the certificate API client and local signing), \<open>SaKeys\<close> (master-certs/sakeys.go).
    \<^item> internal/host and internal/hostresource: \<open>HostOps\<close> (the executor), \<open>HostRes\<close> (files, lines,
      directories, copies, downloads, units), \<open>HostFrame\<close> (what they leave alone, and waiting).
    \<^item> internal/config and the tables of internal/module: \<open>Config\<close>, \<open>NodeMeta\<close>, \<open>VersionMap\<close>.
    \<^item> internal/moduleapi, internal/plan, internal/pulumi: \<open>Phases\<close> (requests, retries, plan,
      registry) and \<open>Scheduler\<close> (the graph of phases as a step relation and as a loop, the
      accumulator of results).
    \<^item> internal/module/admin-kubeconfig and kubecommon: \<open>AdminConf\<close>.
    \<^item> internal/module/etcd-config: \<open>EtcdText\<close> (tags, URLs, member rows, configuration), \<open>EtcdOps\<close>
      (the operations), \<open>EtcdRun\<close> (Run and Destroy), and the theorems \<open>EtcdSafe\<close>, \<open>EtcdGuard\<close>,
      \<open>EtcdEvict\<close>, \<open>EtcdFacts\<close>.
    \<^item> internal/journal, internal/state, internal/result: \<open>RunRecord\<close>; internal/reconcile in part:
      \<open>RunControl\<close>; internal/app and internal/paths: \<open>App\<close>; their theorems: \<open>RunFacts\<close>.

  What the groups of lemmas show.
    \<^item> Rotation: the barrier only opens when every participant has reached the phase, the desired
      phase never goes back, at most one master restarts at a time, an undisturbed rotation goes on
      and a worker always comes back; no serving certificate changes before the barrier after
      prepare, and the old trust anchor is kept until finalize, whatever fails.
    \<^item> Durable state: atomic writes, exact round trips, bounded histories that do not forget, and the
      places where they can (a read error of the history).
    \<^item> Etcd: a node that has a write-ahead log keeps its data, no second cluster is started on a node
      that converged before, a member is evicted only on the evidence of six failed probes, an
      upgrade moves by one minor version. Evidence is an answer of a command at a tick of the run.
    \<^item> Keys and certificates: convergence of verify keys withdraws none and adopts no retired one,
      bundles keep the newest distinct certificates, a certificate is kept exactly when it is right.
    \<^item> Host: operations converge, report no change exactly when there is none, and leave other files
      alone.
    \<^item> Scheduling: width, order and at-most-once at every moment of every schedule, and every plan
      comes to its end.
    \<^item> Records: a journal never blocks the next run, the state moves only with a run that converged, a
      lock with a live owner is respected, pruning keeps the newest versions.

  Locales. The contracts that clients rely on are locales, each interpreted on the definitions of the
  code: \<open>stage_order\<close> (the order of phases, \<open>CaPhase\<close>), \<open>bounded_log\<close> (a history that is pushed to
  and looked up, \<open>CaState\<close>), \<open>exclusive_lock\<close> (acquire and release of a lease, \<open>CaCoord\<close>),
  \<open>newest_first\<close> (bundles that are merged and capped, \<open>TrustBundle\<close>) and \<open>provider_resource\<close> (observe,
  diff and apply of a host resource, \<open>HostRes\<close>).

  Bounds and fuel. Loops with a bound in the code keep it: five attempts of a certificate request,
  twelve of a member add, forty of a promotion, three of an etcdctl call, sixty of a device or a seed,
  sixty polls of a new member. A loop that the code bounds by time only is a run with fuel (\<open>barrier_loop\<close>,
  \<open>acquire_loop\<close>, \<open>active_loop\<close>, \<open>owner_loop\<close>): no answer within the fuel is the value \<open>None\<close>. Where the
  code promises to return, enough fuel is shown to give an answer (\<open>worker_barrier_returns\<close>); the
  safety theorems speak of every run that returns and, through the fault plan, of every prefix of
  it. The scheduler's loop has as much fuel as there are phases, which is enough (\<open>plan_completes\<close>);
  \<open>pem_blocks\<close> and the JSON reader have as much as the text is long, and each call takes some of it.

  Parameters. The API server's other clients, the wire of HTTP, X.509, PEM and key generation,
  SHA-256, the answers of commands, process ids and the Pulumi engine are arguments; what is assumed of
  them stands in the hypotheses of the theorem that needs it, and its witness gives an instance.

  Not modelled. The registration of resources with the Pulumi engine (every Register function, and
  src/provider, which repeats the host resources behind its API); the engine itself and the recovery
  passes over Helm releases of internal/reconcile and cluster-helm, whose decisions are taken on
  texts of other programs; the addon modules, which render charts and manifests; modules that write
  a fixed set of files and units through the operations modelled here (container-runtime, storage,
  kube-master-config, kube-worker-config, services and the like), beyond the dependencies they
  declare; logging, the rendering of events and the command line; src/e2e and the tests.
\<close>

end
